(* ===== verification/Prelude.thy ===== *)
theory Prelude
  imports Main "HOL-Library.List_Lexorder" "HOL-Library.Char_ord" "HOL-Library.Multiset"
begin

text \<open>
  What the components share.  A Go string is a sequence of bytes and is modelled as a
  \<^typ>\<open>string\<close> (a list of 8-bit characters); \<^theory_text>\<open>List_Lexorder\<close> and \<^theory_text>\<open>Char_ord\<close> give it Go's
  byte-wise order.  The theory holds the part of Go's packages \<open>strings\<close> and \<open>strconv\<close> the
  program uses, with the lemmas the components need, and generic facts on lists and on
  association lists (the model of Go maps: the list order is one iteration order).
\<close>

text \<open>A computation that returns, or ends in a panic.\<close>

datatype 'a outcome = Returns 'a | Panics

section \<open>Bytes and decimal numbers\<close>

definition byte :: "char \<Rightarrow> nat" where
  "byte c = of_char c"

definition chr :: "nat \<Rightarrow> char" where
  "chr n = char_of n"

lemma byte_less_256 [simp]: "byte c < 256"
  by (simp add: byte_def)

lemma chr_byte [simp]: "chr (byte c) = c"
  by (simp add: byte_def chr_def)

lemma byte_chr [simp]: "n < 256 \<Longrightarrow> byte (chr n) = n"
  by (simp add: byte_def chr_def)

lemma byte_inject [simp]: "byte c = byte d \<longleftrightarrow> c = d"
  by (metis chr_byte)

definition digit :: "nat \<Rightarrow> char" where
  "digit d = chr (48 + d)"

definition is_digit :: "char \<Rightarrow> bool" where
  "is_digit c \<longleftrightarrow> 48 \<le> byte c \<and> byte c \<le> 57"

lemma byte_digit [simp]: "d < 10 \<Longrightarrow> byte (digit d) = 48 + d"
  by (simp add: digit_def)

lemma is_digit_digit [simp]: "d < 10 \<Longrightarrow> is_digit (digit d)"
  by (simp add: is_digit_def)

text \<open>\<open>strconv.Itoa\<close> and \<open>%d\<close>, and the value of a digit string.\<close>

function dec_str :: "int \<Rightarrow> string" where
  "dec_str n = (if n < 10 then [digit (nat n)] else dec_str (n div 10) @ [digit (nat (n mod 10))])"
  by pat_completeness auto
termination
  by (relation "measure nat") auto

declare dec_str.simps [simp del]

definition str_dec :: "string \<Rightarrow> int" where
  "str_dec s = foldl (\<lambda>a c. a * 10 + int (byte c - 48)) 0 s"

lemma str_dec_snoc: "str_dec (s @ [c]) = str_dec s * 10 + int (byte c - 48)"
  by (simp add: str_dec_def)

lemma str_dec_nonneg [simp]: "0 \<le> str_dec s"
  by (induction s rule: rev_induct) (simp_all add: str_dec_snoc, simp add: str_dec_def)

lemma str_dec_dec_str [simp]: "0 \<le> n \<Longrightarrow> str_dec (dec_str n) = n"
proof (induction n rule: dec_str.induct)
  case (1 n)
  show ?case
  proof (cases "n < 10")
    case True
    with "1.prems" show ?thesis by (subst dec_str.simps) (simp add: str_dec_def)
  next
    case False
    with 1 show ?thesis by (subst dec_str.simps) (simp add: str_dec_snoc)
  qed
qed

lemma dec_str_inject: "0 \<le> m \<Longrightarrow> 0 \<le> n \<Longrightarrow> dec_str m = dec_str n \<longleftrightarrow> m = n"
  by (metis str_dec_dec_str)

lemma dec_str_nonempty [simp]: "dec_str n \<noteq> []"
  by (subst dec_str.simps) simp

lemma dec_str_digits: "c \<in> set (dec_str n) \<Longrightarrow> is_digit c"
proof (induction n rule: dec_str.induct)
  case (1 n)
  show ?case
  proof (cases "n < 10")
    case True
    then have "nat n < 10" by simp
    with 1 True show ?thesis by (simp add: dec_str.simps [of n])
  next
    case False
    then have "nat (n mod 10) < 10" by simp
    with 1 False show ?thesis by (auto simp: dec_str.simps [of n])
  qed
qed

lemma dec_str_hd_zero: "hd (dec_str n) = digit 0 \<Longrightarrow> n \<le> 0"
proof (induction n rule: dec_str.induct)
  case (1 n)
  show ?case
  proof (cases "n < 10")
    case True
    with 1 have "byte (digit (nat n)) = byte (digit 0)" by (simp add: dec_str.simps [of n])
    with True show ?thesis by (cases "n < 0") auto
  next
    case False
    with 1 have "n div 10 \<le> 0" by (simp add: dec_str.simps [of n] hd_append)
    with False show ?thesis by simp
  qed
qed

definition nat_str :: "nat \<Rightarrow> string" where
  "nat_str n = dec_str (int n)"

lemma nat_str_inject [simp]: "nat_str m = nat_str n \<longleftrightarrow> m = n"
  by (simp add: nat_str_def dec_str_inject)

definition int_str :: "int \<Rightarrow> string" where
  "int_str i = (if i < 0 then CHR ''-'' # dec_str (- i) else dec_str i)"

lemma minus_not_digit [simp]: "\<not> is_digit (CHR ''-'')"
  by (simp add: is_digit_def byte_def)

lemma minus_notin_dec_str [simp]: "CHR ''-'' # s \<noteq> dec_str n" "dec_str n \<noteq> CHR ''-'' # s"
proof -
  show "dec_str n \<noteq> CHR ''-'' # s"
    by (metis list.set_intros(1) minus_not_digit dec_str_digits)
  then show "CHR ''-'' # s \<noteq> dec_str n" by metis
qed

lemma int_str_inject [simp]: "int_str i = int_str j \<longleftrightarrow> i = j"
  by (auto simp: int_str_def dec_str_inject split: if_splits)

section \<open>Package strings\<close>

text \<open>\<open>strings.Split(s, sep)\<close> for a one-byte separator.\<close>

fun split_on :: "char \<Rightarrow> string \<Rightarrow> string list" where
  "split_on d [] = [[]]"
| "split_on d (c # s) =
     (if c = d then [] # split_on d s
      else (case split_on d s of [] \<Rightarrow> [[c]] | w # ws \<Rightarrow> (c # w) # ws))"

text \<open>\<open>strings.Join(xs, sep)\<close>.\<close>

fun join_with :: "'a list \<Rightarrow> 'a list list \<Rightarrow> 'a list" where
  "join_with sep [] = []"
| "join_with sep [x] = x"
| "join_with sep (x # y # ys) = x @ sep @ join_with sep (y # ys)"

lemma split_on_nonempty [simp]: "split_on d s \<noteq> []"
  by (induction s) (auto split: list.splits)

lemma join_with_Cons: "ws \<noteq> [] \<Longrightarrow> join_with sep (w # ws) = w @ sep @ join_with sep ws"
  by (cases ws) auto

lemma join_split: "join_with [d] (split_on d s) = s"
proof (induction s)
  case Nil
  then show ?case by simp
next
  case (Cons c s)
  then show ?case
  proof (cases "c = d")
    case True
    with Cons show ?thesis by (simp add: join_with_Cons)
  next
    case False
    obtain w ws where w: "split_on d s = w # ws" by (cases "split_on d s") auto
    with False Cons show ?thesis by (cases ws) auto
  qed
qed

lemma split_on_no_sep: "d \<notin> set s \<Longrightarrow> split_on d s = [s]"
  by (induction s) auto

lemma split_on_append: "d \<notin> set w \<Longrightarrow> split_on d (w @ d # s) = w # split_on d s"
  by (induction w) auto

lemma split_join:
  "ws \<noteq> [] \<Longrightarrow> \<forall>w \<in> set ws. d \<notin> set w \<Longrightarrow> split_on d (join_with [d] ws) = ws"
  by (induction "[d]" ws rule: join_with.induct) (auto simp: split_on_no_sep split_on_append)

text \<open>\<open>strings.Cut(s, sep)\<close>: before and after the first separator, if there is one.\<close>

fun cut_at :: "char \<Rightarrow> string \<Rightarrow> (string \<times> string) option" where
  "cut_at d [] = None"
| "cut_at d (c # s) =
     (if c = d then Some ([], s)
      else (case cut_at d s of None \<Rightarrow> None | Some (a, b) \<Rightarrow> Some (c # a, b)))"

lemma cut_at_append: "d \<notin> set a \<Longrightarrow> cut_at d (a @ d # b) = Some (a, b)"
  by (induction a) auto

lemma cut_at_None: "cut_at d s = None \<longleftrightarrow> d \<notin> set s"
  by (induction s) (auto split: option.splits)

lemma cut_at_SomeD: "cut_at d s = Some (a, b) \<Longrightarrow> s = a @ d # b \<and> d \<notin> set a"
proof (induction s arbitrary: a)
  case Nil
  then show ?case by simp
next
  case (Cons c s)
  show ?case
  proof (cases "c = d")
    case True
    with Cons.prems show ?thesis by simp
  next
    case False
    with Cons.prems obtain a' where "cut_at d s = Some (a', b)" and "a = c # a'"
      by (auto split: option.splits)
    with Cons.IH False show ?thesis by simp
  qed
qed

text \<open>What follows the last separator: \<open>if i := strings.LastIndex(s, d); i >= 0\<close> then
  \<open>s[i+1:]\<close>, else \<open>s\<close>.\<close>

definition after_last :: "char \<Rightarrow> string \<Rightarrow> string" where
  "after_last d s = rev (takeWhile (\<lambda>c. c \<noteq> d) (rev s))"

lemma takeWhile_no: "d \<notin> set xs \<Longrightarrow> takeWhile (\<lambda>c. c \<noteq> d) xs = xs"
  by (simp add: takeWhile_eq_all_conv) (metis)

lemma after_last_no: "d \<notin> set s \<Longrightarrow> after_last d s = s"
  by (simp add: after_last_def takeWhile_no)

lemma after_last_append: "d \<notin> set t \<Longrightarrow> after_last d (s @ d # t) = t"
  by (simp add: after_last_def takeWhile_append takeWhile_no)

lemma after_last_notin: "d \<notin> set (after_last d s)"
  by (auto simp: after_last_def dest: set_takeWhileD)

definition has_prefix :: "string \<Rightarrow> string \<Rightarrow> bool" where
  "has_prefix s p \<longleftrightarrow> take (length p) s = p"

definition has_suffix :: "string \<Rightarrow> string \<Rightarrow> bool" where
  "has_suffix s p \<longleftrightarrow> length p \<le> length s \<and> drop (length s - length p) s = p"

definition trim_suffix :: "string \<Rightarrow> string \<Rightarrow> string" where
  "trim_suffix s p = (if has_suffix s p then take (length s - length p) s else s)"

lemma has_suffix_append [simp]: "has_suffix (s @ p) p"
  by (simp add: has_suffix_def)

lemma has_suffix_iff: "has_suffix s p \<longleftrightarrow> (\<exists>t. s = t @ p)"
  by (metis append_take_drop_id has_suffix_append has_suffix_def)

lemma has_prefix_iff: "has_prefix s p \<longleftrightarrow> (\<exists>t. s = p @ t)"
  by (metis append_eq_conv_conj has_prefix_def append_take_drop_id)

lemma trim_suffix_append [simp]: "trim_suffix (s @ p) p = s"
  by (simp add: trim_suffix_def)

text \<open>\<open>strings.TrimRight(s, d)\<close> for a one-byte cutset.\<close>

definition trim_right :: "char \<Rightarrow> string \<Rightarrow> string" where
  "trim_right d s = rev (dropWhile (\<lambda>c. c = d) (rev s))"

lemma trim_right_last: "trim_right d s \<noteq> [] \<Longrightarrow> last (trim_right d s) \<noteq> d"
  using hd_dropWhile [of "\<lambda>c. c = d" "rev s"] by (auto simp: trim_right_def last_rev)

lemma trim_right_idem: "trim_right d (trim_right d s) = trim_right d s"
  by (simp add: trim_right_def)

text \<open>\<open>strings.ToLower\<close> and \<open>strings.ToUpper\<close> on ASCII; the bytes of other characters are kept
  (the program applies them to methods, header names and file extensions).\<close>

definition lower_char :: "char \<Rightarrow> char" where
  "lower_char c = (if 65 \<le> byte c \<and> byte c \<le> 90 then chr (byte c + 32) else c)"

definition upper_char :: "char \<Rightarrow> char" where
  "upper_char c = (if 97 \<le> byte c \<and> byte c \<le> 122 then chr (byte c - 32) else c)"

definition to_lower :: "string \<Rightarrow> string" where
  "to_lower s = map lower_char s"

definition to_upper :: "string \<Rightarrow> string" where
  "to_upper s = map upper_char s"

lemma lower_char_idem [simp]: "lower_char (lower_char c) = lower_char c"
  by (auto simp: lower_char_def)

lemma upper_char_idem [simp]: "upper_char (upper_char c) = upper_char c"
  by (auto simp: upper_char_def)

lemma to_lower_idem [simp]: "to_lower (to_lower s) = to_lower s"
  by (simp add: to_lower_def comp_def)

lemma to_upper_idem [simp]: "to_upper (to_upper s) = to_upper s"
  by (simp add: to_upper_def comp_def)

text \<open>\<open>strings.Contains(s, p)\<close> and \<open>strings.Index\<close>: what follows the first occurrence.\<close>

fun after_first :: "string \<Rightarrow> string \<Rightarrow> string option" where
  "after_first p s =
     (if take (length p) s = p then Some (drop (length p) s)
      else (case s of [] \<Rightarrow> None | c # s' \<Rightarrow> after_first p s'))"

declare after_first.simps [simp del]

definition str_contains :: "string \<Rightarrow> string \<Rightarrow> bool" where
  "str_contains s p \<longleftrightarrow> after_first p s \<noteq> None"

text \<open>\<open>strings.TrimSpace\<close> on ASCII white space.\<close>

definition is_space :: "char \<Rightarrow> bool" where
  "is_space c \<longleftrightarrow> byte c = 32 \<or> (9 \<le> byte c \<and> byte c \<le> 13)"

definition trim_space :: "string \<Rightarrow> string" where
  "trim_space s = rev (dropWhile is_space (rev (dropWhile is_space s)))"

section \<open>Association lists as Go maps\<close>

definition keys :: "('k \<times> 'v) list \<Rightarrow> 'k list" where
  "keys kvs = map fst kvs"

text \<open>The keys of a map collected into a slice and sorted (\<open>sort.Strings\<close>).\<close>

definition sorted_keys :: "(string \<times> 'v) list \<Rightarrow> string list" where
  "sorted_keys kvs = sort (remdups (keys kvs))"

lemma sorted_keys_set [simp]: "set (sorted_keys kvs) = fst ` set kvs"
  by (simp add: sorted_keys_def keys_def)

lemma sorted_keys_sorted [simp]: "sorted (sorted_keys kvs)" "distinct (sorted_keys kvs)"
  by (simp_all add: sorted_keys_def)

text \<open>\<open>m[k] = v\<close> on an association list: the entry is replaced where it is, or added.\<close>

fun map_set :: "'k \<Rightarrow> 'v \<Rightarrow> ('k \<times> 'v) list \<Rightarrow> ('k \<times> 'v) list" where
  "map_set k v [] = [(k, v)]"
| "map_set k v ((k', v') # kvs) = (if k' = k then (k, v) # kvs else (k', v') # map_set k v kvs)"

lemma map_of_map_set [simp]: "map_of (map_set k v kvs) = (map_of kvs)(k \<mapsto> v)"
  by (induction kvs) (auto simp: fun_eq_iff)

lemma keys_map_set: "fst ` set (map_set k v kvs) = insert k (fst ` set kvs)"
  by (induction k v kvs rule: map_set.induct) (simp_all add: insert_commute)

lemma distinct_map_set: "distinct (keys kvs) \<Longrightarrow> distinct (keys (map_set k v kvs))"
  by (induction kvs) (auto simp: keys_def keys_map_set)

lemma map_of_eqI_distinct:
  "distinct (keys kvs) \<Longrightarrow> (k, v) \<in> set kvs \<Longrightarrow> map_of kvs k = Some v"
  by (simp add: keys_def)

section \<open>Sorting\<close>

text \<open>
  \<open>sort.SliceStable\<close> with a comparison on a key is \<^const>\<open>sort_key\<close>.  \<open>sort.Slice\<close> promises only
  some permutation sorted by the key; where the program uses it, lemmas about the result are
  stated for every such permutation (\<open>sorted_perm\<close>), and the executable definitions take the stable
  one.
\<close>

definition sorted_perm :: "('a \<Rightarrow> 'k::linorder) \<Rightarrow> 'a list \<Rightarrow> 'a list \<Rightarrow> bool" where
  "sorted_perm f xs ys \<longleftrightarrow> mset ys = mset xs \<and> sorted (map f ys)"

lemma sorted_perm_sort_key: "sorted_perm f xs (sort_key f xs)"
  by (simp add: sorted_perm_def)

lemma sorted_mset_unique:
  "mset xs = mset ys \<Longrightarrow> sorted xs \<Longrightarrow> sorted ys \<Longrightarrow> xs = (ys :: 'a::linorder list)"
  by (metis properties_for_sort)

lemma sorted_perm_keys_unique:
  assumes "sorted_perm f xs ys" and "mset (map f xs) = mset (map g xs')"
    and "sorted_perm g xs' ys'"
  shows "map f ys = map g ys'"
proof (rule sorted_mset_unique)
  show "mset (map f ys) = mset (map g ys')"
    using assms by (simp add: sorted_perm_def)
  show "sorted (map f ys)" and "sorted (map g ys')"
    using assms by (simp_all add: sorted_perm_def)
qed

text \<open>
  The interface of a comparison by key: elements are sorted by \<open>key\<close>, and elements with the same
  key are the \<open>same\<close> for the client.  Then sorting two lists with the same keys pairs up elements
  that are the same, whatever permutation the sort returns.
\<close>

locale sort_identity =
  fixes key :: "'a \<Rightarrow> 'k::linorder"
    and same :: "'a \<Rightarrow> 'a \<Rightarrow> bool"
    and ok :: "'a \<Rightarrow> bool"
  assumes key_same: "ok a \<Longrightarrow> ok b \<Longrightarrow> key a = key b \<Longrightarrow> same a b"
begin

lemma keys_pair_up:
  assumes "map key xs = map key ys" and "\<forall>x \<in> set xs \<union> set ys. ok x"
  shows "list_all2 same xs ys"
proof -
  have "length xs = length ys" using assms(1) by (rule map_eq_imp_length_eq)
  then show ?thesis
    using assms by (auto simp: list_all2_conv_all_nth list_eq_iff_nth_eq intro!: key_same)
qed

lemma sorted_pair_up:
  assumes "sorted_perm key xs xs'" and "sorted_perm key ys ys'"
    and "mset (map key xs) = mset (map key ys)" and "\<forall>x \<in> set xs \<union> set ys. ok x"
  shows "list_all2 same xs' ys'"
proof (rule keys_pair_up)
  show "map key xs' = map key ys'" by (rule sorted_perm_keys_unique [OF assms(1,3,2)])
  have "set xs' = set xs" "set ys' = set ys"
    using assms(1,2) by (metis set_mset_mset sorted_perm_def)+
  with assms(4) show "\<forall>x \<in> set xs' \<union> set ys'. ok x" by simp
qed

end

end
