(* ===== verification/GoValue.thy ===== *)
theory GoValue
  imports Prelude "HOL-Library.Word"
begin

text \<open>
  The dynamic values (Go's \<open>any\<close>) that flow through the differ: what \<open>encoding/json\<close> decodes
  from a body and what the database streams deliver for a column; and \<open>NormValue\<close> of
  \<open>internal/diff/diff.go\<close>, which maps them to comparable primitives.
\<close>

section \<open>IEEE-754 doubles\<close>

text \<open>
  A \<open>float64\<close> is modelled by its value: \<open>FFin m e\<close> is \<open>m * 2 ^ e\<close> with \<open>m\<close> odd, or
  \<open>FFin 0 0\<close> for positive zero.  Integers and rationals are rounded to nearest, ties to
  even, with 53 bits and exponents from \<open>-1074\<close>, as Go's conversions and
  \<open>strconv.ParseFloat\<close> do.
\<close>

datatype f64 = FFin int int | FNegZero | FInf bool | FNaN

fun int_bits :: "int \<Rightarrow> int" where
  "int_bits n = (if n \<le> 0 then 0 else 1 + int_bits (n div 2))"

declare int_bits.simps [simp del]

definition half_even_step :: "int \<Rightarrow> int \<Rightarrow> int \<Rightarrow> int" where
  "half_even_step q r d = (if 2 * r < d \<or> (2 * r = d \<and> even q) then q else q + 1)"

definition round_half_even :: "int \<Rightarrow> int \<Rightarrow> int" where
  "round_half_even n d = half_even_step (n div d) (n mod d) d"

text \<open>\<open>m * 2 ^ e\<close> in the normal form of \<^typ>\<open>f64\<close>, for \<open>0 \<le> m\<close>.\<close>

function strip_twos :: "int \<Rightarrow> int \<Rightarrow> int \<times> int" where
  "strip_twos m e =
     (if m \<le> 0 then (0, 0) else if even m then strip_twos (m div 2) (e + 1) else (m, e))"
  by pat_completeness auto
termination
  by (relation "measure (nat \<circ> fst)") auto

declare strip_twos.simps [simp del]

text \<open>The power of two \<open>k\<close> with \<open>2 ^ k \<le> n / d < 2 ^ (k + 1)\<close>.\<close>

definition ratio_ge_pow2 :: "int \<Rightarrow> int \<Rightarrow> int \<Rightarrow> bool" where
  "ratio_ge_pow2 n d k = (if 0 \<le> k then d * 2 ^ nat k \<le> n else d \<le> n * 2 ^ nat (- k))"

definition log2_step :: "int \<Rightarrow> int \<Rightarrow> int \<Rightarrow> int" where
  "log2_step n d k = (if ratio_ge_pow2 n d k then k else k - 1)"

definition rat_log2 :: "int \<Rightarrow> int \<Rightarrow> int" where
  "rat_log2 n d = log2_step n d (int_bits n - int_bits d)"

definition round_at :: "int \<Rightarrow> int \<Rightarrow> int \<Rightarrow> int \<times> int" where
  "round_at n d e =
     strip_twos (if 0 \<le> e then round_half_even n (d * 2 ^ nat e)
                 else round_half_even (n * 2 ^ nat (- e)) d) e"

fun f64_pack :: "bool \<Rightarrow> int \<times> int \<Rightarrow> f64" where
  "f64_pack neg (m, x) =
     (if m = 0 then (if neg then FNegZero else FFin 0 0)
      else if 1024 < x + int_bits m then FInf neg
      else FFin (if neg then - m else m) x)"

text \<open>The double nearest to \<open>n / d\<close> (\<open>0 \<le> n\<close>, \<open>0 < d\<close>), negated when \<open>neg\<close>.\<close>

definition f64_of_ratio :: "bool \<Rightarrow> int \<Rightarrow> int \<Rightarrow> f64" where
  "f64_of_ratio neg n d =
     (if n = 0 then f64_pack neg (0, 0)
      else f64_pack neg (round_at n d (max (rat_log2 n d - 52) (- 1074))))"

definition f64_of_int :: "int \<Rightarrow> f64" where
  "f64_of_int i = (if i = 0 then FFin 0 0 else f64_of_ratio (i < 0) \<bar>i\<bar> 1)"

text \<open>
  \<open>int64(x)\<close>: truncation towards zero.  For a value out of range (or NaN) the Go
  specification leaves the result to the implementation; the model takes the amd64 one,
  the smallest \<open>int64\<close>.
\<close>

definition int64_of_trunc :: "int \<Rightarrow> 64 word" where
  "int64_of_trunc t =
     (if - (2 ^ 63) \<le> t \<and> t < 2 ^ 63 then word_of_int t else word_of_int (- (2 ^ 63)))"

definition f64_trunc :: "int \<Rightarrow> int \<Rightarrow> int" where
  "f64_trunc m e =
     (if 0 \<le> e then m * 2 ^ nat e else sgn m * (\<bar>m\<bar> div 2 ^ nat (- e)))"

fun f64_to_int64 :: "f64 \<Rightarrow> 64 word" where
  "f64_to_int64 (FFin m e) =
     int64_of_trunc (f64_trunc m e)"
| "f64_to_int64 FNegZero = 0"
| "f64_to_int64 (FInf _) = word_of_int (- (2 ^ 63))"
| "f64_to_int64 FNaN = word_of_int (- (2 ^ 63))"

text \<open>Go's \<open>==\<close> on floats: the two zeros are equal, NaN is not equal to itself.\<close>

fun f64_eq :: "f64 \<Rightarrow> f64 \<Rightarrow> bool" where
  "f64_eq FNaN y = False"
| "f64_eq x FNaN = False"
| "f64_eq FNegZero y = (y = FNegZero \<or> y = FFin 0 0)"
| "f64_eq x FNegZero = (x = FFin 0 0)"
| "f64_eq x y = (x = y)"

section \<open>Values\<close>

text \<open>
  A \<open>decimal.Decimal\<close> (third-party, \<open>shopspring/decimal\<close>) is seen by the program only through
  three results: \<open>x.Equal(x.Truncate(0))\<close>, \<open>x.IntPart()\<close> and \<open>x.Float64()\<close>; it is represented
  by them.  A value of any other Go type (\<open>time.Time\<close>, a \<open>pgtype\<close> value) is \<open>GOpaque\<close> of the
  JSON value its own marshaller writes.  A map is an association list in some iteration order.
  \<open>jval\<close> is JSON abstract syntax; a number is kept as its literal.
\<close>

datatype jval =
    JNull
  | JBool bool
  | JNum string
  | JStr string
  | JArr "jval list"
  | JObj "(string \<times> jval) list"

lemma size_jkv [termination_simp]:
  "(kv :: string \<times> jval) \<in> set kvs \<Longrightarrow> size (snd kv) < Suc (size_list (size_prod (\<lambda>_. 0) size) kvs)"
  by (induction kvs) auto

record dec =
  dec_equal_trunc0 :: bool
  dec_int_part :: "64 word"
  dec_float64 :: f64

datatype gval =
    GNil
  | GBool bool
  | GStr string
  | GBytes string
  | GInt "64 word" | GI8 "8 word" | GI16 "16 word" | GI32 "32 word" | GI64 "64 word"
  | GUint "64 word" | GU8 "8 word" | GU16 "16 word" | GU32 "32 word" | GU64 "64 word"
  | GF32 f64
  | GF64 f64
  | GDec dec
  | GMap "(string \<times> gval) list"
  | GArr "gval list"
  | GOpaque jval

type_synonym row = "(string \<times> gval) list"

lemma size_kv [termination_simp]:
  "kv \<in> set kvs \<Longrightarrow> size (snd kv) < Suc (size_list (size_prod (\<lambda>_. 0) size) kvs)"
  "(k, v) \<in> set kvs \<Longrightarrow> size v < Suc (size_list (size_prod (\<lambda>_. 0) size) kvs)"
  by (induction kvs) auto

lemma size_enum [termination_simp]:
  "(i, v) \<in> set (enumerate n xs) \<Longrightarrow> size v < Suc (size_list size xs)"
proof (induction xs arbitrary: n)
  case Nil
  then show ?case by simp
next
  case (Cons x xs)
  then show ?case using Cons.IH [of "Suc n"] by (auto simp: less_Suc_eq)
qed

lemma size_map_of [termination_simp]:
  "map_of kvs k = Some v \<Longrightarrow> size v < Suc (size_list (size_prod (\<lambda>_. 0) size) kvs)"
  by (drule map_of_SomeD) (rule size_kv)

section \<open>isPrintable and base64\<close>

definition isPrintable :: "string \<Rightarrow> bool" where
  "isPrintable b \<longleftrightarrow> (\<forall>c \<in> set b. \<not> byte c < 9)"

definition base64_char :: "nat \<Rightarrow> char" where
  "base64_char n =
     (if n < 26 then chr (65 + n) else if n < 52 then chr (97 + (n - 26))
      else if n < 62 then chr (48 + (n - 52)) else if n = 62 then CHR ''+'' else CHR ''/'')"

text \<open>\<open>base64.StdEncoding.EncodeToString\<close>: three bytes to four characters, with padding.\<close>

fun base64 :: "string \<Rightarrow> string" where
  "base64 [] = []"
| "base64 [a] =
     (let n = byte a in [base64_char (n div 4), base64_char (n mod 4 * 16), CHR ''='', CHR ''=''])"
| "base64 [a, b] =
     (let m = byte a; n = byte b
      in [base64_char (m div 4), base64_char (m mod 4 * 16 + n div 16),
          base64_char (n mod 16 * 4), CHR ''=''])"
| "base64 (a # b # c # s) =
     (let m = byte a; n = byte b; k = byte c
      in base64_char (m div 4) # base64_char (m mod 4 * 16 + n div 16) #
         base64_char (n mod 16 * 4 + k div 64) # base64_char (k mod 64) # base64 s)"

section \<open>NormValue\<close>

definition NormF64 :: "f64 \<Rightarrow> gval" where
  "NormF64 x =
     (if f64_eq x (f64_of_int (sint (f64_to_int64 x))) then GI64 (f64_to_int64 x) else GF64 x)"

fun NormValue :: "gval \<Rightarrow> gval" where
  "NormValue (GDec d) =
     (if dec_equal_trunc0 d then GI64 (dec_int_part d) else GF64 (dec_float64 d))"
| "NormValue (GBytes b) = (if isPrintable b then GStr b else GStr (base64 b))"
| "NormValue (GF64 x) = NormF64 x"
| "NormValue (GInt w) = GI64 w"
| "NormValue (GI8 w) = GI64 (scast w)"
| "NormValue (GI16 w) = GI64 (scast w)"
| "NormValue (GI32 w) = GI64 (scast w)"
| "NormValue (GUint w) = GI64 w"
| "NormValue (GU8 w) = GI64 (ucast w)"
| "NormValue (GU16 w) = GI64 (ucast w)"
| "NormValue (GU32 w) = GI64 (ucast w)"
| "NormValue (GU64 w) = GI64 w"
| "NormValue (GF32 x) = NormF64 x"
| "NormValue (GMap m) = GMap (map (\<lambda>kv. (fst kv, NormValue (snd kv))) m)"
| "NormValue (GArr xs) = GArr (map NormValue xs)"
| "NormValue v = v"

text \<open>The normalised values: what \<open>NormValue\<close> returns.\<close>

fun is_norm :: "gval \<Rightarrow> bool" where
  "is_norm (GMap m) = (\<forall>kv \<in> set m. is_norm (snd kv))"
| "is_norm (GArr xs) = (\<forall>x \<in> set xs. is_norm x)"
| "is_norm v = (case v of GNil \<Rightarrow> True | GBool _ \<Rightarrow> True | GStr _ \<Rightarrow> True | GI64 _ \<Rightarrow> True
     | GF64 x \<Rightarrow> True | GOpaque _ \<Rightarrow> True | _ \<Rightarrow> False)"

lemma is_norm_NormF64 [simp]: "is_norm (NormF64 x)"
  by (simp add: NormF64_def)

lemma is_norm_NormValue [simp]: "is_norm (NormValue v)"
  by (induction v rule: NormValue.induct) auto

text \<open>A normalised value is left alone, except that an integral \<open>float64\<close> left by a decimal
  becomes an integer.\<close>

fun float_stable :: "gval \<Rightarrow> bool" where
  "float_stable (GDec d) =
     (dec_equal_trunc0 d \<or>
      \<not> f64_eq (dec_float64 d) (f64_of_int (sint (f64_to_int64 (dec_float64 d)))))"
| "float_stable (GMap m) = (\<forall>kv \<in> set m. float_stable (snd kv))"
| "float_stable (GArr xs) = (\<forall>x \<in> set xs. float_stable x)"
| "float_stable v = True"

lemma NormF64_NormValue [simp]: "NormValue (NormF64 x) = NormF64 x"
  by (simp add: NormF64_def)

lemma NormValue_idem: "float_stable v \<Longrightarrow> NormValue (NormValue v) = NormValue v"
  by (induction v rule: NormValue.induct) (auto simp: NormF64_def)

section \<open>Equality up to the order of map entries\<close>

text \<open>The keys of every map are distinct, as in Go.\<close>

fun wf_val :: "gval \<Rightarrow> bool" where
  "wf_val (GMap m) = (distinct (keys m) \<and> (\<forall>kv \<in> set m. wf_val (snd kv)))"
| "wf_val (GArr xs) = (\<forall>x \<in> set xs. wf_val x)"
| "wf_val v = True"

text \<open>The representative with every map sorted by key: two values are equal as Go values when
  their representatives are.\<close>

fun sort_maps :: "gval \<Rightarrow> gval" where
  "sort_maps (GMap m) = GMap (sort_key fst (map (\<lambda>kv. (fst kv, sort_maps (snd kv))) m))"
| "sort_maps (GArr xs) = GArr (map sort_maps xs)"
| "sort_maps v = v"

definition same_val :: "gval \<Rightarrow> gval \<Rightarrow> bool" where
  "same_val a b \<longleftrightarrow> sort_maps a = sort_maps b"

lemma same_val_refl [simp]: "same_val a a"
  by (simp add: same_val_def)

lemma keys_map_snd [simp]: "keys (map (\<lambda>kv. (fst kv, f (snd kv))) m) = keys m"
  by (simp add: keys_def comp_def)

lemma wf_NormValue [simp]: "wf_val v \<Longrightarrow> wf_val (NormValue v)"
  by (induction v rule: NormValue.induct) (auto simp: NormF64_def)

end
