(* ===== verification/JsonString.thy ===== *)
theory JsonString
  imports GoValue
begin

text \<open>
  The string part of \<open>encoding/json\<close>: writing a Go string as a JSON string (HTML escaping,
  repair of ill-formed UTF-8) and reading one back.  A string of well-formed UTF-8 survives the
  round trip (\<open>lex_str_quote\<close>); an ill-formed byte does not.
\<close>

section \<open>UTF-8\<close>

definition is_cont :: "char \<Rightarrow> bool" where
  "is_cont c \<longleftrightarrow> 128 \<le> byte c \<and> byte c \<le> 191"

definition second_lo :: "nat \<Rightarrow> nat" where
  "second_lo x = (if x = 224 then 160 else if x = 240 then 144 else 128)"

definition second_hi :: "nat \<Rightarrow> nat" where
  "second_hi x = (if x = 237 then 159 else if x = 244 then 143 else 191)"

text \<open>The width of the well-formed multi-byte sequence at the head, 0 if there is none
  (\<open>utf8.DecodeRune\<close> then answers \<open>RuneError\<close> of width 1).\<close>

fun utf8_width :: "string \<Rightarrow> nat" where
  "utf8_width [] = 0"
| "utf8_width (a # s) =
     (if 194 \<le> byte a \<and> byte a \<le> 223 then
        (case s of b # _ \<Rightarrow> if is_cont b then 2 else 0 | _ \<Rightarrow> 0)
      else if 224 \<le> byte a \<and> byte a \<le> 239 then
        (case s of b # c # _ \<Rightarrow>
           if second_lo (byte a) \<le> byte b \<and> byte b \<le> second_hi (byte a) \<and> is_cont c then 3 else 0
         | _ \<Rightarrow> 0)
      else if 240 \<le> byte a \<and> byte a \<le> 244 then
        (case s of b # c # d # _ \<Rightarrow>
           if second_lo (byte a) \<le> byte b \<and> byte b \<le> second_hi (byte a) \<and> is_cont c \<and> is_cont d
           then 4 else 0
         | _ \<Rightarrow> 0)
      else 0)"

fun valid_utf8 :: "string \<Rightarrow> bool" where
  "valid_utf8 [] = True"
| "valid_utf8 (c # s) =
     (if byte c < 128 then valid_utf8 s
      else utf8_width (c # s) \<noteq> 0 \<and> valid_utf8 (drop (utf8_width (c # s) - 1) s))"

lemma valid_utf8_plain: "list_all (\<lambda>c. byte c < 128) s \<Longrightarrow> valid_utf8 s"
  by (induction s) simp_all

lemma utf8_lit: "list_all (\<lambda>c. of_char c < (128 :: nat)) s \<Longrightarrow> valid_utf8 s"
  by (rule valid_utf8_plain) (simp add: byte_def)

definition utf8_enc :: "nat \<Rightarrow> string" where
  "utf8_enc n =
     (if n < 128 then [chr n]
      else if n < 2048 then [chr (192 + n div 64), chr (128 + n mod 64)]
      else if n < 65536 then
        [chr (224 + n div 4096), chr (128 + n div 64 mod 64), chr (128 + n mod 64)]
      else [chr (240 + n div 262144), chr (128 + n div 4096 mod 64),
            chr (128 + n div 64 mod 64), chr (128 + n mod 64)])"

definition replacement :: string where
  "replacement = [chr 239, chr 191, chr 189]"

section \<open>Writing strings\<close>

definition hex_digit :: "nat \<Rightarrow> char" where
  "hex_digit n = (if n < 10 then chr (48 + n) else chr (87 + n))"

definition html_safe :: "char \<Rightarrow> bool" where
  "html_safe c \<longleftrightarrow> 32 \<le> byte c \<and> byte c < 128 \<and>
     c \<notin> {CHR 0x22, CHR 0x5C, CHR ''<'', CHR ''>'', CHR ''&''}"

definition escape_char :: "char \<Rightarrow> string" where
  "escape_char c =
     (if c = CHR 0x22 \<or> c = CHR 0x5C then [CHR 0x5C, c]
      else if byte c = 8 then [CHR 0x5C, CHR ''b'']
      else if byte c = 12 then [CHR 0x5C, CHR ''f'']
      else if byte c = 10 then [CHR 0x5C, CHR ''n'']
      else if byte c = 13 then [CHR 0x5C, CHR ''r'']
      else if byte c = 9 then [CHR 0x5C, CHR ''t'']
      else [CHR 0x5C, CHR ''u'', CHR ''0'', CHR ''0'',
            hex_digit (byte c div 16), hex_digit (byte c mod 16)])"

text \<open>U+2028 and U+2029 are escaped too; an ill-formed byte becomes the escape
  \<^verbatim>\<open>\ufffd\<close>.\<close>

definition is_line_sep :: "string \<Rightarrow> bool" where
  "is_line_sep s \<longleftrightarrow>
     take 2 s = [chr 226, chr 128] \<and> (\<exists>c. take 1 (drop 2 s) = [c] \<and> (byte c = 168 \<or> byte c = 169))"

definition line_sep_escape :: "string \<Rightarrow> string" where
  "line_sep_escape s =
     [CHR 0x5C, CHR ''u'', CHR ''2'', CHR ''0'', CHR ''2'', hex_digit (byte (s ! 2) mod 16)]"

definition fffd_escape :: string where
  "fffd_escape = [CHR 0x5C, CHR ''u'', CHR ''f'', CHR ''f'', CHR ''f'', CHR ''d'']"

function quote_chars :: "string \<Rightarrow> string" where
  "quote_chars [] = []"
| "quote_chars (c # s) =
     (if byte c < 128 then (if html_safe c then [c] else escape_char c) @ quote_chars s
      else if utf8_width (c # s) = 0 then fffd_escape @ quote_chars s
      else (if is_line_sep (c # s) then line_sep_escape (c # s)
            else take (utf8_width (c # s)) (c # s))
           @ quote_chars (drop (utf8_width (c # s) - 1) s))"
  by pat_completeness auto
termination
  by (relation "measure length") auto

definition quote_str :: "string \<Rightarrow> string" where
  "quote_str s = CHR 0x22 # quote_chars s @ [CHR 0x22]"

section \<open>Reading strings\<close>

definition hex_val :: "char \<Rightarrow> nat option" where
  "hex_val c =
     (if 48 \<le> byte c \<and> byte c \<le> 57 then Some (byte c - 48)
      else if 97 \<le> byte c \<and> byte c \<le> 102 then Some (byte c - 87)
      else if 65 \<le> byte c \<and> byte c \<le> 70 then Some (byte c - 55) else None)"

definition hex4 :: "char \<Rightarrow> char \<Rightarrow> char \<Rightarrow> char \<Rightarrow> nat option" where
  "hex4 a b c d =
     (case (hex_val a, hex_val b, hex_val c, hex_val d) of
        (Some w, Some x, Some y, Some z) \<Rightarrow> Some (((w * 16 + x) * 16 + y) * 16 + z)
      | _ \<Rightarrow> None)"

definition simple_escape :: "char \<Rightarrow> char option" where
  "simple_escape e =
     (if e = CHR 0x22 \<or> e = CHR 0x5C \<or> e = CHR ''/'' then Some e
      else if e = CHR ''b'' then Some (chr 8) else if e = CHR ''f'' then Some (chr 12)
      else if e = CHR ''n'' then Some (chr 10) else if e = CHR ''r'' then Some (chr 13)
      else if e = CHR ''t'' then Some (chr 9) else None)"

text \<open>A low surrogate written as an escape at the head, and the code point of a pair.\<close>

fun low_surrogate :: "string \<Rightarrow> nat option" where
  "low_surrogate (b # u # e # f # g # h # s) =
     (if b = CHR 0x5C \<and> u = CHR ''u'' then
        (case hex4 e f g h of
           Some m \<Rightarrow> if 56320 \<le> m \<and> m \<le> 57343 then Some m else None
         | None \<Rightarrow> None)
      else None)"
| "low_surrogate _ = None"

definition prepend :: "'a list \<Rightarrow> ('a list \<times> 'b) option \<Rightarrow> ('a list \<times> 'b) option" where
  "prepend w r = map_option (\<lambda>(t, x). (w @ t, x)) r"

lemma prepend_simps [simp]: "prepend w (Some (t, x)) = Some (w @ t, x)" "prepend w None = None"
  by (simp_all add: prepend_def)

text \<open>One unit of a string: the bytes it stands for and what follows it.\<close>

definition str_unicode :: "string \<Rightarrow> (string \<times> string) option" where
  "str_unicode s =
     (case s of
        h1 # h2 # h3 # h4 # s2 \<Rightarrow>
          (case hex4 h1 h2 h3 h4 of
             None \<Rightarrow> None
           | Some n \<Rightarrow>
               if 55296 \<le> n \<and> n \<le> 57343 then
                 (case (if n \<le> 56319 then low_surrogate s2 else None) of
                    Some m \<Rightarrow> Some (utf8_enc (65536 + (n - 55296) * 1024 + (m - 56320)), drop 6 s2)
                  | None \<Rightarrow> Some (replacement, s2))
               else Some (utf8_enc n, s2))
      | _ \<Rightarrow> None)"

definition str_escape :: "string \<Rightarrow> (string \<times> string) option" where
  "str_escape s =
     (case s of
        [] \<Rightarrow> None
      | e # s1 \<Rightarrow>
          if e = CHR ''u'' then str_unicode s1
          else (case simple_escape e of None \<Rightarrow> None | Some d \<Rightarrow> Some ([d], s1)))"

definition str_step :: "char \<Rightarrow> string \<Rightarrow> (string \<times> string) option" where
  "str_step c s =
     (if c = CHR 0x5C then str_escape s
      else if byte c < 32 then None
      else if byte c < 128 then Some ([c], s)
      else if utf8_width (c # s) = 0 then Some (replacement, s)
      else Some (take (utf8_width (c # s)) (c # s), drop (utf8_width (c # s) - 1) s))"

lemma str_unicode_shorter: "str_unicode s = Some (w, r) \<Longrightarrow> length r \<le> length s"
  by (auto simp: str_unicode_def split: list.splits option.splits if_splits)

lemma str_escape_shorter: "str_escape s = Some (w, r) \<Longrightarrow> length r \<le> length s"
  by (auto simp: str_escape_def split: list.splits option.splits if_splits
      dest!: str_unicode_shorter)

lemma str_step_shorter: "str_step c s = Some (w, r) \<Longrightarrow> length r \<le> length s"
  by (auto simp: str_step_def split: if_splits dest: str_escape_shorter)

text \<open>The string after its opening quote: its value and what follows its closing quote.\<close>

function lex_str :: "string \<Rightarrow> (string \<times> string) option" where
  "lex_str [] = None"
| "lex_str (c # s) =
     (if c = CHR 0x22 then Some ([], s)
      else (case str_step c s of
              None \<Rightarrow> None
            | Some (w, r) \<Rightarrow> prepend w (lex_str r)))"
  by pat_completeness auto
termination
  by (relation "measure length") (auto dest!: str_step_shorter)

declare lex_str.simps(2) [simp del]

lemma prepend_SomeD: "prepend w r = Some (t, x) \<Longrightarrow> \<exists>t'. r = Some (t', x)"
  by (auto simp: prepend_def)

lemma lex_str_shorter: "lex_str s = Some (t, r) \<Longrightarrow> length r < length s"
proof (induction s arbitrary: t rule: lex_str.induct)
  case 1
  then show ?case by simp
next
  case (2 c s)
  show ?case
  proof (cases "c = CHR 0x22")
    case True
    with 2 show ?thesis by (simp add: lex_str.simps(2))
  next
    case False
    with "2.prems" obtain w r' t' where step: "str_step c s = Some (w, r')" and
      rest: "lex_str r' = Some (t', r)"
      by (auto simp: lex_str.simps(2) split: option.splits dest!: prepend_SomeD)
    have "length r < length r'"
      using "2.IH" [OF False step refl rest] .
    with str_step_shorter [OF step] show ?thesis by simp
  qed
qed

section \<open>The round trip\<close>

lemma all_bytes: "(\<forall>n < 256. P (chr n)) \<Longrightarrow> P c"
  by (metis byte_less_256 chr_byte)

lemma hex_val_hex_digit: "n < 16 \<Longrightarrow> hex_val (hex_digit n) = Some n"
  by (auto simp: hex_val_def hex_digit_def)

lemma hex4_low: "n < 256 \<Longrightarrow>
  hex4 (CHR ''0'') (CHR ''0'') (hex_digit (n div 16)) (hex_digit (n mod 16)) = Some n"
  by (simp add: hex4_def hex_val_hex_digit) (simp add: hex_val_def byte_def)

lemma byte_lits [simp]: "byte (CHR 0x22) = 34" "byte (CHR 0x5C) = 92" "byte (CHR ''u'') = 117"
  "byte (CHR ''<'') = 60" "byte (CHR ''>'') = 62" "byte (CHR ''&'') = 38" "byte (CHR ''2'') = 50"
  "byte (CHR ''0'') = 48" "byte (CHR ''f'') = 102" "byte (CHR ''d'') = 100"
  by (simp_all add: byte_def)

lemma lex_str_safe: "html_safe c \<Longrightarrow> lex_str (c # s) = prepend [c] (lex_str s)"
  by (auto simp: lex_str.simps(2) str_step_def html_safe_def)

lemma str_escape_unicode:
  "hex4 a b c d = Some n \<Longrightarrow> \<not> (55296 \<le> n \<and> n \<le> 57343) \<Longrightarrow>
   lex_str (CHR 0x5C # CHR ''u'' # a # b # c # d # s) = prepend (utf8_enc n) (lex_str s)"
  by (auto simp: lex_str.simps(2) str_step_def str_escape_def str_unicode_def)

lemma str_escape_simple:
  "simple_escape e = Some d \<Longrightarrow> lex_str (CHR 0x5C # e # s) = prepend [d] (lex_str s)"
  by (auto simp: lex_str.simps(2) str_step_def str_escape_def simple_escape_def split: if_splits)

lemma lex_str_escape: "byte c < 128 \<Longrightarrow> \<not> html_safe c \<Longrightarrow>
  lex_str (escape_char c @ s) = prepend [c] (lex_str s)"
proof -
  assume c: "byte c < 128"
  have b: "byte c = k \<Longrightarrow> c = chr k" for k by auto
  have se: "simple_escape (CHR ''b'') = Some (chr 8)" "simple_escape (CHR ''f'') = Some (chr 12)"
    "simple_escape (CHR ''n'') = Some (chr 10)" "simple_escape (CHR ''r'') = Some (chr 13)"
    "simple_escape (CHR ''t'') = Some (chr 9)"
    "simple_escape (CHR 0x22) = Some (CHR 0x22)" "simple_escape (CHR 0x5C) = Some (CHR 0x5C)"
    by (simp_all add: simple_escape_def)
  have h: "hex4 (CHR ''0'') (CHR ''0'') (hex_digit (byte c div 16)) (hex_digit (byte c mod 16))
      = Some (byte c)"
    by (rule hex4_low) simp
  have e: "utf8_enc (byte c) = [c]" using c by (simp add: utf8_enc_def)
  show ?thesis
    using c b [of 8] b [of 9] b [of 10] b [of 12] b [of 13] e
    by (auto simp: escape_char_def str_escape_simple se str_escape_unicode [OF h])
qed

lemma utf8_width_le: "utf8_width s \<le> length s"
  by (cases s) (auto split: list.splits)

lemma utf8_width_take: "utf8_width (c # s) \<noteq> 0 \<Longrightarrow>
  utf8_width (take (utf8_width (c # s)) (c # s) @ t) = utf8_width (c # s)"
  by (auto split: list.splits if_splits)

lemma utf8_width_ascii: "byte c < 128 \<Longrightarrow> utf8_width (c # s) = 0"
  by simp

lemma lex_str_multi:
  assumes "\<not> byte c < 128" and "utf8_width (c # s) = Suc n"
  shows "lex_str (c # s) = prepend (c # take n s) (lex_str (drop n s))"
proof -
  have "c \<noteq> CHR 0x22" "c \<noteq> CHR 0x5C" "\<not> byte c < 32" using assms(1) by auto
  with assms show ?thesis
    by (simp add: lex_str.simps(2) str_step_def del: utf8_width.simps)
qed

lemma hex4_line_sep: "hex4 (CHR ''2'') (CHR ''0'') (CHR ''2'') (hex_digit (k mod 16)) = Some (8224 + k mod 16)"
  by (simp add: hex4_def hex_val_hex_digit) (simp add: hex_val_def)

lemma lex_str_line_sep:
  assumes "is_line_sep s"
  shows "lex_str (line_sep_escape s @ t) = prepend (take 3 s) (lex_str t)"
proof -
  from assms obtain c where t2: "take 2 s = [chr 226, chr 128]" and d: "take 1 (drop 2 s) = [c]"
    and c: "byte c = 168 \<or> byte c = 169"
    by (auto simp: is_line_sep_def)
  have "take 3 s = take 2 s @ take 1 (drop 2 s)"
    using take_add [of 2 1 s] by simp
  with t2 d have s3: "take 3 s = [chr 226, chr 128, c]" by simp
  have "s ! 2 = take 3 s ! 2" by simp
  then have n: "s ! 2 = c" by (simp add: s3)
  have "c = chr 168 \<or> c = chr 169" using c by (metis chr_byte)
  then have "utf8_enc (8224 + byte c mod 16) = [chr 226, chr 128, c]"
    by (auto simp: utf8_enc_def)
  with s3 show ?thesis
    by (subst line_sep_escape_def)
      (use c in \<open>auto simp: n str_escape_unicode [OF hex4_line_sep]\<close>)
qed

lemma is_line_sep_width: "is_line_sep s \<Longrightarrow> utf8_width s = 3"
proof -
  assume "is_line_sep s"
  then obtain c where t2: "take 2 s = [chr 226, chr 128]" and d: "take 1 (drop 2 s) = [c]"
    and c: "byte c = 168 \<or> byte c = 169"
    by (auto simp: is_line_sep_def)
  from t2 obtain s' where s: "s = chr 226 # chr 128 # s'"
    by (metis append_Cons append_Nil append_take_drop_id)
  with d obtain s'' where "s' = c # s''" by (cases s') auto
  with s c show ?thesis by (auto simp: second_lo_def second_hi_def is_cont_def)
qed

theorem lex_str_quote:
  "valid_utf8 s \<Longrightarrow> lex_str (quote_chars s @ CHR 0x22 # r) = Some (s, r)"
proof (induction s rule: quote_chars.induct)
  case 1
  then show ?case by (simp add: lex_str.simps(2))
next
  case (2 c s)
  let ?w = "utf8_width (c # s)"
  show ?case
  proof (cases "byte c < 128")
    case True
    with 2 have IH: "lex_str (quote_chars s @ CHR 0x22 # r) = Some (s, r)" by simp
    with True show ?thesis by (auto simp: lex_str_safe lex_str_escape)
  next
    case False
    with "2.prems" obtain n where n: "?w = Suc n" and v: "valid_utf8 (drop n s)"
      by (cases ?w) (auto simp del: utf8_width.simps)
    have IH: "lex_str (quote_chars (drop n s) @ CHR 0x22 # r) = Some (drop n s, r)"
      using "2.IH"(3) False n v by (simp del: utf8_width.simps)
    show ?thesis
    proof (cases "is_line_sep (c # s)")
      case True
      with n have "n = 2" by (simp add: is_line_sep_width del: utf8_width.simps)
      with True False n IH show ?thesis
        by (simp add: lex_str_line_sep del: utf8_width.simps)
    next
      case line: False
      have "utf8_width (c # take n s @ t) = Suc n" for t
        using utf8_width_take [of c s t] n by (simp del: utf8_width.simps)
      with False line n IH utf8_width_le [of "c # s"] show ?thesis
        by (simp add: lex_str_multi [OF False] del: utf8_width.simps)
    qed
  qed
qed

lemma quote_chars_inject:
  "valid_utf8 s \<Longrightarrow> valid_utf8 t \<Longrightarrow> quote_chars s = quote_chars t \<longleftrightarrow> s = t"
proof
  assume vs: "valid_utf8 s" and vt: "valid_utf8 t" and eq: "quote_chars s = quote_chars t"
  have "Some (s, [] :: string) = Some (t, [])"
    using lex_str_quote [OF vs, of "[]"] lex_str_quote [OF vt, of "[]"] by (simp only: eq)
  then show "s = t" by blast
qed simp

end
