(* ===== verification/JsonText.thy ===== *)
theory JsonText
  imports JsonString
begin

text \<open>
  JSON text: number literals, a tokenizer, a push-down parser and a printer.  The tokenizer and
  the parser follow the JSON grammar as \<open>encoding/json\<close> checks it; the printer is the compact form
  \<open>json.Marshal\<close> writes.  \<open>parse_print\<close> is the round trip.
\<close>

section \<open>Number literals\<close>

definition num_char :: "char \<Rightarrow> bool" where
  "num_char c \<longleftrightarrow> is_digit c \<or> c \<in> {CHR ''-'', CHR ''+'', CHR ''.'', CHR ''e'', CHR ''E''}"

definition digits_of :: "string \<Rightarrow> string" where
  "digits_of s = takeWhile is_digit s"

definition after_digits :: "string \<Rightarrow> string" where
  "after_digits s = dropWhile is_digit s"

text \<open>An optional exponent that ends the literal: its value.\<close>

definition exp_digits :: "bool \<Rightarrow> string \<Rightarrow> int option" where
  "exp_digits neg s =
     (if s \<noteq> [] \<and> after_digits s = []
      then Some (if neg then - str_dec s else str_dec s) else None)"

fun num_exp :: "string \<Rightarrow> int option" where
  "num_exp [] = Some 0"
| "num_exp (e # s) =
     (if e = CHR ''e'' \<or> e = CHR ''E'' then
        (case s of
           [] \<Rightarrow> None
         | c # s' \<Rightarrow>
             if c = CHR ''-'' then exp_digits True s'
             else if c = CHR ''+'' then exp_digits False s' else exp_digits False s)
      else None)"

text \<open>The fraction's digits and the exponent.\<close>

fun num_frac :: "string \<Rightarrow> (string \<times> int) option" where
  "num_frac [] = Some ([], 0)"
| "num_frac (c # s) =
     (if c = CHR ''.'' then
        (if digits_of s = [] then None
         else map_option (\<lambda>x. (digits_of s, x)) (num_exp (after_digits s)))
      else map_option (\<lambda>x. ([], x)) (num_exp (c # s)))"

definition num_unsigned :: "string \<Rightarrow> (string \<times> string \<times> int) option" where
  "num_unsigned s =
     (if digits_of s = [] \<or> (take 1 s = ''0'' \<and> digits_of s \<noteq> ''0'') then None
      else map_option (\<lambda>(f, x). (digits_of s, f, x)) (num_frac (after_digits s)))"

text \<open>Sign, integer digits, fraction digits and exponent of a literal.\<close>

fun num_parts :: "string \<Rightarrow> (bool \<times> string \<times> string \<times> int) option" where
  "num_parts [] = None"
| "num_parts (c # s) =
     (if c = CHR ''-'' then map_option (Pair True) (num_unsigned s)
      else map_option (Pair False) (num_unsigned (c # s)))"

definition valid_num :: "string \<Rightarrow> bool" where
  "valid_num s \<longleftrightarrow> num_parts s \<noteq> None \<and> (\<forall>c \<in> set s. num_char c)"

section \<open>Tokens\<close>

datatype tok = TLBrace | TRBrace | TLBrack | TRBrack | TColon | TComma
  | TNull | TTrue | TFalse | TStr string | TNum string

definition json_ws :: "char \<Rightarrow> bool" where
  "json_ws c \<longleftrightarrow> byte c = 32 \<or> byte c = 9 \<or> byte c = 10 \<or> byte c = 13"

definition punct :: "char \<Rightarrow> tok option" where
  "punct c =
     (if c = CHR 0x7B then Some TLBrace else if c = CHR 0x7D then Some TRBrace
      else if c = CHR 0x5B then Some TLBrack else if c = CHR 0x5D then Some TRBrack
      else if c = CHR 0x3A then Some TColon else if c = CHR 0x2C then Some TComma else None)"

definition keyword :: "string \<Rightarrow> (tok \<times> string) option" where
  "keyword s =
     (if take 4 s = ''null'' then Some (TNull, drop 4 s)
      else if take 4 s = ''true'' then Some (TTrue, drop 4 s)
      else if take 5 s = ''false'' then Some (TFalse, drop 5 s) else None)"

text \<open>The first token of a text that does not start with white space, and what follows it.\<close>

definition first_tok :: "char \<Rightarrow> string \<Rightarrow> (tok \<times> string) option" where
  "first_tok c s =
     (case punct c of
        Some t \<Rightarrow> Some (t, s)
      | None \<Rightarrow>
          if c = CHR 0x22 then map_option (\<lambda>(w, r). (TStr w, r)) (lex_str s)
          else if num_char c then
            (let w = takeWhile num_char (c # s)
             in if valid_num w then Some (TNum w, dropWhile num_char (c # s)) else None)
          else keyword (c # s))"

lemma keyword_shorter: "keyword s = Some (t, r) \<Longrightarrow> length r < length s"
  by (cases s) (auto simp: keyword_def split: if_splits)

lemma first_tok_shorter: "first_tok c s = Some (t, r) \<Longrightarrow> length r < Suc (length s)"
  by (auto simp: first_tok_def Let_def split: option.splits if_splits
      dest: keyword_shorter lex_str_shorter
      intro: le_imp_less_Suc length_dropWhile_le)

function lex :: "string \<Rightarrow> tok list option" where
  "lex [] = Some []"
| "lex (c # s) =
     (if json_ws c then lex s
      else (case first_tok c s of
              None \<Rightarrow> None
            | Some (t, r) \<Rightarrow> map_option (Cons t) (lex r)))"
  by pat_completeness auto
termination
  by (relation "measure length") (auto dest: first_tok_shorter)

declare lex.simps(2) [simp del]

section \<open>The parser\<close>

text \<open>An open array with the elements read, or an open object with its entries and the key
  whose value is being read; and what the parser expects next.\<close>

datatype frame = InArr "jval list" | InObj "(string \<times> jval) list" string

datatype pst =
    WantVal "frame list"
  | ArrStart "frame list"
  | ObjStart "frame list"
  | WantKey "(string \<times> jval) list" "frame list"
  | WantColon "(string \<times> jval) list" string "frame list"
  | After jval "frame list"

fun start_val :: "frame list \<Rightarrow> tok \<Rightarrow> pst option" where
  "start_val fs TNull = Some (After JNull fs)"
| "start_val fs TTrue = Some (After (JBool True) fs)"
| "start_val fs TFalse = Some (After (JBool False) fs)"
| "start_val fs (TStr s) = Some (After (JStr s) fs)"
| "start_val fs (TNum s) = Some (After (JNum s) fs)"
| "start_val fs TLBrack = Some (ArrStart fs)"
| "start_val fs TLBrace = Some (ObjStart fs)"
| "start_val fs _ = None"

fun pstep :: "pst \<Rightarrow> tok \<Rightarrow> pst option" where
  "pstep (WantVal fs) t = start_val fs t"
| "pstep (ArrStart fs) t = (if t = TRBrack then Some (After (JArr []) fs) else start_val (InArr [] # fs) t)"
| "pstep (ObjStart fs) t =
     (case t of TRBrace \<Rightarrow> Some (After (JObj []) fs) | TStr k \<Rightarrow> Some (WantColon [] k fs) | _ \<Rightarrow> None)"
| "pstep (WantKey kvs fs) t = (case t of TStr k \<Rightarrow> Some (WantColon kvs k fs) | _ \<Rightarrow> None)"
| "pstep (WantColon kvs k fs) t = (if t = TColon then Some (WantVal (InObj kvs k # fs)) else None)"
| "pstep (After v (InArr xs # fs)) t =
     (if t = TComma then Some (WantVal (InArr (xs @ [v]) # fs))
      else if t = TRBrack then Some (After (JArr (xs @ [v])) fs) else None)"
| "pstep (After v (InObj kvs k # fs)) t =
     (if t = TComma then Some (WantKey (kvs @ [(k, v)]) fs)
      else if t = TRBrace then Some (After (JObj (kvs @ [(k, v)])) fs) else None)"
| "pstep (After v []) t = None"

fun prun :: "pst \<Rightarrow> tok list \<Rightarrow> jval option" where
  "prun st [] = (case st of After v [] \<Rightarrow> Some v | _ \<Rightarrow> None)"
| "prun st (t # ts) = (case pstep st t of None \<Rightarrow> None | Some st' \<Rightarrow> prun st' ts)"

definition parse_json :: "string \<Rightarrow> jval option" where
  "parse_json s = (case lex s of None \<Rightarrow> None | Some ts \<Rightarrow> prun (WantVal []) ts)"

section \<open>The printer\<close>

definition comma :: string where
  "comma = [CHR 0x2C]"

fun print_json :: "jval \<Rightarrow> string" where
  "print_json JNull = ''null''"
| "print_json (JBool b) = (if b then ''true'' else ''false'')"
| "print_json (JNum s) = s"
| "print_json (JStr s) = quote_str s"
| "print_json (JArr xs) = CHR 0x5B # join_with comma (map print_json xs) @ [CHR 0x5D]"
| "print_json (JObj kvs) =
     CHR 0x7B # join_with comma (map (\<lambda>kv. quote_str (fst kv) @ CHR 0x3A # print_json (snd kv)) kvs)
       @ [CHR 0x7D]"

fun toks :: "jval \<Rightarrow> tok list" where
  "toks JNull = [TNull]"
| "toks (JBool b) = [if b then TTrue else TFalse]"
| "toks (JNum s) = [TNum s]"
| "toks (JStr s) = [TStr s]"
| "toks (JArr xs) = TLBrack # join_with [TComma] (map toks xs) @ [TRBrack]"
| "toks (JObj kvs) =
     TLBrace # join_with [TComma] (map (\<lambda>kv. TStr (fst kv) # TColon # toks (snd kv)) kvs) @ [TRBrace]"

text \<open>What the printer writes back faithfully: valid literals and well-formed UTF-8.\<close>

fun valid_j :: "jval \<Rightarrow> bool" where
  "valid_j (JNum s) = valid_num s"
| "valid_j (JStr s) = valid_utf8 s"
| "valid_j (JArr xs) = (\<forall>x \<in> set xs. valid_j x)"
| "valid_j (JObj kvs) = (\<forall>kv \<in> set kvs. valid_utf8 (fst kv) \<and> valid_j (snd kv))"
| "valid_j _ = True"

section \<open>Round trip: tokens\<close>

definition no_num :: "string \<Rightarrow> bool" where
  "no_num r \<longleftrightarrow> r = [] \<or> \<not> num_char (hd r)"

definition lexes :: "string \<Rightarrow> tok list \<Rightarrow> bool" where
  "lexes s ts \<longleftrightarrow> (\<forall>r. no_num r \<longrightarrow> lex (s @ r) = map_option ((@) ts) (lex r))"

lemma lexesD: "lexes s ts \<Longrightarrow> no_num r \<Longrightarrow> lex (s @ r) = map_option ((@) ts) (lex r)"
  by (simp add: lexes_def)

lemma lex_punct: "punct c = Some t \<Longrightarrow> lex (c # s) = map_option (Cons t) (lex s)"
  by (auto simp: lex.simps(2) first_tok_def punct_def json_ws_def byte_def split: if_splits)

lemma lex_quote: "valid_utf8 w \<Longrightarrow> lex (quote_str w @ r) = map_option (Cons (TStr w)) (lex r)"
  by (simp add: quote_str_def lex.simps(2) first_tok_def punct_def json_ws_def lex_str_quote)

lemma lex_keyword:
  "lex (''null'' @ r) = map_option (Cons TNull) (lex r)"
  "lex (''true'' @ r) = map_option (Cons TTrue) (lex r)"
  "lex (''false'' @ r) = map_option (Cons TFalse) (lex r)"
  by (simp_all add: lex.simps(2) first_tok_def punct_def json_ws_def num_char_def is_digit_def
      keyword_def byte_def)

lemma punct_byte: "punct c \<noteq> None \<Longrightarrow> byte c \<in> {123, 125, 91, 93, 58, 44}"
  by (auto simp: punct_def byte_def split: if_splits)

lemma num_char_byte: "num_char c \<Longrightarrow> byte c \<in> {48..57} \<union> {43, 45, 46, 69, 101}"
  by (auto simp: num_char_def is_digit_def byte_def)

lemma num_char_classes:
  assumes "num_char c"
  shows "\<not> json_ws c" and "punct c = None" and "c \<noteq> CHR 0x22"
proof -
  show "\<not> json_ws c" and "c \<noteq> CHR 0x22"
    using num_char_byte [OF assms] by (auto simp: json_ws_def)
  show "punct c = None"
    using num_char_byte [OF assms] punct_byte [of c] by (cases "punct c") auto
qed

lemma lex_num:
  assumes "valid_num w" and "no_num r"
  shows "lex (w @ r) = map_option (Cons (TNum w)) (lex r)"
proof -
  from assms(1) obtain c s where w: "w = c # s"
    by (cases w) (auto simp: valid_num_def)
  with assms(1) have c: "num_char c" and all: "\<forall>x \<in> set w. num_char x"
    by (auto simp: valid_num_def)
  have "takeWhile num_char (w @ r) = w" "dropWhile num_char (w @ r) = r"
    using all assms(2) by (cases r; auto simp: no_num_def takeWhile_append dropWhile_append)+
  with assms(1) num_char_classes [OF c] c show ?thesis
    by (simp add: w lex.simps(2) first_tok_def Let_def)
qed

lemma no_num_punct: "punct c \<noteq> None \<Longrightarrow> no_num (c # r)"
  using num_char_classes by (auto simp: no_num_def)

lemma punct_lits [simp]:
  "punct (CHR 0x7B) = Some TLBrace" "punct (CHR 0x7D) = Some TRBrace"
  "punct (CHR 0x5B) = Some TLBrack" "punct (CHR 0x5D) = Some TRBrack"
  "punct (CHR 0x3A) = Some TColon" "punct (CHR 0x2C) = Some TComma"
  by (simp_all add: punct_def)

lemma map_option_append: "map_option ((@) xs) (map_option ((@) ys) r) = map_option ((@) (xs @ ys)) r"
  by (cases r) auto

lemma map_option_Cons_append: "map_option (Cons x) r = map_option ((@) [x]) r"
  by (cases r) auto

lemma lexes_append_punct:
  assumes "lexes s ts" and "punct c = Some t" and "lexes s' ts'"
  shows "lexes (s @ c # s') (ts @ t # ts')"
  unfolding lexes_def
proof (intro allI impI)
  fix r assume r: "no_num r"
  have "lex (s @ c # s' @ r) = map_option ((@) ts) (lex (c # s' @ r))"
    using lexesD [OF assms(1)] no_num_punct assms(2) by auto
  also have "\<dots> = map_option ((@) (ts @ t # ts')) (lex r)"
    using lexesD [OF assms(3) r] assms(2)
    by (simp add: lex_punct map_option_Cons_append map_option_append)
  finally show "lex ((s @ c # s') @ r) = map_option ((@) (ts @ t # ts')) (lex r)" by simp
qed

lemma map_option_append_Nil [simp]: "map_option ((@) []) r = r"
  by (cases r) auto

lemma lexes_Nil: "lexes [] []"
  by (simp add: lexes_def)

lemma lexes_join:
  "(\<And>x. x \<in> set xs \<Longrightarrow> lexes (p x) (t x)) \<Longrightarrow>
   lexes (join_with comma (map p xs)) (join_with [TComma] (map t xs))"
proof (induction xs)
  case Nil
  then show ?case by (simp add: lexes_Nil)
next
  case (Cons x xs)
  then show ?case
    using lexes_append_punct [of "p x" "t x" "CHR 0x2C" TComma]
    by (cases xs) (auto simp: comma_def)
qed

lemma lexes_bracket:
  assumes "punct a = Some t" and "lexes s ts" and "punct b = Some t'"
  shows "lexes (a # s @ [b]) (t # ts @ [t'])"
  using lexes_append_punct [OF lexes_Nil assms(1)
      lexes_append_punct [OF assms(2,3) lexes_Nil]] by simp

lemma lexes_entry:
  "valid_utf8 k \<Longrightarrow> lexes s ts \<Longrightarrow> lexes (quote_str k @ CHR 0x3A # s) (TStr k # TColon # ts)"
  using lexes_append_punct [of "quote_str k" "[TStr k]" "CHR 0x3A" TColon s ts]
  by (simp add: lexes_def lex_quote map_option_Cons_append)

lemma lexes_print: "valid_j j \<Longrightarrow> lexes (print_json j) (toks j)"
proof (induction j)
  case (JArr xs)
  then show ?case by (auto intro!: lexes_bracket lexes_join)
next
  case (JObj kvs)
  then have "lexes (quote_str (fst kv) @ CHR 0x3A # print_json (snd kv))
      (TStr (fst kv) # TColon # toks (snd kv))" if "kv \<in> set kvs" for kv
    using that by (cases kv) (force intro!: lexes_entry)
  then show ?case by (auto intro!: lexes_bracket lexes_join)
qed (auto simp: lexes_def lex_keyword [unfolded append.simps] lex_num lex_quote
    map_option_Cons_append lex_keyword simp del: append.simps)

section \<open>Round trip: trees\<close>

lemma toks_nonempty: "\<exists>t ts. toks j = t # ts \<and> t \<noteq> TRBrack"
  by (cases j) auto

lemma prun_ArrStart: "prun (ArrStart fs) (toks j @ ts) = prun (WantVal (InArr [] # fs)) (toks j @ ts)"
  using toks_nonempty [of j] by auto

definition takes :: "jval \<Rightarrow> bool" where
  "takes j \<longleftrightarrow> (\<forall>fs ts. prun (WantVal fs) (toks j @ ts) = prun (After j fs) ts)"

lemma takes_list:
  "(\<And>z. z \<in> set (x # xs) \<Longrightarrow> takes z) \<Longrightarrow>
   prun (WantVal (InArr ys # fs)) (join_with [TComma] (map toks (x # xs)) @ TRBrack # ts)
   = prun (After (JArr (ys @ x # xs)) fs) ts"
proof (induction xs arbitrary: x ys)
  case Nil
  then show ?case by (simp add: takes_def)
next
  case (Cons y xs)
  have x: "takes x" by (rule Cons.prems) simp
  have "prun (WantVal (InArr ys # fs)) (join_with [TComma] (map toks (x # y # xs)) @ TRBrack # ts)
      = prun (WantVal (InArr (ys @ [x]) # fs)) (join_with [TComma] (map toks (y # xs)) @ TRBrack # ts)"
    using x by (simp add: takes_def)
  also have "\<dots> = prun (After (JArr ((ys @ [x]) @ y # xs)) fs) ts"
    by (rule Cons.IH) (rule Cons.prems, simp)
  finally show ?case by simp
qed

lemma takes_obj:
  "(\<And>x. x \<in> set (kv # kvs) \<Longrightarrow> takes (snd x)) \<Longrightarrow>
   prun (WantKey acc fs)
     (join_with [TComma] (map (\<lambda>kv. TStr (fst kv) # TColon # toks (snd kv)) (kv # kvs)) @ TRBrace # ts)
   = prun (After (JObj (acc @ kv # kvs)) fs) ts"
proof (induction kvs arbitrary: kv acc)
  case Nil
  have "takes (snd kv)" by (rule Nil.prems) simp
  then show ?case by (simp add: takes_def)
next
  case (Cons kv' kvs)
  have x: "takes (snd kv)" by (rule Cons.prems) simp
  have "prun (WantKey (acc @ [kv]) fs)
     (join_with [TComma] (map (\<lambda>kv. TStr (fst kv) # TColon # toks (snd kv)) (kv' # kvs)) @ TRBrace # ts)
   = prun (After (JObj ((acc @ [kv]) @ kv' # kvs)) fs) ts"
    by (rule Cons.IH) (rule Cons.prems, simp)
  with x show ?case by (simp add: takes_def)
qed

lemma prun_ObjStart: "prun (ObjStart fs) (TStr k # ts) = prun (WantKey [] fs) (TStr k # ts)"
  by simp

lemma takes_toks: "takes j"
proof (induction j)
  case (JArr xs)
  show ?case
  proof (cases xs)
    case Nil
    then show ?thesis by (simp add: takes_def)
  next
    case (Cons x xs')
    have "prun (ArrStart fs) (join_with [TComma] (map toks xs) @ TRBrack # ts)
        = prun (After (JArr xs) fs) ts" for fs ts
    proof -
      obtain rest where r: "join_with [TComma] (map toks xs) @ TRBrack # ts = toks x @ rest"
        using Cons by (cases xs') auto
      have "prun (ArrStart fs) (toks x @ rest) = prun (WantVal (InArr [] # fs)) (toks x @ rest)"
        by (rule prun_ArrStart)
      then show ?thesis
        using takes_list [of x xs' "[]" fs ts] JArr r Cons by simp
    qed
    then show ?thesis by (simp add: takes_def)
  qed
next
  case (JObj kvs)
  show ?case
  proof (cases kvs)
    case Nil
    then show ?thesis by (simp add: takes_def)
  next
    case (Cons kv kvs')
    have t: "takes (snd x)" if "x \<in> set kvs" for x
      using JObj [of x "snd x"] that by (simp add: snds.simps)
    obtain rest where "join_with [TComma] (map (\<lambda>kv. TStr (fst kv) # TColon # toks (snd kv)) kvs)
        = TStr (fst kv) # rest"
      using Cons by (cases kvs') auto
    then show ?thesis
      using takes_obj [of kv kvs' "[]"] t Cons by (simp add: takes_def)
  qed
qed (simp_all add: takes_def)

theorem parse_print: "valid_j j \<Longrightarrow> parse_json (print_json j) = Some j"
proof -
  assume "valid_j j"
  then have "lex (print_json j) = Some (toks j)"
    using lexesD [OF lexes_print, of j "[]"] by (simp add: no_num_def)
  then show ?thesis
    using takes_toks [of j, unfolded takes_def, rule_format, of "[]" "[]"] by (simp add: parse_json_def)
qed

lemma print_json_inject: "valid_j i \<Longrightarrow> valid_j j \<Longrightarrow> print_json i = print_json j \<longleftrightarrow> i = j"
proof
  assume i: "valid_j i" and j: "valid_j j" and eq: "print_json i = print_json j"
  have "Some i = Some j"
    using parse_print [OF i] parse_print [OF j] by (simp only: eq)
  then show "i = j" by blast
qed simp

section \<open>The printed text has no control characters\<close>

lemma utf8_width_high: "utf8_width (c # s) \<noteq> 0 \<Longrightarrow> \<forall>d \<in> set (take (utf8_width (c # s)) (c # s)). 128 \<le> byte d"
  by (auto simp: is_cont_def second_lo_def split: list.splits if_splits)

lemma hex_digit_graphic: "n < 16 \<Longrightarrow> 32 \<le> byte (hex_digit n)"
  by (auto simp: hex_digit_def)

lemma escape_char_graphic: "d \<in> set (escape_char c) \<Longrightarrow> 32 \<le> byte d"
proof -
  have "byte c div 16 < 16" using byte_less_256 [of c] by linarith
  moreover have "32 \<le> byte (CHR ''b'')" "32 \<le> byte (CHR ''f'')" "32 \<le> byte (CHR ''n'')" "32 \<le> byte (CHR ''r'')"
    "32 \<le> byte (CHR ''t'')" "32 \<le> byte (CHR ''0'')" by code_simp+
  ultimately show "d \<in> set (escape_char c) \<Longrightarrow> 32 \<le> byte d"
    by (auto simp: escape_char_def hex_digit_graphic split: if_splits)
qed

lemma quote_chars_graphic: "d \<in> set (quote_chars s) \<Longrightarrow> 32 \<le> byte d"
proof (induction s rule: quote_chars.induct)
  case (2 c s)
  have f: "32 \<le> byte x" if "x \<in> set fffd_escape" for x
  proof -
    have "list_all (\<lambda>x. 32 \<le> byte x) fffd_escape" by code_simp
    with that show ?thesis by (simp add: list_all_iff)
  qed
  have l: "32 \<le> byte x" if "x \<in> set (line_sep_escape t)" for x t
  proof -
    have "32 \<le> byte (CHR ''0'')" by code_simp
    with that show ?thesis by (auto simp: line_sep_escape_def hex_digit_graphic)
  qed
  have u: "32 \<le> byte x" if "utf8_width (c # s) \<noteq> 0" "x \<in> set (take (utf8_width (c # s)) (c # s))" for x
    using utf8_width_high [OF that(1)] that(2) by force
  show ?case
  proof (cases "byte c < 128")
    case True
    with 2 show ?thesis by (auto simp: html_safe_def dest: escape_char_graphic split: if_splits)
  next
    case False
    with 2 f l u show ?thesis by (auto split: if_splits)
  qed
qed simp

lemma quote_str_graphic: "d \<in> set (quote_str s) \<Longrightarrow> 32 \<le> byte d"
  by (auto simp: quote_str_def dest: quote_chars_graphic)

lemma set_join_with: "set (join_with sep ws) \<subseteq> set sep \<union> (\<Union>w \<in> set ws. set w)"
  by (induction sep ws rule: join_with.induct) auto

lemma print_json_graphic: "valid_j j \<Longrightarrow> d \<in> set (print_json j) \<Longrightarrow> 32 \<le> byte d"
proof (induction j arbitrary: d)
  case JNull
  have "list_all (\<lambda>d. 32 \<le> byte d) ''null''" by code_simp
  with JNull show ?case by (auto simp: list_all_iff)
next
  case (JBool b)
  have "list_all (\<lambda>d. 32 \<le> byte d) ''true''" "list_all (\<lambda>d. 32 \<le> byte d) ''false''" by code_simp+
  with JBool show ?case by (auto simp: list_all_iff split: if_splits)
next
  case (JNum s)
  then have "num_char d" by (simp add: valid_num_def)
  then show ?case using num_char_byte [of d] by auto
next
  case (JStr s)
  then show ?case by (auto dest: quote_str_graphic)
next
  case (JArr xs)
  have b: "32 \<le> byte (CHR 0x5B)" "32 \<le> byte (CHR 0x5D)" "list_all (\<lambda>d. 32 \<le> byte d) comma" by code_simp+
  have "32 \<le> byte d" if "d \<in> set (join_with comma (map print_json xs))"
    using that set_join_with [of comma "map print_json xs"] JArr b by (auto simp: list_all_iff)
  with JArr.prems b show ?case by auto
next
  case (JObj kvs)
  let ?e = "\<lambda>kv. quote_str (fst kv) @ CHR 0x3A # print_json (snd kv)"
  have b: "32 \<le> byte (CHR 0x7B)" "32 \<le> byte (CHR 0x7D)" "32 \<le> byte (CHR 0x3A)"
    "list_all (\<lambda>d. 32 \<le> byte d) comma" by code_simp+
  have e: "32 \<le> byte x" if "kv \<in> set kvs" "x \<in> set (?e kv)" for kv x
  proof -
    have "valid_j (snd kv)" using JObj.prems(1) that(1) by auto
    then have "x \<in> set (print_json (snd kv)) \<Longrightarrow> 32 \<le> byte x"
      using JObj.IH [OF that(1), of "snd kv"] by (cases kv) auto
    with that(2) b show ?thesis by (auto dest: quote_str_graphic)
  qed
  have "32 \<le> byte d" if "d \<in> set (join_with comma (map ?e kvs))"
  proof -
    have "d \<in> set comma \<or> (\<exists>kv \<in> set kvs. d \<in> set (?e kv))"
      using subsetD [OF set_join_with that] unfolding set_map by blast
    with b e show ?thesis by (auto simp: list_all_iff)
  qed
  with JObj.prems(2) b show ?case by auto
qed

end
