(* ===== verification/Json.thy ===== *)
theory Json
  imports JsonText
begin

text \<open>
  \<open>json.Marshal\<close> and \<open>json.Unmarshal\<close> between Go values and JSON text, and on top of them
  \<open>canonical\<close> and \<open>equal\<close> of \<open>internal/diff/diff.go\<close>.  The theorem \<open>equal_vals_iff\<close> says what the
  comparison of canonical texts decides: equality of the normalised values up to the order of map
  entries.
\<close>

section \<open>Sequencing of results\<close>

fun seq_sum :: "('e + 'a) list \<Rightarrow> 'e + 'a list" where
  "seq_sum [] = Inr []"
| "seq_sum (r # rs) =
     (case r of
        Inl e \<Rightarrow> Inl e
      | Inr x \<Rightarrow> (case seq_sum rs of Inl e \<Rightarrow> Inl e | Inr xs \<Rightarrow> Inr (x # xs)))"

lemma seq_sum_Inr: "seq_sum rs = Inr xs \<longleftrightarrow> rs = map Inr xs"
proof (induction rs arbitrary: xs)
  case Nil
  then show ?case by auto
next
  case (Cons r rs)
  show ?case
  proof (cases "seq_sum rs")
    case (Inl e)
    with Cons.IH have "rs \<noteq> map Inr ys" for ys by simp
    with Inl show ?thesis by (cases xs) (auto split: sum.splits)
  next
    case (Inr ys)
    with Cons.IH show ?thesis by (cases xs) (auto split: sum.splits)
  qed
qed

section \<open>Floats as text\<close>

text \<open>\<open>strconv.ParseFloat\<close> on a JSON literal; a value out of range is an error.\<close>

definition ratio_pow10 :: "bool \<Rightarrow> int \<Rightarrow> int \<Rightarrow> f64" where
  "ratio_pow10 neg m x =
     (if 0 \<le> x then f64_of_ratio neg (m * 10 ^ nat x) 1 else f64_of_ratio neg m (10 ^ nat (- x)))"

fun finite_f64 :: "f64 \<Rightarrow> f64 option" where
  "finite_f64 (FInf _) = None"
| "finite_f64 x = Some x"

definition num_f64 :: "string \<Rightarrow> f64 option" where
  "num_f64 s =
     (case num_parts s of
        None \<Rightarrow> None
      | Some (neg, ds, fs, x) \<Rightarrow>
          finite_f64 (ratio_pow10 neg (str_dec (ds @ fs)) (x - int (length fs))))"

text \<open>
  The shortest decimal \<open>D * 10 ^ k\<close> that reads back as the float, with at most 17 digits
  (\<open>strconv.AppendFloat\<close> with precision \<open>-1\<close>): the value \<open>n / d\<close> is rounded to \<open>p\<close> digits for
  \<open>p = 1, 2, \<dots>\<close> until it reads back.
\<close>

definition dec_len :: "int \<Rightarrow> int" where
  "dec_len n = int (length (dec_str n))"

definition ratio_ge_pow10 :: "int \<Rightarrow> int \<Rightarrow> int \<Rightarrow> bool" where
  "ratio_ge_pow10 n d k = (if 0 \<le> k then d * 10 ^ nat k \<le> n else d \<le> n * 10 ^ nat (- k))"

definition rat_log10 :: "int \<Rightarrow> int \<Rightarrow> int" where
  "rat_log10 n d =
     (if ratio_ge_pow10 n d (dec_len n - dec_len d) then dec_len n - dec_len d
      else dec_len n - dec_len d - 1)"

definition round_digits :: "int \<Rightarrow> int \<Rightarrow> int \<Rightarrow> int" where
  "round_digits n d s =
     (if 0 \<le> s then round_half_even (n * 10 ^ nat s) d else round_half_even n (d * 10 ^ nat (- s)))"

fun shortest :: "f64 \<Rightarrow> int \<Rightarrow> int \<Rightarrow> int \<Rightarrow> int list \<Rightarrow> int \<times> int" where
  "shortest x n d l [] = (round_digits n d (16 - l), l - 16)"
| "shortest x n d l (p # ps) =
     (if ratio_pow10 False (round_digits n d (p - 1 - l)) (l + 1 - p) = x
      then (round_digits n d (p - 1 - l), l + 1 - p)
      else shortest x n d l ps)"

function strip_tens :: "int \<Rightarrow> int \<Rightarrow> int \<times> int" where
  "strip_tens m k =
     (if m \<le> 0 then (0, 0) else if m mod 10 = 0 then strip_tens (m div 10) (k + 1) else (m, k))"
  by pat_completeness auto
termination
  by (relation "measure (nat \<circ> fst)") auto

declare strip_tens.simps [simp del]

text \<open>Digits \<open>ds\<close> with the decimal point after the first \<open>p\<close> of them: the \<open>'f'\<close> and the \<open>'e'\<close>
  format, chosen as \<open>encoding/json\<close> does.\<close>

definition fmt_plain :: "string \<Rightarrow> int \<Rightarrow> string" where
  "fmt_plain ds p =
     (if p \<le> 0 then ''0.'' @ replicate (nat (- p)) (CHR ''0'') @ ds
      else if int (length ds) \<le> p then ds @ replicate (nat (p - int (length ds))) (CHR ''0'')
      else take (nat p) ds @ ''.'' @ drop (nat p) ds)"

definition fmt_exp :: "string \<Rightarrow> int \<Rightarrow> string" where
  "fmt_exp ds p =
     take 1 ds @ (if length ds = 1 then [] else ''.'' @ drop 1 ds) @
     (if p - 1 < 0 then ''e-'' @ dec_str (1 - p) else ''e+'' @ dec_str (p - 1))"

definition fmt_digits :: "string \<Rightarrow> int \<Rightarrow> string" where
  "fmt_digits ds p = (if p - 1 < - 6 \<or> 21 \<le> p - 1 then fmt_exp ds p else fmt_plain ds p)"

definition fmt_decimal :: "int \<times> int \<Rightarrow> string" where
  "fmt_decimal mk = fmt_digits (dec_str (fst mk)) (dec_len (fst mk) + snd mk)"

definition fmt_ratio :: "int \<Rightarrow> int \<Rightarrow> string" where
  "fmt_ratio n d =
     fmt_decimal (case shortest (f64_of_ratio False n d) n d (rat_log10 n d) [1..17] of
       (m, k) \<Rightarrow> strip_tens m k)"

fun fmt_f64 :: "f64 \<Rightarrow> string" where
  "fmt_f64 (FFin m e) =
     (if m = 0 then ''0''
      else (if m < 0 then ''-'' else '''') @
           (if 0 \<le> e then fmt_ratio (\<bar>m\<bar> * 2 ^ nat e) 1 else fmt_ratio \<bar>m\<bar> (2 ^ nat (- e))))"
| "fmt_f64 FNegZero = ''-0''"
| "fmt_f64 (FInf neg) = (if neg then ''-Inf'' else ''+Inf'')"
| "fmt_f64 FNaN = ''NaN''"

section \<open>Unmarshal into any\<close>

text \<open>Objects become maps (a later entry for a key replaces an earlier one), numbers
  \<open>float64\<close>; \<^const>\<open>None\<close> is an error return.\<close>

definition go_map :: "(string \<times> 'v) list \<Rightarrow> (string \<times> 'v) list" where
  "go_map kvs = foldl (\<lambda>m kv. map_set (fst kv) (snd kv) m) [] kvs"

fun to_any :: "jval \<Rightarrow> gval option" where
  "to_any JNull = Some GNil"
| "to_any (JBool b) = Some (GBool b)"
| "to_any (JNum s) = map_option GF64 (num_f64 s)"
| "to_any (JStr s) = Some (GStr s)"
| "to_any (JArr xs) = map_option GArr (those (map to_any xs))"
| "to_any (JObj kvs) =
     map_option (\<lambda>m. GMap (go_map m))
       (those (map (\<lambda>kv. map_option (Pair (fst kv)) (to_any (snd kv))) kvs))"

definition unmarshal :: "string \<Rightarrow> gval option" where
  "unmarshal s = (case parse_json s of None \<Rightarrow> None | Some j \<Rightarrow> to_any j)"

section \<open>Marshal\<close>

text \<open>
  \<open>json.Marshal\<close>: map keys in byte order; NaN and the infinities are errors.  The program applies
  it to normalised values and to values decoded from JSON only; a decimal, which the program
  always normalises first, has no case of its own and is an error of the model.
\<close>

datatype marshal_err = UnsupportedValue f64 | UnsupportedType

definition marshal_f64 :: "f64 \<Rightarrow> marshal_err + jval" where
  "marshal_f64 x =
     (case x of FInf _ \<Rightarrow> Inl (UnsupportedValue x) | FNaN \<Rightarrow> Inl (UnsupportedValue x)
      | _ \<Rightarrow> Inr (JNum (fmt_f64 x)))"

fun marshal :: "gval \<Rightarrow> marshal_err + jval" where
  "marshal GNil = Inr JNull"
| "marshal (GBool b) = Inr (JBool b)"
| "marshal (GStr s) = Inr (JStr s)"
| "marshal (GBytes b) = Inr (JStr (base64 b))"
| "marshal (GInt w) = Inr (JNum (int_str (sint w)))"
| "marshal (GI8 w) = Inr (JNum (int_str (sint w)))"
| "marshal (GI16 w) = Inr (JNum (int_str (sint w)))"
| "marshal (GI32 w) = Inr (JNum (int_str (sint w)))"
| "marshal (GI64 w) = Inr (JNum (int_str (sint w)))"
| "marshal (GUint w) = Inr (JNum (int_str (uint w)))"
| "marshal (GU8 w) = Inr (JNum (int_str (uint w)))"
| "marshal (GU16 w) = Inr (JNum (int_str (uint w)))"
| "marshal (GU32 w) = Inr (JNum (int_str (uint w)))"
| "marshal (GU64 w) = Inr (JNum (int_str (uint w)))"
| "marshal (GF32 x) = marshal_f64 x"
| "marshal (GF64 x) = marshal_f64 x"
| "marshal (GDec d) = Inl UnsupportedType"
| "marshal (GOpaque j) = Inr j"
| "marshal (GMap m) =
     map_sum id JObj (seq_sum (map (\<lambda>kv. map_sum id (Pair (fst kv)) (snd kv))
       (sort_key fst (map (\<lambda>kv. (fst kv, marshal (snd kv))) m))))"
| "marshal (GArr xs) = map_sum id JArr (seq_sum (map marshal xs))"

definition marshal_err_text :: "marshal_err \<Rightarrow> string" where
  "marshal_err_text e =
     (case e of UnsupportedValue x \<Rightarrow> ''json: unsupported value: '' @ fmt_f64 x
      | UnsupportedType \<Rightarrow> ''json: unsupported type'')"

section \<open>canonical and equal\<close>

definition canonical_text :: "marshal_err + jval \<Rightarrow> string" where
  "canonical_text r =
     (case r of
        Inl e \<Rightarrow> ''!'' @ [CHR 0x22] @ marshal_err_text e @ [CHR 0x22]
      | Inr j \<Rightarrow> print_json j)"

definition canonical :: "gval \<Rightarrow> string" where
  "canonical v = canonical_text (marshal (NormValue v))"

definition equal_vals :: "gval \<Rightarrow> gval \<Rightarrow> bool" where
  "equal_vals a b \<longleftrightarrow> canonical a = canonical b"

section \<open>Integers survive the float64 of JSON decoding\<close>

lemma int_bits_double: "0 < n \<Longrightarrow> int_bits (n * 2) = int_bits n + 1"
  by (subst int_bits.simps) simp

lemma int_bits_shift: "0 < n \<Longrightarrow> int_bits (n * 2 ^ j) = int_bits n + int j"
proof (induction j)
  case 0
  then show ?case by simp
next
  case (Suc j)
  then have "int_bits (n * 2 ^ j * 2) = int_bits (n * 2 ^ j) + 1" by (simp add: int_bits_double)
  with Suc show ?case by (simp add: ac_simps)
qed

lemma int_bits_pos: "0 < n \<Longrightarrow> 1 \<le> int_bits n \<and> 2 ^ nat (int_bits n - 1) \<le> n"
proof (induction n rule: int_bits.induct)
  case (1 n)
  show ?case
  proof (cases "n = 1")
    case True
    then show ?thesis by (simp add: int_bits.simps)
  next
    case False
    with "1.prems" have p: "0 < n div 2" by auto
    with 1 have IH: "1 \<le> int_bits (n div 2)" "2 ^ nat (int_bits (n div 2) - 1) \<le> n div 2" by auto
    have e: "int_bits n = 1 + int_bits (n div 2)" using "1.prems" by (simp add: int_bits.simps)
    have "nat (int_bits n - 1) = Suc (nat (int_bits (n div 2) - 1))" using IH e by simp
    then have "(2 :: int) ^ nat (int_bits n - 1) = 2 * 2 ^ nat (int_bits (n div 2) - 1)" by simp
    with IH e show ?thesis by linarith
  qed
qed

lemma int_bits_le: "n < 2 ^ k \<Longrightarrow> int_bits n \<le> int k"
proof (induction k arbitrary: n)
  case 0
  then show ?case by (simp add: int_bits.simps)
next
  case (Suc k)
  then have "int_bits (n div 2) \<le> int k" by (intro Suc.IH) auto
  then show ?case by (subst int_bits.simps) simp
qed

lemma strip_twos_shift: "0 < n \<Longrightarrow> strip_twos (n * 2 ^ j) e = strip_twos n (e + int j)"
proof (induction j arbitrary: e)
  case 0
  then show ?case by simp
next
  case (Suc j)
  have "strip_twos (n * 2 ^ Suc j) e = strip_twos (n * 2 ^ j) (e + 1)"
  proof -
    have "0 < n * 2 ^ j" using Suc.prems by simp
    then show ?thesis
      by (subst strip_twos.simps) (simp only: power_Suc2 mult.assoc [symmetric], simp)
  qed
  with Suc show ?case by (simp add: add.assoc add.commute [of 1])
qed

lemma strip_twos_spec:
  "0 < n \<Longrightarrow> 0 \<le> e \<Longrightarrow>
   \<exists>m x. strip_twos n e = (m, x) \<and> 0 \<le> x \<and> 0 < m \<and> n * 2 ^ nat e = m * 2 ^ nat x"
proof (induction n e rule: strip_twos.induct)
  case (1 n e)
  show ?case
  proof (cases "even n")
    case True
    with "1.prems" have pre: "\<not> n \<le> 0" "0 < n div 2" "0 \<le> e + 1" by auto
    from "1.IH" [OF pre(1) True pre(2,3)] obtain m x where
      mx: "strip_twos (n div 2) (e + 1) = (m, x)" "0 \<le> x" "0 < m"
        "n div 2 * 2 ^ nat (e + 1) = m * 2 ^ nat x" by blast
    have "nat (e + 1) = Suc (nat e)" using "1.prems" by simp
    then have "n * 2 ^ nat e = n div 2 * 2 ^ nat (e + 1)"
      using True by (auto elim!: evenE)
    moreover have "strip_twos n e = (m, x)"
      using pre True mx(1) by (simp add: strip_twos.simps [of n e])
    ultimately show ?thesis using mx by simp
  next
    case False
    with "1.prems" have "strip_twos n e = (n, e)" by (simp add: strip_twos.simps [of n e])
    with "1.prems" show ?thesis by simp
  qed
qed

lemma round_half_even_exact: "0 < d \<Longrightarrow> round_half_even (q * d) d = q"
  by (simp add: round_half_even_def half_even_step_def)

lemma round_at_int:
  assumes "0 < n" and "n \<le> 2 ^ 53"
  shows "round_at n 1 (max (rat_log2 n 1 - 52) (- 1074)) = strip_twos n 0"
proof -
  define k where "k = int_bits n - 1"
  have k: "0 \<le> k" "2 ^ nat k \<le> n" using int_bits_pos [OF assms(1)] by (simp_all add: k_def)
  have one: "int_bits 1 = 1" by (simp add: int_bits.simps)
  have log: "rat_log2 n 1 = k"
    using k by (simp add: rat_log2_def log2_step_def ratio_ge_pow2_def one k_def [symmetric])
  show ?thesis
  proof (cases "n = 2 ^ 53")
    case True
    have "int_bits n = 54" unfolding True by code_simp
    then have "k = 53" by (simp add: k_def)
    with log show ?thesis unfolding True round_at_def by code_simp
  next
    case False
    with assms have "int_bits n \<le> 53" using int_bits_le [of n 53] by simp
    then have k52: "k \<le> 52" by (simp add: k_def)
    show ?thesis
    proof (cases "k = 52")
      case True
      then show ?thesis
        using round_half_even_exact [of 1 n] by (simp add: round_at_def log)
    next
      case False
      with k k52 have e: "max (rat_log2 n 1 - 52) (- 1074) = k - 52" "k - 52 < 0"
        by (simp_all add: log)
      have "round_half_even (n * 2 ^ nat (52 - k)) 1 = n * 2 ^ nat (52 - k)"
        using round_half_even_exact [of 1] by simp
      with e k52 show ?thesis
        by (simp add: round_at_def strip_twos_shift [OF assms(1)])
    qed
  qed
qed

lemma f64_of_int_exact:
  assumes "n \<noteq> 0" and "\<bar>n\<bar> \<le> 2 ^ 53"
  obtains m x where "f64_of_int n = FFin m x" "0 \<le> x" "m * 2 ^ nat x = n"
proof -
  have p: "0 < \<bar>n\<bar>" using assms by simp
  obtain m x where mx: "strip_twos \<bar>n\<bar> 0 = (m, x)" "0 \<le> x" "0 < m" "\<bar>n\<bar> = m * 2 ^ nat x"
    using strip_twos_spec [OF p, of 0] by auto
  have "\<bar>n\<bar> < 2 ^ 54" using assms(2) by simp
  then have "int_bits \<bar>n\<bar> \<le> 54" using int_bits_le [of "\<bar>n\<bar>" 54] by simp
  moreover have "int_bits \<bar>n\<bar> = int_bits m + x"
    using int_bits_shift [OF mx(3), of "nat x"] mx(2,4) by simp
  ultimately have "x + int_bits m \<le> 1024" by simp
  then have "f64_of_int n = FFin (if n < 0 then - m else m) x"
    using assms p mx(3) round_at_int [OF p assms(2)] mx(1)
    by (simp add: f64_of_int_def f64_of_ratio_def)
  moreover have "(if n < 0 then - m else m) * 2 ^ nat x = n"
    using mx(4) by (auto split: if_splits)
  ultimately show thesis using that mx(2) by blast
qed

theorem NormF64_f64_of_int:
  assumes "\<bar>n\<bar> \<le> 2 ^ 53"
  shows "NormF64 (f64_of_int n) = GI64 (word_of_int n)"
proof (cases "n = 0")
  case True
  then show ?thesis
    by (simp add: NormF64_def f64_of_int_def f64_trunc_def int64_of_trunc_def)
next
  case False
  then obtain m x where mx: "f64_of_int n = FFin m x" "0 \<le> x" "m * 2 ^ nat x = n"
    using f64_of_int_exact assms by blast
  have b: "- (2 ^ 63) \<le> n" "n < 2 ^ 63" using assms by auto
  then have w: "f64_to_int64 (f64_of_int n) = word_of_int n"
    by (simp add: mx f64_trunc_def int64_of_trunc_def)
  have "sint (word_of_int n :: 64 word) = n"
    using b by (simp add: sint_sbintrunc' signed_take_bit_int_eq_self)
  with w mx show ?thesis by (simp add: NormF64_def)
qed

section \<open>What the comparison decides\<close>

subsection \<open>Integer literals\<close>

lemma digits_dec_str [simp]:
  "digits_of (dec_str n) = dec_str n" "after_digits (dec_str n) = []"
  by (auto simp: digits_of_def after_digits_def takeWhile_eq_all_conv dropWhile_eq_Nil_conv
      dec_str_digits)

lemma num_unsigned_dec_str: "num_unsigned (dec_str n) = Some (dec_str n, [], 0)"
proof -
  have "dec_str n = ''0''" if "take 1 (dec_str n) = ''0''"
  proof -
    have z: "digit 0 = CHR ''0''" by code_simp
    have "hd (dec_str n) = digit 0"
      using that by (cases "dec_str n") (auto simp: z)
    then have "n \<le> 0" by (rule dec_str_hd_zero)
    then show ?thesis by (simp add: dec_str.simps [of n] z)
  qed
  then show ?thesis by (auto simp: num_unsigned_def)
qed

lemma num_parts_int_str: "num_parts (int_str i) = Some (i < 0, dec_str \<bar>i\<bar>, [], 0)"
proof (cases "i < 0")
  case True
  then show ?thesis by (simp add: int_str_def num_unsigned_dec_str)
next
  case False
  obtain c s where c: "dec_str i = c # s" by (cases "dec_str i") auto
  then have "is_digit c" using dec_str_digits [of c i] by simp
  then have "c \<noteq> CHR ''-''" by auto
  with False c num_unsigned_dec_str [of i] show ?thesis by (simp add: int_str_def)
qed

lemma valid_num_int_str [simp]: "valid_num (int_str i)"
  by (auto simp: valid_num_def num_parts_int_str)
    (auto simp: int_str_def num_char_def dest: dec_str_digits split: if_splits)

definition lit_int :: "string \<Rightarrow> int" where
  "lit_int s = (if take 1 s = ''-'' then - str_dec (drop 1 s) else str_dec s)"

definition int64_lit :: "string \<Rightarrow> bool" where
  "int64_lit s \<longleftrightarrow> s = int_str (lit_int s) \<and> - (2 ^ 63) \<le> lit_int s \<and> lit_int s < 2 ^ 63"

lemma lit_int_int_str [simp]: "lit_int (int_str i) = i"
proof (cases "i < 0")
  case True
  then show ?thesis by (simp add: lit_int_def int_str_def)
next
  case False
  obtain c s where c: "dec_str i = c # s" by (cases "dec_str i") auto
  then have "is_digit c" using dec_str_digits [of c i] by simp
  then have "c \<noteq> CHR ''-''" by auto
  with False c show ?thesis
    using str_dec_dec_str [of i] by (simp add: lit_int_def int_str_def)
qed

lemma int64_lit_sint: "int64_lit (int_str (sint (w :: 64 word)))"
  using sint_range_size [of w] by (simp add: int64_lit_def word_size)

subsection \<open>Values whose canonical text is faithful\<close>

text \<open>
  A normalised value is \<open>canon_ok\<close> when its strings are well-formed UTF-8 and each of its floats
  prints as a literal that reads back and is not the literal of an \<open>int64\<close>.
\<close>

definition f64_prints :: "f64 \<Rightarrow> bool" where
  "f64_prints x \<longleftrightarrow> num_f64 (fmt_f64 x) = Some x \<and> valid_num (fmt_f64 x) \<and> \<not> int64_lit (fmt_f64 x)"

fun canon_ok :: "gval \<Rightarrow> bool" where
  "canon_ok GNil = True"
| "canon_ok (GBool _) = True"
| "canon_ok (GStr s) = valid_utf8 s"
| "canon_ok (GI64 _) = True"
| "canon_ok (GF64 x) = f64_prints x"
| "canon_ok (GMap m) = (\<forall>kv \<in> set m. valid_utf8 (fst kv) \<and> canon_ok (snd kv))"
| "canon_ok (GArr xs) = (\<forall>x \<in> set xs. canon_ok x)"
| "canon_ok _ = False"

text \<open>The JSON tree of such a value.\<close>

fun jtree :: "gval \<Rightarrow> jval" where
  "jtree (GBool b) = JBool b"
| "jtree (GStr s) = JStr s"
| "jtree (GI64 w) = JNum (int_str (sint w))"
| "jtree (GF64 x) = JNum (fmt_f64 x)"
| "jtree (GMap m) = JObj (map (\<lambda>kv. (fst kv, jtree (snd kv))) (sort_key fst m))"
| "jtree (GArr xs) = JArr (map jtree xs)"
| "jtree _ = JNull"

lemma insort_key_map:
  "(\<And>x. k (f x) = k' x) \<Longrightarrow> insort_key k (f x) (map f xs) = map f (insort_key k' x xs)"
  by (induction xs) auto

lemma sort_key_map: "(\<And>x. k (f x) = k' x) \<Longrightarrow> sort_key k (map f xs) = map f (sort_key k' xs)"
  by (induction xs) (auto simp: insort_key_map)

lemma marshal_f64_prints: "f64_prints x \<Longrightarrow> marshal_f64 x = Inr (JNum (fmt_f64 x))"
proof -
  assume "f64_prints x"
  then have v: "valid_num (fmt_f64 x)" by (simp add: f64_prints_def)
  have "\<not> valid_num ''NaN''" "\<not> valid_num ''+Inf''" "\<not> valid_num ''-Inf''"
    by code_simp+
  with v show ?thesis by (cases x) (auto simp: marshal_f64_def split: if_splits)
qed

lemma marshal_jtree: "canon_ok v \<Longrightarrow> marshal v = Inr (jtree v)"
proof (induction v)
  case (GF64 x)
  then show ?case by (simp add: marshal_f64_prints)
next
  case (GMap m)
  have IH: "marshal (snd kv) = Inr (jtree (snd kv))" if "kv \<in> set m" for kv
    using GMap that by (cases kv) auto
  have "seq_sum (map (\<lambda>kv. map_sum id (Pair (fst kv)) (snd kv))
       (sort_key fst (map (\<lambda>kv. (fst kv, marshal (snd kv))) m)))
     = Inr (map (\<lambda>kv. (fst kv, jtree (snd kv))) (sort_key fst m))"
    using IH by (simp add: seq_sum_Inr sort_key_map [where k' = fst] comp_def)
  then show ?case by simp
next
  case (GArr xs)
  then have "seq_sum (map marshal xs) = Inr (map jtree xs)"
    by (simp add: seq_sum_Inr)
  then show ?case by simp
qed auto

lemma valid_j_jtree: "canon_ok v \<Longrightarrow> valid_j (jtree v)"
proof (induction v)
  case (GMap m)
  have "valid_utf8 (fst kv) \<and> valid_j (jtree (snd kv))" if "kv \<in> set m" for kv
    using GMap that by (cases kv) auto
  then show ?case by auto
qed (auto simp: f64_prints_def)

lemma sort_maps_GMap: "sort_maps (GMap m) = GMap (map (\<lambda>kv. (fst kv, sort_maps (snd kv))) (sort_key fst m))"
  by (simp add: sort_key_map [where k' = fst])

declare sort_maps.simps(1) [simp del]

lemma map_eq_transfer:
  assumes "map f xs = map f' ys"
    and "\<And>x y. x \<in> set xs \<Longrightarrow> y \<in> set ys \<Longrightarrow> f x = f' y \<Longrightarrow> g x = g y"
  shows "map g xs = map g ys"
proof (rule nth_equalityI)
  show "length (map g xs) = length (map g ys)"
    using assms(1) by (metis length_map)
next
  fix i assume i: "i < length (map g xs)"
  then have "i < length xs" "i < length ys" using assms(1) by (auto dest: map_eq_imp_length_eq)
  moreover have "f (xs ! i) = f' (ys ! i)"
    using calculation assms(1) by (metis nth_map)
  ultimately show "map g xs ! i = map g ys ! i"
    using assms(2) by (simp add: nth_mem)
qed

lemma f64_prints_not_int: "f64_prints x \<Longrightarrow> fmt_f64 x \<noteq> int_str (sint (w :: 64 word))"
  by (metis f64_prints_def int64_lit_sint)

lemma f64_prints_inject: "f64_prints x \<Longrightarrow> f64_prints y \<Longrightarrow> fmt_f64 x = fmt_f64 y \<Longrightarrow> x = y"
  by (metis f64_prints_def option.inject)

lemma sint_inject [simp]: "sint (v :: 'a::len word) = sint w \<longleftrightarrow> v = w"
  by (auto intro: signed_word_eqI)

lemma jtree_sort_maps:
  "canon_ok a \<Longrightarrow> canon_ok b \<Longrightarrow> jtree a = jtree b \<Longrightarrow> sort_maps a = sort_maps b"
proof (induction a arbitrary: b)
  case (GMap m)
  from GMap.prems obtain m' where b: "b = GMap m'" by (cases b) auto
  have eq: "map (\<lambda>kv. (fst kv, jtree (snd kv))) (sort_key fst m)
      = map (\<lambda>kv. (fst kv, jtree (snd kv))) (sort_key fst m')"
    using GMap.prems by (simp add: b)
  have "map (\<lambda>kv. (fst kv, sort_maps (snd kv))) (sort_key fst m)
      = map (\<lambda>kv. (fst kv, sort_maps (snd kv))) (sort_key fst m')"
  proof (rule map_eq_transfer [OF eq])
    fix x y assume x: "x \<in> set (sort_key fst m)" and y: "y \<in> set (sort_key fst m')"
      and e: "(fst x, jtree (snd x)) = (fst y, jtree (snd y))"
    have "sort_maps (snd x) = sort_maps (snd y)"
      using GMap.IH [of x "snd x" "snd y"] x y e GMap.prems(1,2) b by (cases x) auto
    with e show "(fst x, sort_maps (snd x)) = (fst y, sort_maps (snd y))" by simp
  qed
  then show ?case by (simp add: b sort_maps_GMap)
next
  case (GArr xs)
  from GArr.prems obtain ys where b: "b = GArr ys" by (cases b) auto
  have eq: "map jtree xs = map jtree ys" using GArr.prems by (simp add: b)
  have "map sort_maps xs = map sort_maps ys"
    by (rule map_eq_transfer [OF eq]) (use GArr b in auto)
  then show ?case by (simp add: b)
next
  case (GF64 x)
  then show ?case
    by (cases b) (auto dest: f64_prints_inject simp: f64_prints_not_int)
next
  case (GI64 w)
  then show ?case
    by (cases b) (auto dest: f64_prints_not_int [of _ w] simp: eq_commute [of "int_str _" "fmt_f64 _"])
qed (case_tac b; simp)+

text \<open>Conversely, the tree depends only on the value up to the order of map entries.\<close>

lemma jtree_sort_maps_id: "canon_ok a \<Longrightarrow> jtree (sort_maps a) = jtree a"
proof (induction a)
  case (GMap m)
  have IH: "jtree (sort_maps (snd kv)) = jtree (snd kv)" if "kv \<in> set m" for kv
    using GMap that by (cases kv) auto
  have "sort_key fst (map (\<lambda>kv. (fst kv, sort_maps (snd kv))) (sort_key fst m))
      = map (\<lambda>kv. (fst kv, sort_maps (snd kv))) (sort_key fst m)"
    by (simp add: sort_key_map [where k' = fst] sort_key_id_if_sorted)
  with IH show ?case by (simp add: sort_maps_GMap comp_def)
qed auto

theorem marshal_eq_iff:
  assumes a: "canon_ok a" and b: "canon_ok b"
  shows "print_json (jtree a) = print_json (jtree b) \<longleftrightarrow> same_val a b"
proof -
  have "print_json (jtree a) = print_json (jtree b) \<longleftrightarrow> jtree a = jtree b"
    using print_json_inject valid_j_jtree a b by blast
  also have "\<dots> \<longleftrightarrow> sort_maps a = sort_maps b"
    using jtree_sort_maps [OF a b] jtree_sort_maps_id [OF a] jtree_sort_maps_id [OF b] by auto
  finally show ?thesis by (simp add: same_val_def)
qed

theorem equal_vals_iff:
  assumes "canon_ok (NormValue a)" and "canon_ok (NormValue b)"
  shows "equal_vals a b \<longleftrightarrow> same_val (NormValue a) (NormValue b)"
  using marshal_eq_iff [OF assms]
  by (simp add: equal_vals_def canonical_def canonical_text_def marshal_jtree assms)

lemma equal_vals_refl [simp]: "equal_vals a a"
  by (simp add: equal_vals_def)

lemma equal_vals_sym: "equal_vals a b \<longleftrightarrow> equal_vals b a"
  by (auto simp: equal_vals_def)

lemma equal_vals_trans: "equal_vals a b \<Longrightarrow> equal_vals b c \<Longrightarrow> equal_vals a c"
  by (simp add: equal_vals_def)

section \<open>Values that compare equal and differ\<close>

text \<open>
  Beyond \<open>2 ^ 53\<close> the double loses the last bit: two different literals of a body decode to the
  same value.
\<close>

lemma big_literals_collide:
  "num_f64 ''9007199254740993'' = num_f64 ''9007199254740992''"
  by code_simp

text \<open>Byte strings that are not UTF-8 are all printed with the replacement character, so different
  ones compare equal.\<close>

lemma invalid_utf8_collide: "equal_vals (GBytes [CHR 0xFE]) (GBytes [CHR 0xFF])"
  by code_simp

text \<open>An unsigned column above the range of \<open>int64\<close> wraps to a negative number.\<close>

lemma uint64_collide: "equal_vals (GU64 18446744073709551615) (GI64 (- 1))"
  by code_simp

end
