(* ===== verification/Paths.thy ===== *)
theory Paths
  imports Json
begin

text \<open>
  Noise patterns and sort rules for JSON bodies: \<open>PathMatches\<close>, \<open>StripNoise\<close> and \<open>SortArrays\<close> of
  \<open>internal/diff/diff.go\<close>.  A path is the list of map keys and array indices (in decimal) from
  the root.  The relation \<open>occurs\<close> says which value stands at a path; the effect of stripping is
  stated with it.
\<close>

section \<open>PathMatches\<close>

text \<open>The loop over \<open>i\<close> in the \<open>**\<close> case tries every suffix of the path.\<close>

fun match_segs :: "string list \<Rightarrow> string list \<Rightarrow> bool" where
  "match_segs [] path = (path = [])"
| "match_segs (head # rest) path =
     (if head = ''**'' then list_ex (\<lambda>i. match_segs rest (drop i path)) [0..<length path + 1]
      else (case path of
              [] \<Rightarrow> False
            | p # ps \<Rightarrow> (if head = ''*'' \<or> head = p then match_segs rest ps else False)))"

definition PathMatches :: "string \<Rightarrow> string list \<Rightarrow> bool" where
  "PathMatches pattern path = match_segs (split_on (CHR ''.'') pattern) path"

text \<open>What the pattern language means: \<open>*\<close> stands for one segment, \<open>**\<close> for any number of them.\<close>

inductive glob :: "string list \<Rightarrow> string list \<Rightarrow> bool" where
  glob_Nil: "glob [] []"
| glob_star: "glob ps xs \<Longrightarrow> glob (''*'' # ps) (x # xs)"
| glob_stars: "glob ps xs \<Longrightarrow> glob (''**'' # ps) (ys @ xs)"
| glob_lit: "p \<noteq> ''**'' \<Longrightarrow> glob ps xs \<Longrightarrow> glob (p # ps) (p # xs)"

inductive_simps glob_Nil_iff: "glob [] xs"
inductive_cases glob_ConsE: "glob (p # ps) xs"

lemma match_segs_stars:
  "match_segs (''**'' # rest) path \<longleftrightarrow> (\<exists>ys xs. path = ys @ xs \<and> match_segs rest xs)"
proof -
  have "match_segs (''**'' # rest) path \<longleftrightarrow> (\<exists>i \<le> length path. match_segs rest (drop i path))"
    by (auto simp: list_ex_iff less_Suc_eq_le simp del: upt_Suc)
  also have "\<dots> \<longleftrightarrow> (\<exists>ys xs. path = ys @ xs \<and> match_segs rest xs)"
  proof
    assume "\<exists>i \<le> length path. match_segs rest (drop i path)"
    then show "\<exists>ys xs. path = ys @ xs \<and> match_segs rest xs" by (metis append_take_drop_id)
  next
    assume "\<exists>ys xs. path = ys @ xs \<and> match_segs rest xs"
    then obtain ys xs where "path = ys @ xs" "match_segs rest xs" by blast
    then show "\<exists>i \<le> length path. match_segs rest (drop i path)"
      by (intro exI [of _ "length ys"]) simp
  qed
  finally show ?thesis .
qed

lemma glob_match_segs: "glob pat path \<Longrightarrow> match_segs pat path"
proof (induction rule: glob.induct)
  case (glob_stars ps xs ys)
  then show ?case by (subst match_segs_stars) blast
qed auto

lemma match_segs_glob: "match_segs pat path \<Longrightarrow> glob pat path"
proof (induction pat arbitrary: path)
  case Nil
  then show ?case by (simp add: glob_Nil)
next
  case (Cons p ps)
  show ?case
  proof (cases "p = ''**''")
    case True
    with Cons.prems obtain ys xs where "path = ys @ xs" "match_segs ps xs"
      by (metis match_segs_stars)
    with Cons.IH True show ?thesis by (auto intro: glob_stars)
  next
    case False
    with Cons show ?thesis
      by (auto split: list.splits if_splits intro: glob_star glob_lit)
  qed
qed

lemma match_segs_iff_glob: "match_segs pat path \<longleftrightarrow> glob pat path"
  using glob_match_segs match_segs_glob by blast

lemma match_segs_append_stars: "match_segs (pat @ [''**'']) (xs @ ys)" if "match_segs pat xs"
  using that unfolding match_segs_iff_glob
proof (induction rule: glob.induct)
  case glob_Nil
  have "glob [''**''] (ys @ [])" by (rule glob_stars [OF glob.glob_Nil])
  then show ?case by simp
qed (auto intro: glob.intros)

text \<open>
  C6.  The recursive matcher decides the pattern language: a dotted pattern matches a path exactly
  when the path is generated by the segments of the pattern, \<open>*\<close> standing for one segment, \<open>**\<close>
  for any number of segments and every other segment for itself.
\<close>

theorem PathMatches_glob: "PathMatches pattern path = glob (split_on (CHR ''.'') pattern) path"
  by (simp add: PathMatches_def match_segs_iff_glob)

section \<open>Where a value stands\<close>

inductive occurs :: "gval \<Rightarrow> string list \<Rightarrow> gval \<Rightarrow> bool" where
  occurs_here: "occurs v [] v"
| occurs_key: "(k, x) \<in> set m \<Longrightarrow> occurs x p w \<Longrightarrow> occurs (GMap m) (k # p) w"
| occurs_idx: "i < length xs \<Longrightarrow> occurs (xs ! i) p w \<Longrightarrow> occurs (GArr xs) (nat_str i # p) w"

inductive_simps occurs_Nil [simp]: "occurs v [] w"
inductive_simps occurs_GMap: "occurs (GMap m) (k # p) w"
inductive_simps occurs_GArr: "occurs (GArr xs) (k # p) w"
inductive_cases occurs_ConsE: "occurs v (k # p) w"

lemma occurs_GMap_Cons: "occurs (GMap m) (k # p) w \<longleftrightarrow> (\<exists>x. (k, x) \<in> set m \<and> occurs x p w)"
  by (auto simp: occurs_GMap)

section \<open>StripNoise\<close>

definition is_noise :: "string list \<Rightarrow> string list \<Rightarrow> bool" where
  "is_noise patterns child = list_ex (\<lambda>p. PathMatches p child) patterns"

fun stripNoise :: "gval \<Rightarrow> string list \<Rightarrow> string list \<Rightarrow> gval" where
  "stripNoise (GMap x) patterns path =
     GMap (map (\<lambda>kv. (fst kv, stripNoise (snd kv) patterns (path @ [fst kv])))
            (filter (\<lambda>kv. \<not> is_noise patterns (path @ [fst kv])) x))"
| "stripNoise (GArr x) patterns path =
     GArr (map (\<lambda>(i, val). stripNoise val patterns (path @ [nat_str i])) (enumerate 0 x))"
| "stripNoise v patterns path = v"

definition StripNoise :: "gval \<Rightarrow> string list \<Rightarrow> gval" where
  "StripNoise v patterns = stripNoise v patterns []"

text \<open>
  A path is clean in a value when no map key on it is noise.  Array indices are never noise
  themselves: an array keeps its length.
\<close>

fun clean :: "string list \<Rightarrow> gval \<Rightarrow> string list \<Rightarrow> string list \<Rightarrow> bool" where
  "clean patterns v path [] = True"
| "clean patterns v path (k # p) =
     (case v of
        GMap m \<Rightarrow> \<not> is_noise patterns (path @ [k]) \<and>
          (\<forall>x. (k, x) \<in> set m \<longrightarrow> clean patterns x (path @ [k]) p)
      | GArr xs \<Rightarrow> (\<forall>i < length xs. nat_str i = k \<longrightarrow> clean patterns (xs ! i) (path @ [k]) p)
      | _ \<Rightarrow> True)"

lemma nth_strip_arr:
  "i < length xs \<Longrightarrow>
   map (\<lambda>(i, val). f i val) (enumerate 0 xs) ! i = f i (xs ! i)"
  by (simp add: nth_enumerate_eq)

lemma distinct_keys_eq:
  "distinct (keys m) \<Longrightarrow> (k, x) \<in> set m \<Longrightarrow> (k, y) \<in> set m \<Longrightarrow> x = y"
  by (metis map_of_eqI_distinct option.inject)

lemma stripNoise_key:
  "(k, y) \<in> set (case stripNoise (GMap m) patterns path of GMap m' \<Rightarrow> m' | _ \<Rightarrow> []) \<longleftrightarrow>
   \<not> is_noise patterns (path @ [k]) \<and>
   (\<exists>x. (k, x) \<in> set m \<and> y = stripNoise x patterns (path @ [k]))"
  by (force simp: image_iff)

lemma occurs_stripNoise:
  "wf_val v \<Longrightarrow> occurs (stripNoise v patterns path) p w' \<longleftrightarrow>
   (\<exists>w. occurs v p w \<and> clean patterns v path p \<and> w' = stripNoise w patterns (path @ p))"
proof (induction p arbitrary: v path w')
  case Nil
  then show ?case by auto
next
  case (Cons k p)
  show ?case
  proof (cases v)
    case v: (GMap m)
    with Cons.prems have d: "distinct (keys m)" and wf: "(k, x) \<in> set m \<Longrightarrow> wf_val x" for x
      by force+
    have "occurs (stripNoise v patterns path) (k # p) w' \<longleftrightarrow>
        \<not> is_noise patterns (path @ [k]) \<and>
        (\<exists>x. (k, x) \<in> set m \<and> occurs (stripNoise x patterns (path @ [k])) p w')"
      using stripNoise_key [of k _ m patterns path] by (auto simp: v occurs_GMap_Cons)
    also have "\<dots> \<longleftrightarrow> (\<exists>w. occurs v (k # p) w \<and> clean patterns v path (k # p) \<and>
        w' = stripNoise w patterns (path @ k # p))"
    proof (cases "\<exists>x. (k, x) \<in> set m")
      case True
      then obtain x where x: "(k, x) \<in> set m" by blast
      then have only: "(k, y) \<in> set m \<longleftrightarrow> y = x" for y using distinct_keys_eq [OF d] by blast
      show ?thesis using Cons.IH [OF wf [OF x]] by (auto simp: v occurs_GMap_Cons only)
    qed (simp add: v occurs_GMap_Cons)
    finally show ?thesis .
  next
    case v: (GArr xs)
    with Cons.prems have wf: "i < length xs \<Longrightarrow> wf_val (xs ! i)" for i by simp
    have "occurs (stripNoise v patterns path) (k # p) w' \<longleftrightarrow>
        (\<exists>i < length xs. k = nat_str i \<and> occurs (stripNoise (xs ! i) patterns (path @ [k])) p w')"
      by (auto simp: v occurs_GArr nth_enumerate_eq)
    also have "\<dots> \<longleftrightarrow> (\<exists>w. occurs v (k # p) w \<and> clean patterns v path (k # p) \<and>
        w' = stripNoise w patterns (path @ k # p))"
      using Cons.IH [OF wf] by (auto simp: v occurs_GArr)
    finally show ?thesis .
  qed (auto elim: occurs_ConsE)
qed

text \<open>
  C7.  What \<open>StripNoise\<close> removes: a value stands at a path of the result exactly when a value
  stands there in the original and no map key on the way (the key itself included) matches a noise
  pattern by its full path; it is that value, stripped below.  Values off the noise paths are kept
  where they were.
\<close>

theorem StripNoise_occurs:
  assumes "wf_val v"
  shows "occurs (StripNoise v patterns) p w' =
    (\<exists>w. occurs v p w \<and> clean patterns v [] p \<and> w' = stripNoise w patterns p)"
  using occurs_stripNoise [OF assms, of patterns "[]"] by (simp add: StripNoise_def)

theorem StripNoise_occurs_witness:
  "\<not> occurs (StripNoise (GMap [(''a'', GArr [GMap [(''ts'', GInt 1), (''id'', GInt 2)]]), (''b'', GNil)])
      [''**.ts'']) [''a'', ''0'', ''ts''] (GInt 1)"
proof -
  let ?v = "GMap [(''a'', GArr [GMap [(''ts'', GInt 1), (''id'', GInt 2)]]), (''b'', GNil)]"
  have wf: "wf_val ?v" by (simp add: keys_def)
  have "is_noise [''**.ts''] [''a'', ''0'', ''ts'']" "nat_str 0 = ''0''" by code_simp+
  then have "\<not> clean [''**.ts''] ?v [] [''a'', ''0'', ''ts'']" by simp
  then show ?thesis using StripNoise_occurs [OF wf, of "[''**.ts'']"] by blast
qed

lemma stripNoise_idem:
  "stripNoise (stripNoise v patterns path) patterns path = stripNoise v patterns path"
proof (induction v patterns path rule: stripNoise.induct)
  case (1 x patterns path)
  then show ?case
    by (auto simp: filter_map comp_def filter_filter intro!: map_cong filter_cong)
next
  case (2 x patterns path)
  have "map (\<lambda>(i, val). stripNoise val patterns (path @ [nat_str i]))
      (enumerate 0 (map (\<lambda>(i, val). stripNoise val patterns (path @ [nat_str i])) (enumerate 0 x)))
    = map (\<lambda>(i, val). stripNoise val patterns (path @ [nat_str i])) (enumerate 0 x)"
    (is "?l = ?r")
  proof (rule nth_equalityI)
    fix i assume "i < length ?l"
    then have i: "i < length x" by simp
    then have "(i, x ! i) \<in> set (enumerate 0 x)" by (simp add: in_set_enumerate_eq)
    with 2 i show "?l ! i = ?r ! i" by (simp add: nth_enumerate_eq)
  qed simp
  then show ?case by simp
qed simp_all

lemma StripNoise_idem: "StripNoise (StripNoise v patterns) patterns = StripNoise v patterns"
  by (simp add: StripNoise_def stripNoise_idem)

lemma map_enumerate_id: "(\<And>i x. x \<in> set xs \<Longrightarrow> f i x = x) \<Longrightarrow> map (\<lambda>(i, x). f i x) (enumerate n xs) = xs"
  by (induction xs arbitrary: n) auto

lemma stripNoise_none: "stripNoise v [] path = v"
proof (induction v arbitrary: path)
  case (GMap m)
  have "map (\<lambda>kv. (fst kv, stripNoise (snd kv) [] (path @ [fst kv]))) m = m"
    by (rule map_idI) (auto simp: GMap)
  then show ?case by (simp add: is_noise_def)
next
  case (GArr xs)
  then show ?case by (simp add: map_enumerate_id)
qed simp_all

lemma StripNoise_none [simp]: "StripNoise v [] = v"
  by (simp add: StripNoise_def stripNoise_none)

section \<open>SortArrays\<close>

record SortRule =
  rule_Path :: string
  rule_By :: string

text \<open>\<open>m[k]\<close> on a map of values: the zero value \<open>nil\<close> when the key is absent.\<close>

definition map_get :: "row \<Rightarrow> string \<Rightarrow> gval" where
  "map_get m k = (case map_of m k of None \<Rightarrow> GNil | Some v \<Rightarrow> v)"

definition sortKey :: "string \<Rightarrow> gval \<Rightarrow> string" where
  "sortKey by_key e =
     (if by_key \<noteq> '''' \<and> by_key \<noteq> ''$canonical''
      then (case e of GMap m \<Rightarrow> canonical (map_get m by_key) | _ \<Rightarrow> canonical e)
      else canonical e)"

text \<open>The loop over the rules: the first rule that matches the path sorts, and ends the loop.\<close>

fun sort_by_rules :: "SortRule list \<Rightarrow> string list \<Rightarrow> gval list \<Rightarrow> gval list" where
  "sort_by_rules [] path items = items"
| "sort_by_rules (rule # rules) path items =
     (if \<not> PathMatches (rule_Path rule) path then sort_by_rules rules path items
      else sort_key (sortKey (rule_By rule)) items)"

fun sortArrays :: "gval \<Rightarrow> SortRule list \<Rightarrow> string list \<Rightarrow> gval" where
  "sortArrays (GMap x) rules path =
     GMap (map (\<lambda>kv. (fst kv, sortArrays (snd kv) rules (path @ [fst kv]))) x)"
| "sortArrays (GArr x) rules path =
     GArr (sort_by_rules rules path
       (map (\<lambda>(i, val). sortArrays val rules (path @ [nat_str i])) (enumerate 0 x)))"
| "sortArrays v rules path = v"

definition SortArrays :: "gval \<Rightarrow> SortRule list \<Rightarrow> gval" where
  "SortArrays v rules = sortArrays v rules []"

lemma mset_sort_by_rules [simp]: "mset (sort_by_rules rules path items) = mset items"
  by (induction rules) auto

lemma set_sort_by_rules [simp]: "set (sort_by_rules rules path items) = set items"
  by (metis mset_sort_by_rules set_mset_mset)

lemma length_sort_by_rules [simp]: "length (sort_by_rules rules path items) = length items"
  by (metis mset_sort_by_rules size_mset)

lemma sort_by_rules_first:
  "\<forall>r \<in> set before. \<not> PathMatches (rule_Path r) path \<Longrightarrow> PathMatches (rule_Path rule) path \<Longrightarrow>
   sort_by_rules (before @ rule # after) path items = sort_key (sortKey (rule_By rule)) items"
  by (induction before) auto

lemma sort_by_rules_none:
  "\<forall>r \<in> set rules. \<not> PathMatches (rule_Path r) path \<Longrightarrow> sort_by_rules rules path items = items"
  by (induction rules) auto

lemma sortArrays_none: "sortArrays v [] path = v"
proof (induction v arbitrary: path)
  case (GMap m)
  have "map (\<lambda>kv. (fst kv, sortArrays (snd kv) [] (path @ [fst kv]))) m = m"
    by (rule map_idI) (auto simp: GMap)
  then show ?case by simp
next
  case (GArr xs)
  then show ?case by (simp add: map_enumerate_id)
qed simp_all

lemma SortArrays_none [simp]: "SortArrays v [] = v"
  by (simp add: SortArrays_def sortArrays_none)

subsection \<open>Sorting makes the order of a list irrelevant\<close>

lemma sort_by_rules_find:
  "sort_by_rules rules path items =
     (case find (\<lambda>r. PathMatches (rule_Path r) path) rules of
        None \<Rightarrow> items | Some rule \<Rightarrow> sort_key (sortKey (rule_By rule)) items)"
  by (induction rules) auto

lemma canonical_jtree: "canon_ok (NormValue v) \<Longrightarrow> canonical v = print_json (jtree (NormValue v))"
  by (simp add: canonical_def canonical_text_def marshal_jtree)

lemma equal_vals_jtree:
  "canon_ok (NormValue a) \<Longrightarrow> canon_ok (NormValue b) \<Longrightarrow>
   equal_vals a b \<longleftrightarrow> jtree (NormValue a) = jtree (NormValue b)"
  by (simp add: equal_vals_def canonical_jtree print_json_inject valid_j_jtree)

lemma equal_vals_GArr:
  assumes "list_all2 equal_vals xs ys"
    and "\<forall>x \<in> set xs. canon_ok (NormValue x)" and "\<forall>y \<in> set ys. canon_ok (NormValue y)"
  shows "equal_vals (GArr xs) (GArr ys)"
proof -
  have "list_all2 (\<lambda>a b. jtree (NormValue a) = jtree (NormValue b)) xs ys"
    using assms by (auto simp: list_all2_conv_all_nth equal_vals_jtree)
  then have "map (jtree \<circ> NormValue) xs = map (jtree \<circ> NormValue) ys"
    by (simp add: list_all2_conv_all_nth list_eq_iff_nth_eq)
  with assms show ?thesis by (simp add: equal_vals_jtree)
qed

text \<open>Sorting by canonical text pairs up values that compare equal.\<close>

interpretation by_canonical: sort_identity canonical equal_vals "\<lambda>_. True"
  by unfold_locales (simp add: equal_vals_def)

lemma sorted_canonical_perm:
  assumes m: "mset xs = mset ys"
    and same: "\<And>a b. a \<in> set xs \<Longrightarrow> b \<in> set xs \<Longrightarrow> k a = k b \<Longrightarrow> canonical a = canonical b"
  shows "list_all2 equal_vals (sort_key k xs) (sort_key k ys)"
proof (rule by_canonical.keys_pair_up)
  have eq: "map k (sort_key k xs) = map k (sort_key k ys)"
    using sorted_perm_keys_unique [OF sorted_perm_sort_key _ sorted_perm_sort_key, of k xs k ys]
    by (simp add: m)
  have set_eq: "set ys = set xs" using m by (metis set_mset_mset)
  show "map canonical (sort_key k xs) = map canonical (sort_key k ys)"
  proof (rule map_eq_transfer [OF eq])
    fix x y assume "x \<in> set (sort_key k xs)" "y \<in> set (sort_key k ys)" "k x = k y"
    moreover from this have "x \<in> set xs" "y \<in> set xs" by (simp_all only: set_sort set_eq)
    ultimately show "canonical x = canonical y" by (intro same)
  qed
qed simp

definition sort_elem :: "SortRule list \<Rightarrow> string list \<Rightarrow> gval \<Rightarrow> gval" where
  "sort_elem rules path x = sortArrays x rules (path @ [nat_str 0])"

text \<open>
  C8.  Two arrays with the same elements in different orders compare equal once sorted: the path
  of the arrays is claimed by a rule (the first that matches), what the rules do inside an element
  does not depend on the element's index, and elements with the same sort key compare equal.
\<close>

theorem SortArrays_order_insensitive:
  assumes "find (\<lambda>r. PathMatches (rule_Path r) path) rules = Some rule"
    and "mset xs = mset ys"
    and "\<forall>x \<in> set xs. \<forall>i. sortArrays x rules (path @ [nat_str i]) = sort_elem rules path x"
    and "\<forall>x \<in> set xs. canon_ok (NormValue (sort_elem rules path x))"
    and "\<forall>a \<in> sort_elem rules path ` set xs. \<forall>b \<in> sort_elem rules path ` set xs.
           sortKey (rule_By rule) a = sortKey (rule_By rule) b \<longrightarrow> equal_vals a b"
  shows "equal_vals (sortArrays (GArr xs) rules path) (sortArrays (GArr ys) rules path)"
proof -
  have s: "set ys = set xs" using assms(2) by (metis set_mset_mset)
  have elems: "map (\<lambda>(i, val). sortArrays val rules (path @ [nat_str i])) (enumerate 0 zs)
      = map (sort_elem rules path) zs" if "set zs = set xs" for zs
  proof (rule nth_equalityI)
    fix i assume "i < length (map (\<lambda>(i, val). sortArrays val rules (path @ [nat_str i])) (enumerate 0 zs))"
    then have i: "i < length zs" by simp
    then have "zs ! i \<in> set xs" using that nth_mem by blast
    with assms(3) i show "map (\<lambda>(i, val). sortArrays val rules (path @ [nat_str i])) (enumerate 0 zs) ! i
        = map (sort_elem rules path) zs ! i" by (simp add: nth_enumerate_eq)
  qed simp
  have "list_all2 equal_vals
      (sort_key (sortKey (rule_By rule)) (map (sort_elem rules path) xs))
      (sort_key (sortKey (rule_By rule)) (map (sort_elem rules path) ys))"
  proof (rule sorted_canonical_perm)
    show "mset (map (sort_elem rules path) xs) = mset (map (sort_elem rules path) ys)"
      using assms(2) by simp
    fix a b
    assume "a \<in> set (map (sort_elem rules path) xs)" "b \<in> set (map (sort_elem rules path) xs)"
      "sortKey (rule_By rule) a = sortKey (rule_By rule) b"
    then have "equal_vals a b" using assms(5) unfolding set_map by blast
    then show "canonical a = canonical b" by (simp only: equal_vals_def)
  qed
  with assms(1,4) s show ?thesis
    by (simp add: sort_by_rules_find elems equal_vals_GArr del: sort_by_rules.simps)
qed

theorem SortArrays_order_insensitive_witness:
  "equal_vals
     (sortArrays (GArr [GStr ''b'', GStr ''a'']) [\<lparr>rule_Path = ''items'', rule_By = ''$canonical''\<rparr>] [''items''])
     (sortArrays (GArr [GStr ''a'', GStr ''b'']) [\<lparr>rule_Path = ''items'', rule_By = ''$canonical''\<rparr>] [''items''])"
proof (rule SortArrays_order_insensitive)
  show "find (\<lambda>r. PathMatches (rule_Path r) [''items'']) [\<lparr>rule_Path = ''items'', rule_By = ''$canonical''\<rparr>]
      = Some \<lparr>rule_Path = ''items'', rule_By = ''$canonical''\<rparr>" by code_simp
  have "valid_utf8 ''a''" "valid_utf8 ''b''" by (rule utf8_lit, simp)+
  then show "\<forall>x \<in> set [GStr ''b'', GStr ''a'']. canon_ok (NormValue
      (sort_elem [\<lparr>rule_Path = ''items'', rule_By = ''$canonical''\<rparr>] [''items''] x))"
    by (simp add: sort_elem_def)
qed (auto simp: sort_elem_def sortKey_def equal_vals_def)

end
