(* ===== verification/ResponseDiff.thy ===== *)
theory ResponseDiff
  imports Paths
begin

text \<open>
  The response comparison of \<open>internal/diff/diff.go\<close>: \<open>tryJSON\<close>, \<open>diffJSON\<close> and \<open>DiffResponses\<close>.
  The theorems say when no difference is reported, and that swapping the two sides swaps the two
  sides of every difference.
\<close>

section \<open>Equality of maps and arrays\<close>

lemma map_of_set_iff:
  "distinct (keys m) \<Longrightarrow> distinct (keys m') \<Longrightarrow> map_of m = map_of m' \<longleftrightarrow> set m = set m'"
  by (simp add: keys_def map_of_inject_set)

lemma sort_key_fst_unique:
  fixes m m' :: "('k::linorder \<times> 'v) list"
  assumes d: "distinct (keys m)" "distinct (keys m')" and eq: "set m = set m'"
  shows "sort_key fst m = sort_key fst m'"
proof (rule map_sorted_distinct_set_unique)
  show "inj_on fst (set (sort_key fst m) \<union> set (sort_key fst m'))"
    using d(1) eq by (simp add: keys_def distinct_map)
  have "distinct (map fst (sort_key fst n))" if "distinct (keys n)" for n :: "('k \<times> 'v) list"
    using that by (simp add: keys_def distinct_map)
  with d show "distinct (map fst (sort_key fst m))" "distinct (map fst (sort_key fst m'))" by auto
qed (use eq in simp_all)

lemma keys_map_pair: "keys (map (\<lambda>kv. (fst kv, f (snd kv))) m) = keys m"
  by (simp add: keys_def comp_def)

lemma map_of_map_snd: "map_of (map (\<lambda>kv. (fst kv, f (snd kv))) m) k = map_option f (map_of m k)"
  by (induction m) auto

lemma sort_maps_GMap_eq:
  assumes "distinct (keys m)" and "distinct (keys m')"
  shows "sort_maps (GMap m) = sort_maps (GMap m') \<longleftrightarrow>
    (\<forall>k. map_option sort_maps (map_of m k) = map_option sort_maps (map_of m' k))"
proof -
  let ?f = "\<lambda>m. map (\<lambda>kv. (fst kv, sort_maps (snd kv))) m"
  have s: "sort_maps (GMap n) = GMap (sort_key fst (?f n))" for n
    by (simp add: sort_maps.simps(1))
  have d: "distinct (keys (?f m))" "distinct (keys (?f m'))"
    using assms by (simp_all add: keys_map_pair)
  have "sort_key fst (?f m) = sort_key fst (?f m') \<longleftrightarrow> set (?f m) = set (?f m')"
  proof
    assume "sort_key fst (?f m) = sort_key fst (?f m')"
    then have "set (sort_key fst (?f m)) = set (sort_key fst (?f m'))" by (rule arg_cong)
    then show "set (?f m) = set (?f m')" by (simp only: set_sort)
  qed (rule sort_key_fst_unique [OF d])
  then have "sort_key fst (?f m) = sort_key fst (?f m') \<longleftrightarrow> map_of (?f m) = map_of (?f m')"
    by (simp only: map_of_set_iff [OF d])
  then show ?thesis unfolding s gval.inject by (simp add: fun_eq_iff map_of_map_snd)
qed

lemma canon_ok_GMapD: "canon_ok (NormValue (GMap m)) \<Longrightarrow> (k, v) \<in> set m \<Longrightarrow> canon_ok (NormValue v)"
  by auto

text \<open>Two maps compare equal when they have the same keys and equal values.\<close>

lemma equal_vals_GMap:
  assumes "distinct (keys m)" and "distinct (keys m')"
    and "canon_ok (NormValue (GMap m))" and "canon_ok (NormValue (GMap m'))"
  shows "equal_vals (GMap m) (GMap m') \<longleftrightarrow> (\<forall>k. rel_option equal_vals (map_of m k) (map_of m' k))"
proof -
  let ?n = "\<lambda>m. map (\<lambda>kv. (fst kv, NormValue (snd kv))) m"
  have "equal_vals (GMap m) (GMap m') \<longleftrightarrow> sort_maps (GMap (?n m)) = sort_maps (GMap (?n m'))"
    using equal_vals_iff [OF assms(3,4)] by (simp add: same_val_def)
  also have "\<dots> \<longleftrightarrow> (\<forall>k. map_option sort_maps (map_option NormValue (map_of m k))
      = map_option sort_maps (map_option NormValue (map_of m' k)))"
    using assms(1,2) by (subst sort_maps_GMap_eq) (simp_all add: keys_map_pair map_of_map_snd)
  also have "\<dots> \<longleftrightarrow> (\<forall>k. rel_option equal_vals (map_of m k) (map_of m' k))"
  proof (rule iff_allI)
    fix k
    have ok: "map_of m k = Some v \<Longrightarrow> canon_ok (NormValue v)"
      "map_of m' k = Some v \<Longrightarrow> canon_ok (NormValue v)" for v
      using canon_ok_GMapD assms(3,4) by (metis map_of_SomeD)+
    show "map_option sort_maps (map_option NormValue (map_of m k))
        = map_option sort_maps (map_option NormValue (map_of m' k)) \<longleftrightarrow>
      rel_option equal_vals (map_of m k) (map_of m' k)"
      using ok by (cases "map_of m k"; cases "map_of m' k")
        (auto simp: equal_vals_iff same_val_def)
  qed
  finally show ?thesis .
qed

lemma equal_vals_GArr_iff:
  assumes "canon_ok (NormValue (GArr xs))" and "canon_ok (NormValue (GArr ys))"
  shows "equal_vals (GArr xs) (GArr ys) \<longleftrightarrow> list_all2 equal_vals xs ys"
proof -
  have "equal_vals (GArr xs) (GArr ys) \<longleftrightarrow>
      map (jtree \<circ> NormValue) xs = map (jtree \<circ> NormValue) ys"
    using equal_vals_jtree [OF assms] by simp
  also have "\<dots> \<longleftrightarrow> list_all2 equal_vals xs ys"
    using assms by (auto simp: list_all2_conv_all_nth list_eq_iff_nth_eq equal_vals_jtree)
  finally show ?thesis .
qed

section \<open>tryJSON\<close>

definition tryJSON :: "string \<Rightarrow> gval \<times> bool" where
  "tryJSON body =
     (case unmarshal body of
        None \<Rightarrow> (GNil, False)
      | Some v \<Rightarrow> (case v of GMap _ \<Rightarrow> (v, True) | GArr _ \<Rightarrow> (v, True) | _ \<Rightarrow> (v, False)))"

lemma distinct_go_map: "distinct (keys (go_map kvs))"
proof -
  have "distinct (keys m) \<Longrightarrow> distinct (keys (foldl (\<lambda>m kv. map_set (fst kv) (snd kv) m) m kvs))" for m
    by (induction kvs arbitrary: m) (auto simp: distinct_map_set)
  then show ?thesis by (simp add: go_map_def keys_def)
qed

lemma set_map_set: "set (map_set k v m) \<subseteq> insert (k, v) (set m)"
  by (induction k v m rule: map_set.induct) auto

lemma set_go_map: "set (go_map kvs) \<subseteq> set kvs"
proof -
  have "set (foldl (\<lambda>m kv. map_set (fst kv) (snd kv) m) m kvs) \<subseteq> set m \<union> set kvs" for m
  proof (induction kvs arbitrary: m)
    case (Cons kv kvs)
    have "set (map_set (fst kv) (snd kv) m) \<subseteq> insert kv (set m)"
      using set_map_set [of "fst kv" "snd kv" m] by simp
    with Cons [of "map_set (fst kv) (snd kv) m"] show ?case by auto
  qed simp
  from this [of "[]"] show ?thesis by (simp add: go_map_def)
qed

lemma those_Some_set: "those xs = Some ys \<Longrightarrow> y \<in> set ys \<Longrightarrow> Some y \<in> set xs"
  by (induction xs arbitrary: ys) (auto split: option.splits)

lemma wf_val_to_any: "to_any j = Some v \<Longrightarrow> wf_val v"
proof (induction j arbitrary: v rule: to_any.induct)
  case (5 xs)
  then obtain ys where ys: "those (map to_any xs) = Some ys" "v = GArr ys" by auto
  have "wf_val y" if y: "y \<in> set ys" for y
  proof -
    obtain x where "x \<in> set xs" "to_any x = Some y" using those_Some_set [OF ys(1) y] by auto
    with "5.IH" show ?thesis by blast
  qed
  with ys show ?case by simp
next
  case (6 kvs)
  let ?e = "\<lambda>kv. map_option (Pair (fst kv)) (to_any (snd kv))"
  from "6.prems" obtain m where m: "those (map ?e kvs) = Some m" "v = GMap (go_map m)" by auto
  have "wf_val (snd kv)" if "kv \<in> set (go_map m)" for kv
  proof -
    have "kv \<in> set m" using that set_go_map by blast
    from those_Some_set [OF m(1) this] obtain x where "x \<in> set kvs" "Some kv = ?e x"
      by (auto simp only: set_map image_iff)
    then have "to_any (snd x) = Some (snd kv)" by (cases "to_any (snd x)") auto
    with \<open>x \<in> set kvs\<close> show ?thesis by (rule "6.IH")
  qed
  with m show ?case by (simp add: distinct_go_map)
qed auto

lemma wf_tryJSON: "wf_val (fst (tryJSON body))"
proof (cases "unmarshal body")
  case (Some v)
  then have "wf_val v" by (auto simp: unmarshal_def split: option.splits dest: wf_val_to_any)
  with Some show ?thesis by (cases v) (simp_all add: tryJSON_def)
qed (simp add: tryJSON_def)

lemma wf_stripNoise: "wf_val v \<Longrightarrow> wf_val (stripNoise v patterns path)"
proof (induction v patterns path rule: stripNoise.induct)
  case (1 x patterns path)
  then show ?case
    by (auto simp: keys_map_pair) (auto simp: keys_def distinct_map_filter keys_map_pair comp_def)
next
  case (2 x patterns path)
  then show ?case by (auto simp: in_set_enumerate_eq)
qed auto

lemma wf_sortArrays: "wf_val v \<Longrightarrow> wf_val (sortArrays v rules path)"
proof (induction v rules path rule: sortArrays.induct)
  case (1 x rules path)
  then show ?case by (auto simp: keys_map_pair) (auto simp: keys_def comp_def)
next
  case (2 x rules path)
  then show ?case by (auto simp: in_set_enumerate_eq)
qed auto

section \<open>diffJSON\<close>

record Difference =
  Kind :: string
  Path :: string
  Old :: gval
  New :: gval

definition absent :: gval where
  "absent = GStr ''<absent>''"

definition difference :: "string \<Rightarrow> string \<Rightarrow> gval \<Rightarrow> gval \<Rightarrow> Difference" where
  "difference k p ov nv = \<lparr>Kind = k, Path = p, Old = ov, New = nv\<rparr>"

definition dots :: "string list \<Rightarrow> string" where
  "dots path = join_with ''.'' path"

definition joined :: "string list \<Rightarrow> string" where
  "joined path = (if path = [] then ''$'' else dots path)"

definition go_len :: "'a list \<Rightarrow> gval" where
  "go_len xs = GInt (word_of_nat (length xs))"

text \<open>The differences the function appends to \<open>out\<close>, in order.\<close>

function diffJSON :: "gval \<Rightarrow> gval \<Rightarrow> string list \<Rightarrow> Difference list" where
  "diffJSON old new path =
     (case old of
        GMap oldMap \<Rightarrow>
          (case new of
             GMap newMap \<Rightarrow>
               concat (map (\<lambda>k.
                 (case map_of oldMap k of
                    None \<Rightarrow>
                      [difference ''response'' (dots (path @ [k])) absent (NormValue (map_get newMap k))]
                  | Some ov \<Rightarrow>
                      (case map_of newMap k of
                         None \<Rightarrow> [difference ''response'' (dots (path @ [k])) (NormValue ov) absent]
                       | Some nv \<Rightarrow> diffJSON ov nv (path @ [k]))))
                 (sorted_keys (oldMap @ newMap)))
           | _ \<Rightarrow> if \<not> equal_vals old new
                  then [difference ''response'' (joined path) (NormValue old) (NormValue new)] else [])
      | GArr oldArr \<Rightarrow>
          (case new of
             GArr newArr \<Rightarrow>
               (if length oldArr \<noteq> length newArr
                then [difference ''response'' (joined path @ ''.length'') (go_len oldArr) (go_len newArr)]
                else []) @
               concat (map (\<lambda>(i, ov, nv). diffJSON ov nv (path @ [nat_str i]))
                 (enumerate 0 (zip oldArr newArr)))
           | _ \<Rightarrow> if \<not> equal_vals old new
                  then [difference ''response'' (joined path) (NormValue old) (NormValue new)] else [])
      | _ \<Rightarrow> if \<not> equal_vals old new
             then [difference ''response'' (joined path) (NormValue old) (NormValue new)] else [])"
  by pat_completeness auto

lemma size_zip_enum [termination_simp]:
  "(i, x, y) \<in> set (enumerate n (zip xs ys)) \<Longrightarrow> size x < Suc (size_list size xs)"
proof -
  assume "(i, x, y) \<in> set (enumerate n (zip xs ys))"
  then have "x \<in> set xs" by (auto simp: in_set_enumerate_eq in_set_zip)
  then show ?thesis by (induction xs) auto
qed

lemma size_map_of_snd [termination_simp]:
  "map_of kvs k = Some v \<Longrightarrow> size v < Suc (size_list (\<lambda>x. Suc (size (snd x))) kvs)"
  by (induction kvs) (auto split: if_splits)

termination diffJSON
  by (relation "measure (\<lambda>(a, _, _). size a)") (auto simp: termination_simp)

declare diffJSON.simps [simp del]

declare valid_utf8.simps [simp del]

lemma diffJSON_other:
  "\<not> (\<exists>m m'. old = GMap m \<and> new = GMap m') \<Longrightarrow> \<not> (\<exists>xs ys. old = GArr xs \<and> new = GArr ys) \<Longrightarrow>
   diffJSON old new path =
     (if \<not> equal_vals old new
      then [difference ''response'' (joined path) (NormValue old) (NormValue new)] else [])"
  by (cases old; cases new) (simp_all add: diffJSON.simps)

lemma diffJSON_maps:
  "diffJSON (GMap m) (GMap m') path = [] \<longleftrightarrow>
   (\<forall>k. rel_option (\<lambda>ov nv. diffJSON ov nv (path @ [k]) = []) (map_of m k) (map_of m' k))"
proof -
  have "diffJSON (GMap m) (GMap m') path = [] \<longleftrightarrow>
      (\<forall>k \<in> fst ` set (m @ m').
         rel_option (\<lambda>ov nv. diffJSON ov nv (path @ [k]) = []) (map_of m k) (map_of m' k))"
    (is "_ \<longleftrightarrow> (\<forall>k \<in> _. ?R k)")
  proof -
    have step: "(case map_of m k of
          None \<Rightarrow> [difference ''response'' (dots (path @ [k])) absent (NormValue (map_get m' k))]
        | Some ov \<Rightarrow> (case map_of m' k of
            None \<Rightarrow> [difference ''response'' (dots (path @ [k])) (NormValue ov) absent]
          | Some nv \<Rightarrow> diffJSON ov nv (path @ [k]))) = [] \<longleftrightarrow> ?R k"
      if "k \<in> fst ` set (m @ m')" for k
    proof -
      have "\<not> (map_of m k = None \<and> map_of m' k = None)"
        using that unfolding map_of_eq_None_iff by auto
      then show ?thesis by (cases "map_of m k"; cases "map_of m' k") simp_all
    qed
    have "diffJSON (GMap m) (GMap m') path = [] \<longleftrightarrow> (\<forall>k \<in> set (sorted_keys (m @ m')).
        (case map_of m k of
          None \<Rightarrow> [difference ''response'' (dots (path @ [k])) absent (NormValue (map_get m' k))]
        | Some ov \<Rightarrow> (case map_of m' k of
            None \<Rightarrow> [difference ''response'' (dots (path @ [k])) (NormValue ov) absent]
          | Some nv \<Rightarrow> diffJSON ov nv (path @ [k]))) = [])"
      by (subst diffJSON.simps) (simp only: gval.case concat_eq_Nil_conv set_map ball_simps)
    also have "\<dots> \<longleftrightarrow> (\<forall>k \<in> fst ` set (m @ m'). ?R k)"
      unfolding sorted_keys_set by (rule ball_cong [OF refl step])
    finally show ?thesis .
  qed
  also have "\<dots> \<longleftrightarrow> (\<forall>k. ?R k)"
  proof -
    have "map_of m k = None \<and> map_of m' k = None" if "k \<notin> fst ` set (m @ m')" for k
      using that by (auto simp: map_of_eq_None_iff)
    then show ?thesis by (metis option.rel_intros(1))
  qed
  finally show ?thesis .
qed

lemma diffJSON_arrays:
  "diffJSON (GArr xs) (GArr ys) path = [] \<longleftrightarrow>
   length xs = length ys \<and>
   (\<forall>i < length xs. diffJSON (xs ! i) (ys ! i) (path @ [nat_str i]) = [])"
proof -
  have "diffJSON (GArr xs) (GArr ys) path = [] \<longleftrightarrow> length xs = length ys \<and>
      (\<forall>(i, ov, nv) \<in> set (enumerate 0 (zip xs ys)). diffJSON ov nv (path @ [nat_str i]) = [])"
    by (subst diffJSON.simps) auto
  also have "\<dots> \<longleftrightarrow> length xs = length ys \<and>
      (\<forall>i < length xs. diffJSON (xs ! i) (ys ! i) (path @ [nat_str i]) = [])"
    by (force simp: in_set_enumerate_eq)
  finally show ?thesis .
qed

lemma diffJSON_Nil_iff:
  assumes "wf_val a" and "wf_val b"
    and "canon_ok (NormValue a)" and "canon_ok (NormValue b)"
  shows "diffJSON a b path = [] \<longleftrightarrow> equal_vals a b"
  using assms
proof (induction a arbitrary: b path)
  case (GMap m)
  show ?case
  proof (cases "\<exists>m'. b = GMap m'")
    case True
    then obtain m' where b: "b = GMap m'" by blast
    have IH: "diffJSON ov nv (path @ [k]) = [] \<longleftrightarrow> equal_vals ov nv"
      if o: "map_of m k = Some ov" and n: "map_of m' k = Some nv" for k ov nv
    proof -
      have mem: "(k, ov) \<in> set m" "(k, nv) \<in> set m'" by (rule map_of_SomeD [OF o], rule map_of_SomeD [OF n])
      have "wf_val ov" "wf_val nv" "canon_ok (NormValue ov)" "canon_ok (NormValue nv)"
        using GMap.prems mem by (force simp: b)+
      then show ?thesis using GMap.IH [of "(k, ov)" ov nv "path @ [k]"] mem by simp
    qed
    have "diffJSON (GMap m) b path = [] \<longleftrightarrow>
        (\<forall>k. rel_option (\<lambda>ov nv. diffJSON ov nv (path @ [k]) = []) (map_of m k) (map_of m' k))"
      by (simp add: b diffJSON_maps)
    also have "\<dots> \<longleftrightarrow> (\<forall>k. rel_option equal_vals (map_of m k) (map_of m' k))"
      using IH by (auto simp: option_rel_Some1 rel_option_iff split: option.splits)
    also have "\<dots> \<longleftrightarrow> equal_vals (GMap m) b"
      using GMap.prems by (simp add: b equal_vals_GMap)
    finally show ?thesis .
  qed (simp add: diffJSON_other)
next
  case (GArr xs)
  show ?case
  proof (cases "\<exists>ys. b = GArr ys")
    case True
    then obtain ys where b: "b = GArr ys" by blast
    have "diffJSON (xs ! i) (ys ! i) (path @ [nat_str i]) = [] \<longleftrightarrow> equal_vals (xs ! i) (ys ! i)"
      if "i < length xs" "length xs = length ys" for i
      using GArr.prems that by (intro GArr.IH) (simp_all add: b)
    then show ?thesis
      using GArr.prems
      by (auto simp: b diffJSON_arrays equal_vals_GArr_iff list_all2_conv_all_nth)
  qed (simp add: diffJSON_other)
qed (simp_all add: diffJSON_other)

text \<open>
  No difference is reported exactly when the two values are the same after normalisation, up
  to the order of map entries: the recursive walk finds a difference whenever a key, a length or a
  leaf differs, and none otherwise.  The values are decoded bodies (map keys distinct) whose strings
  are well-formed UTF-8 and whose floats print faithfully.
\<close>

theorem diffJSON_empty_iff:
  assumes "wf_val a" and "wf_val b"
    and "canon_ok (NormValue a)" and "canon_ok (NormValue b)"
  shows "diffJSON a b path = [] \<longleftrightarrow> same_val (NormValue a) (NormValue b)"
  by (simp add: diffJSON_Nil_iff [OF assms] equal_vals_iff assms(3,4))

theorem diffJSON_empty_iff_witness:
  "diffJSON (GMap [(''a'', GInt 1), (''b'', GNil)]) (GMap [(''b'', GNil), (''a'', GI64 1)]) [] = []"
proof -
  have u: "valid_utf8 ''a''" "valid_utf8 ''b''" by (rule utf8_lit, simp)+
  have "same_val (NormValue (GMap [(''a'', GInt 1), (''b'', GNil)]))
      (NormValue (GMap [(''b'', GNil), (''a'', GI64 1)]))" by code_simp
  then show ?thesis
    by (subst diffJSON_empty_iff) (simp_all add: keys_def u)
qed

text \<open>Swapping the two sides swaps the two sides of every difference.\<close>

definition swap_diff :: "Difference \<Rightarrow> Difference" where
  "swap_diff d = difference (Kind d) (Path d) (New d) (Old d)"

lemma swap_difference [simp]: "swap_diff (difference k p a b) = difference k p b a"
  by (simp add: swap_diff_def difference_def)

lemma diffJSON_swap: "diffJSON b a path = map swap_diff (diffJSON a b path)"
proof (induction a b path rule: diffJSON.induct)
  case (1 old new path)
  consider (maps) m m' where "old = GMap m" "new = GMap m'"
    | (arrays) xs ys where "old = GArr xs" "new = GArr ys"
    | (other) "\<not> (\<exists>m m'. old = GMap m \<and> new = GMap m')" "\<not> (\<exists>xs ys. old = GArr xs \<and> new = GArr ys)"
    by blast
  then show ?case
  proof cases
    case (maps m m')
    have keys: "sorted_keys (m' @ m) = sorted_keys (m @ m')"
      by (rule sorted_distinct_set_unique) (simp_all add: Un_commute)
    let ?side = "\<lambda>m m' k. (case map_of m k of
          None \<Rightarrow> [difference ''response'' (dots (path @ [k])) absent (NormValue (map_get m' k))]
        | Some ov \<Rightarrow> (case map_of m' k of
            None \<Rightarrow> [difference ''response'' (dots (path @ [k])) (NormValue ov) absent]
          | Some nv \<Rightarrow> diffJSON ov nv (path @ [k])))"
    have "?side m' m k = map swap_diff (?side m m' k)" if k: "k \<in> set (sorted_keys (m @ m'))" for k
    proof (cases "map_of m k")
      case None
      then obtain nv where "map_of m' k = Some nv"
        using k by (cases "map_of m' k") (auto simp: map_of_eq_None_iff image_Un)
      with None show ?thesis by (simp add: map_get_def)
    next
      case (Some ov)
      then show ?thesis using "1.IH"(1) [OF maps k Some]
        by (cases "map_of m' k") (simp_all add: map_get_def)
    qed
    then show ?thesis
      unfolding maps diffJSON.simps [of "GMap _"] gval.case keys map_concat map_map comp_def
      by (intro arg_cong [of _ _ concat] map_cong) auto
  next
    case (arrays xs ys)
    have "map (\<lambda>(i, ov, nv). diffJSON ov nv (path @ [nat_str i])) (enumerate 0 (zip ys xs)) =
        map (map swap_diff \<circ> (\<lambda>(i, ov, nv). diffJSON ov nv (path @ [nat_str i])))
          (enumerate 0 (zip xs ys))"
    proof (rule nth_equalityI)
      fix i assume "i < length (map (\<lambda>(i, ov, nv). diffJSON ov nv (path @ [nat_str i]))
        (enumerate 0 (zip ys xs)))"
      then have i: "i < length xs" "i < length ys" by auto
      then have m: "(i, xs ! i, ys ! i) \<in> set (enumerate 0 (zip xs ys))"
        by (simp add: in_set_enumerate_eq)
      show "map (\<lambda>(i, ov, nv). diffJSON ov nv (path @ [nat_str i])) (enumerate 0 (zip ys xs)) ! i
        = map (map swap_diff \<circ> (\<lambda>(i, ov, nv). diffJSON ov nv (path @ [nat_str i])))
          (enumerate 0 (zip xs ys)) ! i"
        using "1.IH"(2) [OF arrays m refl refl] i by (simp add: nth_enumerate_eq)
    qed simp
    then show ?thesis
      unfolding arrays diffJSON.simps [of "GArr _"] gval.case
      by (simp add: map_concat comp_def)
  next
    case other
    then show ?thesis
      using diffJSON_other [of new old path] diffJSON_other [of old new path]
      by (auto simp: equal_vals_sym [of new])
  qed
qed

section \<open>DiffResponses\<close>

record Options =
  NoisePaths :: "string list"
  CompareHeaders :: "string list"
  opt_SortArrays :: "SortRule list"

text \<open>\<open>m[h]\<close> on a map of strings: the empty string when the header is absent.\<close>

definition header_get :: "(string \<times> string) list \<Rightarrow> string \<Rightarrow> string" where
  "header_get m h = (case map_of m h of None \<Rightarrow> '''' | Some v \<Rightarrow> v)"

definition header_diffs ::
  "string list \<Rightarrow> (string \<times> string) list \<Rightarrow> (string \<times> string) list \<Rightarrow> Difference list" where
  "header_diffs hs oldHeaders newHeaders =
     concat (map (\<lambda>h.
       if header_get oldHeaders h \<noteq> header_get newHeaders h
       then [difference ''response'' (''header.'' @ h)
               (GStr (header_get oldHeaders h)) (GStr (header_get newHeaders h))]
       else []) hs)"

definition normalize_body :: "Options \<Rightarrow> gval \<Rightarrow> gval" where
  "normalize_body opts v = SortArrays (StripNoise v (NoisePaths opts)) (opt_SortArrays opts)"

definition body_diffs :: "string \<Rightarrow> string \<Rightarrow> Options \<Rightarrow> Difference list" where
  "body_diffs oldBody newBody opts =
     (let (oldParsed, oldIsJSON) = tryJSON oldBody;
          (newParsed, newIsJSON) = tryJSON newBody
      in if oldIsJSON \<or> newIsJSON
         then diffJSON (normalize_body opts oldParsed) (normalize_body opts newParsed) []
         else if oldBody \<noteq> newBody
         then [difference ''response'' ''body'' (GStr oldBody) (GStr newBody)] else [])"

definition DiffResponses ::
  "64 word \<Rightarrow> string \<Rightarrow> 64 word \<Rightarrow> string \<Rightarrow> (string \<times> string) list \<Rightarrow> (string \<times> string) list \<Rightarrow>
   Options \<Rightarrow> Difference list" where
  "DiffResponses oldStatus oldBody newStatus newBody oldHeaders newHeaders opts =
     (if oldStatus \<noteq> newStatus
      then [difference ''response'' ''status'' (GInt oldStatus) (GInt newStatus)] else []) @
     header_diffs (CompareHeaders opts) oldHeaders newHeaders @
     body_diffs oldBody newBody opts"

definition body_val :: "Options \<Rightarrow> string \<Rightarrow> gval" where
  "body_val opts body = normalize_body opts (fst (tryJSON body))"

definition is_json :: "string \<Rightarrow> bool" where
  "is_json body = snd (tryJSON body)"

lemma wf_body_val: "wf_val (body_val opts body)"
  by (simp add: body_val_def normalize_body_def SortArrays_def StripNoise_def
      wf_sortArrays wf_stripNoise wf_tryJSON)

lemma body_diffs_empty:
  assumes "canon_ok (NormValue (body_val opts oldBody))"
    and "canon_ok (NormValue (body_val opts newBody))"
  shows "body_diffs oldBody newBody opts = [] \<longleftrightarrow>
    (if is_json oldBody \<or> is_json newBody
     then equal_vals (body_val opts oldBody) (body_val opts newBody) else oldBody = newBody)"
  using diffJSON_Nil_iff [OF wf_body_val wf_body_val assms, of "[]"]
  by (auto simp: body_diffs_def is_json_def body_val_def split: prod.splits)

lemma header_diffs_empty:
  "header_diffs hs oh nh = [] \<longleftrightarrow> (\<forall>h \<in> set hs. header_get oh h = header_get nh h)"
  by (auto simp: header_diffs_def)

text \<open>
  C2.  Two responses show no difference exactly when the status codes are equal, every compared
  header has the same value on both sides (an absent header counts as empty), and the bodies agree:
  as values after noise stripping and array sorting when one of them is a JSON object or array,
  byte for byte otherwise.
\<close>

theorem DiffResponses_empty_iff:
  assumes "canon_ok (NormValue (body_val opts oldBody))"
    and "canon_ok (NormValue (body_val opts newBody))"
  shows "DiffResponses os oldBody ns newBody oh nh opts = [] \<longleftrightarrow>
    os = ns \<and> (\<forall>h \<in> set (CompareHeaders opts). header_get oh h = header_get nh h) \<and>
    (if is_json oldBody \<or> is_json newBody
     then equal_vals (body_val opts oldBody) (body_val opts newBody) else oldBody = newBody)"
  using body_diffs_empty [OF assms] by (auto simp: DiffResponses_def header_diffs_empty)

definition demo_opts :: Options where
  "demo_opts = \<lparr>NoisePaths = [''**.ts''], CompareHeaders = [''etag''],
     opt_SortArrays = [\<lparr>rule_Path = ''items'', rule_By = ''$canonical''\<rparr>]\<rparr>"

theorem DiffResponses_empty_iff_witness:
  "DiffResponses 200 ''{ }'' 200 ''{}'' [] [(''etag'', '''')] demo_opts = []"
proof -
  have "unmarshal ''{ }'' = Some (GMap [])" "unmarshal ''{}'' = Some (GMap [])" by code_simp+
  then have v: "body_val demo_opts ''{ }'' = GMap []" "body_val demo_opts ''{}'' = GMap []"
    and j: "is_json ''{}''"
    by (simp_all add: body_val_def is_json_def tryJSON_def normalize_body_def StripNoise_def
        SortArrays_def)
  show ?thesis
    by (subst DiffResponses_empty_iff)
      (simp_all add: v j, simp_all add: demo_opts_def header_get_def)
qed

text \<open>The comparison is symmetric in the two stacks, difference by difference.\<close>

lemma header_diffs_swap: "header_diffs hs nh oh = map swap_diff (header_diffs hs oh nh)"
  by (auto simp: header_diffs_def map_concat comp_def intro!: arg_cong [of _ _ concat] map_cong)

lemma body_diffs_swap: "body_diffs nb ob opts = map swap_diff (body_diffs ob nb opts)"
proof -
  obtain ov oj nv nj where "tryJSON ob = (ov, oj)" "tryJSON nb = (nv, nj)"
    by (cases "tryJSON ob"; cases "tryJSON nb") auto
  then show ?thesis
    using diffJSON_swap [of "normalize_body opts nv" "normalize_body opts ov" "[]"]
    by (simp add: body_diffs_def disj_commute)
qed

text \<open>
  Swapping the old and the new stack swaps the two sides of every reported difference and
  changes nothing else: the number, the order and the paths of the differences stay the same.
\<close>

theorem DiffResponses_swap:
  "DiffResponses ns nb os ob nh oh opts = map swap_diff (DiffResponses os ob ns nb oh nh opts)"
  by (auto simp: DiffResponses_def header_diffs_swap [of _ nh oh] body_diffs_swap [of nb ob])

end
