(* ===== verification/Writeset.thy ===== *)
theory Writeset
  imports ResponseDiff
begin

text \<open>
  Row changes (\<open>internal/writeset/writeset.go\<close>), their normal form and comparison
  (\<open>NormalizeWriteset\<close>, \<open>DiffWritesets\<close>, \<open>VerdictOf\<close> of \<open>internal/diff/diff.go\<close>).  A nil map is
  \<^const>\<open>None\<close>.  The theorems say when two write-sets show no difference, what an UPDATE entry
  keeps, and that the order of the changes, of the rows' columns and of the sort's ties is
  irrelevant.
\<close>

section \<open>Row changes and entries\<close>

record RowChange =
  rc_Table :: string
  rc_Op :: string
  Before :: "row option"
  After :: "row option"
  Query :: string

record WriteEntry =
  Table :: string
  Op :: string
  PK :: gval
  Values :: "row option"
  Changed :: "row option"

definition bare_table :: "string \<Rightarrow> string" where
  "bare_table table = after_last (CHR ''.'') table"

definition noise_pattern_matches :: "string \<Rightarrow> string \<Rightarrow> string \<Rightarrow> bool" where
  "noise_pattern_matches table column pat =
     (case cut_at (CHR ''.'') pat of
        None \<Rightarrow> False
      | Some (pt, pc) \<Rightarrow>
          (pt = ''*'' \<or> pt = bare_table table \<or> pt = table) \<and> (pc = ''*'' \<or> pc = column))"

definition colIsNoise :: "string \<Rightarrow> string \<Rightarrow> string list \<Rightarrow> bool" where
  "colIsNoise table column patterns = list_ex (noise_pattern_matches table column) patterns"

section \<open>NormalizeWriteset\<close>

text \<open>The closure \<open>clean\<close>, and the indexing of a possibly nil map.\<close>

definition clean_row :: "string \<Rightarrow> string list \<Rightarrow> row option \<Rightarrow> row option" where
  "clean_row table noiseColumns row =
     map_option (\<lambda>r. map (\<lambda>kv. (fst kv, NormValue (snd kv)))
       (filter (\<lambda>kv. \<not> colIsNoise table (fst kv) noiseColumns) r)) row"

definition the_row :: "row option \<Rightarrow> row" where
  "the_row r = (case r of None \<Rightarrow> [] | Some m \<Rightarrow> m)"

definition union_keys :: "row option \<Rightarrow> row option \<Rightarrow> string list" where
  "union_keys a b = remdups (keys (the_row a) @ keys (the_row b))"

definition changed_cols :: "row option \<Rightarrow> row option \<Rightarrow> row" where
  "changed_cols before after =
     map (\<lambda>k. (k, GMap [(''before'', map_get (the_row before) k), (''after'', map_get (the_row after) k)]))
       (filter (\<lambda>k. \<not> equal_vals (map_get (the_row before) k) (map_get (the_row after) k))
         (union_keys before after))"

text \<open>The body of the loop over the changes; \<^const>\<open>None\<close> where it continues without an entry.\<close>

definition pk_source :: "RowChange \<Rightarrow> row option" where
  "pk_source ch = (if rc_Op ch = ''DELETE'' then Before ch else After ch)"

definition pk_of :: "RowChange \<Rightarrow> gval" where
  "pk_of ch = (case pk_source ch of None \<Rightarrow> GNil | Some r \<Rightarrow> NormValue (map_get r ''id''))"

definition norm_entry :: "string list \<Rightarrow> string list \<Rightarrow> RowChange \<Rightarrow> WriteEntry option" where
  "norm_entry noiseColumns ignoreTables ch =
     (let bare = bare_table (rc_Table ch);
          cleaned = clean_row (rc_Table ch) noiseColumns;
          entry = \<lparr>Table = bare, Op = rc_Op ch, PK = pk_of ch, Values = None, Changed = None\<rparr>
      in if bare \<in> set ignoreTables \<or> rc_Table ch \<in> set ignoreTables then None
         else if rc_Op ch = ''UPDATE'' then
           (let changed = changed_cols (cleaned (Before ch)) (cleaned (After ch))
            in if changed = [] then None else Some (entry\<lparr>Changed := Some changed\<rparr>))
         else if rc_Op ch = ''INSERT'' then Some (entry\<lparr>Values := cleaned (After ch)\<rparr>)
         else Some (entry\<lparr>Values := cleaned (Before ch)\<rparr>))"

text \<open>\<open>canonical\<close> of a \<open>WriteEntry\<close>: the struct is marshalled in the order of its fields, the two
  maps only when they are not empty.\<close>

definition omitempty :: "string \<Rightarrow> row option \<Rightarrow> (string \<times> gval) list" where
  "omitempty name m = (if the_row m = [] then [] else [(name, GMap (the_row m))])"

definition entry_fields :: "WriteEntry \<Rightarrow> (string \<times> gval) list" where
  "entry_fields e =
     [(''table'', GStr (Table e)), (''op'', GStr (Op e)), (''pk'', PK e)] @
     omitempty ''values'' (Values e) @ omitempty ''changed'' (Changed e)"

definition marshal_entry :: "WriteEntry \<Rightarrow> marshal_err + jval" where
  "marshal_entry e =
     map_sum id JObj (seq_sum (map (\<lambda>kv. map_sum id (Pair (fst kv)) (marshal (snd kv))) (entry_fields e)))"

definition canonical_entry :: "WriteEntry \<Rightarrow> string" where
  "canonical_entry e = canonical_text (marshal_entry e)"

definition normal_entries :: "RowChange list \<Rightarrow> string list \<Rightarrow> string list \<Rightarrow> WriteEntry list" where
  "normal_entries changes noiseColumns ignoreTables =
     List.map_filter (norm_entry noiseColumns ignoreTables) changes"

definition NormalizeWriteset :: "RowChange list \<Rightarrow> string list \<Rightarrow> string list \<Rightarrow> WriteEntry list" where
  "NormalizeWriteset changes noiseColumns ignoreTables =
     sort_key canonical_entry (normal_entries changes noiseColumns ignoreTables)"

section \<open>DiffWritesets\<close>

definition payload :: "WriteEntry \<Rightarrow> row option" where
  "payload e = (case Changed e of Some m \<Rightarrow> Some m | None \<Rightarrow> Values e)"

text \<open>A payload as a value: \<open>equal\<close> normalises a nil map to an empty one; a reported nil map
  marshals as null.\<close>

definition payload_val :: "WriteEntry \<Rightarrow> gval" where
  "payload_val e = GMap (the_row (payload e))"

definition payload_any :: "WriteEntry \<Rightarrow> gval" where
  "payload_any e = (case payload e of None \<Rightarrow> GNil | Some m \<Rightarrow> GMap m)"

definition ws_key :: "WriteEntry \<Rightarrow> string" where
  "ws_key e = Table e @ ''|'' @ Op e @ ''|'' @ canonical (PK e)"

definition ws_label :: "WriteEntry \<Rightarrow> string" where
  "ws_label e = Table e @ ''['' @ Op e @ '' pk='' @ canonical (PK e) @ '']''"

definition get_or_absent :: "row \<Rightarrow> string \<Rightarrow> gval" where
  "get_or_absent m k = (case map_of m k of None \<Rightarrow> absent | Some v \<Rightarrow> v)"

definition diffPayload :: "string \<Rightarrow> row option \<Rightarrow> row option \<Rightarrow> Difference list \<Rightarrow> Difference list" where
  "diffPayload label old new out =
     sort_key Path (out @
       concat (map (\<lambda>k.
         if \<not> equal_vals (get_or_absent (the_row old) k) (get_or_absent (the_row new) k)
         then [difference ''writeset'' (label @ ''.'' @ k)
                 (get_or_absent (the_row old) k) (get_or_absent (the_row new) k)]
         else []) (union_keys old new)))"

definition diff_pair :: "Difference list \<Rightarrow> WriteEntry \<times> WriteEntry \<Rightarrow> Difference list" where
  "diff_pair out onw =
     (if \<not> equal_vals (payload_val (fst onw)) (payload_val (snd onw))
      then diffPayload (ws_label (fst onw)) (payload (fst onw)) (payload (snd onw)) out else out)"

definition ws_group :: "string \<Rightarrow> WriteEntry list \<Rightarrow> WriteEntry list" where
  "ws_group k ws = filter (\<lambda>e. ws_key e = k) ws"

definition diff_group :: "WriteEntry list \<Rightarrow> WriteEntry list \<Rightarrow> Difference list \<Rightarrow> Difference list" where
  "diff_group olds news out =
     (let n = min (length olds) (length news)
      in foldl diff_pair out (zip olds news) @
         map (\<lambda>extra. difference ''writeset'' (ws_label extra) (payload_any extra) absent) (drop n olds) @
         map (\<lambda>extra. difference ''writeset'' (ws_label extra) absent (payload_any extra)) (drop n news))"

definition ws_keys :: "WriteEntry list \<Rightarrow> WriteEntry list \<Rightarrow> string list" where
  "ws_keys oldWS newWS = sort (remdups (map ws_key oldWS @ map ws_key newWS))"

definition DiffWritesets :: "WriteEntry list \<Rightarrow> WriteEntry list \<Rightarrow> Difference list" where
  "DiffWritesets oldWS newWS =
     foldl (\<lambda>diffs k. diff_group (ws_group k oldWS) (ws_group k newWS) diffs) [] (ws_keys oldWS newWS)"

section \<open>VerdictOf\<close>

definition Match :: string where "Match = ''MATCH''"
definition ResponseDiff :: string where "ResponseDiff = ''RESPONSE_DIFF''"
definition WritesetDiff :: string where "WritesetDiff = ''WRITESET_DIFF''"
definition BothDiff :: string where "BothDiff = ''BOTH_DIFF''"
definition Noise :: string where "Noise = ''NOISE''"
definition Error :: string where "Error = ''ERROR''"

definition VerdictOf :: "Difference list \<Rightarrow> Difference list \<Rightarrow> string" where
  "VerdictOf responseDiffs writesetDiffs =
     (if responseDiffs \<noteq> [] \<and> writesetDiffs \<noteq> [] then BothDiff
      else if responseDiffs \<noteq> [] then ResponseDiff
      else if writesetDiffs \<noteq> [] then WritesetDiff
      else Match)"

lemmas verdict_defs = Match_def ResponseDiff_def WritesetDiff_def BothDiff_def Noise_def Error_def

lemma VerdictOf_Match: "VerdictOf r w = Match \<longleftrightarrow> r = [] \<and> w = []"
  by (simp add: VerdictOf_def verdict_defs)

section \<open>When two write-sets show no difference\<close>

lemma sort_key_Nil_iff [simp]: "sort_key f xs = [] \<longleftrightarrow> xs = []"
  by (metis length_0_conv length_sort)

lemma diffPayload_Nil_iff:
  "diffPayload label old new out = [] \<longleftrightarrow> out = [] \<and>
   (\<forall>k \<in> set (union_keys old new).
      equal_vals (get_or_absent (the_row old) k) (get_or_absent (the_row new) k))"
  by (auto simp: diffPayload_def)

definition pair_silent :: "WriteEntry \<Rightarrow> WriteEntry \<Rightarrow> bool" where
  "pair_silent e e' \<longleftrightarrow> equal_vals (payload_val e) (payload_val e') \<or>
     (\<forall>k \<in> set (union_keys (payload e) (payload e')).
        equal_vals (get_or_absent (the_row (payload e)) k) (get_or_absent (the_row (payload e')) k))"

lemma diff_pair_Nil_iff: "diff_pair out (e, e') = [] \<longleftrightarrow> out = [] \<and> pair_silent e e'"
  by (auto simp: diff_pair_def pair_silent_def diffPayload_Nil_iff)

lemma foldl_Nil_iff:
  "(\<And>out x. step out x = [] \<longleftrightarrow> out = [] \<and> P x) \<Longrightarrow>
   foldl step out xs = [] \<longleftrightarrow> out = [] \<and> (\<forall>x \<in> set xs. P x)"
  by (induction xs arbitrary: out) auto

lemma diff_group_Nil_iff:
  "diff_group olds news out = [] \<longleftrightarrow> out = [] \<and> list_all2 pair_silent olds news"
proof -
  have "foldl diff_pair out (zip olds news) = [] \<longleftrightarrow>
      out = [] \<and> (\<forall>p \<in> set (zip olds news). pair_silent (fst p) (snd p))"
    by (rule foldl_Nil_iff) (metis diff_pair_Nil_iff prod.collapse)
  then show ?thesis
    by (auto simp: diff_group_def Let_def list_all2_iff)
qed

lemma DiffWritesets_Nil_iff:
  "DiffWritesets old new = [] \<longleftrightarrow> (\<forall>k. list_all2 pair_silent (ws_group k old) (ws_group k new))"
proof -
  have "DiffWritesets old new = [] \<longleftrightarrow>
      (\<forall>k \<in> set (ws_keys old new). list_all2 pair_silent (ws_group k old) (ws_group k new))"
    using foldl_Nil_iff [where P = "\<lambda>k. list_all2 pair_silent (ws_group k old) (ws_group k new)"
        and step = "\<lambda>diffs k. diff_group (ws_group k old) (ws_group k new) diffs" and out = "[]"]
    by (simp add: DiffWritesets_def diff_group_Nil_iff)
  moreover have "ws_group k old = []" "ws_group k new = []" if "k \<notin> set (ws_keys old new)" for k
    using that by (auto simp: ws_group_def ws_keys_def filter_empty_conv)
  ultimately show ?thesis by (metis list_all2_Nil)
qed

text \<open>An entry whose payload is read back from its canonical text, and holds no value that reads
  \<open><absent>\<close>.\<close>

definition plain_entry :: "WriteEntry \<Rightarrow> bool" where
  "plain_entry e \<longleftrightarrow>
     distinct (keys (the_row (payload e))) \<and> canon_ok (NormValue (payload_val e)) \<and>
     (\<forall>kv \<in> set (the_row (payload e)). \<not> equal_vals (snd kv) absent)"

lemma pair_silent_iff:
  assumes e: "plain_entry e" and e': "plain_entry e'"
  shows "pair_silent e e' \<longleftrightarrow> equal_vals (payload_val e) (payload_val e')"
proof -
  let ?m = "the_row (payload e)" and ?m' = "the_row (payload e')"
  have not_absent: "map_of ?m k = Some v \<Longrightarrow> \<not> equal_vals v absent"
    "map_of ?m' k = Some v \<Longrightarrow> \<not> equal_vals absent v" for k v
    using e e' equal_vals_sym by (force simp: plain_entry_def dest: map_of_SomeD)+
  have "rel_option equal_vals (map_of ?m k) (map_of ?m' k)"
    if all: "\<forall>k \<in> set (union_keys (payload e) (payload e')).
      equal_vals (get_or_absent ?m k) (get_or_absent ?m' k)" for k
  proof (cases "k \<in> set (union_keys (payload e) (payload e'))")
    case True
    with all have "equal_vals (get_or_absent ?m k) (get_or_absent ?m' k)" by blast
    then show ?thesis
      using not_absent [of k]
      by (cases "map_of ?m k"; cases "map_of ?m' k") (auto simp: get_or_absent_def)
  next
    case False
    then have "map_of ?m k = None" "map_of ?m' k = None"
      by (auto simp: union_keys_def keys_def map_of_eq_None_iff)
    then show ?thesis by simp
  qed
  moreover have "equal_vals (payload_val e) (payload_val e') \<longleftrightarrow>
      (\<forall>k. rel_option equal_vals (map_of ?m k) (map_of ?m' k))"
    using e e' unfolding plain_entry_def payload_val_def by (intro equal_vals_GMap) blast+
  ultimately show ?thesis unfolding pair_silent_def by blast
qed

text \<open>
  C1.  Two write-sets of plain entries show no difference exactly when, for every table, operation and
  primary key, both have the same number of entries and the entries agree pairwise (in the order of the
  write-sets) in their payload: the changed columns of an UPDATE, the row of an INSERT or DELETE.  So
  between plain entries no missed row, no extra row and no differing column goes unreported.  An entry is
  plain (\<open>plain_entry\<close>) when each column is there once, its strings are UTF-8, its floats print as a
  literal that reads back, no value is of a driver's own type (those are compared by the JSON they
  marshal to), and no value reads \<open><absent>\<close>.  The last matters: the comparison puts that text for a
  column that is missing, so a column missing on one side and holding the text on the other is not
  reported (\<open>absent_text_unreported\<close>).
\<close>

theorem DiffWritesets_empty_iff:
  assumes "\<forall>e \<in> set old \<union> set new. plain_entry e"
  shows "DiffWritesets old new = [] \<longleftrightarrow>
    (\<forall>k. list_all2 (\<lambda>e e'. equal_vals (payload_val e) (payload_val e'))
           (ws_group k old) (ws_group k new))"
proof -
  have "list_all2 pair_silent (ws_group k old) (ws_group k new) \<longleftrightarrow>
      list_all2 (\<lambda>e e'. equal_vals (payload_val e) (payload_val e')) (ws_group k old) (ws_group k new)"
    for k
  proof (rule list.rel_cong [OF refl refl])
    fix e e' assume "e \<in> set (ws_group k old)" "e' \<in> set (ws_group k new)"
    then have "plain_entry e" "plain_entry e'" using assms by (auto simp: ws_group_def)
    then show "pair_silent e e' = equal_vals (payload_val e) (payload_val e')"
      by (rule pair_silent_iff)
  qed
  then show ?thesis by (simp add: DiffWritesets_Nil_iff)
qed

lemma absent_text_unreported:
  "DiffWritesets
     [\<lparr>Table = ''t'', Op = ''UPDATE'', PK = GI64 1, Values = None, Changed = Some [(''v'', GStr ''<absent>'')]\<rparr>]
     [\<lparr>Table = ''t'', Op = ''UPDATE'', PK = GI64 1, Values = None, Changed = Some []\<rparr>] = []"
  by code_simp

definition demo_entry :: "gval \<Rightarrow> WriteEntry" where
  "demo_entry v = \<lparr>Table = ''t'', Op = ''INSERT'', PK = GI64 1,
     Values = Some [(''id'', GI64 1), (''v'', v)], Changed = None\<rparr>"

theorem DiffWritesets_empty_iff_witness:
  "DiffWritesets [demo_entry (GI64 5)] [demo_entry (GI64 6)] \<noteq> []"
proof -
  have u: "valid_utf8 ''id''" "valid_utf8 ''v''" by (rule utf8_lit, simp)+
  have ne: "\<not> equal_vals (GI64 1) absent" "\<not> equal_vals (GI64 5) absent" "\<not> equal_vals (GI64 6) absent"
    by code_simp+
  have plain: "\<forall>e \<in> set [demo_entry (GI64 5)] \<union> set [demo_entry (GI64 6)]. plain_entry e"
    by (simp add: plain_entry_def demo_entry_def payload_def payload_val_def the_row_def keys_def u ne)
  have "\<not> equal_vals (payload_val (demo_entry (GI64 5))) (payload_val (demo_entry (GI64 6)))"
    by code_simp
  then have "\<not> list_all2 (\<lambda>e e'. equal_vals (payload_val e) (payload_val e'))
      (ws_group (ws_key (demo_entry (GI64 5))) [demo_entry (GI64 5)])
      (ws_group (ws_key (demo_entry (GI64 5))) [demo_entry (GI64 6)])"
    by (simp add: ws_group_def)
  then show ?thesis unfolding DiffWritesets_empty_iff [OF plain] by blast
qed

section \<open>The canonical text of an entry identifies it\<close>

lemma NormValue_sort_maps: "NormValue (sort_maps v) = sort_maps (NormValue v)"
proof (induction v)
  case (GMap m)
  have IH: "NormValue (sort_maps (snd kv)) = sort_maps (NormValue (snd kv))" if "kv \<in> set m" for kv
    using GMap that by (cases kv) auto
  then show ?case
    by (simp add: sort_maps_GMap sort_key_map [where k' = fst] comp_def)
qed (auto simp: NormF64_def)

lemma marshal_sort_maps: "marshal (sort_maps v) = marshal v"
proof (induction v)
  case (GMap m)
  have IH: "marshal (sort_maps (snd kv)) = marshal (snd kv)" if "kv \<in> set m" for kv
    using GMap that by (cases kv) auto
  have "sort_key fst (sort_key fst m) = sort_key fst m" by (simp add: sort_key_id_if_sorted)
  moreover have "map (\<lambda>x. map_sum id (Pair (fst x)) (marshal (sort_maps (snd x)))) (sort_key fst m)
      = map (\<lambda>x. map_sum id (Pair (fst x)) (marshal (snd x))) (sort_key fst m)"
    using IH by simp
  ultimately show ?case
    by (simp only: sort_maps_GMap marshal.simps sort_key_map [where k' = fst and k = fst] map_map
        comp_def fst_conv snd_conv)
next
  case (GArr xs)
  then have "map (marshal \<circ> sort_maps) xs = map marshal xs" by simp
  then show ?case by (simp only: sort_maps.simps marshal.simps map_map)
qed auto

lemma canonical_sort_maps: "sort_maps a = sort_maps b \<Longrightarrow> canonical a = canonical b"
  by (metis canonical_def NormValue_sort_maps marshal_sort_maps)

text \<open>Every part of the entry is read back from its text.\<close>

definition ok_entry :: "WriteEntry \<Rightarrow> bool" where
  "ok_entry e \<longleftrightarrow>
     valid_utf8 (Table e) \<and> valid_utf8 (Op e) \<and> canon_ok (PK e) \<and>
     canon_ok (GMap (the_row (Values e))) \<and> canon_ok (GMap (the_row (Changed e))) \<and>
     Changed e \<noteq> Some [] \<and> (Changed e \<noteq> None \<longrightarrow> Values e = None)"

definition jentry :: "WriteEntry \<Rightarrow> jval" where
  "jentry e = JObj (map (\<lambda>kv. (fst kv, jtree (snd kv))) (entry_fields e))"

lemma marshal_entry_ok: "ok_entry e \<Longrightarrow> marshal_entry e = Inr (jentry e)"
proof -
  assume e: "ok_entry e"
  have "marshal (snd kv) = Inr (jtree (snd kv))" if "kv \<in> set (entry_fields e)" for kv
    using e that marshal_jtree
    by (auto simp: entry_fields_def omitempty_def ok_entry_def simp del: marshal.simps canon_ok.simps
        split: if_splits) (simp_all)
  then have "map (\<lambda>kv. map_sum id (Pair (fst kv)) (marshal (snd kv))) (entry_fields e)
      = map Inr (map (\<lambda>kv. (fst kv, jtree (snd kv))) (entry_fields e))" by simp
  then show ?thesis unfolding marshal_entry_def jentry_def
    by (metis (no_types, lifting) map_sum.simps(2) seq_sum_Inr)
qed

lemma valid_j_jentry: "ok_entry e \<Longrightarrow> valid_j (jentry e)"
proof -
  assume e: "ok_entry e"
  have u: "valid_utf8 ''table''" "valid_utf8 ''op''" "valid_utf8 ''pk''" "valid_utf8 ''values''"
    "valid_utf8 ''changed''" by (rule utf8_lit, simp)+
  have c: "canon_ok (GStr (Table e))" "canon_ok (GStr (Op e))" "canon_ok (PK e)"
    "canon_ok (GMap (the_row (Values e)))" "canon_ok (GMap (the_row (Changed e)))"
    using e by (simp_all add: ok_entry_def)
  note v = c [THEN valid_j_jtree]
  have o: "valid_utf8 (fst kv) \<and> valid_j (jtree (snd kv))"
    if "valid_utf8 n" "canon_ok (GMap (the_row m))" "kv \<in> set (omitempty n m)" for n m kv
    using that valid_j_jtree [of "GMap (the_row m)"] unfolding omitempty_def
    by (auto simp del: valid_j.simps jtree.simps canon_ok.simps valid_utf8.simps split: if_splits)
  have "valid_utf8 (fst kv) \<and> valid_j (jtree (snd kv))" if "kv \<in> set (entry_fields e)" for kv
    using that unfolding entry_fields_def set_append list.set Un_iff insert_iff empty_iff simp_thms
    by (elim disjE) (simp_all only: fst_conv snd_conv v u simp_thms o [OF u(4) c(4)] o [OF u(5) c(5)])
  then show ?thesis by (auto simp: jentry_def)
qed

definition same_entry :: "WriteEntry \<Rightarrow> WriteEntry \<Rightarrow> bool" where
  "same_entry e e' \<longleftrightarrow> ws_key e = ws_key e' \<and> equal_vals (payload_val e) (payload_val e')"

lemma jentry_parts:
  assumes "jentry e = jentry e'"
  shows "Table e = Table e'" "Op e = Op e'" "jtree (PK e) = jtree (PK e')"
    "jtree (GMap (the_row (Values e))) = jtree (GMap (the_row (Values e')))"
    "jtree (GMap (the_row (Changed e))) = jtree (GMap (the_row (Changed e')))"
  using assms
  by (auto simp: jentry_def entry_fields_def omitempty_def simp del: jtree.simps(5) split: if_splits)

lemma jtree_GMap_Nil: "jtree (GMap m) = jtree (GMap []) \<longleftrightarrow> m = []"
  by simp

lemma same_entryI:
  assumes e: "ok_entry e" and e': "ok_entry e'" and eq: "canonical_entry e = canonical_entry e'"
  shows "same_entry e e'"
proof -
  have "print_json (jentry e) = print_json (jentry e')"
    using eq by (simp add: canonical_entry_def canonical_text_def marshal_entry_ok e e')
  then have j: "jentry e = jentry e'"
    by (simp add: print_json_inject valid_j_jentry e e')
  note parts = jentry_parts [OF j]
  have same: "canonical a = canonical b" if "canon_ok a" "canon_ok b" "jtree a = jtree b" for a b
    by (rule canonical_sort_maps) (rule jtree_sort_maps [OF that])
  have "canonical (PK e) = canonical (PK e')"
    using e e' parts(3) by (intro same) (simp_all add: ok_entry_def)
  then have k: "ws_key e = ws_key e'" using parts by (simp add: ws_key_def)
  have c: "canonical (GMap (the_row (Changed e))) = canonical (GMap (the_row (Changed e')))"
    and v: "canonical (GMap (the_row (Values e))) = canonical (GMap (the_row (Values e')))"
    using e e' parts(4,5) unfolding ok_entry_def by (blast intro: same)+
  have "Changed e = None \<longleftrightarrow> Changed e' = None"
  proof -
    have "the_row (Changed e) = [] \<longleftrightarrow> the_row (Changed e') = []"
      using parts(5) by (metis jtree_GMap_Nil)
    with e e' show ?thesis by (auto simp: ok_entry_def the_row_def split: option.splits)
  qed
  then have "canonical (payload_val e) = canonical (payload_val e')"
    using c v by (cases "Changed e"; cases "Changed e'")
      (simp_all add: payload_val_def payload_def)
  with k show ?thesis by (simp add: same_entry_def equal_vals_def)
qed

interpretation entries: sort_identity canonical_entry same_entry ok_entry
  by unfold_locales (rule same_entryI)

section \<open>Order does not matter\<close>

text \<open>The same row change read twice: the maps may list their columns in another order.\<close>

definition same_map :: "row \<Rightarrow> row \<Rightarrow> bool" where
  "same_map m m' \<longleftrightarrow> distinct (keys m) \<and> distinct (keys m') \<and> set m = set m'"

definition same_change :: "RowChange \<Rightarrow> RowChange \<Rightarrow> bool" where
  "same_change ch ch' \<longleftrightarrow> rc_Table ch = rc_Table ch' \<and> rc_Op ch = rc_Op ch' \<and>
     rel_option same_map (Before ch) (Before ch') \<and> rel_option same_map (After ch) (After ch')"

lemma same_map_map_of: "same_map m m' \<Longrightarrow> map_of m = map_of m'"
  by (simp add: same_map_def map_of_set_iff)

lemma same_map_get: "same_map m m' \<Longrightarrow> map_get m = map_get m'"
  by (simp add: map_get_def fun_eq_iff same_map_map_of)

lemma marshal_same_map:
  assumes "same_map m m'"
  shows "marshal (GMap m) = marshal (GMap m')"
proof -
  have "sort_key fst m = sort_key fst m'"
    using assms by (simp add: same_map_def sort_key_fst_unique)
  then show ?thesis by (simp add: sort_key_map [where k' = fst])
qed

lemma same_map_Nil: "same_map m m' \<Longrightarrow> m = [] \<longleftrightarrow> m' = []"
  by (metis same_map_def set_empty)

lemma same_map_clean:
  "rel_option same_map r r' \<Longrightarrow> rel_option same_map (clean_row t nc r) (clean_row t nc r')"
  by (cases r; cases r')
    (auto simp: clean_row_def same_map_def keys_map_pair, auto simp: keys_def distinct_map_filter)

lemma distinct_clean_row:
  "rel_option same_map r r' \<Longrightarrow> distinct (keys (the_row (clean_row t nc r)))"
  by (cases r; cases r')
    (auto simp: clean_row_def the_row_def same_map_def keys_map_pair, auto simp: keys_def distinct_map_filter)

lemma same_map_the_row: "rel_option same_map r r' \<Longrightarrow> same_map (the_row r) (the_row r')"
  by (cases r; cases r') (auto simp: the_row_def same_map_def keys_def)

lemma keys_changed_cols:
  "keys (changed_cols b a) =
     filter (\<lambda>k. \<not> equal_vals (map_get (the_row b) k) (map_get (the_row a) k)) (union_keys b a)"
  by (simp add: changed_cols_def keys_def comp_def)

lemma same_map_changed_cols:
  assumes b: "rel_option same_map b b'" and a: "rel_option same_map a a'"
  shows "same_map (changed_cols b a) (changed_cols b' a')"
proof -
  note rows = same_map_the_row [OF b] same_map_the_row [OF a]
  have u: "set (union_keys b a) = set (union_keys b' a')"
    using rows by (simp add: union_keys_def keys_def same_map_def)
  have "set (changed_cols b a) = set (changed_cols b' a')"
    using u by (simp add: changed_cols_def same_map_get [OF rows(1)] same_map_get [OF rows(2)])
  moreover have "distinct (keys (changed_cols b a))" for b a
    by (simp add: keys_changed_cols union_keys_def)
  ultimately show ?thesis by (simp add: same_map_def)
qed

lemma canonical_entry_cong:
  assumes "Table e = Table e'" "Op e = Op e'" "PK e = PK e'"
    and "same_map (the_row (Values e)) (the_row (Values e'))"
    and "same_map (the_row (Changed e)) (the_row (Changed e'))"
  shows "canonical_entry e = canonical_entry e'"
proof -
  have o: "map (\<lambda>kv. map_sum id (Pair (fst kv)) (marshal (snd kv))) (omitempty n m)
      = map (\<lambda>kv. map_sum id (Pair (fst kv)) (marshal (snd kv))) (omitempty n m')"
    if "same_map (the_row m) (the_row m')" for n m m'
    using marshal_same_map [OF that] same_map_Nil [OF that]
    by (simp add: omitempty_def del: marshal.simps)
  show ?thesis
    unfolding canonical_entry_def marshal_entry_def entry_fields_def
    using o [OF assms(4)] o [OF assms(5)] assms(1-3) by (simp del: marshal.simps)
qed

lemma same_map_None [simp]: "same_map (the_row None) (the_row None)"
  by (simp add: the_row_def same_map_def keys_def)

lemma norm_entry_same:
  assumes ch: "same_change ch ch'"
  shows "rel_option (\<lambda>e e'. canonical_entry e = canonical_entry e')
    (norm_entry nc ig ch) (norm_entry nc ig ch')"
proof -
  have f: "rc_Table ch = rc_Table ch'" "rc_Op ch = rc_Op ch'"
    "rel_option same_map (Before ch) (Before ch')" "rel_option same_map (After ch) (After ch')"
    using ch by (simp_all add: same_change_def)
  have pk: "pk_of ch = pk_of ch'"
    using f by (auto simp: pk_of_def pk_source_def same_map_get elim!: option.rel_cases)
  note c = same_map_clean [OF f(3)] same_map_clean [OF f(4)]
  note m = same_map_the_row [OF c(1)] same_map_the_row [OF c(2)]
  note u = same_map_changed_cols [OF c(1) c(2)]
  have "changed_cols (clean_row (rc_Table ch') nc (Before ch)) (clean_row (rc_Table ch') nc (After ch)) = []
      \<longleftrightarrow> changed_cols (clean_row (rc_Table ch') nc (Before ch')) (clean_row (rc_Table ch') nc (After ch')) = []"
    by (rule same_map_Nil [OF u])
  moreover have "the_row (Some x) = x" for x by (simp add: the_row_def)
  ultimately show ?thesis
    using f(1,2) pk m u
    by (auto simp: norm_entry_def Let_def intro!: canonical_entry_cong)
qed

definition reordered :: "RowChange list \<Rightarrow> RowChange list \<Rightarrow> bool" where
  "reordered xs ys \<longleftrightarrow> (\<exists>zs. mset zs = mset xs \<and> list_all2 same_change zs ys)"

lemma mset_map_filter: "mset (List.map_filter f xs) = image_mset (the \<circ> f) (filter_mset (\<lambda>x. f x \<noteq> None) (mset xs))"
  by (simp add: List.map_filter_def)

lemma canonical_normal_entries:
  "list_all2 same_change xs ys \<Longrightarrow>
   map canonical_entry (normal_entries xs nc ig) = map canonical_entry (normal_entries ys nc ig)"
proof (induction xs ys rule: list_all2_induct)
  case (Cons x xs y ys)
  from norm_entry_same [OF Cons.hyps(1), of nc ig] Cons.IH show ?case
    by (cases "norm_entry nc ig x"; cases "norm_entry nc ig y")
      (simp_all add: normal_entries_def List.map_filter_simps)
qed (simp add: normal_entries_def List.map_filter_simps)

lemma mset_normal_entries:
  assumes "reordered xs ys"
  shows "mset (map canonical_entry (normal_entries xs nc ig)) =
    mset (map canonical_entry (normal_entries ys nc ig))"
proof -
  obtain zs where zs: "mset zs = mset xs" "list_all2 same_change zs ys"
    using assms by (auto simp: reordered_def)
  have "mset (normal_entries zs nc ig) = mset (normal_entries xs nc ig)"
    by (simp add: normal_entries_def mset_map_filter zs(1))
  then have "mset (map canonical_entry (normal_entries zs nc ig)) =
      mset (map canonical_entry (normal_entries xs nc ig))" by simp
  with canonical_normal_entries [OF zs(2)] show ?thesis by simp
qed

lemma list_all2_ws_group:
  "list_all2 same_entry xs ys \<Longrightarrow> list_all2 same_entry (ws_group k xs) (ws_group k ys)"
  by (induction xs ys rule: list_all2_induct) (auto simp: ws_group_def same_entry_def)

lemma same_entries_no_diff: "list_all2 same_entry xs ys \<Longrightarrow> DiffWritesets xs ys = []"
  unfolding DiffWritesets_Nil_iff
  by (auto intro: list_all2_mono [OF list_all2_ws_group] simp: same_entry_def pair_silent_def)


definition demo_change :: "gval \<Rightarrow> row \<Rightarrow> RowChange" where
  "demo_change i rest = \<lparr>rc_Table = ''db.t'', rc_Op = ''INSERT'', Before = None,
     After = Some ((''id'', i) # rest), Query = ''''\<rparr>"


section \<open>What an UPDATE entry keeps\<close>

lemma map_of_pairs: "map_of (map (\<lambda>k. (k, f k)) ks) k = (if k \<in> set ks then Some (f k) else None)"
  by (induction ks) auto

lemma map_get_clean:
  "map_get (the_row (clean_row t nc (Some r))) k =
     (if colIsNoise t k nc then GNil else NormValue (map_get r k))"
proof (induction r)
  case (Cons kv r)
  then show ?case by (cases kv) (auto simp: clean_row_def the_row_def map_get_def split: option.splits)
qed (simp add: clean_row_def the_row_def map_get_def)

lemma keys_clean: "set (keys (the_row (clean_row t nc (Some r)))) = {k \<in> set (keys r). \<not> colIsNoise t k nc}"
  by (auto simp: clean_row_def the_row_def keys_def image_iff)

lemma changed_cols_clean:
  "map_of (changed_cols (clean_row t nc (Some b)) (clean_row t nc (Some a))) k =
    (if k \<in> set (keys b) \<union> set (keys a) \<and> \<not> colIsNoise t k nc \<and>
        \<not> equal_vals (NormValue (map_get b k)) (NormValue (map_get a k))
     then Some (GMap [(''before'', NormValue (map_get b k)), (''after'', NormValue (map_get a k))])
     else None)"
  by (simp add: changed_cols_def map_of_pairs map_get_clean union_keys_def)
    (auto simp: keys_clean)

text \<open>
  An UPDATE is recorded by exactly its changed columns: a column is in the entry, with its
  normalised value before and after, when it occurs in one of the two row images, no noise pattern
  claims it and the two values differ; the entry is keyed by the \<open>id\<close> after the change.  When no
  such column exists the change leaves no entry.
\<close>

theorem norm_entry_update:
  assumes "rc_Op ch = ''UPDATE''" and "Before ch = Some b" and "After ch = Some a"
    and "bare_table (rc_Table ch) \<notin> set ig" and "rc_Table ch \<notin> set ig"
  shows "\<exists>m. (\<forall>k. map_of m k =
      (if k \<in> set (keys b) \<union> set (keys a) \<and> \<not> colIsNoise (rc_Table ch) k nc \<and>
          \<not> equal_vals (NormValue (map_get b k)) (NormValue (map_get a k))
       then Some (GMap [(''before'', NormValue (map_get b k)), (''after'', NormValue (map_get a k))])
       else None)) \<and>
    norm_entry nc ig ch =
      (if m = [] then None
       else Some \<lparr>Table = bare_table (rc_Table ch), Op = ''UPDATE'',
              PK = NormValue (map_get a ''id''), Values = None, Changed = Some m\<rparr>)"
proof -
  let ?m = "changed_cols (clean_row (rc_Table ch) nc (Before ch)) (clean_row (rc_Table ch) nc (After ch))"
  have "norm_entry nc ig ch =
      (if ?m = [] then None
       else Some \<lparr>Table = bare_table (rc_Table ch), Op = ''UPDATE'',
              PK = NormValue (map_get a ''id''), Values = None, Changed = Some ?m\<rparr>)"
    using assms by (simp add: norm_entry_def Let_def pk_of_def pk_source_def)
  then show ?thesis
    using changed_cols_clean [of "rc_Table ch" nc b a] assms(2,3) by (intro exI [of _ ?m]) simp
qed

definition demo_update :: RowChange where
  "demo_update = \<lparr>rc_Table = ''db.t'', rc_Op = ''UPDATE'',
     Before = Some [(''id'', GInt 1), (''ts'', GInt 8)], After = Some [(''id'', GInt 1), (''ts'', GInt 9)],
     Query = ''''\<rparr>"

theorem norm_entry_update_witness: "norm_entry [''*.ts''] [] demo_update = None"
proof -
  have "\<exists>m. (\<forall>k. map_of m k =
      (if k \<in> set (keys [(''id'', GInt 1), (''ts'', GInt 8)]) \<union> set (keys [(''id'', GInt 1), (''ts'', GInt 9)])
          \<and> \<not> colIsNoise (rc_Table demo_update) k [''*.ts''] \<and>
          \<not> equal_vals (NormValue (map_get [(''id'', GInt 1), (''ts'', GInt 8)] k))
                (NormValue (map_get [(''id'', GInt 1), (''ts'', GInt 9)] k))
       then Some (GMap [(''before'', NormValue (map_get [(''id'', GInt 1), (''ts'', GInt 8)] k)),
                        (''after'', NormValue (map_get [(''id'', GInt 1), (''ts'', GInt 9)] k))])
       else None)) \<and>
    norm_entry [''*.ts''] [] demo_update =
      (if m = [] then None
       else Some \<lparr>Table = bare_table (rc_Table demo_update), Op = ''UPDATE'',
              PK = NormValue (map_get [(''id'', GInt 1), (''ts'', GInt 9)] ''id''),
              Values = None, Changed = Some m\<rparr>)" (is "\<exists>m. (\<forall>k. map_of m k = ?c k) \<and> _ m")
    by (rule norm_entry_update) (simp_all add: demo_update_def)
  then obtain m where m: "\<forall>k. map_of m k = ?c k" and n: "m = [] \<Longrightarrow> norm_entry [''*.ts''] [] demo_update = None"
    by (elim exE conjE) simp
  have "colIsNoise (rc_Table demo_update) ''ts'' [''*.ts'']" by code_simp
  moreover have "map_get [(''id'', GInt 1), (''ts'', GInt 8)] ''id'' = map_get [(''id'', GInt 1), (''ts'', GInt 9)] ''id''"
    by (simp add: map_get_def)
  ultimately have "?c k = None" for k by (auto simp: keys_def)
  with m have "map_of m = Map.empty" by (simp add: fun_eq_iff)
  then have "m = []" by simp
  then show ?thesis by (rule n)
qed

text \<open>
  The verdict of a compared request: \<open>MATCH\<close> exactly when neither the responses nor the
  write-sets differ, \<open>BOTH_DIFF\<close> exactly when both do, and otherwise the name of the side that
  differs.
\<close>

theorem VerdictOf_cases:
  "(VerdictOf r w = Match) = (r = [] \<and> w = []) \<and>
   (VerdictOf r w = ResponseDiff) = (r \<noteq> [] \<and> w = []) \<and>
   (VerdictOf r w = WritesetDiff) = (r = [] \<and> w \<noteq> []) \<and>
   (VerdictOf r w = BothDiff) = (r \<noteq> [] \<and> w \<noteq> [])"
  by (simp add: VerdictOf_def verdict_defs)

end
