(* ===== verification/Reread.thy ===== *)
theory Reread
  imports Writeset
begin

text \<open>
  Values written as JSON and read back, as the golden files and recorded bodies are: a value decoded
  from JSON comes back as it was, up to the order of map entries, and a normalised column value
  comes back as a value that normalises to itself, for integers up to \<open>2 ^ 53\<close>.
\<close>

section \<open>Values decoded from JSON\<close>

fun json_val :: "gval \<Rightarrow> bool" where
  "json_val GNil = True"
| "json_val (GBool _) = True"
| "json_val (GStr s) = valid_utf8 s"
| "json_val (GF64 x) = (num_f64 (fmt_f64 x) = Some x \<and> valid_num (fmt_f64 x))"
| "json_val (GMap m) = (distinct (keys m) \<and> (\<forall>kv \<in> set m. valid_utf8 (fst kv) \<and> json_val (snd kv)))"
| "json_val (GArr xs) = (\<forall>x \<in> set xs. json_val x)"
| "json_val _ = False"

text \<open>Normalised column values that survive the way through JSON.\<close>

fun col_ok :: "gval \<Rightarrow> bool" where
  "col_ok GNil = True"
| "col_ok (GBool _) = True"
| "col_ok (GStr s) = valid_utf8 s"
| "col_ok (GI64 w) = (\<bar>sint w\<bar> \<le> 2 ^ 53)"
| "col_ok (GF64 x) = (f64_prints x \<and> NormF64 x = GF64 x)"
| "col_ok (GMap m) = (distinct (keys m) \<and> (\<forall>kv \<in> set m. valid_utf8 (fst kv) \<and> col_ok (snd kv)))"
| "col_ok (GArr xs) = (\<forall>x \<in> set xs. col_ok x)"
| "col_ok _ = False"

lemma col_ok_canon_ok: "col_ok v \<Longrightarrow> canon_ok v"
proof (induction v)
  case (GMap m)
  then have "valid_utf8 (fst kv) \<and> canon_ok (snd kv)" if "kv \<in> set m" for kv
    using that by (cases kv) auto
  then show ?case by simp
qed auto

lemma marshal_f64_valid: "valid_num (fmt_f64 x) \<Longrightarrow> marshal_f64 x = Inr (JNum (fmt_f64 x))"
proof -
  assume v: "valid_num (fmt_f64 x)"
  have "\<not> valid_num ''NaN''" "\<not> valid_num ''+Inf''" "\<not> valid_num ''-Inf''"
    by code_simp+
  with v show ?thesis by (cases x) (auto simp: marshal_f64_def split: if_splits)
qed

lemma marshal_json_val: "json_val v \<Longrightarrow> marshal v = Inr (jtree v)"
proof (induction v)
  case (GF64 x)
  then show ?case by (simp add: marshal_f64_valid)
next
  case (GMap m)
  have IH: "marshal (snd kv) = Inr (jtree (snd kv))" if "kv \<in> set m" for kv
    using GMap that by (cases kv) auto
  have "seq_sum (map (\<lambda>kv. map_sum id (Pair (fst kv)) (snd kv))
       (sort_key fst (map (\<lambda>kv. (fst kv, marshal (snd kv))) m)))
     = Inr (map (\<lambda>kv. (fst kv, jtree (snd kv))) (sort_key fst m))"
    using IH by (simp add: seq_sum_Inr sort_key_map [where k' = fst] comp_def)
  then show ?case by simp
next
  case (GArr xs)
  then have "seq_sum (map marshal xs) = Inr (map jtree xs)" by (simp add: seq_sum_Inr)
  then show ?case by simp
qed auto

lemma valid_j_json_val: "json_val v \<Longrightarrow> valid_j (jtree v)"
proof (induction v)
  case (GMap m)
  have "valid_utf8 (fst kv) \<and> valid_j (jtree (snd kv))" if "kv \<in> set m" for kv
    using GMap that by (cases kv) auto
  then show ?case by auto
qed auto

lemma those_map_Some: "(\<And>x. x \<in> set xs \<Longrightarrow> f x = Some (g x)) \<Longrightarrow> those (map f xs) = Some (map g xs)"
  by (induction xs) auto

lemma map_set_new: "k \<notin> fst ` set m \<Longrightarrow> map_set k v m = m @ [(k, v)]"
  by (induction k v m rule: map_set.induct) auto

lemma go_map_distinct: "distinct (keys m) \<Longrightarrow> go_map m = m"
proof -
  have "distinct (keys (acc @ m)) \<Longrightarrow> foldl (\<lambda>m kv. map_set (fst kv) (snd kv) m) acc m = acc @ m" for acc
  proof (induction m arbitrary: acc)
    case (Cons kv m)
    then have "map_set (fst kv) (snd kv) acc = acc @ [kv]"
      by (subst map_set_new) (auto simp: keys_def)
    with Cons.IH [of "acc @ [kv]"] Cons.prems show ?case by (simp add: keys_def)
  qed simp
  from this [of "[]"] show "distinct (keys m) \<Longrightarrow> ?thesis" by (simp add: go_map_def)
qed

lemma distinct_keys_sort: "distinct (keys m) \<Longrightarrow> distinct (keys (sort_key fst m))"
  by (simp add: keys_def distinct_map)

lemma to_any_map:
  assumes "\<And>kv. kv \<in> set m \<Longrightarrow> to_any (jtree (snd kv)) = Some (f (snd kv))" and "distinct (keys m)"
  shows "to_any (jtree (GMap m)) = Some (GMap (map (\<lambda>kv. (fst kv, f (snd kv))) (sort_key fst m)))"
proof -
  let ?r = "map (\<lambda>kv. (fst kv, f (snd kv))) (sort_key fst m)"
  have "those (map ((\<lambda>kv. map_option (Pair (fst kv)) (to_any (snd kv))) \<circ>
      (\<lambda>kv. (fst kv, jtree (snd kv)))) (sort_key fst m)) = Some ?r"
    using assms(1) by (intro those_map_Some) simp
  moreover have "go_map ?r = ?r"
    by (rule go_map_distinct) (simp add: keys_map_pair distinct_keys_sort assms(2))
  ultimately show ?thesis by simp
qed

lemma to_any_json_val: "json_val v \<Longrightarrow> to_any (jtree v) = Some (sort_maps v)"
proof (induction v)
  case (GMap m)
  have "to_any (jtree (snd kv)) = Some (sort_maps (snd kv))" if "kv \<in> set m" for kv
    using GMap that by (cases kv) auto
  then have "to_any (jtree (GMap m)) = Some (GMap (map (\<lambda>kv. (fst kv, sort_maps (snd kv))) (sort_key fst m)))"
    using GMap.prems by (intro to_any_map) auto
  then show ?case by (simp only: sort_maps_GMap)
next
  case (GArr xs)
  then have "those (map (to_any \<circ> jtree) xs) = Some (map sort_maps xs)"
    by (intro those_map_Some) simp
  then show ?case by simp
qed auto

text \<open>A body written by \<open>json.Marshal\<close> and read by \<open>json.Unmarshal\<close>.\<close>

lemma unmarshal_marshal:
  "json_val v \<Longrightarrow> \<exists>j. marshal v = Inr j \<and> unmarshal (print_json j) = Some (sort_maps v)"
  by (simp add: marshal_json_val unmarshal_def parse_print valid_j_json_val to_any_json_val)

section \<open>Column values\<close>

lemma num_f64_int_str:
  assumes "\<bar>i\<bar> \<le> 2 ^ 53"
  shows "num_f64 (int_str i) = Some (f64_of_int i)"
proof -
  have r: "num_f64 (int_str i) = finite_f64 (f64_of_ratio (i < 0) \<bar>i\<bar> 1)"
    by (simp add: num_f64_def num_parts_int_str ratio_pow10_def)
  show ?thesis
  proof (cases "i = 0")
    case True
    then show ?thesis using r by (simp add: f64_of_ratio_def f64_of_int_def)
  next
    case False
    then obtain m x where "f64_of_int i = FFin m x" using f64_of_int_exact [OF _ assms] by blast
    with r False show ?thesis by (simp add: f64_of_int_def)
  qed
qed

lemma to_any_col:
  "col_ok v \<Longrightarrow> \<exists>r. to_any (jtree v) = Some r \<and> NormValue r = sort_maps v"
proof (induction v)
  case (GMap m)
  define f where "f = (\<lambda>x. the (to_any (jtree x)))"
  have IH: "to_any (jtree (snd kv)) = Some (f (snd kv)) \<and> NormValue (f (snd kv)) = sort_maps (snd kv)"
    if "kv \<in> set m" for kv
  proof -
    have "\<exists>r. to_any (jtree (snd kv)) = Some r \<and> NormValue r = sort_maps (snd kv)"
      using GMap.IH [OF that, of "snd kv"] GMap.prems that by (cases kv) auto
    then show ?thesis by (auto simp: f_def)
  qed
  then have "to_any (jtree (GMap m)) = Some (GMap (map (\<lambda>kv. (fst kv, f (snd kv))) (sort_key fst m)))"
    using GMap.prems by (intro to_any_map) auto
  moreover have "NormValue (GMap (map (\<lambda>kv. (fst kv, f (snd kv))) (sort_key fst m))) = sort_maps (GMap m)"
    using IH by (simp add: sort_maps_GMap)
  ultimately show ?case by blast
next
  case (GArr xs)
  define f where "f = (\<lambda>x. the (to_any (jtree x)))"
  have IH: "to_any (jtree x) = Some (f x) \<and> NormValue (f x) = sort_maps x" if "x \<in> set xs" for x
  proof -
    have "\<exists>r. to_any (jtree x) = Some r \<and> NormValue r = sort_maps x"
      using GArr.IH [OF that] GArr.prems that by simp
    then show ?thesis by (auto simp: f_def)
  qed
  then have "those (map (to_any \<circ> jtree) xs) = Some (map f xs)" by (intro those_map_Some) simp
  with IH show ?case by simp
next
  case (GI64 w)
  then have "num_f64 (int_str (sint w)) = Some (f64_of_int (sint w))" by (simp add: num_f64_int_str)
  moreover have "NormF64 (f64_of_int (sint w)) = GI64 w"
    using NormF64_f64_of_int [of "sint w"] GI64 by simp
  ultimately show ?case by simp
next
  case (GF64 x)
  then show ?case by (simp add: f64_prints_def)
qed auto

text \<open>Read back, it compares equal to what was written.\<close>

lemma reread_equal: "col_ok v \<Longrightarrow> to_any (jtree v) = Some r \<Longrightarrow> canonical r = canonical v"
proof -
  assume v: "col_ok v" and r: "to_any (jtree v) = Some r"
  then have "NormValue r = sort_maps v" using to_any_col by force
  then have "canonical r = canonical_text (marshal v)"
    by (simp add: canonical_def marshal_sort_maps)
  moreover have "NormValue v = v" using v
  proof (induction v)
    case (GMap m)
    then have "NormValue (snd kv) = snd kv" if "kv \<in> set m" for kv using that by (cases kv) auto
    then show ?case by (simp add: map_idI)
  qed (auto simp: map_idI)
  ultimately show "canonical r = canonical v" by (simp add: canonical_def)
qed

section \<open>Numbers of a body and of a column\<close>

text \<open>The integer a column holds, whatever integer type or decimal the driver delivers it in.\<close>

fun column_int :: "gval \<Rightarrow> int option" where
  "column_int (GInt w) = Some (sint w)"
| "column_int (GI8 w) = Some (sint w)"
| "column_int (GI16 w) = Some (sint w)"
| "column_int (GI32 w) = Some (sint w)"
| "column_int (GI64 w) = Some (sint w)"
| "column_int (GUint w) = Some (uint w)"
| "column_int (GU8 w) = Some (uint w)"
| "column_int (GU16 w) = Some (uint w)"
| "column_int (GU32 w) = Some (uint w)"
| "column_int (GU64 w) = Some (uint w)"
| "column_int (GDec d) = (if dec_equal_trunc0 d then Some (sint (dec_int_part d)) else None)"
| "column_int _ = None"

lemma NormValue_column_int: "column_int c = Some m \<Longrightarrow> NormValue c = GI64 (word_of_int m)"
  by (cases c) (auto split: if_splits)

lemma column_int_lower: "column_int c = Some m \<Longrightarrow> - (2 ^ 63) \<le> m"
  by (cases c) (auto split: if_splits intro: order_trans [OF _ sint_greater_eq] order_trans [OF _ uint_ge_0])

lemma unmarshal_number: "valid_num s \<Longrightarrow> num_f64 s = Some x \<Longrightarrow> unmarshal s = Some (GF64 x)"
  using parse_print [of "JNum s"] by (simp add: unmarshal_def)



end
