(* ===== verification/Corpus.thy ===== *)
theory Corpus
  imports Reread
begin

text \<open>
  \<open>internal/corpus/corpus.go\<close>: request specifications, the JSONL and HAR loaders.  The content of
  the file and \<open>url.Parse\<close> are arguments.  A struct is decoded field by field: keys match without
  regard to (ASCII) case, the last occurrence counts, \<open>null\<close> leaves the zero value, and a value of
  the wrong kind is an error (\<^const>\<open>None\<close>); a nil map of headers is the empty list.
\<close>

section \<open>Decoding structs\<close>

type_synonym jobj = "(string \<times> jval) list"

definition field :: "string \<Rightarrow> jobj \<Rightarrow> jval option" where
  "field name kvs = map_of (rev (map (\<lambda>kv. (to_lower (fst kv), snd kv)) kvs)) (to_lower name)"

fun dec_struct :: "jval option \<Rightarrow> jobj option" where
  "dec_struct None = Some []"
| "dec_struct (Some JNull) = Some []"
| "dec_struct (Some (JObj kvs)) = Some kvs"
| "dec_struct (Some _) = None"

fun dec_string :: "jval option \<Rightarrow> string option" where
  "dec_string None = Some ''''"
| "dec_string (Some JNull) = Some ''''"
| "dec_string (Some (JStr s)) = Some s"
| "dec_string (Some _) = None"

fun dec_bool :: "jval option \<Rightarrow> bool option" where
  "dec_bool None = Some False"
| "dec_bool (Some JNull) = Some False"
| "dec_bool (Some (JBool b)) = Some b"
| "dec_bool (Some _) = None"

fun dec_int :: "jval option \<Rightarrow> 64 word option" where
  "dec_int None = Some 0"
| "dec_int (Some JNull) = Some 0"
| "dec_int (Some (JNum s)) =
     (if int64_lit s then Some (word_of_int (lit_int s)) else if s = ''-0'' then Some 0 else None)"
| "dec_int (Some _) = None"

fun dec_any :: "jval option \<Rightarrow> gval option" where
  "dec_any None = Some GNil"
| "dec_any (Some j) = to_any j"

fun dec_array :: "jval option \<Rightarrow> jval list option" where
  "dec_array None = Some []"
| "dec_array (Some JNull) = Some []"
| "dec_array (Some (JArr js)) = Some js"
| "dec_array (Some _) = None"

definition dec_string_map :: "jval option \<Rightarrow> (string \<times> string) list option" where
  "dec_string_map j =
     (case dec_struct j of
        None \<Rightarrow> None
      | Some kvs \<Rightarrow>
          map_option go_map (those (map (\<lambda>kv. map_option (Pair (fst kv)) (dec_string (Some (snd kv)))) kvs)))"

definition json_object :: "string \<Rightarrow> jobj option" where
  "json_object text = (case parse_json text of None \<Rightarrow> None | Some j \<Rightarrow> dec_struct (Some j))"

section \<open>RequestSpec\<close>

record RequestSpec =
  spec_Name :: string
  spec_Ts :: string
  spec_Method :: string
  spec_Path :: string
  spec_Headers :: "(string \<times> string) list"
  spec_Body :: gval

definition Describe :: "RequestSpec \<Rightarrow> string" where
  "Describe r = spec_Method r @ '' '' @ spec_Path r"

datatype body_bytes = BodyBytes (body_data: "string option") (body_is_json: bool) | BodyError marshal_err

definition BodyBytes_of :: "RequestSpec \<Rightarrow> body_bytes" where
  "BodyBytes_of r =
     (case spec_Body r of
        GNil \<Rightarrow> BodyBytes None False
      | GStr s \<Rightarrow> BodyBytes (Some s) False
      | b \<Rightarrow> (case marshal b of Inl e \<Rightarrow> BodyError e | Inr j \<Rightarrow> BodyBytes (Some (print_json j)) True))"

definition dec_spec :: "jobj \<Rightarrow> RequestSpec option" where
  "dec_spec obj =
     (case (dec_string (field ''name'' obj), dec_string (field ''ts'' obj), dec_string (field ''method'' obj),
            dec_string (field ''path'' obj), dec_string_map (field ''headers'' obj), dec_any (field ''body'' obj)) of
        (Some n, Some t, Some m, Some p, Some h, Some b) \<Rightarrow>
          Some \<lparr>spec_Name = n, spec_Ts = t, spec_Method = m, spec_Path = p, spec_Headers = h, spec_Body = b\<rparr>
      | _ \<Rightarrow> None)"

section \<open>Scanning lines\<close>

text \<open>
  \<open>bufio.Scanner\<close> with a buffer of \<open>limit\<close> bytes: the lines without their ends (a carriage return
  before the newline is dropped); a line that does not fit with its newline ends the scan with an
  error.
\<close>

definition drop_cr :: "string \<Rightarrow> string" where
  "drop_cr l = (if l \<noteq> [] \<and> last l = CHR 0x0D then butlast l else l)"

definition raw_lines :: "string \<Rightarrow> string list" where
  "raw_lines text =
     (let ls = split_on (CHR 0x0A) text in if last ls = [] then butlast ls else ls)"

definition fits :: "int \<Rightarrow> string \<Rightarrow> bool" where
  "fits limit l \<longleftrightarrow> int (length l) < limit"

definition scan_lines :: "int \<Rightarrow> string \<Rightarrow> string list \<times> bool" where
  "scan_lines limit text =
     (let ls = raw_lines text in (map drop_cr (takeWhile (fits limit) ls), list_all (fits limit) ls))"

section \<open>loadJSONL\<close>

datatype corpus_error = FileError | LineError nat | TooLong | HarError

definition lower_headers :: "(string \<times> string) list \<Rightarrow> (string \<times> string) list" where
  "lower_headers h = go_map (map (\<lambda>kv. (to_lower (fst kv), snd kv)) h)"

definition finish_spec :: "nat \<Rightarrow> RequestSpec \<Rightarrow> RequestSpec" where
  "finish_spec lineNo spec =
     spec\<lparr>spec_Name := (if spec_Name spec = '''' then ''req-'' @ nat_str lineNo else spec_Name spec),
          spec_Method := to_upper (spec_Method spec),
          spec_Headers := lower_headers (spec_Headers spec)\<rparr>"

fun jsonl_specs :: "nat \<Rightarrow> string list \<Rightarrow> corpus_error + RequestSpec list" where
  "jsonl_specs n [] = Inr []"
| "jsonl_specs n (text # lines) =
     (let lineNo = n + 1; line = trim_space text
      in if line = '''' \<or> has_prefix line ''#'' then jsonl_specs lineNo lines
         else (case Option.bind (json_object line) dec_spec of
                 None \<Rightarrow> Inl (LineError lineNo)
               | Some spec \<Rightarrow>
                   map_sum id (Cons (finish_spec lineNo spec)) (jsonl_specs lineNo lines)))"

definition loadJSONL :: "string option \<Rightarrow> corpus_error + RequestSpec list" where
  "loadJSONL file =
     (case file of
        None \<Rightarrow> Inl FileError
      | Some text \<Rightarrow>
          (case jsonl_specs 0 (fst (scan_lines 1048576 text)) of
             Inl e \<Rightarrow> Inl e
           | Inr specs \<Rightarrow> if snd (scan_lines 1048576 text) then Inr specs else Inl TooLong))"

section \<open>loadHAR\<close>

definition harSkipHeaders :: "string list" where
  "harSkipHeaders = [''host'', ''content-length'', ''cookie'', ''connection'', ''accept-encoding'']"

record HarRequest =
  har_Method :: string
  har_URL :: string
  har_Headers :: "(string \<times> string) list"
  har_PostData :: "(string \<times> string) option"

definition dec_pair :: "string \<Rightarrow> string \<Rightarrow> jval \<Rightarrow> (string \<times> string) option" where
  "dec_pair a b j =
     (case dec_struct (Some j) of
        None \<Rightarrow> None
      | Some obj \<Rightarrow>
          (case (dec_string (field a obj), dec_string (field b obj)) of
             (Some x, Some y) \<Rightarrow> Some (x, y)
           | _ \<Rightarrow> None))"

definition dec_post :: "jval option \<Rightarrow> (string \<times> string) option option" where
  "dec_post j =
     (case j of
        None \<Rightarrow> Some None
      | Some JNull \<Rightarrow> Some None
      | Some j \<Rightarrow> map_option Some (dec_pair ''mimeType'' ''text'' j))"

definition dec_har_request :: "jobj \<Rightarrow> HarRequest option" where
  "dec_har_request obj =
     (case (dec_string (field ''method'' obj), dec_string (field ''url'' obj),
            Option.bind (dec_array (field ''headers'' obj)) (\<lambda>hs. those (map (dec_pair ''name'' ''value'') hs)),
            dec_post (field ''postData'' obj)) of
        (Some m, Some u, Some h, Some p) \<Rightarrow>
          Some \<lparr>har_Method = m, har_URL = u, har_Headers = h, har_PostData = p\<rparr>
      | _ \<Rightarrow> None)"

definition dec_har_entry :: "jval \<Rightarrow> HarRequest option" where
  "dec_har_entry j =
     Option.bind (dec_struct (Some j)) (\<lambda>obj.
       Option.bind (dec_struct (field ''request'' obj)) dec_har_request)"

definition dec_har :: "string \<Rightarrow> HarRequest list option" where
  "dec_har text =
     Option.bind (json_object text) (\<lambda>obj.
       Option.bind (dec_struct (field ''log'' obj)) (\<lambda>l.
         Option.bind (dec_array (field ''entries'' l)) (\<lambda>es. those (map dec_har_entry es))))"

definition har_headers :: "(string \<times> string) list \<Rightarrow> (string \<times> string) list" where
  "har_headers hs =
     go_map (filter (\<lambda>h. \<not> (fst h \<in> set harSkipHeaders \<or> has_prefix (fst h) '':''))
       (map (\<lambda>h. (to_lower (fst h), snd h)) hs))"

definition har_body :: "(string \<times> string) option \<Rightarrow> gval" where
  "har_body post =
     (case post of
        None \<Rightarrow> GNil
      | Some (mime, text) \<Rightarrow>
          if text = '''' then GNil
          else if str_contains mime ''json'' then
            (case unmarshal text of Some parsed \<Rightarrow> parsed | None \<Rightarrow> GStr text)
          else GStr text)"

definition har_spec :: "(string \<Rightarrow> (string \<times> string) option) \<Rightarrow> nat \<Rightarrow> HarRequest \<Rightarrow> RequestSpec option" where
  "har_spec urlParse i req =
     map_option (\<lambda>(path, rawQuery).
       \<lparr>spec_Name = ''har-'' @ nat_str (i + 1) @ ''-'' @ har_Method req @ ''-'' @ path,
        spec_Ts = '''',
        spec_Method = to_upper (har_Method req),
        spec_Path = (if rawQuery \<noteq> '''' then path @ ''?'' @ rawQuery else path),
        spec_Headers = har_headers (har_Headers req),
        spec_Body = har_body (har_PostData req)\<rparr>) (urlParse (har_URL req))"

definition loadHAR ::
  "(string \<Rightarrow> (string \<times> string) option) \<Rightarrow> string option \<Rightarrow> corpus_error + RequestSpec list" where
  "loadHAR urlParse file =
     (case file of
        None \<Rightarrow> Inl FileError
      | Some raw \<Rightarrow>
          (case dec_har raw of
             None \<Rightarrow> Inl HarError
           | Some reqs \<Rightarrow>
               Inr (List.map_filter (\<lambda>(i, req). har_spec urlParse i req) (enumerate 0 reqs))))"

section \<open>Load\<close>

definition file_ext :: "string \<Rightarrow> string" where
  "file_ext path =
     (let base = after_last (CHR ''/'') path
      in if CHR ''.'' \<in> set base then CHR ''.'' # after_last (CHR ''.'') base else '''')"

definition Load_corpus ::
  "(string \<Rightarrow> (string \<times> string) option) \<Rightarrow> string \<Rightarrow> string option \<Rightarrow> corpus_error + RequestSpec list" where
  "Load_corpus urlParse path file =
     map_sum id (sort_key spec_Ts)
       (if to_lower (file_ext path) = ''.har'' then loadHAR urlParse file else loadJSONL file)"

section \<open>Loaded specifications\<close>

definition good_spec :: "RequestSpec \<Rightarrow> bool" where
  "good_spec s \<longleftrightarrow>
     spec_Name s \<noteq> '''' \<and> to_upper (spec_Method s) = spec_Method s \<and>
     (\<forall>h \<in> set (spec_Headers s). to_lower (fst h) = fst h) \<and> distinct (keys (spec_Headers s))"

lemma lower_headers_good:
  "\<forall>h \<in> set (lower_headers hs). to_lower (fst h) = fst h" "distinct (keys (lower_headers hs))"
proof -
  show "\<forall>h \<in> set (lower_headers hs). to_lower (fst h) = fst h"
    using set_go_map [of "map (\<lambda>kv. (to_lower (fst kv), snd kv)) hs"]
    by (auto simp: lower_headers_def)
qed (simp add: lower_headers_def distinct_go_map)

lemma har_headers_good:
  "\<forall>h \<in> set (har_headers hs). to_lower (fst h) = fst h \<and> fst h \<notin> set harSkipHeaders"
  "distinct (keys (har_headers hs))"
proof -
  have "set (har_headers hs) \<subseteq> set (filter (\<lambda>h. \<not> (fst h \<in> set harSkipHeaders \<or> has_prefix (fst h) '':''))
       (map (\<lambda>h. (to_lower (fst h), snd h)) hs))"
    unfolding har_headers_def by (rule set_go_map)
  then show "\<forall>h \<in> set (har_headers hs). to_lower (fst h) = fst h \<and> fst h \<notin> set harSkipHeaders"
    by auto
qed (simp add: har_headers_def distinct_go_map)

lemma good_finish_spec: "good_spec (finish_spec n s)"
  using lower_headers_good [of "spec_Headers s"] by (simp add: good_spec_def finish_spec_def)

lemma jsonl_specs_good: "jsonl_specs n ls = Inr specs \<Longrightarrow> list_all good_spec specs"
  by (induction n ls arbitrary: specs rule: jsonl_specs.induct)
    (auto simp: Let_def good_finish_spec map_sum_def split: if_splits option.splits sum.splits)

lemma loadJSONL_good: "loadJSONL f = Inr specs \<Longrightarrow> list_all good_spec specs"
  by (auto simp: loadJSONL_def dest: jsonl_specs_good split: option.splits sum.splits if_splits)

lemma har_spec_good: "har_spec p i req = Some s \<Longrightarrow> good_spec s"
  using har_headers_good [of "har_Headers req"] by (auto simp: har_spec_def good_spec_def)

lemma map_filter_all:
  "(\<And>x y. x \<in> set xs \<Longrightarrow> f x = Some y \<Longrightarrow> P y) \<Longrightarrow> list_all P (List.map_filter f xs)"
  by (induction xs) (auto simp: List.map_filter_simps split: option.splits)

lemma loadHAR_good: "loadHAR p f = Inr specs \<Longrightarrow> list_all good_spec specs"
proof -
  assume "loadHAR p f = Inr specs"
  then obtain reqs where "specs = List.map_filter (\<lambda>(i, req). har_spec p i req) (enumerate 0 reqs)"
    by (auto simp: loadHAR_def split: option.splits)
  moreover have "list_all good_spec (List.map_filter (\<lambda>(i, req). har_spec p i req) (enumerate 0 reqs))"
    by (rule map_filter_all) (metis case_prod_conv har_spec_good prod.collapse)
  ultimately show ?thesis by simp
qed

text \<open>
  C21.  A corpus that loads is ready for replay: every request is named, has an upper-case method and
  lower-case, distinct header names, and the requests come in the order of their timestamps, those
  with the same timestamp (all requests of a HAR capture) in the order of the file.
\<close>

theorem Load_corpus_sound:
  assumes "Load_corpus urlParse path file = Inr specs"
  shows "list_all good_spec specs \<and> sorted (map spec_Ts specs) \<and>
    (\<exists>loaded. (loadHAR urlParse file = Inr loaded \<or> loadJSONL file = Inr loaded) \<and>
       mset specs = mset loaded \<and>
       (\<forall>t. filter (\<lambda>s. spec_Ts s = t) specs = filter (\<lambda>s. spec_Ts s = t) loaded))"
proof -
  obtain loaded where l: "loadHAR urlParse file = Inr loaded \<or> loadJSONL file = Inr loaded"
    and s: "specs = sort_key spec_Ts loaded"
    using assms by (auto simp: Load_corpus_def map_sum_def split: if_splits sum.splits)
  from l have "list_all good_spec loaded" using loadHAR_good loadJSONL_good by blast
  then have "list_all good_spec specs" by (simp add: s list_all_iff)
  moreover have "filter (\<lambda>s. spec_Ts s = t) specs = filter (\<lambda>s. spec_Ts s = t) loaded" for t
    unfolding s by (rule sort_key_stable)
  ultimately show ?thesis using l s by auto
qed

text \<open>Two lines of a corpus, the second earlier than the first.\<close>

definition jsonq :: "string \<Rightarrow> string" where
  "jsonq s = [CHR 0x22] @ s @ [CHR 0x22]"

definition demo_line :: "string \<Rightarrow> string" where
  "demo_line ts = ''{'' @ jsonq ''method'' @ '':'' @ jsonq ''get'' @ '','' @ jsonq ''path'' @ '':'' @ jsonq ''/'' @
     '','' @ jsonq ''ts'' @ '':'' @ jsonq ts @ ''}''"

theorem Load_corpus_sound_witness:
  "\<exists>specs. Load_corpus (\<lambda>_. None) ''c.jsonl'' (Some (demo_line ''2'' @ [CHR 0x0A] @ demo_line ''1'')) = Inr specs
     \<and> list_all good_spec specs \<and> length specs = 2"
proof -
  let ?l = "Load_corpus (\<lambda>_. None) ''c.jsonl'' (Some (demo_line ''2'' @ [CHR 0x0A] @ demo_line ''1''))"
  have "case ?l of Inr specs \<Rightarrow> length specs = 2 | _ \<Rightarrow> False" by code_simp
  then obtain specs where l: "?l = Inr specs" "length specs = 2" by (auto split: sum.splits)
  with Load_corpus_sound [OF l(1)] show ?thesis by blast
qed

text \<open>
  The body of a request is sent as it was decoded: a JSON body is marshalled with the JSON flag
  set, and decoding the bytes gives the same value up to the order of map entries; a string body is
  sent as its bytes and an absent body as none, both without the flag.
\<close>

theorem BodyBytes_roundtrip:
  assumes "json_val (spec_Body r)"
  shows "case spec_Body r of
      GNil \<Rightarrow> BodyBytes_of r = BodyBytes None False
    | GStr s \<Rightarrow> BodyBytes_of r = BodyBytes (Some s) False
    | v \<Rightarrow> \<exists>text. BodyBytes_of r = BodyBytes (Some text) True \<and> unmarshal text = Some (sort_maps v)"
  using unmarshal_marshal [OF assms]
  by (cases "spec_Body r") (auto simp: BodyBytes_of_def)

theorem BodyBytes_roundtrip_witness:
  "\<exists>text. BodyBytes_of \<lparr>spec_Name = '''', spec_Ts = '''', spec_Method = ''POST'', spec_Path = ''/'',
      spec_Headers = [], spec_Body = GMap [(''b'', GBool True), (''a'', GNil)]\<rparr> = BodyBytes (Some text) True
    \<and> unmarshal text = Some (GMap [(''a'', GNil), (''b'', GBool True)])"
proof -
  let ?r = "\<lparr>spec_Name = '''', spec_Ts = '''', spec_Method = ''POST'', spec_Path = ''/'',
      spec_Headers = [], spec_Body = GMap [(''b'', GBool True), (''a'', GNil)]\<rparr>"
  have "valid_utf8 ''a''" "valid_utf8 ''b''" by (rule utf8_lit, simp)+
  then have j: "json_val (spec_Body ?r)" by (simp add: keys_def)
  have "sort_maps (GMap [(''b'', GBool True), (''a'', GNil)]) = GMap [(''a'', GNil), (''b'', GBool True)]"
    by code_simp
  with BodyBytes_roundtrip [OF j] show ?thesis by simp
qed

end
