(* ===== verification/Golden.thy ===== *)
theory Golden
  imports Corpus
begin

text \<open>
  \<open>internal/golden/golden.go\<close>: the golden file, a line of metadata and one line per recorded
  exchange.  A file is its content; writing appends a line, reading scans the lines (at most 4 MiB
  each) and sorts the entries by arrival time.  The theorems: what was written is read back, and the
  write-set of an entry that is read back shows no difference to the one recorded.
\<close>

section \<open>Records\<close>

definition Ext :: string where
  "Ext = ''.golden.jsonl''"

definition IsGoldenFile :: "string \<Rightarrow> bool" where
  "IsGoldenFile name = has_suffix name Ext"

record Meta =
  meta_Type :: string
  Version :: "64 word"
  CreatedAt :: string
  Upstream :: string
  Serialized :: bool
  Meta_Source :: string

record Expected =
  Status :: "64 word"
  exp_Body :: string
  exp_Writeset :: "WriteEntry list option"

record Entry =
  en_Type :: string
  en_Name :: string
  en_Ts :: string
  en_Method :: string
  en_Path :: string
  en_Headers :: "(string \<times> string) list"
  en_Body :: gval
  en_Expected :: Expected

definition Entry_RequestSpec :: "Entry \<Rightarrow> RequestSpec" where
  "Entry_RequestSpec e =
     \<lparr>spec_Name = en_Name e, spec_Ts = '''', spec_Method = en_Method e, spec_Path = en_Path e,
      spec_Headers = en_Headers e, spec_Body = en_Body e\<rparr>"

section \<open>Writing\<close>

type_synonym fields = "(string \<times> (marshal_err + jval)) list"

definition marshal_struct :: "fields \<Rightarrow> marshal_err + jval" where
  "marshal_struct fs = map_sum id JObj (seq_sum (map (\<lambda>f. map_sum id (Pair (fst f)) (snd f)) fs))"

definition omit_if :: "bool \<Rightarrow> 'a \<Rightarrow> 'a list" where
  "omit_if b x = (if b then [] else [x])"

definition jstr_field :: "string \<Rightarrow> string \<Rightarrow> string \<times> (marshal_err + jval)" where
  "jstr_field n s = (n, Inr (JStr s))"

definition jint_field :: "string \<Rightarrow> 64 word \<Rightarrow> string \<times> (marshal_err + jval)" where
  "jint_field n w = (n, Inr (JNum (int_str (sint w))))"

definition marshal_meta :: "Meta \<Rightarrow> marshal_err + jval" where
  "marshal_meta m =
     marshal_struct
       ([jstr_field ''type'' (meta_Type m), jint_field ''version'' (Version m),
         jstr_field ''created_at'' (CreatedAt m)] @
        omit_if (Upstream m = '''') (jstr_field ''upstream'' (Upstream m)) @
        [(''serialized'', Inr (JBool (Serialized m)))] @
        omit_if (Meta_Source m = '''') (jstr_field ''source'' (Meta_Source m)))"

definition marshal_writeset :: "WriteEntry list option \<Rightarrow> marshal_err + jval" where
  "marshal_writeset ws =
     (case ws of None \<Rightarrow> Inr JNull | Some es \<Rightarrow> map_sum id JArr (seq_sum (map marshal_entry es)))"

definition marshal_expected :: "Expected \<Rightarrow> marshal_err + jval" where
  "marshal_expected x =
     marshal_struct [jint_field ''status'' (Status x), jstr_field ''body'' (exp_Body x),
       (''writeset'', marshal_writeset (exp_Writeset x))]"

definition jheaders :: "(string \<times> string) list \<Rightarrow> jval" where
  "jheaders h = JObj (map (\<lambda>kv. (fst kv, JStr (snd kv))) (sort_key fst h))"

definition marshal_golden_entry :: "Entry \<Rightarrow> marshal_err + jval" where
  "marshal_golden_entry e =
     marshal_struct
       ([jstr_field ''type'' (en_Type e), jstr_field ''name'' (en_Name e)] @
        omit_if (en_Ts e = '''') (jstr_field ''ts'' (en_Ts e)) @
        [jstr_field ''method'' (en_Method e), jstr_field ''path'' (en_Path e)] @
        omit_if (en_Headers e = []) (''headers'', Inr (jheaders (en_Headers e))) @
        omit_if (en_Body e = GNil) (''body'', marshal (en_Body e)) @
        [(''expected'', marshal_expected (en_Expected e))])"

definition writeLine :: "string \<Rightarrow> marshal_err + jval \<Rightarrow> marshal_err + string" where
  "writeLine file r = map_sum id (\<lambda>j. file @ print_json j @ [CHR 0x0A]) r"

definition NewWriter :: "string \<Rightarrow> Meta \<Rightarrow> string \<Rightarrow> marshal_err + string" where
  "NewWriter now meta file =
     (if file = [] then
        writeLine file (marshal_meta
          (meta\<lparr>meta_Type := ''meta'',
                Version := (if Version meta = 0 then 1 else Version meta),
                CreatedAt := (if CreatedAt meta = '''' then now else CreatedAt meta)\<rparr>))
      else Inr file)"

definition Append :: "Entry \<Rightarrow> string \<Rightarrow> marshal_err + string" where
  "Append e file = writeLine file (marshal_golden_entry (e\<lparr>en_Type := ''entry''\<rparr>))"

section \<open>Reading\<close>

definition keep :: "'a \<Rightarrow> (jval option \<Rightarrow> 'a option) \<Rightarrow> jval option \<Rightarrow> 'a option" where
  "keep d dec j = (case j of None \<Rightarrow> Some d | Some JNull \<Rightarrow> Some d | Some _ \<Rightarrow> dec j)"

text \<open>Decoding into the metadata read so far.\<close>

definition dec_meta :: "Meta \<Rightarrow> jobj \<Rightarrow> Meta option" where
  "dec_meta m obj =
     (case (keep (meta_Type m) dec_string (field ''type'' obj),
            keep (Version m) dec_int (field ''version'' obj),
            keep (CreatedAt m) dec_string (field ''created_at'' obj),
            keep (Upstream m) dec_string (field ''upstream'' obj),
            keep (Serialized m) dec_bool (field ''serialized'' obj),
            keep (Meta_Source m) dec_string (field ''source'' obj)) of
        (Some t, Some v, Some c, Some u, Some s, Some x) \<Rightarrow>
          Some \<lparr>meta_Type = t, Version = v, CreatedAt = c, Upstream = u, Serialized = s, Meta_Source = x\<rparr>
      | _ \<Rightarrow> None)"

definition dec_row :: "jval option \<Rightarrow> row option option" where
  "dec_row j =
     (case j of
        None \<Rightarrow> Some None
      | Some JNull \<Rightarrow> Some None
      | Some (JObj kvs) \<Rightarrow>
          (case to_any (JObj kvs) of Some (GMap m) \<Rightarrow> Some (Some m) | _ \<Rightarrow> None)
      | _ \<Rightarrow> None)"

definition dec_write_entry :: "jval \<Rightarrow> WriteEntry option" where
  "dec_write_entry j =
     (case dec_struct (Some j) of
        None \<Rightarrow> None
      | Some obj \<Rightarrow>
          (case (dec_string (field ''table'' obj), dec_string (field ''op'' obj), dec_any (field ''pk'' obj),
                 dec_row (field ''values'' obj), dec_row (field ''changed'' obj)) of
             (Some t, Some p, Some k, Some v, Some c) \<Rightarrow>
               Some \<lparr>Table = t, Op = p, PK = k, Values = v, Changed = c\<rparr>
           | _ \<Rightarrow> None))"

definition dec_writeset :: "jval option \<Rightarrow> WriteEntry list option option" where
  "dec_writeset j =
     (case j of
        None \<Rightarrow> Some None
      | Some JNull \<Rightarrow> Some None
      | Some (JArr js) \<Rightarrow> map_option Some (those (map dec_write_entry js))
      | _ \<Rightarrow> None)"

definition dec_expected :: "jval option \<Rightarrow> Expected option" where
  "dec_expected j =
     (case dec_struct j of
        None \<Rightarrow> None
      | Some obj \<Rightarrow>
          (case (dec_int (field ''status'' obj), dec_string (field ''body'' obj),
                 dec_writeset (field ''writeset'' obj)) of
             (Some s, Some b, Some w) \<Rightarrow> Some \<lparr>Status = s, exp_Body = b, exp_Writeset = w\<rparr>
           | _ \<Rightarrow> None))"

definition dec_golden_entry :: "jobj \<Rightarrow> Entry option" where
  "dec_golden_entry obj =
     (case (dec_string (field ''type'' obj), dec_string (field ''name'' obj), dec_string (field ''ts'' obj),
            dec_string (field ''method'' obj), dec_string (field ''path'' obj),
            dec_string_map (field ''headers'' obj), dec_any (field ''body'' obj),
            dec_expected (field ''expected'' obj)) of
        (Some t, Some n, Some ts, Some m, Some p, Some h, Some b, Some x) \<Rightarrow>
          Some \<lparr>en_Type = t, en_Name = n, en_Ts = ts, en_Method = m, en_Path = p, en_Headers = h,
                en_Body = b, en_Expected = x\<rparr>
      | _ \<Rightarrow> None)"

definition zero_meta :: Meta where
  "zero_meta = \<lparr>meta_Type = '''', Version = 0, CreatedAt = '''', Upstream = '''', Serialized = False,
     Meta_Source = ''''\<rparr>"

fun read_lines :: "nat \<Rightarrow> Meta \<Rightarrow> string list \<Rightarrow> corpus_error + Meta \<times> Entry list" where
  "read_lines n meta [] = Inr (meta, [])"
| "read_lines n meta (text # lines) =
     (let lineNo = n + 1; line = trim_space text
      in if line = '''' then read_lines lineNo meta lines
         else (case json_object line of
                 None \<Rightarrow> Inl (LineError lineNo)
               | Some obj \<Rightarrow>
                   (case dec_string (field ''type'' obj) of
                      None \<Rightarrow> Inl (LineError lineNo)
                    | Some t \<Rightarrow>
                        if t = ''meta'' then
                          (case dec_meta meta obj of
                             None \<Rightarrow> Inl (LineError lineNo)
                           | Some meta' \<Rightarrow> read_lines lineNo meta' lines)
                        else if t = ''entry'' then
                          (case dec_golden_entry obj of
                             None \<Rightarrow> Inl (LineError lineNo)
                           | Some e \<Rightarrow> map_sum id (\<lambda>(m, es). (m, e # es)) (read_lines lineNo meta lines))
                        else read_lines lineNo meta lines)))"

definition golden_limit :: int where
  "golden_limit = 4 * 1024 * 1024"

definition Read_golden :: "string option \<Rightarrow> corpus_error + Meta \<times> Entry list" where
  "Read_golden file =
     (case file of
        None \<Rightarrow> Inl FileError
      | Some text \<Rightarrow>
          (case read_lines 0 zero_meta (fst (scan_lines golden_limit text)) of
             Inl e \<Rightarrow> Inl e
           | Inr (meta, entries) \<Rightarrow>
               if snd (scan_lines golden_limit text) then Inr (meta, sort_key en_Ts entries)
               else Inl TooLong))"

section \<open>Fields\<close>

lemma field_Nil [simp]: "field n [] = None"
  by (simp add: field_def)

lemma field_append: "field n (xs @ ys) = (case field n ys of Some v \<Rightarrow> Some v | None \<Rightarrow> field n xs)"
  by (simp add: field_def map_add_def split: option.splits)

lemma field_single: "field n [(k, v)] = (if to_lower k = to_lower n then Some v else None)"
  by (simp add: field_def)

lemma field_Cons: "field n ((k, v) # xs) =
    (case field n xs of Some w \<Rightarrow> Some w | None \<Rightarrow> if to_lower k = to_lower n then Some v else None)"
  using field_append [of n "[(k, v)]" xs] by (simp add: field_single split: option.splits)

lemma lower_lits:
  "to_lower ''type'' = ''type''" "to_lower ''version'' = ''version''"
  "to_lower ''created_at'' = ''created_at''" "to_lower ''upstream'' = ''upstream''"
  "to_lower ''serialized'' = ''serialized''" "to_lower ''source'' = ''source''"
  "to_lower ''name'' = ''name''" "to_lower ''ts'' = ''ts''" "to_lower ''method'' = ''method''"
  "to_lower ''path'' = ''path''" "to_lower ''headers'' = ''headers''" "to_lower ''body'' = ''body''"
  "to_lower ''expected'' = ''expected''" "to_lower ''status'' = ''status''"
  "to_lower ''writeset'' = ''writeset''" "to_lower ''table'' = ''table''" "to_lower ''op'' = ''op''"
  "to_lower ''pk'' = ''pk''" "to_lower ''values'' = ''values''" "to_lower ''changed'' = ''changed''"
  by (simp_all add: to_lower_def lower_char_def byte_def)

lemmas field_simps_lits = field_append field_Cons lower_lits

definition fields_ok :: "fields \<Rightarrow> jobj \<Rightarrow> bool" where
  "fields_ok fs js = list_all2 (\<lambda>f j. fst f = fst j \<and> snd f = Inr (snd j)) fs js"

lemma fields_ok_simps [simp]:
  "fields_ok [] []" "fields_ok (f # fs) (j # js) \<longleftrightarrow> fst f = fst j \<and> snd f = Inr (snd j) \<and> fields_ok fs js"
  by (simp_all add: fields_ok_def)

lemma fields_ok_append: "fields_ok a b \<Longrightarrow> fields_ok c d \<Longrightarrow> fields_ok (a @ c) (b @ d)"
  by (simp add: fields_ok_def list_all2_appendI)

lemma fields_ok_omit: "(\<not> b \<Longrightarrow> fst f = fst j \<and> snd f = Inr (snd j)) \<Longrightarrow> fields_ok (omit_if b f) (omit_if b j)"
  by (simp add: omit_if_def)

lemma marshal_struct_ok: "fields_ok fs js \<Longrightarrow> marshal_struct fs = Inr (JObj js)"
proof -
  assume "fields_ok fs js"
  then have "map (\<lambda>f. map_sum id (Pair (fst f)) (snd f)) fs = map Inr js"
    unfolding fields_ok_def by (induction rule: list_all2_induct) auto
  then have "seq_sum (map (\<lambda>f. map_sum id (Pair (fst f)) (snd f)) fs) = Inr js"
    by (simp only: seq_sum_Inr)
  then show ?thesis by (simp add: marshal_struct_def)
qed

section \<open>Lines\<close>

lemma is_space_graphic: "32 < byte c \<Longrightarrow> \<not> is_space c"
  by (auto simp: is_space_def)

lemma trim_space_id: "s \<noteq> [] \<Longrightarrow> \<not> is_space (hd s) \<Longrightarrow> \<not> is_space (last s) \<Longrightarrow> trim_space s = s"
proof -
  assume s: "s \<noteq> []" "\<not> is_space (hd s)" "\<not> is_space (last s)"
  have d: "dropWhile is_space t = t" if "\<not> is_space (hd t)" "t \<noteq> []" for t
    using that by (cases t) auto
  show "trim_space s = s" using s by (simp add: trim_space_def d hd_rev)
qed

lemma print_obj_ends: "hd (print_json (JObj o1)) = CHR 0x7B" "last (print_json (JObj o1)) = CHR 0x7D"
  "print_json (JObj o1) \<noteq> []"
  by simp_all

lemma trim_print_obj: "trim_space (print_json (JObj o1)) = print_json (JObj o1)"
proof (rule trim_space_id)
  have "\<not> is_space (CHR 0x7B)" "\<not> is_space (CHR 0x7D)" by (simp_all add: is_space_def byte_def)
  then show "\<not> is_space (hd (print_json (JObj o1)))" "\<not> is_space (last (print_json (JObj o1)))"
    by (simp_all only: print_obj_ends not_False_eq_True)
qed (rule print_obj_ends)

lemma no_newline: "valid_j j \<Longrightarrow> CHR 0x0A \<notin> set (print_json j)"
proof
  assume "valid_j j" "CHR 0x0A \<in> set (print_json j)"
  then have "32 \<le> byte (CHR 0x0A)" by (rule print_json_graphic)
  then show False by code_simp
qed

text \<open>A file of JSON objects, one to a line.\<close>

definition file_of :: "jobj list \<Rightarrow> string" where
  "file_of os = concat (map (\<lambda>obj. print_json (JObj obj) @ [CHR 0x0A]) os)"

lemma split_file_of:
  "list_all (\<lambda>obj. valid_j (JObj obj)) os \<Longrightarrow>
   split_on (CHR 0x0A) (file_of os) = map (\<lambda>obj. print_json (JObj obj)) os @ [[]]"
proof (induction os)
  case (Cons obj os)
  have "split_on (CHR 0x0A) (print_json (JObj obj) @ CHR 0x0A # file_of os)
      = print_json (JObj obj) # split_on (CHR 0x0A) (file_of os)"
    using Cons.prems by (intro split_on_append no_newline) simp
  with Cons show ?case by (simp add: file_of_def)
qed (simp add: file_of_def)

lemma drop_cr_print: "drop_cr (print_json (JObj obj)) = print_json (JObj obj)"
proof -
  have "CHR 0x7D \<noteq> CHR 0x0D" by simp
  then show ?thesis by (simp only: drop_cr_def print_obj_ends) simp
qed

definition lines_fit :: "int \<Rightarrow> jobj list \<Rightarrow> bool" where
  "lines_fit limit os = list_all (\<lambda>obj. int (length (print_json (JObj obj))) < limit) os"

lemma scan_file_of:
  assumes v: "list_all (\<lambda>obj. valid_j (JObj obj)) os" and f: "lines_fit limit os"
  shows "scan_lines limit (file_of os) = (map (\<lambda>obj. print_json (JObj obj)) os, True)"
proof -
  have raw: "raw_lines (file_of os) = map (\<lambda>obj. print_json (JObj obj)) os"
    unfolding raw_lines_def split_file_of [OF v] by (simp add: Let_def)
  have all: "list_all (fits limit) (map (\<lambda>obj. print_json (JObj obj)) os)"
    using f by (simp add: lines_fit_def list_all_iff fits_def)
  then have "takeWhile (fits limit) (map (\<lambda>obj. print_json (JObj obj)) os)
      = map (\<lambda>obj. print_json (JObj obj)) os"
    by (simp only: takeWhile_eq_all_conv list_all_iff)
  then show ?thesis
    using all by (simp only: scan_lines_def raw Let_def) (simp add: drop_cr_print comp_def del: print_json.simps)
qed

lemma json_object_print: "valid_j (JObj obj) \<Longrightarrow> json_object (print_json (JObj obj)) = Some obj"
  by (simp add: json_object_def parse_print del: print_json.simps)

section \<open>The metadata line\<close>

definition meta_jobj :: "Meta \<Rightarrow> jobj" where
  "meta_jobj m =
     [(''type'', JStr (meta_Type m)), (''version'', JNum (int_str (sint (Version m)))),
      (''created_at'', JStr (CreatedAt m))] @
     omit_if (Upstream m = '''') (''upstream'', JStr (Upstream m)) @
     [(''serialized'', JBool (Serialized m))] @
     omit_if (Meta_Source m = '''') (''source'', JStr (Meta_Source m))"

lemma marshal_meta_jobj: "marshal_meta m = Inr (JObj (meta_jobj m))"
  unfolding marshal_meta_def meta_jobj_def
  by (intro marshal_struct_ok fields_ok_append fields_ok_omit)
    (simp_all add: jstr_field_def jint_field_def)

definition meta_ok :: "Meta \<Rightarrow> bool" where
  "meta_ok m \<longleftrightarrow> valid_utf8 (meta_Type m) \<and> valid_utf8 (CreatedAt m) \<and> valid_utf8 (Upstream m) \<and>
     valid_utf8 (Meta_Source m)"

lemma valid_names:
  "valid_utf8 ''type''" "valid_utf8 ''version''" "valid_utf8 ''created_at''" "valid_utf8 ''upstream''"
  "valid_utf8 ''serialized''" "valid_utf8 ''source''" "valid_utf8 ''name''" "valid_utf8 ''ts''"
  "valid_utf8 ''method''" "valid_utf8 ''path''" "valid_utf8 ''headers''" "valid_utf8 ''body''"
  "valid_utf8 ''expected''" "valid_utf8 ''status''" "valid_utf8 ''writeset''" "valid_utf8 ''entry''"
  "valid_utf8 ''meta''"
  by (rule utf8_lit, simp)+

lemma valid_meta_jobj: "meta_ok m \<Longrightarrow> valid_j (JObj (meta_jobj m))"
  by (auto simp: meta_jobj_def meta_ok_def omit_if_def valid_names)

lemma field_meta:
  "field ''type'' (meta_jobj m) = Some (JStr (meta_Type m))"
  "field ''version'' (meta_jobj m) = Some (JNum (int_str (sint (Version m))))"
  "field ''created_at'' (meta_jobj m) = Some (JStr (CreatedAt m))"
  "field ''upstream'' (meta_jobj m) = (if Upstream m = '''' then None else Some (JStr (Upstream m)))"
  "field ''serialized'' (meta_jobj m) = Some (JBool (Serialized m))"
  "field ''source'' (meta_jobj m) = (if Meta_Source m = '''' then None else Some (JStr (Meta_Source m)))"
  by (simp_all add: meta_jobj_def omit_if_def field_simps_lits)

lemma dec_int_print: "dec_int (Some (JNum (int_str (sint (w :: 64 word))))) = Some w"
  using int64_lit_sint [of w] by simp

lemma dec_meta_jobj: "dec_meta zero_meta (meta_jobj m) = Some m"
  using int64_lit_sint [of "Version m"]
  by (simp add: dec_meta_def field_meta keep_def zero_meta_def)

section \<open>The write-set of an entry\<close>

definition reread :: "gval \<Rightarrow> gval" where
  "reread v = the (to_any (jtree v))"

definition reread_row :: "row option \<Rightarrow> row option" where
  "reread_row m =
     (if the_row m = [] then None
      else Some (map (\<lambda>kv. (fst kv, reread (snd kv))) (sort_key fst (the_row m))))"

definition reread_entry :: "WriteEntry \<Rightarrow> WriteEntry" where
  "reread_entry e =
     \<lparr>Table = Table e, Op = Op e, PK = reread (PK e), Values = reread_row (Values e),
      Changed = reread_row (Changed e)\<rparr>"

text \<open>Entries of a write-set that survive the file: strings in UTF-8, integers up to \<open>2 ^ 53\<close>.\<close>

definition ws_ok :: "WriteEntry \<Rightarrow> bool" where
  "ws_ok e \<longleftrightarrow> ok_entry e \<and> col_ok (PK e) \<and> col_ok (GMap (the_row (Values e))) \<and>
     col_ok (GMap (the_row (Changed e)))"

lemma reread_col: "col_ok v \<Longrightarrow> to_any (jtree v) = Some (reread v)"
  using to_any_col by (force simp: reread_def)

lemma canonical_reread: "col_ok v \<Longrightarrow> canonical (reread v) = canonical v"
  by (rule reread_equal) (simp_all add: reread_col)

lemma reread_GMap:
  "col_ok (GMap m) \<Longrightarrow> to_any (jtree (GMap m)) = Some (GMap (map (\<lambda>kv. (fst kv, reread (snd kv))) (sort_key fst m)))"
  by (rule to_any_map) (auto intro!: reread_col)

lemma reread_row_payload:
  "col_ok (GMap (the_row m)) \<Longrightarrow> canonical (GMap (the_row (reread_row m))) = canonical (GMap (the_row m))"
proof (cases "the_row m = []")
  case False
  assume ok: "col_ok (GMap (the_row m))"
  have "reread (GMap (the_row m)) = GMap (the_row (reread_row m))"
    using reread_GMap [OF ok] False
    unfolding reread_row_def reread_def [of "GMap (the_row m)"] by (simp add: the_row_def [of "Some _"] del: jtree.simps to_any.simps)
  with canonical_reread [OF ok] show ?thesis by simp
qed (simp add: reread_row_def the_row_def)

lemma same_entry_reread: "ws_ok e \<Longrightarrow> same_entry (reread_entry e) e"
proof -
  assume e: "ws_ok e"
  then have "canonical (reread (PK e)) = canonical (PK e)" by (simp add: ws_ok_def canonical_reread)
  then have k: "ws_key (reread_entry e) = ws_key e" by (simp add: ws_key_def reread_entry_def)
  have "canonical (payload_val (reread_entry e)) = canonical (payload_val e)"
  proof (cases "Changed e")
    case None
    then show ?thesis
      using reread_row_payload [of "Values e"] e
      by (simp add: payload_val_def payload_def reread_entry_def reread_row_def [of None] the_row_def [of None]
          ws_ok_def)
  next
    case (Some m)
    with e have "m \<noteq> []" by (auto simp: ws_ok_def ok_entry_def)
    with Some have "payload (reread_entry e) = reread_row (Some m)"
      by (simp add: payload_def reread_entry_def reread_row_def the_row_def)
    then show ?thesis
      using reread_row_payload [of "Some m"] e Some
      by (simp add: payload_val_def payload_def [of e] ws_ok_def)
  qed
  with k show ?thesis by (simp add: same_entry_def equal_vals_def)
qed

lemma dec_row_jtree:
  "col_ok (GMap (the_row m)) \<Longrightarrow>
   dec_row (if the_row m = [] then None else Some (jtree (GMap (the_row m)))) = Some (reread_row m)"
proof -
  assume ok: "col_ok (GMap (the_row m))"
  obtain kvs where j: "jtree (GMap (the_row m)) = JObj kvs" by simp
  with reread_GMap [OF ok] show ?thesis
    by (simp add: dec_row_def reread_row_def del: jtree.simps to_any.simps)
qed

definition ws_jobj :: "WriteEntry \<Rightarrow> jobj" where
  "ws_jobj e = map (\<lambda>kv. (fst kv, jtree (snd kv))) (entry_fields e)"

lemma field_ws:
  "field ''table'' (ws_jobj e) = Some (JStr (Table e))" "field ''op'' (ws_jobj e) = Some (JStr (Op e))"
  "field ''pk'' (ws_jobj e) = Some (jtree (PK e))"
  "field ''values'' (ws_jobj e) =
     (if the_row (Values e) = [] then None else Some (jtree (GMap (the_row (Values e)))))"
  "field ''changed'' (ws_jobj e) =
     (if the_row (Changed e) = [] then None else Some (jtree (GMap (the_row (Changed e)))))"
  by (simp_all add: ws_jobj_def entry_fields_def omitempty_def field_simps_lits del: jtree.simps(5))

lemma dec_write_entry_jentry: "ws_ok e \<Longrightarrow> dec_write_entry (jentry e) = Some (reread_entry e)"
proof -
  assume e: "ws_ok e"
  then have "dec_row (field ''values'' (ws_jobj e)) = Some (reread_row (Values e))"
    "dec_row (field ''changed'' (ws_jobj e)) = Some (reread_row (Changed e))"
    unfolding field_ws ws_ok_def using dec_row_jtree by blast+
  moreover have "to_any (jtree (PK e)) = Some (reread (PK e))"
    using e by (simp add: ws_ok_def reread_col)
  ultimately have "dec_write_entry (JObj (ws_jobj e)) = Some (reread_entry e)"
    by (simp add: dec_write_entry_def field_ws(1-3) reread_entry_def)
  then show ?thesis by (simp add: jentry_def ws_jobj_def)
qed

section \<open>The line of an entry\<close>

definition jwriteset :: "WriteEntry list option \<Rightarrow> jval" where
  "jwriteset ws = (case ws of None \<Rightarrow> JNull | Some es \<Rightarrow> JArr (map jentry es))"

definition expected_jobj :: "Expected \<Rightarrow> jobj" where
  "expected_jobj x =
     [(''status'', JNum (int_str (sint (Status x)))), (''body'', JStr (exp_Body x)),
      (''writeset'', jwriteset (exp_Writeset x))]"

definition entry_jobj :: "Entry \<Rightarrow> jobj" where
  "entry_jobj e =
     [(''type'', JStr (en_Type e)), (''name'', JStr (en_Name e))] @
     omit_if (en_Ts e = '''') (''ts'', JStr (en_Ts e)) @
     [(''method'', JStr (en_Method e)), (''path'', JStr (en_Path e))] @
     omit_if (en_Headers e = []) (''headers'', jheaders (en_Headers e)) @
     omit_if (en_Body e = GNil) (''body'', jtree (en_Body e)) @
     [(''expected'', JObj (expected_jobj (en_Expected e)))]"

text \<open>An entry the file holds faithfully, and what reading it back yields.\<close>

definition entry_ok :: "Entry \<Rightarrow> bool" where
  "entry_ok e \<longleftrightarrow>
     list_all valid_utf8 [en_Type e, en_Name e, en_Ts e, en_Method e, en_Path e, exp_Body (en_Expected e)] \<and>
     distinct (keys (en_Headers e)) \<and>
     (\<forall>h \<in> set (en_Headers e). valid_utf8 (fst h) \<and> valid_utf8 (snd h)) \<and>
     json_val (en_Body e) \<and>
     (case exp_Writeset (en_Expected e) of None \<Rightarrow> True | Some es \<Rightarrow> list_all ws_ok es)"

definition reread_expected :: "Expected \<Rightarrow> Expected" where
  "reread_expected x = x\<lparr>exp_Writeset := map_option (map reread_entry) (exp_Writeset x)\<rparr>"

definition reread_golden :: "Entry \<Rightarrow> Entry" where
  "reread_golden e =
     e\<lparr>en_Headers := sort_key fst (en_Headers e), en_Body := sort_maps (en_Body e),
       en_Expected := reread_expected (en_Expected e)\<rparr>"

lemma marshal_writeset_ok:
  "(case ws of None \<Rightarrow> True | Some es \<Rightarrow> list_all ws_ok es) \<Longrightarrow> marshal_writeset ws = Inr (jwriteset ws)"
proof (cases ws)
  case (Some es)
  assume "case ws of None \<Rightarrow> True | Some es \<Rightarrow> list_all ws_ok es"
  with Some have "map marshal_entry es = map Inr (map jentry es)"
    by (auto simp: list_all_iff ws_ok_def marshal_entry_ok)
  then have "seq_sum (map marshal_entry es) = Inr (map jentry es)" by (simp only: seq_sum_Inr)
  with Some show ?thesis by (simp add: marshal_writeset_def jwriteset_def)
qed (simp add: marshal_writeset_def jwriteset_def)

lemma marshal_entry_jobj: "entry_ok e \<Longrightarrow> marshal_golden_entry e = Inr (JObj (entry_jobj e))"
proof -
  assume e: "entry_ok e"
  have x: "marshal_expected (en_Expected e) = Inr (JObj (expected_jobj (en_Expected e)))"
    unfolding marshal_expected_def expected_jobj_def
    using e by (intro marshal_struct_ok) (simp add: jint_field_def jstr_field_def entry_ok_def marshal_writeset_ok)
  have b: "marshal (en_Body e) = Inr (jtree (en_Body e))"
    using e by (simp add: entry_ok_def marshal_json_val)
  show ?thesis
    unfolding marshal_golden_entry_def entry_jobj_def
    by (intro marshal_struct_ok fields_ok_append fields_ok_omit) (simp_all add: jstr_field_def x b)
qed

lemma valid_jwriteset:
  "(case ws of None \<Rightarrow> True | Some es \<Rightarrow> list_all ws_ok es) \<Longrightarrow> valid_j (jwriteset ws)"
  by (cases ws) (auto simp: jwriteset_def list_all_iff ws_ok_def valid_j_jentry)

lemma valid_entry_jobj: "entry_ok e \<Longrightarrow> valid_j (JObj (entry_jobj e))"
proof -
  assume e: "entry_ok e"
  have b: "valid_j (jtree (en_Body e))" using e by (simp add: entry_ok_def valid_j_json_val)
  have h: "valid_j (jheaders (en_Headers e))" using e by (auto simp: jheaders_def entry_ok_def)
  have w: "valid_j (jwriteset (exp_Writeset (en_Expected e)))"
    using e by (simp add: entry_ok_def valid_jwriteset)
  have "list_all (\<lambda>kv. valid_utf8 (fst kv) \<and> valid_j (snd kv)) (entry_jobj e)"
    using e by (simp add: entry_jobj_def omit_if_def entry_ok_def expected_jobj_def b h w valid_names)
  then show ?thesis by (simp add: list_all_iff)
qed

lemma field_entry:
  "field ''type'' (entry_jobj e) = Some (JStr (en_Type e))"
  "field ''name'' (entry_jobj e) = Some (JStr (en_Name e))"
  "field ''ts'' (entry_jobj e) = (if en_Ts e = '''' then None else Some (JStr (en_Ts e)))"
  "field ''method'' (entry_jobj e) = Some (JStr (en_Method e))"
  "field ''path'' (entry_jobj e) = Some (JStr (en_Path e))"
  "field ''headers'' (entry_jobj e) = (if en_Headers e = [] then None else Some (jheaders (en_Headers e)))"
  "field ''body'' (entry_jobj e) = (if en_Body e = GNil then None else Some (jtree (en_Body e)))"
  "field ''expected'' (entry_jobj e) = Some (JObj (expected_jobj (en_Expected e)))"
  by (simp_all add: entry_jobj_def omit_if_def field_simps_lits)

lemma field_expected:
  "field ''status'' (expected_jobj x) = Some (JNum (int_str (sint (Status x))))"
  "field ''body'' (expected_jobj x) = Some (JStr (exp_Body x))"
  "field ''writeset'' (expected_jobj x) = Some (jwriteset (exp_Writeset x))"
  by (simp_all add: expected_jobj_def field_simps_lits)

lemma dec_writeset_ok:
  "(case ws of None \<Rightarrow> True | Some es \<Rightarrow> list_all ws_ok es) \<Longrightarrow>
   dec_writeset (Some (jwriteset ws)) = Some (map_option (map reread_entry) ws)"
proof (cases ws)
  case (Some es)
  assume "case ws of None \<Rightarrow> True | Some es \<Rightarrow> list_all ws_ok es"
  with Some have "those (map (\<lambda>e. dec_write_entry (jentry e)) es) = Some (map reread_entry es)"
    by (intro those_map_Some) (simp add: list_all_iff dec_write_entry_jentry)
  with Some show ?thesis by (simp add: dec_writeset_def jwriteset_def comp_def)
qed (simp add: dec_writeset_def jwriteset_def)

lemma dec_expected_ok:
  "(case exp_Writeset x of None \<Rightarrow> True | Some es \<Rightarrow> list_all ws_ok es) \<Longrightarrow>
   dec_expected (Some (JObj (expected_jobj x))) = Some (reread_expected x)"
  using dec_writeset_ok [of "exp_Writeset x"] int64_lit_sint [of "Status x"]
  by (simp add: dec_expected_def field_expected reread_expected_def)

lemma dec_headers_ok:
  assumes "distinct (keys h)"
  shows "dec_string_map (if h = [] then None else Some (jheaders h)) = Some (sort_key fst h)"
proof -
  have "those (map ((\<lambda>kv. map_option (Pair (fst kv)) (dec_string (Some (snd kv)))) \<circ>
      (\<lambda>kv. (fst kv, JStr (snd kv)))) (sort_key fst h)) = Some (map id (sort_key fst h))"
    by (rule those_map_Some) simp
  moreover have "go_map (sort_key fst h) = sort_key fst h"
    by (rule go_map_distinct [OF distinct_keys_sort [OF assms]])
  ultimately show ?thesis
    by (simp add: dec_string_map_def jheaders_def go_map_def [of "[]"])
qed

lemma dec_golden_entry_ok: "entry_ok e \<Longrightarrow> dec_golden_entry (entry_jobj e) = Some (reread_golden e)"
proof -
  assume e: "entry_ok e"
  have h: "dec_string_map (field ''headers'' (entry_jobj e)) = Some (sort_key fst (en_Headers e))"
    unfolding field_entry using e by (intro dec_headers_ok) (simp add: entry_ok_def)
  have b: "dec_any (field ''body'' (entry_jobj e)) = Some (sort_maps (en_Body e))"
    using e to_any_json_val by (simp add: field_entry entry_ok_def)
  have x: "dec_expected (field ''expected'' (entry_jobj e)) = Some (reread_expected (en_Expected e))"
    unfolding field_entry using e by (intro dec_expected_ok) (simp add: entry_ok_def)
  show ?thesis
    by (simp add: dec_golden_entry_def h b x) (simp add: field_entry reread_golden_def)
qed

section \<open>Round trips\<close>

fun append_all :: "Entry list \<Rightarrow> string \<Rightarrow> marshal_err + string" where
  "append_all [] file = Inr file"
| "append_all (e # es) file = (case Append e file of Inl err \<Rightarrow> Inl err | Inr file' \<Rightarrow> append_all es file')"

definition record_file :: "string \<Rightarrow> Meta \<Rightarrow> Entry list \<Rightarrow> marshal_err + string" where
  "record_file now meta es =
     (case NewWriter now meta '''' of Inl err \<Rightarrow> Inl err | Inr file \<Rightarrow> append_all es file)"

definition final_meta :: "string \<Rightarrow> Meta \<Rightarrow> Meta" where
  "final_meta now meta =
     meta\<lparr>meta_Type := ''meta'', Version := (if Version meta = 0 then 1 else Version meta),
          CreatedAt := (if CreatedAt meta = '''' then now else CreatedAt meta)\<rparr>"

definition as_entry :: "Entry \<Rightarrow> Entry" where
  "as_entry e = e\<lparr>en_Type := ''entry''\<rparr>"

definition golden_objs :: "string \<Rightarrow> Meta \<Rightarrow> Entry list \<Rightarrow> jobj list" where
  "golden_objs now meta es = meta_jobj (final_meta now meta) # map (entry_jobj \<circ> as_entry) es"

lemma as_entry_ok: "entry_ok e \<Longrightarrow> entry_ok (as_entry e)"
  by (simp add: entry_ok_def as_entry_def valid_names)

lemma append_all_ok:
  "list_all entry_ok es \<Longrightarrow> append_all es buf = Inr (buf @ file_of (map (entry_jobj \<circ> as_entry) es))"
proof (induction es arbitrary: buf)
  case (Cons e es)
  have "marshal_golden_entry (as_entry e) = Inr (JObj (entry_jobj (as_entry e)))"
    using Cons.prems by (intro marshal_entry_jobj as_entry_ok) simp
  then have "Append e buf = Inr (buf @ print_json (JObj (entry_jobj (as_entry e))) @ [CHR 0x0A])"
    by (simp add: Append_def writeLine_def as_entry_def del: print_json.simps)
  with Cons show ?case by (simp add: file_of_def del: print_json.simps)
qed (simp add: file_of_def)

lemma record_file_ok:
  "list_all entry_ok es \<Longrightarrow> record_file now meta es = Inr (file_of (golden_objs now meta es))"
  by (simp add: record_file_def NewWriter_def writeLine_def marshal_meta_jobj append_all_ok golden_objs_def
      final_meta_def file_of_def del: print_json.simps)

lemma read_entry_line:
  assumes "entry_ok e" and "en_Type e = ''entry''"
  shows "read_lines n m (print_json (JObj (entry_jobj e)) # rest) =
    map_sum id (\<lambda>(m, es). (m, reread_golden e # es)) (read_lines (n + 1) m rest)"
proof -
  have "json_object (print_json (JObj (entry_jobj e))) = Some (entry_jobj e)"
    by (rule json_object_print [OF valid_entry_jobj [OF assms(1)]])
  then show ?thesis
    using assms by (simp add: trim_print_obj field_entry(1) dec_golden_entry_ok Let_def del: print_json.simps)
      (simp add: field_entry(1))
qed

lemma read_entry_lines:
  "list_all entry_ok es \<Longrightarrow>
   read_lines n m (map (\<lambda>obj. print_json (JObj obj)) (map (entry_jobj \<circ> as_entry) es)) =
     Inr (m, map (reread_golden \<circ> as_entry) es)"
proof (induction es arbitrary: n)
  case (Cons e es)
  have "entry_ok (as_entry e)" using Cons.prems by (intro as_entry_ok) simp
  moreover have "en_Type (as_entry e) = ''entry''" by (simp add: as_entry_def)
  ultimately show ?case using Cons by (simp add: read_entry_line del: print_json.simps read_lines.simps(2))
qed simp

lemma read_meta_line:
  assumes "meta_ok m" and "meta_Type m = ''meta''"
  shows "read_lines n zero_meta (print_json (JObj (meta_jobj m)) # rest) = read_lines (n + 1) m rest"
proof -
  have "json_object (print_json (JObj (meta_jobj m))) = Some (meta_jobj m)"
    by (rule json_object_print [OF valid_meta_jobj [OF assms(1)]])
  then show ?thesis
    using assms by (simp add: trim_print_obj field_meta(1) dec_meta_jobj Let_def del: print_json.simps)
      (simp add: field_meta(1))
qed

lemma golden_file_read:
  assumes "list_all entry_ok es" and "meta_ok (final_meta now meta)"
    and "lines_fit golden_limit (golden_objs now meta es)"
  shows "\<exists>file. record_file now meta es = Inr file \<and>
    Read_golden (Some file) =
      Inr (final_meta now meta, sort_key en_Ts (map (reread_golden \<circ> as_entry) es))"
proof -
  let ?os = "golden_objs now meta es"
  have "list_all (\<lambda>obj. valid_j (JObj obj)) ?os"
    using assms(1,2) valid_meta_jobj valid_entry_jobj as_entry_ok
    by (auto simp: golden_objs_def list_all_iff simp del: valid_j.simps)
  then have scan: "scan_lines golden_limit (file_of ?os) = (map (\<lambda>obj. print_json (JObj obj)) ?os, True)"
    by (rule scan_file_of [OF _ assms(3)])
  have "read_lines 0 zero_meta (map (\<lambda>obj. print_json (JObj obj)) ?os) =
      Inr (final_meta now meta, map (reread_golden \<circ> as_entry) es)"
    using read_meta_line [OF assms(2)] read_entry_lines [OF assms(1), of 1]
    by (simp add: golden_objs_def del: print_json.simps read_lines.simps(2))
      (simp add: final_meta_def)
  then have "Read_golden (Some (file_of ?os)) =
      Inr (final_meta now meta, sort_key en_Ts (map (reread_golden \<circ> as_entry) es))"
    by (simp add: Read_golden_def scan)
  with record_file_ok [OF assms(1)] show ?thesis by blast
qed

text \<open>
  C23.  A golden file holds what was recorded: writing the metadata and then every entry succeeds, and
  reading the file yields the metadata (with its type, version and creation time filled in) and all
  entries, in the order of their timestamps and otherwise of their recording; each entry comes back
  as written, its headers and the maps of its body in key order, its write-set re-read (\<open>reread_golden\<close>).
  The conditions: lines are shorter than 4 MiB, strings are well-formed UTF-8, names in maps and headers
  are distinct, bodies are values decoded from JSON, and the write-sets hold normalised values that
  survive JSON (\<open>ws_ok\<close>: integers up to \<open>2 ^ 53\<close> in absolute value, floats that print as a literal
  that reads back, no value of a driver's own type such as a time or a PostgreSQL \<open>numeric\<close>).  Beyond
  them the file may hold something else (\<open>golden_big_key_lost\<close>).
\<close>

theorem golden_roundtrip:
  assumes "list_all entry_ok es" and "meta_ok (final_meta now meta)"
    and "lines_fit golden_limit (golden_objs now meta es)"
  shows "\<exists>file. record_file now meta es = Inr file \<and>
    Read_golden (Some file) =
      Inr (final_meta now meta, sort_key en_Ts (map (reread_golden \<circ> as_entry) es))"
  using golden_file_read [OF assms] .

definition demo_golden :: Entry where
  "demo_golden = \<lparr>en_Type = '''', en_Name = ''n'', en_Ts = '''', en_Method = ''GET'', en_Path = ''/'',
     en_Headers = [], en_Body = GNil,
     en_Expected = \<lparr>Status = 200, exp_Body = ''ok'', exp_Writeset = Some [demo_entry (GI64 5)]\<rparr>\<rparr>"

lemma demo_ws_ok: "ws_ok (demo_entry (GI64 5))"
proof -
  have "valid_utf8 ''t''" "valid_utf8 ''INSERT''" "valid_utf8 ''id''" "valid_utf8 ''v''" by (rule utf8_lit, simp)+
  then show ?thesis by (simp add: ws_ok_def ok_entry_def demo_entry_def the_row_def keys_def)
qed

lemma demo_golden_ok: "list_all entry_ok [demo_golden]"
proof -
  have "valid_utf8 ''n''" "valid_utf8 ''GET''" "valid_utf8 ''/''" "valid_utf8 ''ok''" by (rule utf8_lit, simp)+
  then show ?thesis
    using demo_ws_ok by (simp add: entry_ok_def demo_golden_def keys_def valid_utf8.simps(1))
qed

theorem golden_roundtrip_witness:
  "\<exists>file. record_file ''now'' zero_meta [demo_golden] = Inr file \<and>
     Read_golden (Some file) =
       Inr (final_meta ''now'' zero_meta, sort_key en_Ts (map (reread_golden \<circ> as_entry) [demo_golden]))"
proof (rule golden_roundtrip)
  show "lines_fit golden_limit (golden_objs ''now'' zero_meta [demo_golden])" by code_simp
  show "list_all entry_ok [demo_golden]" by (rule demo_golden_ok)
  have "valid_utf8 ''now''" by (rule utf8_lit) simp
  then show "meta_ok (final_meta ''now'' zero_meta)"
    by (simp add: meta_ok_def final_meta_def zero_meta_def valid_names valid_utf8.simps(1))
qed

text \<open>
  C24.  Storing a write-set in a golden file costs no precision that a comparison would see: the
  entries decoded from the JSON of a write-set show no difference to the entries themselves, for
  write-sets of normalised values that survive JSON (\<open>ws_ok\<close>): strings in UTF-8, integers up to \<open>2 ^ 53\<close>
  in absolute value, floats that print as a literal that reads back, and no value of a driver's own type
  (a time, or a PostgreSQL \<open>numeric\<close>, which marshals as \<open>12.50\<close> and is read as \<open>12.5\<close>).
\<close>

theorem golden_writeset_no_diff:
  assumes "list_all ws_ok ws"
  shows "\<exists>j ws'. marshal_writeset (Some ws) = Inr j \<and> dec_writeset (Some j) = Some (Some ws') \<and>
    DiffWritesets ws' ws = []"
proof -
  have "list_all2 same_entry (map reread_entry ws) ws"
    using assms by (simp add: list_all2_conv_all_nth list_all_length same_entry_reread)
  then have "DiffWritesets (map reread_entry ws) ws = []" by (rule same_entries_no_diff)
  moreover have "marshal_writeset (Some ws) = Inr (jwriteset (Some ws))"
    "dec_writeset (Some (jwriteset (Some ws))) = Some (Some (map reread_entry ws))"
    using assms marshal_writeset_ok [of "Some ws"] dec_writeset_ok [of "Some ws"] by simp_all
  ultimately show ?thesis by blast
qed

theorem golden_writeset_no_diff_witness:
  "\<exists>j ws'. marshal_writeset (Some [demo_entry (GI64 5)]) = Inr j \<and>
     dec_writeset (Some j) = Some (Some ws') \<and> DiffWritesets ws' [demo_entry (GI64 5)] = []"
  by (rule golden_writeset_no_diff) (simp add: demo_ws_ok)

text \<open>The bound is sharp: a key beyond it comes back as its neighbour, and the comparison with the
  recorded write-set reports both rows.\<close>

lemma golden_big_key_lost:
  "DiffWritesets [reread_entry \<lparr>Table = ''t'', Op = ''INSERT'', PK = GI64 9007199254740993, Values = None,
       Changed = None\<rparr>]
     [\<lparr>Table = ''t'', Op = ''INSERT'', PK = GI64 9007199254740993, Values = None, Changed = None\<rparr>] \<noteq> []"
  by code_simp

end
