(* ===== verification/Sniff.thy ===== *)
theory Sniff
  imports Traffic
begin

text \<open>
  \<open>internal/sniff/sniff.go\<close>: pairing of requests and responses per connection, and the output with
  its sampling.  TCP reassembly and HTTP parsing are the libraries' part: the messages they deliver
  are the events of the pairer.  A time is a number of nanoseconds since 1970 (UTC).
\<close>

section \<open>Pairing\<close>

record pendingRequest =
  pr_ts :: int
  pr_method :: string
  pr_path :: string
  pr_headers :: "(string \<times> string) list"
  pr_body :: gval

record pendingResponse =
  ps_status :: "64 word"
  ps_body :: string

record Exchange =
  xc_Ts :: int
  xc_Method :: string
  xc_Path :: string
  xc_Headers :: "(string \<times> string) list"
  xc_Body :: gval
  xc_Status :: "64 word"
  xc_RespBody :: string

record conn =
  cn_requests :: "pendingRequest list"
  cn_responses :: "pendingResponse list"

type_synonym conns = "(string \<times> conn) list"

definition get_conn :: "conns \<Rightarrow> string \<Rightarrow> conn" where
  "get_conn cs key =
     (case map_of cs key of None \<Rightarrow> \<lparr>cn_requests = [], cn_responses = []\<rparr> | Some c \<Rightarrow> c)"

definition exchange_of :: "pendingRequest \<Rightarrow> pendingResponse \<Rightarrow> Exchange" where
  "exchange_of req resp =
     \<lparr>xc_Ts = pr_ts req, xc_Method = pr_method req, xc_Path = pr_path req, xc_Headers = pr_headers req,
      xc_Body = pr_body req, xc_Status = ps_status resp, xc_RespBody = ps_body resp\<rparr>"

text \<open>The loop of \<open>match\<close>: the exchanges handed to the sink and the connection left.\<close>

fun match_queues :: "pendingRequest list \<Rightarrow> pendingResponse list \<Rightarrow> Exchange list \<times> conn" where
  "match_queues (req # reqs) (resp # resps) =
     (let (xs, c) = match_queues reqs resps in (exchange_of req resp # xs, c))"
| "match_queues reqs resps = ([], \<lparr>cn_requests = reqs, cn_responses = resps\<rparr>)"

definition match_conn :: "conn \<Rightarrow> Exchange list \<times> conn" where
  "match_conn c = match_queues (cn_requests c) (cn_responses c)"

definition addRequest :: "string \<Rightarrow> int \<Rightarrow> InReq \<Rightarrow> string \<Rightarrow> conns \<Rightarrow> Exchange list \<times> conns" where
  "addRequest key now req body cs =
     (let (path, headers, parsedBody) = requestParts req body;
          c = get_conn cs key;
          (xs, c') = match_conn (c\<lparr>cn_requests := cn_requests c @
            [\<lparr>pr_ts = now, pr_method = iq_Method req, pr_path = path, pr_headers = headers,
              pr_body = parsedBody\<rparr>]\<rparr>)
      in (xs, map_set key c' cs))"

definition addResponse :: "string \<Rightarrow> 64 word \<Rightarrow> string \<Rightarrow> conns \<Rightarrow> Exchange list \<times> conns" where
  "addResponse key status body cs =
     (let c = get_conn cs key;
          (xs, c') = match_conn (c\<lparr>cn_responses := cn_responses c @ [\<lparr>ps_status = status, ps_body = body\<rparr>]\<rparr>)
      in (xs, map_set key c' cs))"

text \<open>The messages of all streams, in the order in which their parsers take the pairer's lock; a body
  is kept up to 1 MiB.\<close>

datatype pair_event = ReqEv string int InReq string | RespEv string "64 word" string

definition sniff_limit :: nat where
  "sniff_limit = 1048576"

definition pair_step :: "pair_event \<Rightarrow> conns \<Rightarrow> Exchange list \<times> conns" where
  "pair_step ev cs =
     (case ev of
        ReqEv key now req body \<Rightarrow> addRequest key now req (take sniff_limit body) cs
      | RespEv key status body \<Rightarrow> addResponse key status (take sniff_limit body) cs)"

text \<open>The exchanges with the connection they came from.\<close>

definition ev_key :: "pair_event \<Rightarrow> string" where
  "ev_key ev = (case ev of ReqEv key _ _ _ \<Rightarrow> key | RespEv key _ _ \<Rightarrow> key)"

fun pair_run :: "pair_event list \<Rightarrow> conns \<Rightarrow> (string \<times> Exchange) list \<times> conns" where
  "pair_run [] cs = ([], cs)"
| "pair_run (ev # evs) cs =
     (let (xs, cs) = pair_step ev cs; (ys, cs) = pair_run evs cs
      in (map (Pair (ev_key ev)) xs @ ys, cs))"

text \<open>The requests and responses of one connection, in order.\<close>

definition pending_of :: "int \<Rightarrow> InReq \<Rightarrow> string \<Rightarrow> pendingRequest" where
  "pending_of now req body =
     \<lparr>pr_ts = now, pr_method = iq_Method req, pr_path = kept_path req,
      pr_headers = kept_headers (iq_Header req), pr_body = kept_body body\<rparr>"

fun reqs_of :: "string \<Rightarrow> pair_event list \<Rightarrow> pendingRequest list" where
  "reqs_of k [] = []"
| "reqs_of k (ReqEv key now req body # evs) =
     (if key = k then pending_of now req (take sniff_limit body) # reqs_of k evs else reqs_of k evs)"
| "reqs_of k (RespEv _ _ _ # evs) = reqs_of k evs"

fun resps_of :: "string \<Rightarrow> pair_event list \<Rightarrow> pendingResponse list" where
  "resps_of k [] = []"
| "resps_of k (RespEv key status body # evs) =
     (if key = k then \<lparr>ps_status = status, ps_body = take sniff_limit body\<rparr> # resps_of k evs
      else resps_of k evs)"
| "resps_of k (ReqEv _ _ _ _ # evs) = resps_of k evs"

lemma match_queues_spec:
  "match_queues reqs resps =
     (map (\<lambda>(r, s). exchange_of r s) (zip reqs resps),
      \<lparr>cn_requests = drop (length resps) reqs, cn_responses = drop (length reqs) resps\<rparr>)"
  by (induction reqs resps rule: match_queues.induct) auto

definition settled :: "conn \<Rightarrow> bool" where
  "settled c \<longleftrightarrow> cn_requests c = [] \<or> cn_responses c = []"

definition settled_all :: "conns \<Rightarrow> bool" where
  "settled_all cs \<longleftrightarrow> (\<forall>k. settled (get_conn cs k))"

lemma get_conn_set: "get_conn (map_set k c cs) k' = (if k' = k then c else get_conn cs k')"
  by (simp add: get_conn_def)

lemma addRequest_spec:
  "addRequest key now req body cs =
     (map (\<lambda>(r, s). exchange_of r s)
        (zip (cn_requests (get_conn cs key) @ [pending_of now req body]) (cn_responses (get_conn cs key))),
      map_set key \<lparr>cn_requests = drop (length (cn_responses (get_conn cs key)))
                     (cn_requests (get_conn cs key) @ [pending_of now req body]),
                   cn_responses = drop (Suc (length (cn_requests (get_conn cs key))))
                     (cn_responses (get_conn cs key))\<rparr> cs)"
  by (simp add: addRequest_def match_conn_def match_queues_spec requestParts_def pending_of_def Let_def)

lemma addResponse_spec:
  "addResponse key status body cs =
     (map (\<lambda>(r, s). exchange_of r s)
        (zip (cn_requests (get_conn cs key))
             (cn_responses (get_conn cs key) @ [\<lparr>ps_status = status, ps_body = body\<rparr>])),
      map_set key \<lparr>cn_requests = drop (Suc (length (cn_responses (get_conn cs key))))
                     (cn_requests (get_conn cs key)),
                   cn_responses = drop (length (cn_requests (get_conn cs key)))
                     (cn_responses (get_conn cs key) @ [\<lparr>ps_status = status, ps_body = body\<rparr>])\<rparr> cs)"
  by (simp add: addResponse_def match_conn_def match_queues_spec Let_def)

lemma zip_more:
  "map f (zip xs ys) @ map f (zip (drop (length ys) xs @ as) (drop (length xs) ys @ bs))
   = map f (zip (xs @ as) (ys @ bs))"
  by (induction xs ys rule: list_induct2') (auto simp: drop_Cons')

lemma drop_more:
  "drop (length (drop (length xs) ys @ bs)) (drop (length ys) xs @ as) = drop (length (ys @ bs)) (xs @ as)"
proof (cases "length xs \<le> length ys")
  case False
  then have "drop (length ys) (xs @ as) = drop (length ys) xs @ as" by simp
  then have "drop (length bs) (drop (length ys) xs @ as) = drop (length bs + length ys) (xs @ as)"
    by (metis drop_drop)
  with False show ?thesis by (simp add: add.commute)
qed simp

text \<open>What a connection's exchanges are, from any settled state of its queues.\<close>

definition conn_ok :: "pendingRequest list \<Rightarrow> pendingResponse list \<Rightarrow> conn" where
  "conn_ok reqs resps =
     \<lparr>cn_requests = drop (length resps) reqs, cn_responses = drop (length reqs) resps\<rparr>"

lemma conn_ok_settled: "settled (conn_ok reqs resps)"
  by (auto simp: conn_ok_def settled_def)

lemma conn_ok_of_settled: "settled c \<Longrightarrow> conn_ok (cn_requests c) (cn_responses c) = c"
  by (cases c) (auto simp: conn_ok_def settled_def)

lemma conn_ok_more:
  "conn_ok (cn_requests (conn_ok xs ys) @ as) (cn_responses (conn_ok xs ys) @ bs) = conn_ok (xs @ as) (ys @ bs)"
  using drop_more [of xs ys bs as] drop_more [of ys xs as bs] by (simp add: conn_ok_def)

definition pairs :: "pendingRequest list \<Rightarrow> pendingResponse list \<Rightarrow> Exchange list" where
  "pairs reqs resps = map (\<lambda>(r, s). exchange_of r s) (zip reqs resps)"

lemma pairs_more:
  "pairs xs ys @ pairs (cn_requests (conn_ok xs ys) @ as) (cn_responses (conn_ok xs ys) @ bs)
   = pairs (xs @ as) (ys @ bs)"
  unfolding pairs_def conn_ok_def by (simp add: zip_more)

lemma pairs_settled: "settled c \<Longrightarrow> pairs (cn_requests c) (cn_responses c) = []"
  by (auto simp: pairs_def settled_def)

text \<open>One event: what its connection had, with the new message appended.\<close>

definition new_reqs :: "string \<Rightarrow> pair_event \<Rightarrow> pendingRequest list" where
  "new_reqs k ev = reqs_of k [ev]"

definition new_resps :: "string \<Rightarrow> pair_event \<Rightarrow> pendingResponse list" where
  "new_resps k ev = resps_of k [ev]"

lemma reqs_of_Cons: "reqs_of k (ev # evs) = new_reqs k ev @ reqs_of k evs"
  by (cases ev) (simp_all add: new_reqs_def)

lemma resps_of_Cons: "resps_of k (ev # evs) = new_resps k ev @ resps_of k evs"
  by (cases ev) (simp_all add: new_resps_def)

lemma pair_step_own:
  "pair_step ev cs =
     (pairs (cn_requests (get_conn cs (ev_key ev)) @ new_reqs (ev_key ev) ev)
            (cn_responses (get_conn cs (ev_key ev)) @ new_resps (ev_key ev) ev),
      map_set (ev_key ev) (conn_ok (cn_requests (get_conn cs (ev_key ev)) @ new_reqs (ev_key ev) ev)
            (cn_responses (get_conn cs (ev_key ev)) @ new_resps (ev_key ev) ev)) cs)"
  by (cases ev)
    (simp_all add: pair_step_def addRequest_spec addResponse_spec ev_key_def new_reqs_def new_resps_def
      pairs_def conn_ok_def)

lemma new_other: "k \<noteq> ev_key ev \<Longrightarrow> new_reqs k ev = [] \<and> new_resps k ev = []"
  by (cases ev) (simp_all add: new_reqs_def new_resps_def ev_key_def)

lemma pair_run_conn:
  "settled (get_conn cs k) \<Longrightarrow>
   map snd (filter (\<lambda>kx. fst kx = k) (fst (pair_run evs cs))) =
     pairs (cn_requests (get_conn cs k) @ reqs_of k evs) (cn_responses (get_conn cs k) @ resps_of k evs) \<and>
   get_conn (snd (pair_run evs cs)) k =
     conn_ok (cn_requests (get_conn cs k) @ reqs_of k evs) (cn_responses (get_conn cs k) @ resps_of k evs)"
proof (induction evs arbitrary: cs)
  case Nil
  then show ?case by (simp add: pairs_settled conn_ok_of_settled)
next
  case (Cons ev evs)
  obtain xs cs1 where s: "pair_step ev cs = (xs, cs1)" by fastforce
  obtain ys cs2 where r: "pair_run evs cs1 = (ys, cs2)" by fastforce
  let ?q = "cn_requests (get_conn cs k) @ new_reqs k ev"
  let ?p = "cn_responses (get_conn cs k) @ new_resps k ev"
  have own: "get_conn cs1 k = conn_ok ?q ?p \<and>
      map snd (filter (\<lambda>kx. fst kx = k) (map (Pair (ev_key ev)) xs)) = pairs ?q ?p"
  proof (cases "k = ev_key ev")
    case True
    have "filter (\<lambda>kx. fst kx = k) (map (Pair k) xs) = map (Pair k) xs"
      by (simp add: filter_map comp_def)
    moreover have "xs = pairs ?q ?p" "cs1 = map_set k (conn_ok ?q ?p) cs"
      using True s pair_step_own [of ev cs] by simp_all
    ultimately show ?thesis using True by (simp add: get_conn_set comp_def)
  next
    case False
    then have "get_conn cs1 k = get_conn cs k"
      using s pair_step_own [of ev cs] by (auto simp: get_conn_set)
    moreover have "filter (\<lambda>kx. fst kx = k) (map (Pair (ev_key ev)) xs) = []"
      using False by (simp add: filter_map comp_def)
    ultimately show ?thesis
      using False Cons.prems by (simp add: new_other conn_ok_of_settled pairs_settled)
  qed
  then have "settled (get_conn cs1 k)" by (simp add: conn_ok_settled)
  from Cons.IH [OF this] own s r
    conn_ok_more [of ?q ?p "reqs_of k evs" "resps_of k evs"] pairs_more [of ?q ?p "reqs_of k evs" "resps_of k evs"]
  show ?case by (simp add: reqs_of_Cons resps_of_Cons)
qed

text \<open>
  Pairing is first in, first out on every connection, whatever the interleaving: the exchanges a
  connection gives rise to are its requests paired in order with its responses, each with the
  request's time, method, path, headers and body and the response's status and body, no matter in
  which order the two parsers (and those of other connections) deliver; what is left over waits.
\<close>

theorem pairing_fifo:
  "map snd (filter (\<lambda>kx. fst kx = k) (fst (pair_run evs []))) =
     map (\<lambda>(r, s). exchange_of r s) (zip (reqs_of k evs) (resps_of k evs)) \<and>
   get_conn (snd (pair_run evs [])) k =
     \<lparr>cn_requests = drop (length (resps_of k evs)) (reqs_of k evs),
      cn_responses = drop (length (reqs_of k evs)) (resps_of k evs)\<rparr>"
  using pair_run_conn [of "[]" k evs] by (simp add: get_conn_def settled_def pairs_def conn_ok_def)

end
