(* ===== verification/SniffOutput.thy ===== *)
theory SniffOutput
  imports Sniff
begin

text \<open>
  The output half of \<open>internal/sniff/sniff.go\<close>: \<open>NewOutput\<close>, sampling, \<open>Sink\<close>, \<open>Stats\<close> and
  \<open>Close\<close>, on the contents of the file.  The random numbers and the errors of writing are inputs of
  each call.  The timestamp is \<open>time.RFC3339Nano\<close> of a UTC time, from the nanoseconds since 1970.
\<close>

section \<open>Comparing doubles\<close>

definition fin_le :: "int \<Rightarrow> int \<Rightarrow> int \<Rightarrow> int \<Rightarrow> bool" where
  "fin_le m e m' e' =
     (if e \<le> e' then m \<le> m' * 2 ^ nat (e' - e) else m * 2 ^ nat (e - e') \<le> m')"

text \<open>Go's \<open><=\<close>: false when an operand is NaN.  \<open>FInf True\<close> is minus infinity.\<close>

fun f64_le :: "f64 \<Rightarrow> f64 \<Rightarrow> bool" where
  "f64_le FNaN y = False"
| "f64_le x FNaN = False"
| "f64_le (FInf neg) (FInf neg') = (neg \<or> \<not> neg')"
| "f64_le (FInf neg) y = neg"
| "f64_le x (FInf neg) = (\<not> neg)"
| "f64_le FNegZero FNegZero = True"
| "f64_le FNegZero (FFin m e) = (0 \<le> m)"
| "f64_le (FFin m e) FNegZero = (m \<le> 0)"
| "f64_le (FFin m e) (FFin m' e') = fin_le m e m' e'"

section \<open>Timestamps\<close>

text \<open>Year, month and day of a day number (days since 1970-01-01), in the proleptic Gregorian
  calendar.\<close>

definition civil_of_days :: "int \<Rightarrow> int \<times> int \<times> int" where
  "civil_of_days days =
     (let z = days + 719468;
          era = z div 146097;
          doe = z mod 146097;
          yoe = (doe - doe div 1460 + doe div 36524 - doe div 146096) div 365;
          doy = doe - (365 * yoe + yoe div 4 - yoe div 100);
          mp = (5 * doy + 2) div 153;
          d = doy - (153 * mp + 2) div 5 + 1;
          m = (if mp < 10 then mp + 3 else mp - 9);
          y = yoe + era * 400 + (if m \<le> 2 then 1 else 0)
      in (y, m, d))"

definition pad :: "nat \<Rightarrow> int \<Rightarrow> string" where
  "pad width n =
     (let digits = dec_str n in replicate (width - length digits) (CHR ''0'') @ digits)"

text \<open>The fraction \<open>.999999999\<close> of the layout drops trailing zeros, and the point with them.\<close>

definition fraction :: "int \<Rightarrow> string" where
  "fraction nanos = (if nanos = 0 then '''' else ''.'' @ trim_right (CHR ''0'') (pad 9 nanos))"

text \<open>\<open>t.UTC().Format(time.RFC3339Nano)\<close> for the years 0 to 9999.\<close>

definition rfc3339nano :: "int \<Rightarrow> string" where
  "rfc3339nano t =
     (let secs = t div 1000000000;
          (y, m, d) = civil_of_days (secs div 86400);
          s = secs mod 86400
      in pad 4 y @ ''-'' @ pad 2 m @ ''-'' @ pad 2 d @ ''T'' @ pad 2 (s div 3600) @ '':'' @
         pad 2 (s div 60 mod 60) @ '':'' @ pad 2 (s mod 60) @ fraction (t mod 1000000000) @ ''Z'')"

lemma rfc3339nano_examples:
  "rfc3339nano 0 = ''1970-01-01T00:00:00Z''"
  "rfc3339nano 951827696120000000 = ''2000-02-29T12:34:56.12Z''"
  by code_simp+

text \<open>The strings are not ordered as the times they stand for: a later request of the same second
  can sort before an earlier one, since \<open>.\<close> sorts before \<open>Z\<close> and digits do too.\<close>

lemma timestamps_misordered:
  "(1700000000000000000::int) < 1700000000500000000 \<and>
     rfc3339nano 1700000000500000000 < rfc3339nano 1700000000000000000"
  "(1700000000100000000::int) < 1700000000120000000 \<and>
     rfc3339nano 1700000000120000000 < rfc3339nano 1700000000100000000"
  by code_simp+

section \<open>Output\<close>

record Output =
  out_golden :: "string option"
  out_rawPath :: string
  out_rawFile :: "string option"
  out_seq :: nat
  Count :: nat
  Skipped :: nat
  SampleRate :: f64
  SampleAllWrites :: bool

text \<open>\<open>file\<close> is what the file holds already, or the error of opening it.\<close>

definition NewOutput :: "string \<Rightarrow> string \<Rightarrow> string \<Rightarrow> string + string \<Rightarrow> string + Output" where
  "NewOutput now path upstreamLabel file =
     (let out = \<lparr>out_golden = None, out_rawPath = '''', out_rawFile = None, out_seq = 0, Count = 0,
                 Skipped = 0, SampleRate = FFin 0 0, SampleAllWrites = False\<rparr>
      in if IsGoldenFile path then
           (case file of
              Inl e \<Rightarrow> Inl e
            | Inr old \<Rightarrow>
                (case NewWriter now (zero_meta\<lparr>Upstream := upstreamLabel, Serialized := False,
                        Meta_Source := ''sniff''\<rparr>) old of
                   Inl e \<Rightarrow> Inl (marshal_err_text e)
                 | Inr f \<Rightarrow> Inr (out\<lparr>out_golden := Some f\<rparr>)))
         else
           (case file of
              Inl e \<Rightarrow> Inl e
            | Inr f \<Rightarrow> Inr (out\<lparr>out_rawFile := Some f, out_rawPath := path\<rparr>)))"

definition is_read :: "string \<Rightarrow> bool" where
  "is_read rmethod \<longleftrightarrow> rmethod = ''GET'' \<or> rmethod = ''HEAD''"

text \<open>\<open>draw\<close> is the number \<open>rand.Float64\<close> returns if it is called.\<close>

definition sampledOut :: "f64 \<Rightarrow> string \<Rightarrow> Output \<Rightarrow> bool" where
  "sampledOut draw rmethod out =
     (if f64_le (SampleRate out) (FFin 0 0) \<or> f64_le (FFin 1 0) (SampleRate out) then False
      else if \<not> is_read rmethod \<and> SampleAllWrites out then False
      else f64_le (SampleRate out) draw)"

definition sniff_name :: "nat \<Rightarrow> Exchange \<Rightarrow> string" where
  "sniff_name n ex = ''sniff-'' @ nat_str n @ ''-'' @ xc_Method ex @ ''-'' @ xc_Path ex"

definition sniff_entry :: "nat \<Rightarrow> Exchange \<Rightarrow> Entry" where
  "sniff_entry n ex =
     \<lparr>en_Type = '''', en_Name = sniff_name n ex, en_Ts = rfc3339nano (xc_Ts ex),
      en_Method = xc_Method ex, en_Path = xc_Path ex, en_Headers = xc_Headers ex, en_Body = xc_Body ex,
      en_Expected = \<lparr>Status = xc_Status ex, exp_Body = xc_RespBody ex, exp_Writeset = None\<rparr>\<rparr>"

definition sniff_line :: "nat \<Rightarrow> Exchange \<Rightarrow> marshal_err + jval" where
  "sniff_line n ex =
     request_line (sniff_name n ex) (Some (rfc3339nano (xc_Ts ex))) (xc_Method ex) (xc_Path ex)
       (xc_Headers ex) (xc_Body ex)"

definition write_golden :: "bool \<Rightarrow> Exchange \<Rightarrow> string \<Rightarrow> Output \<Rightarrow> Output" where
  "write_golden wr_ok ex f out =
     (case Append (sniff_entry (out_seq out) ex) f of
        Inl _ \<Rightarrow> out
      | Inr f' \<Rightarrow> if wr_ok then out\<lparr>out_golden := Some f', Count := Count out + 1\<rparr> else out)"

definition write_raw :: "bool \<Rightarrow> Exchange \<Rightarrow> Output \<Rightarrow> Output" where
  "write_raw wr_ok ex out =
     (case sniff_line (out_seq out) ex of
        Inl _ \<Rightarrow> out
      | Inr line \<Rightarrow>
          if wr_ok
          then out\<lparr>out_rawFile := map_option (\<lambda>f. f @ print_json line @ [CHR 0x0A]) (out_rawFile out),
                   Count := Count out + 1\<rparr>
          else out)"

definition Sink :: "f64 \<Rightarrow> bool \<Rightarrow> Exchange \<Rightarrow> Output \<Rightarrow> Output" where
  "Sink draw wr_ok ex out =
     (if sampledOut draw (xc_Method ex) out then out\<lparr>Skipped := Skipped out + 1\<rparr>
      else
        (let out = out\<lparr>out_seq := out_seq out + 1\<rparr>
         in case out_golden out of
              Some f \<Rightarrow> write_golden wr_ok ex f out
            | None \<Rightarrow> write_raw wr_ok ex out))"

definition Stats :: "Output \<Rightarrow> nat \<times> nat" where
  "Stats out = (Count out, Skipped out)"

definition Sink_all :: "(f64 \<times> Exchange) list \<Rightarrow> Output \<Rightarrow> Output" where
  "Sink_all dxs out = foldl (\<lambda>out dx. Sink (fst dx) True (snd dx) out) out dxs"

section \<open>What is kept\<close>

definition kept :: "Output \<Rightarrow> (f64 \<times> Exchange) list \<Rightarrow> Exchange list" where
  "kept out dxs = map snd (filter (\<lambda>dx. \<not> sampledOut (fst dx) (xc_Method (snd dx)) out) dxs)"

definition sniff_log :: "nat \<Rightarrow> Exchange \<Rightarrow> ReqLog" where
  "sniff_log n ex =
     \<lparr>lg_Name = sniff_name n ex, lg_Ts = Some (rfc3339nano (xc_Ts ex)), lg_Method = xc_Method ex,
      lg_Path = xc_Path ex, lg_Headers = xc_Headers ex, lg_Body = xc_Body ex\<rparr>"

definition sniff_logs :: "nat \<Rightarrow> Exchange list \<Rightarrow> ReqLog list" where
  "sniff_logs n exs = map (\<lambda>(i, ex). sniff_log i ex) (enumerate n exs)"

text \<open>What sampling reads of the state is fixed during a capture.\<close>

definition same_rate :: "Output \<Rightarrow> Output \<Rightarrow> bool" where
  "same_rate a b \<longleftrightarrow> SampleRate a = SampleRate b \<and> SampleAllWrites a = SampleAllWrites b"

lemma sampledOut_same_rate: "same_rate a b \<Longrightarrow> sampledOut d m a = sampledOut d m b"
  by (simp add: sampledOut_def same_rate_def)

lemma kept_same_rate: "same_rate a b \<Longrightarrow> kept a dxs = kept b dxs"
  by (simp add: kept_def sampledOut_same_rate)

lemma same_rate_Sink: "same_rate (Sink d w ex out) out"
  by (auto simp: Sink_def write_golden_def write_raw_def same_rate_def Let_def
      split: option.split sum.split)

lemma write_kept: "SampleAllWrites out \<Longrightarrow> \<not> is_read m \<Longrightarrow> \<not> sampledOut d m out"
  by (simp add: sampledOut_def)

lemma writes_of_kept:
  "SampleAllWrites out \<Longrightarrow>
   filter (\<lambda>ex. \<not> is_read (xc_Method ex)) (kept out dxs) =
   filter (\<lambda>ex. \<not> is_read (xc_Method ex)) (map snd dxs)"
  by (induction dxs) (auto simp: kept_def write_kept)

lemma Sink_raw_kept:
  assumes "log_ok (sniff_log (Suc (out_seq out)) ex)" and "\<not> sampledOut d (xc_Method ex) out"
    and "out_golden out = None" and "out_rawFile out = Some f"
  shows "Sink d True ex out =
    out\<lparr>out_seq := Suc (out_seq out), Count := Suc (Count out),
        out_rawFile := Some (f @ print_json (JObj (log_jobj (sniff_log (Suc (out_seq out)) ex))) @ [CHR 0x0A])\<rparr>"
  using log_line_jobj [OF assms(1)] assms(2-)
  by (simp add: Sink_def write_raw_def sniff_line_def log_line_def sniff_log_def Let_def
      del: print_json.simps)

lemma Sink_skipped: "sampledOut d (xc_Method ex) out \<Longrightarrow> Sink d w ex out = out\<lparr>Skipped := Suc (Skipped out)\<rparr>"
  by (simp add: Sink_def)

lemma Sink_all_raw:
  assumes "list_all log_ok (sniff_logs (Suc (out_seq out)) (kept out dxs))"
    and "out_golden out = None" and "out_rawFile out = Some f"
  shows "out_rawFile (Sink_all dxs out) =
      Some (f @ file_of (map log_jobj (sniff_logs (Suc (out_seq out)) (kept out dxs)))) \<and>
    Count (Sink_all dxs out) = Count out + length (kept out dxs) \<and>
    Skipped (Sink_all dxs out) + length (kept out dxs) = Skipped out + length dxs"
  using assms
proof (induction dxs arbitrary: out f)
  case (Cons dx dxs)
  obtain d ex where dx: "dx = (d, ex)" by fastforce
  let ?out = "Sink d True ex out"
  have k: "kept ?out dxs = kept out dxs" by (rule kept_same_rate [OF same_rate_Sink])
  show ?case
  proof (cases "sampledOut d (xc_Method ex) out")
    case True
    note step = Sink_skipped [OF True, of True]
    have "kept out (dx # dxs) = kept out dxs" using True by (simp add: kept_def dx)
    with Cons.IH [of ?out f] Cons.prems k show ?thesis by (simp add: Sink_all_def dx step)
  next
    case False
    have c: "kept out (dx # dxs) = ex # kept out dxs" using False by (simp add: kept_def dx)
    have ok: "log_ok (sniff_log (Suc (out_seq out)) ex)"
      using Cons.prems(1) by (simp add: c sniff_logs_def)
    note step = Sink_raw_kept [OF ok False Cons.prems(2,3)]
    have "list_all log_ok (sniff_logs (Suc (out_seq ?out)) (kept ?out dxs))"
      using Cons.prems(1) by (simp add: c k) (simp add: step sniff_logs_def)
    from Cons.IH [OF this, of "f @ print_json (JObj (log_jobj (sniff_log (Suc (out_seq out)) ex))) @ [CHR 0x0A]"]
    show ?thesis using k c Cons.prems(2)
      by (simp add: Sink_all_def dx step sniff_logs_def file_of_def del: print_json.simps)
  qed
qed (simp add: Sink_all_def kept_def sniff_logs_def file_of_def)

text \<open>A rate of 0 (the default) or at least 1 keeps everything.\<close>

lemma kept_all:
  "f64_le (SampleRate out) (FFin 0 0) \<or> f64_le (FFin 1 0) (SampleRate out) \<Longrightarrow> kept out dxs = map snd dxs"
  by (simp add: kept_def sampledOut_def)

text \<open>
  A sniffed corpus holds the exchanges that sampling keeps, and sampling never loses a write:
  feeding any exchanges to an empty requests-only output and loading the file yields the kept
  requests, numbered \<open>sniff-1\<close>, \<open>sniff-2\<close> in the order of completion, with their timestamps; the two
  counters are the kept and the skipped exchanges; and with \<open>SampleAllWrites\<close> every request that is
  neither GET nor HEAD is kept, in order, whatever the rate and the random numbers.
\<close>

theorem sniffed_is_corpus:
  assumes "out_golden out = None" and "out_rawFile out = Some ''''"
    and "out_seq out = 0" and "Stats out = (0, 0)"
    and "list_all log_ok (sniff_logs 1 (kept out dxs))"
    and "lines_fit corpus_limit (map log_jobj (sniff_logs 1 (kept out dxs)))"
  shows "loadJSONL (out_rawFile (Sink_all dxs out)) = Inr (finish_all 1 (sniff_logs 1 (kept out dxs))) \<and>
    Stats (Sink_all dxs out) = (length (kept out dxs), length dxs - length (kept out dxs)) \<and>
    (SampleAllWrites out \<longrightarrow>
       filter (\<lambda>ex. \<not> is_read (xc_Method ex)) (kept out dxs) =
       filter (\<lambda>ex. \<not> is_read (xc_Method ex)) (map snd dxs))"
proof (intro conjI impI)
  have z: "out_seq out = 0" "Count out = 0" "Skipped out = 0" using assms(3,4) by (simp_all add: Stats_def)
  have ok: "list_all log_ok (sniff_logs (Suc (out_seq out)) (kept out dxs))" using assms(5) z by simp
  note run = Sink_all_raw [OF ok assms(1,2)]
  then show "loadJSONL (out_rawFile (Sink_all dxs out)) = Inr (finish_all 1 (sniff_logs 1 (kept out dxs)))"
    using loadJSONL_logs [OF assms(5,6)] z by simp
  show "Stats (Sink_all dxs out) = (length (kept out dxs), length dxs - length (kept out dxs))"
    using run z by (auto simp: Stats_def)
qed (rule writes_of_kept)

definition half_output :: Output where
  "half_output = \<lparr>out_golden = None, out_rawPath = ''s.jsonl'', out_rawFile = Some '''', out_seq = 0,
     Count = 0, Skipped = 0, SampleRate = FFin 1 (- 1), SampleAllWrites = True\<rparr>"

definition demo_exchange :: "string \<Rightarrow> Exchange" where
  "demo_exchange m = \<lparr>xc_Ts = 0, xc_Method = m, xc_Path = ''/a'', xc_Headers = [], xc_Body = GNil,
     xc_Status = 200, xc_RespBody = ''ok''\<rparr>"

theorem sniffed_is_corpus_witness:
  "let dxs = [(FFin 3 (- 2), demo_exchange ''GET''), (FFin 3 (- 2), demo_exchange ''POST'')];
       specs = finish_all 1 (sniff_logs 1 [demo_exchange ''POST''])
   in loadJSONL (out_rawFile (Sink_all dxs half_output)) = Inr specs \<and>
      Stats (Sink_all dxs half_output) = (1, 1) \<and> length specs = 1"
proof -
  let ?dxs = "[(FFin 3 (- 2), demo_exchange ''GET''), (FFin 3 (- 2), demo_exchange ''POST'')]"
  have k: "kept half_output ?dxs = [demo_exchange ''POST'']"
    by (simp add: kept_def half_output_def sampledOut_def is_read_def demo_exchange_def fin_le_def)
  have l: "sniff_logs 1 [demo_exchange ''POST''] = [\<lparr>lg_Name = ''sniff-1-POST-/a'',
      lg_Ts = Some ''1970-01-01T00:00:00Z'', lg_Method = ''POST'', lg_Path = ''/a'', lg_Headers = [],
      lg_Body = GNil\<rparr>]" by code_simp
  have b: "out_golden half_output = None" "out_rawFile half_output = Some ''''" "out_seq half_output = 0"
    "Stats half_output = (0, 0)" by (simp_all add: half_output_def Stats_def)
  have "list_all valid_utf8 [''sniff-1-POST-/a'', ''1970-01-01T00:00:00Z'', ''POST'', ''/a'']" by (simp add: utf8_lit del: valid_utf8.simps)
  then have ok: "list_all log_ok (sniff_logs 1 (kept half_output ?dxs))"
    unfolding k l by (simp add: log_ok_def keys_def)
  have fit: "lines_fit corpus_limit (map log_jobj (sniff_logs 1 (kept half_output ?dxs)))"
    unfolding k by code_simp
  show ?thesis
    using sniffed_is_corpus [OF b ok fit] by (simp add: k finish_all_def sniff_logs_def)
qed

end
