(* ===== verification/SniffSources.thy ===== *)
theory SniffSources
  imports SniffOutput
begin

text \<open>
  The packet side of \<open>internal/sniff\<close>: which packets reach the assembler (\<open>HandlePacket\<close>), which side
  of a connection a stream is and under which key it is paired (\<open>streamFactory.New\<close>), the reading
  loops of \<open>sources.go\<close>, and the choice of the interface.  Decoding of packets, reassembly and the
  device are libraries; a packet is what the code reads of it.
\<close>

section \<open>Packets\<close>

type_synonym flow = "string \<times> string"

record packet =
  pk_tcp :: "(16 word \<times> 16 word) option"
  pk_net :: "flow option"
  pk_ts :: "int option"

text \<open>What \<open>AssembleWithTimestamp\<close> is called with.\<close>

record segment =
  sg_net :: flow
  sg_ports :: "16 word \<times> 16 word"
  sg_ts :: int

definition HandlePacket :: "int \<Rightarrow> int \<Rightarrow> packet \<Rightarrow> segment option" where
  "HandlePacket port now pkt =
     (case pk_tcp pkt of
        None \<Rightarrow> None
      | Some (src, dst) \<Rightarrow>
          (case pk_net pkt of
             None \<Rightarrow> None
           | Some net \<Rightarrow>
               if uint src \<noteq> port \<and> uint dst \<noteq> port then None
               else Some \<lparr>sg_net = net, sg_ports = (src, dst),
                          sg_ts = (case pk_ts pkt of None \<Rightarrow> now | Some t \<Rightarrow> t)\<rparr>))"

definition flow_str :: "flow \<Rightarrow> string" where
  "flow_str fl = fst fl @ ''->'' @ snd fl"

definition rev_flow :: "flow \<Rightarrow> flow" where
  "rev_flow fl = (snd fl, fst fl)"

text \<open>A stream: whether it carries requests, and the key of its connection.\<close>

definition New_stream :: "int \<Rightarrow> flow \<Rightarrow> flow \<Rightarrow> bool \<times> string" where
  "New_stream port netFlow tcpFlow =
     (if snd tcpFlow = int_str port
      then (True, flow_str netFlow @ ''|'' @ flow_str tcpFlow)
      else (False, flow_str (rev_flow netFlow) @ ''|'' @ flow_str (rev_flow tcpFlow)))"

text \<open>The two directions of a connection to the service port share one key, one carrying the
  requests and the other the responses.\<close>

lemma directions_share_key:
  assumes "snd t = int_str port" and "fst t \<noteq> int_str port"
  shows "New_stream port n t = (True, snd (New_stream port (rev_flow n) (rev_flow t))) \<and>
    \<not> fst (New_stream port (rev_flow n) (rev_flow t))"
  using assms by (cases n; cases t) (simp add: New_stream_def rev_flow_def)

text \<open>A client whose own port is the service port is not told apart: both directions are requests.\<close>

lemma equal_ports_both_requests:
  "fst (New_stream 80 (''a'', ''b'') (''80'', ''80'')) \<and> fst (New_stream 80 (''b'', ''a'') (''80'', ''80''))"
  by code_simp

section \<open>Reading a pcap file\<close>

datatype read_result = ReadPacket packet | ReadEOF | ReadErr string

text \<open>The loop of \<open>RunFile\<close>: the segments fed to the assembler and the error it ends with.  \<open>decap\<close>
  is the VXLAN decoder of the library; a file that never ends is not a file, so the list of results
  ends with \<open>ReadEOF\<close> or an error.\<close>

fun file_loop ::
  "int \<Rightarrow> int \<Rightarrow> bool \<Rightarrow> (packet \<Rightarrow> packet option) \<Rightarrow> read_result list \<Rightarrow> segment list \<times> string option" where
  "file_loop port now vxlan decap [] = ([], None)"
| "file_loop port now vxlan decap (ReadEOF # rest) = ([], None)"
| "file_loop port now vxlan decap (ReadErr e # rest) = ([], Some e)"
| "file_loop port now vxlan decap (ReadPacket p # rest) =
     (let (segs, e) = file_loop port now vxlan decap rest;
          seg = (if vxlan then (case decap p of None \<Rightarrow> None | Some inner \<Rightarrow> HandlePacket port now inner)
                 else HandlePacket port now p)
      in ((case seg of None \<Rightarrow> segs | Some s \<Rightarrow> s # segs), e))"

definition RunFile ::
  "string + string + read_result list \<Rightarrow> string \<Rightarrow> int \<Rightarrow> int \<Rightarrow> bool \<Rightarrow> (packet \<Rightarrow> packet option) \<Rightarrow>
   segment list \<times> string option" where
  "RunFile opened path port now vxlan decap =
     (case opened of
        Inl e \<Rightarrow> ([], Some e)
      | Inr (Inl e) \<Rightarrow> ([], Some (''parse pcap '' @ path @ '': '' @ e))
      | Inr (Inr rs) \<Rightarrow> file_loop port now vxlan decap rs)"

definition touches :: "int \<Rightarrow> segment \<Rightarrow> bool" where
  "touches port s \<longleftrightarrow> uint (fst (sg_ports s)) = port \<or> uint (snd (sg_ports s)) = port"

lemma HandlePacket_touches: "HandlePacket port now p = Some s \<Longrightarrow> touches port s"
  by (auto simp: HandlePacket_def touches_def split: option.splits if_splits)

text \<open>Only segments of the service port are assembled.\<close>

lemma file_loop_touches: "list_all (touches port) (fst (file_loop port now vxlan decap rs))"
  by (induction port now vxlan decap rs rule: file_loop.induct)
    (auto simp: Let_def HandlePacket_touches split: prod.splits option.splits)

section \<open>Live capture\<close>

text \<open>What the \<open>select\<close> of \<open>RunLive\<close> receives; the calls made on the pipeline in order.\<close>

datatype live_event = StopChan | Tick | Packet packet | SourceClosed

datatype pipe_call = Feed segment | FlushOlder int | FlushEverything

fun RunLive_loop :: "int \<Rightarrow> int \<Rightarrow> live_event list \<Rightarrow> pipe_call list" where
  "RunLive_loop port now [] = []"
| "RunLive_loop port now (StopChan # _) = [FlushEverything]"
| "RunLive_loop port now (SourceClosed # _) = [FlushEverything]"
| "RunLive_loop port now (Tick # evs) = FlushOlder 15 # RunLive_loop port now evs"
| "RunLive_loop port now (Packet p # evs) =
     (case HandlePacket port now p of None \<Rightarrow> [] | Some s \<Rightarrow> [Feed s]) @ RunLive_loop port now evs"

lemma RunLive_ends_with_flush:
  "StopChan \<in> set evs \<or> SourceClosed \<in> set evs \<Longrightarrow>
   \<exists>calls. RunLive_loop port now evs = calls @ [FlushEverything] \<and> FlushEverything \<notin> set calls"
proof (induction port now evs rule: RunLive_loop.induct)
  case (4 port now evs)
  then obtain calls where "RunLive_loop port now evs = calls @ [FlushEverything]"
    "FlushEverything \<notin> set calls" by auto
  then show ?case by (intro exI [of _ "FlushOlder 15 # calls"]) simp
next
  case (5 port now p evs)
  then obtain calls where "RunLive_loop port now evs = calls @ [FlushEverything]"
    "FlushEverything \<notin> set calls" by auto
  then show ?case
    by (intro exI [of _ "(case HandlePacket port now p of None \<Rightarrow> [] | Some s \<Rightarrow> [Feed s]) @ calls"])
      (auto split: option.splits)
qed auto

section \<open>Interfaces\<close>

record iface =
  if_Name :: string
  if_Up :: bool
  if_Loopback :: bool
  if_HasIPv4 :: bool

fun first_iface :: "iface list \<Rightarrow> string option" where
  "first_iface [] = None"
| "first_iface (i # is) =
     (if \<not> if_Up i \<or> if_Loopback i then first_iface is
      else if if_HasIPv4 i then Some (if_Name i) else first_iface is)"

definition DefaultInterface :: "string + iface list \<Rightarrow> string + string" where
  "DefaultInterface ifaces =
     (case ifaces of
        Inl e \<Rightarrow> Inl e
      | Inr is \<Rightarrow>
          (case first_iface is of
             None \<Rightarrow> Inl ''no active non-loopback interface''
           | Some name \<Rightarrow> Inr name))"

text \<open>The UTF-8 bytes of the dash in the message.\<close>

definition em_dash :: string where
  "em_dash = [CHR 0xE2, CHR 0x80, CHR 0x94]"

definition permissionHint :: "string \<Rightarrow> string \<Rightarrow> string" where
  "permissionHint name msg =
     (if str_contains msg ''permission'' \<or> str_contains msg ''not permitted'' \<or>
         str_contains msg ''Operation not permitted''
      then ''no permission on '' @ name @
        '' '' @ em_dash @ '' run: sudo setcap cap_net_raw+eip <binary>  (or sudo / --cap-add=NET_RAW)''
      else name @ '': '' @ msg)"

text \<open>\<open>openLive\<close> opens a device and closes it again, or answers with the error.\<close>

definition CanCapture :: "(string \<Rightarrow> string option) \<Rightarrow> string + iface list \<Rightarrow> string \<Rightarrow> bool \<times> string" where
  "CanCapture openLive ifaces name =
     (case (if name = '''' then DefaultInterface ifaces else Inr name) of
        Inl e \<Rightarrow> (False, ''no interface: '' @ e)
      | Inr name \<Rightarrow>
          (case openLive name of
             Some e \<Rightarrow> (False, permissionHint name e)
           | None \<Rightarrow> (True, ''capture ready on '' @ name)))"

end
