(* ===== verification/Chunks.thy ===== *)
theory Chunks
  imports Prelude
begin

text \<open>
  A list cut into consecutive pieces of at most a given length, as the seeder batches rows and the
  mirror simulator cuts payloads into segments.
\<close>

function chunks :: "nat \<Rightarrow> 'a list \<Rightarrow> 'a list list" where
  "chunks n xs = (if xs = [] \<or> n = 0 then [] else take n xs # chunks n (drop n xs))"
  by pat_completeness auto
termination
  by (relation "measure (length \<circ> snd)") auto

declare chunks.simps [simp del]

lemma chunks_Nil [simp]: "chunks n [] = []"
  by (simp add: chunks.simps)

lemma chunks_short: "xs \<noteq> [] \<Longrightarrow> length xs \<le> n \<Longrightarrow> chunks n xs = [xs]"
  by (subst chunks.simps) (cases n, auto)

lemma chunks_full: "0 < n \<Longrightarrow> length xs = n \<Longrightarrow> chunks n (xs @ ys) = xs # chunks n ys"
  by (subst chunks.simps) auto

lemma concat_chunks: "0 < n \<Longrightarrow> concat (chunks n xs) = xs"
  by (induction n xs rule: chunks.induct) (subst chunks.simps, auto)

lemma chunks_length: "c \<in> set (chunks n xs) \<Longrightarrow> 0 < length c \<and> length c \<le> n"
proof (induction n xs rule: chunks.induct)
  case (1 n xs)
  then show ?case by (subst (asm) (2) chunks.simps) (auto split: if_splits)
qed

text \<open>Only the last piece can be shorter.\<close>

lemma length_chunks: "0 < n \<Longrightarrow> length (chunks n xs) = (length xs + n - 1) div n"
proof (induction n xs rule: chunks.induct)
  case (1 n xs)
  show ?case
  proof (cases "xs = []")
    case False
    show ?thesis
    proof (cases "length xs \<le> n")
      case True
      with False have "(length xs + n - 1) div n = 1"
        by (intro div_nat_eqI) (cases xs, auto)+
      with True False show ?thesis by (simp add: chunks_short)
    next
      case False
      have "length (chunks n xs) = Suc (length (chunks n (drop n xs)))"
        using 1(2) \<open>xs \<noteq> []\<close> by (subst chunks.simps) simp
      also have "\<dots> = Suc ((length xs - n + n - 1) div n)" using 1 \<open>xs \<noteq> []\<close> by simp
      also have "\<dots> = (length xs + n - 1) div n"
        using False 1(2) by (simp add: le_div_geq)
      finally show ?thesis .
    qed
  qed (use 1(2) in simp)
qed

end
