(* ===== verification/Atoi.thy ===== *)
theory Atoi
  imports Prelude
begin

text \<open>
  \<open>strconv.Atoi\<close>: the number and whether there was no error.  A syntax error gives 0, a number out of
  the range of \<open>int\<close> the nearest one.
\<close>

definition max_int :: int where
  "max_int = 2 ^ 63 - 1"

definition atoi :: "string \<Rightarrow> int \<times> bool" where
  "atoi s =
     (let neg = (s \<noteq> '''' \<and> hd s = CHR ''-'');
          ds = (if s \<noteq> '''' \<and> hd s \<in> {CHR ''-'', CHR ''+''} then tl s else s)
      in if ds = '''' \<or> \<not> list_all is_digit ds then (0, False)
         else
           (let v = (if neg then - str_dec ds else str_dec ds)
            in if max_int < v then (max_int, False)
               else if v < - max_int - 1 then (- max_int - 1, False) else (v, True)))"

lemma atoi_examples:
  "atoi ''3307'' = (3307, True)" "atoi ''-5'' = (-5, True)" "atoi '''' = (0, False)"
  "atoi '':1]:80'' = (0, False)" "atoi ''9223372036854775808'' = (max_int, False)"
  by code_simp+

end
