(* ===== verification/MirrorSim.thy ===== *)
theory MirrorSim
  imports SniffSources Chunks Atoi
begin

text \<open>
  \<open>cmd/mirrorsim\<close>: the simulator of a traffic mirror.  It forwards a TCP connection and sends a copy of
  every byte, cut into TCP segments in VXLAN datagrams.  Serializing a packet is a library function; a
  connection is the sequence of the reads of its two directions, which never touch each other's
  sequence number.  The lemmas: the segments of each direction carry exactly its bytes with
  consecutive sequence numbers, so that a receiver that starts at the handshake reassembles the stream.
\<close>

section \<open>Segments\<close>

definition chunkSize :: nat where
  "chunkSize = 1400"

record flowState =
  fl_clientPort :: "16 word"
  fl_serverPort :: "16 word"
  fl_seqC :: "32 word"
  fl_seqS :: "32 word"

record tcp_segment =
  tp_srcIP :: "nat list"
  tp_dstIP :: "nat list"
  tp_srcPort :: "16 word"
  tp_dstPort :: "16 word"
  tp_seq :: "32 word"
  tp_syn :: bool
  tp_fin :: bool
  tp_ack :: bool
  tp_psh :: bool
  tp_payload :: string

definition client_ip :: "nat list" where
  "client_ip = [10, 9, 0, 1]"

definition server_ip :: "nat list" where
  "server_ip = [10, 9, 0, 2]"

definition flow_packet :: "flowState \<Rightarrow> bool \<Rightarrow> 32 word \<Rightarrow> bool \<Rightarrow> bool \<Rightarrow> string \<Rightarrow> tcp_segment" where
  "flow_packet f fromClient sqn syn fin chunk =
     \<lparr>tp_srcIP = (if fromClient then client_ip else server_ip),
      tp_dstIP = (if fromClient then server_ip else client_ip),
      tp_srcPort = (if fromClient then fl_clientPort f else fl_serverPort f),
      tp_dstPort = (if fromClient then fl_serverPort f else fl_clientPort f),
      tp_seq = sqn, tp_syn = syn, tp_fin = fin, tp_ack = (\<not> syn \<or> \<not> fromClient),
      tp_psh = (0 < length chunk), tp_payload = chunk\<rparr>"

text \<open>The datagram of a packet: none when it cannot be serialized.\<close>

definition vxlan_header :: string where
  "vxlan_header = [CHR 0x08, CHR 0x00, CHR 0x00, CHR 0x00, CHR 0x00, CHR 0x00, CHR 0x2A, CHR 0x00]"

definition send_mirror :: "(tcp_segment \<Rightarrow> string option) \<Rightarrow> tcp_segment \<Rightarrow> string list" where
  "send_mirror serialize p = (case serialize p of None \<Rightarrow> [] | Some pkt \<Rightarrow> [vxlan_header @ pkt])"

definition handshake :: "flowState \<Rightarrow> tcp_segment list" where
  "handshake f =
     [flow_packet f True (fl_seqC f - 1) True False '''', flow_packet f False (fl_seqS f - 1) True False '''']"

definition finish_flow :: "flowState \<Rightarrow> tcp_segment list" where
  "finish_flow f =
     [flow_packet f True (fl_seqC f) False True '''', flow_packet f False (fl_seqS f) False True '''']"

definition flow_seq :: "bool \<Rightarrow> flowState \<Rightarrow> 32 word" where
  "flow_seq fromClient f = (if fromClient then fl_seqC f else fl_seqS f)"

definition advance :: "bool \<Rightarrow> nat \<Rightarrow> flowState \<Rightarrow> flowState" where
  "advance fromClient n f =
     (if fromClient then f\<lparr>fl_seqC := fl_seqC f + of_nat n\<rparr> else f\<lparr>fl_seqS := fl_seqS f + of_nat n\<rparr>)"

text \<open>The segments of a sequence of chunks with their directions, each sent when it is cut.\<close>

fun emit_loop :: "(bool \<times> string) list \<Rightarrow> flowState \<Rightarrow> tcp_segment list \<times> flowState" where
  "emit_loop [] f = ([], f)"
| "emit_loop ((fromClient, chunk) # rest) f =
     (case emit_loop rest (advance fromClient (length chunk) f) of
        (ps, f') \<Rightarrow> (flow_packet f fromClient (flow_seq fromClient f) False False chunk # ps, f'))"

definition emit :: "bool \<Rightarrow> string \<Rightarrow> flowState \<Rightarrow> tcp_segment list \<times> flowState" where
  "emit fromClient buf f = emit_loop (map (Pair fromClient) (chunks chunkSize buf)) f"

section \<open>A connection\<close>

text \<open>The two pipes run concurrently and share only the sender, which is locked for one datagram: what
  is sent is some interleaving of the chunks of what each pipe reads.\<close>

definition interleaved :: "string list \<Rightarrow> string list \<Rightarrow> (bool \<times> string) list \<Rightarrow> bool" where
  "interleaved clientReads serverReads sched \<longleftrightarrow>
     map snd (filter fst sched) = concat (map (chunks chunkSize) clientReads) \<and>
     map snd (filter (\<lambda>e. \<not> fst e) sched) = concat (map (chunks chunkSize) serverReads)"

definition new_flow :: "16 word \<Rightarrow> 16 word \<Rightarrow> flowState" where
  "new_flow servicePort clientPort =
     \<lparr>fl_clientPort = clientPort, fl_serverPort = servicePort, fl_seqC = 1000, fl_seqS = 5000\<rparr>"

text \<open>\<open>handle\<close>: nothing is mirrored when the upstream cannot be dialled.\<close>

definition handle_conn :: "bool \<Rightarrow> 16 word \<Rightarrow> 16 word \<Rightarrow> (bool \<times> string) list \<Rightarrow> tcp_segment list" where
  "handle_conn dialled servicePort clientPort sched =
     (if \<not> dialled then []
      else
        (let f = new_flow servicePort clientPort
         in handshake f @ (case emit_loop sched f of (ps, f') \<Rightarrow> ps @ finish_flow f')))"

text \<open>The ports of \<open>main\<close>: the service port of the upstream, and the port of the n-th connection (from
  1), both cut to 16 bits.\<close>

definition sim_service_port :: "string \<Rightarrow> 16 word" where
  "sim_service_port upstream =
     (case cut_at (CHR '':'') upstream of
        None \<Rightarrow> word_of_int (fst (atoi ''''))
      | Some (_, portStr) \<Rightarrow> word_of_int (fst (atoi portStr)))"

definition sim_client_port :: "32 word \<Rightarrow> 16 word" where
  "sim_client_port n = ucast (20000 + n)"


section \<open>Reassembly\<close>

text \<open>A receiver of one direction: the stream starts after the SYN, every segment continues it, and the
  FIN ends it.\<close>

fun reassemble :: "32 word option \<Rightarrow> tcp_segment list \<Rightarrow> string option" where
  "reassemble nxt [] = None"
| "reassemble nxt (p # ps) =
     (if tp_syn p then (if nxt = None then reassemble (Some (tp_seq p + 1)) ps else None)
      else if nxt \<noteq> Some (tp_seq p) then None
      else if tp_fin p then Some ''''
      else map_option ((@) (tp_payload p)) (reassemble (Some (tp_seq p + of_nat (length (tp_payload p)))) ps))"

definition from_side :: "bool \<Rightarrow> tcp_segment \<Rightarrow> bool" where
  "from_side fromClient p \<longleftrightarrow> tp_srcIP p = (if fromClient then client_ip else server_ip)"

lemma from_side_packet [simp]: "from_side d (flow_packet f c sqn syn fin chunk) \<longleftrightarrow> c = d"
  by (auto simp: from_side_def flow_packet_def client_ip_def server_ip_def)

lemma flow_packet_fields [simp]:
  "tp_seq (flow_packet f c sqn syn fin chunk) = sqn" "tp_syn (flow_packet f c sqn syn fin chunk) = syn"
  "tp_fin (flow_packet f c sqn syn fin chunk) = fin" "tp_payload (flow_packet f c sqn syn fin chunk) = chunk"
  by (simp_all add: flow_packet_def)

lemma flow_seq_advance [simp]:
  "flow_seq d (advance c n f) = (if c = d then flow_seq d f + of_nat n else flow_seq d f)"
  by (simp add: flow_seq_def advance_def)

lemma reassemble_loop:
  assumes "emit_loop sched f = (ps, f')"
  shows "reassemble (Some (flow_seq d f)) (filter (from_side d) ps @ [flow_packet g d (flow_seq d f') False True ''''])
    = Some (concat (map snd (filter (\<lambda>e. fst e = d) sched)))"
  using assms
proof (induction sched f arbitrary: ps f' rule: emit_loop.induct)
  case (2 c chunk rest f)
  obtain qs where l: "emit_loop rest (advance c (length chunk) f) = (qs, f')"
    and ps: "ps = flow_packet f c (flow_seq c f) False False chunk # qs"
    using "2.prems" by (auto split: prod.splits)
  from "2.IH" [OF l] show ?case by (auto simp: ps)
qed simp

text \<open>Each side's bytes come out of the mirror as they were read, whatever the interleaving.\<close>

lemma mirrored_streams:
  assumes "interleaved clientReads serverReads sched"
  shows "reassemble None (filter (from_side True) (handle_conn True servicePort clientPort sched)) = Some (concat clientReads)"
    and "reassemble None (filter (from_side False) (handle_conn True servicePort clientPort sched)) = Some (concat serverReads)"
proof -
  let ?f = "new_flow servicePort clientPort"
  obtain ps f' where l: "emit_loop sched ?f = (ps, f')" by (cases "emit_loop sched ?f") blast
  have stream: "concat (concat (map (chunks chunkSize) reads)) = concat reads" for reads :: "string list"
    by (induction reads) (simp_all add: concat_chunks chunkSize_def)
  have c: "concat (map snd (filter (\<lambda>e. fst e = True) sched)) = concat clientReads"
    using assms stream [of clientReads] by (simp add: interleaved_def)
  have s: "concat (map snd (filter (\<lambda>e. fst e = False) sched)) = concat serverReads"
    using assms stream [of serverReads] by (simp add: interleaved_def)
  show "reassemble None (filter (from_side True) (handle_conn True servicePort clientPort sched)) = Some (concat clientReads)"
    using reassemble_loop [OF l, of True f'] c
    by (simp add: handle_conn_def l handshake_def finish_flow_def flow_seq_def Let_def)
  show "reassemble None (filter (from_side False) (handle_conn True servicePort clientPort sched)) = Some (concat serverReads)"
    using reassemble_loop [OF l, of False f'] s
    by (simp add: handle_conn_def l handshake_def finish_flow_def flow_seq_def Let_def)
qed

text \<open>The sniffer keeps every mirrored segment when it listens for the service port.\<close>

definition sniffed_packet :: "int \<Rightarrow> tcp_segment \<Rightarrow> packet" where
  "sniffed_packet ts p =
     \<lparr>pk_tcp = Some (tp_srcPort p, tp_dstPort p),
      pk_net = Some (if tp_srcIP p = client_ip then (''10.9.0.1'', ''10.9.0.2'') else (''10.9.0.2'', ''10.9.0.1'')),
      pk_ts = Some ts\<rparr>"

lemma loop_ports:
  "emit_loop sched f = (ps, f') \<Longrightarrow>
   (\<forall>p \<in> set ps. fl_serverPort f \<in> {tp_srcPort p, tp_dstPort p}) \<and> fl_serverPort f' = fl_serverPort f"
proof (induction sched f arbitrary: ps f' rule: emit_loop.induct)
  case (2 c chunk rest f)
  have port: "fl_serverPort (advance c (length chunk) f) = fl_serverPort f" by (simp add: advance_def)
  from "2.prems" obtain qs where "emit_loop rest (advance c (length chunk) f) = (qs, f')"
    and ps: "ps = flow_packet f c (flow_seq c f) False False chunk # qs"
    by (auto split: prod.splits)
  from "2.IH" [OF this(1)] show ?case by (auto simp: ps port flow_packet_def)
qed simp

lemma mirrored_sniffed:
  assumes "p \<in> set (handle_conn True servicePort clientPort sched)"
  shows "HandlePacket (uint servicePort) now (sniffed_packet ts p) \<noteq> None"
proof -
  let ?f = "new_flow servicePort clientPort"
  obtain ps f' where l: "emit_loop sched ?f = (ps, f')" by (cases "emit_loop sched ?f") blast
  have h: "handle_conn True servicePort clientPort sched = handshake ?f @ ps @ finish_flow f'"
    by (simp add: handle_conn_def l Let_def)
  have "fl_serverPort ?f = servicePort" by (simp add: new_flow_def)
  then have "servicePort \<in> {tp_srcPort p, tp_dstPort p}"
    using assms loop_ports [OF l] unfolding h
    by (auto simp: handshake_def finish_flow_def flow_packet_def)
  then show ?thesis by (auto simp: HandlePacket_def sniffed_packet_def)
qed

text \<open>
  The mirror refines the pair of byte streams it copies: however the two pipes interleave and
  however their reads are cut, the segments of each side, reassembled by their sequence numbers from
  the SYN to the FIN, give exactly the bytes that side sent, and the sniffer drops none of them when it
  listens for the mirrored service port.
\<close>

theorem mirror_refines_streams:
  assumes "interleaved clientReads serverReads sched"
  shows "reassemble None (filter (from_side True) (handle_conn True servicePort clientPort sched)) =
      Some (concat clientReads) \<and>
    reassemble None (filter (from_side False) (handle_conn True servicePort clientPort sched)) =
      Some (concat serverReads) \<and>
    (\<forall>p \<in> set (handle_conn True servicePort clientPort sched).
      HandlePacket (uint servicePort) now (sniffed_packet ts p) \<noteq> None)"
  using mirrored_streams [OF assms] mirrored_sniffed by blast

theorem mirror_refines_streams_witness:
  "reassemble None (filter (from_side False) (handle_conn True 8080 20001
       [(True, ''GET /''), (False, ''200''), (True, '' HTTP''), (False, '' OK'')])) = Some ''200 OK''"
  using mirror_refines_streams [of "[''GET /'', '' HTTP'']" "[''200'', '' OK'']"
      "[(True, ''GET /''), (False, ''200''), (True, '' HTTP''), (False, '' OK'')]" 8080 20001]
  by (simp add: interleaved_def chunkSize_def chunks.simps)

end
