(* ===== verification/Streams.thy ===== *)
theory Streams
  imports SniffSources
begin

text \<open>
  From the bytes of a TCP stream to the pairer (\<open>consume\<close> in \<open>internal/sniff/sniff.go\<close>), and the two
  endless sources of \<open>sources.go\<close> around the assembler.  Parsing one HTTP message is the standard
  library's and a parameter; a stream is the bytes the assembler delivers.  The lemmas: the loop ends,
  a stream that is a sequence of messages is delivered message by message, and what happens to the
  rest of a stream that is not.
\<close>

section \<open>Reading a stream\<close>

text \<open>What \<open>http.ReadRequest\<close> and \<open>http.ReadResponse\<close> make of the unread bytes: the end, an error, or a
  message with its body and the bytes after it.\<close>

datatype 'm parsed = ParseEOF | ParseError string | Parsed 'm string string

definition errIsClosed :: "string \<Rightarrow> bool" where
  "errIsClosed e \<longleftrightarrow> str_contains e ''closed'' \<or> str_contains e ''EOF''"

text \<open>The messages read, and the bytes that stay unread when the loop returns.  The fuel is a bound on
  the number of messages: every message takes at least a byte.\<close>

fun consume_loop :: "nat \<Rightarrow> (string \<Rightarrow> 'm parsed) \<Rightarrow> string \<Rightarrow> (('m \<times> string) list \<times> string) option" where
  "consume_loop 0 parse s = None"
| "consume_loop (Suc n) parse s =
     (case parse s of
        ParseEOF \<Rightarrow> Some ([], s)
      | ParseError e \<Rightarrow> Some ([], if errIsClosed e then s else '''')
      | Parsed m body rest \<Rightarrow>
          map_option (\<lambda>(ms, left). ((m, body) # ms, left)) (consume_loop n parse rest))"

definition consume :: "(string \<Rightarrow> 'm parsed) \<Rightarrow> string \<Rightarrow> (('m \<times> string) list \<times> string) option" where
  "consume parse s = consume_loop (Suc (length s)) parse s"

text \<open>A parser that takes at least a byte for each message ends every stream.\<close>

definition progresses :: "(string \<Rightarrow> 'm parsed) \<Rightarrow> bool" where
  "progresses parse \<longleftrightarrow> (\<forall>s m body rest. parse s = Parsed m body rest \<longrightarrow> length rest < length s)"

lemma consume_loop_returns: "progresses parse \<Longrightarrow> length s < n \<Longrightarrow> consume_loop n parse s \<noteq> None"
proof (induction n parse s rule: consume_loop.induct)
  case (2 n parse s)
  show ?case
  proof (cases "parse s")
    case (Parsed m body rest)
    then have "length rest < length s" using "2.prems"(1) by (auto simp: progresses_def)
    then show ?thesis using "2.IH" [OF Parsed] "2.prems" Parsed by (auto split: option.splits)
  qed auto
qed simp

lemma consume_returns: "progresses parse \<Longrightarrow> consume parse s \<noteq> None"
  by (simp add: consume_def consume_loop_returns del: consume_loop.simps)

text \<open>A stream that is the concatenation of messages and then ends.\<close>

definition reads :: "(string \<Rightarrow> 'm parsed) \<Rightarrow> ('m \<times> string \<Rightarrow> string) \<Rightarrow> ('m \<times> string) list \<Rightarrow> bool" where
  "reads parse wire ms \<longleftrightarrow>
     parse '''' = ParseEOF \<and>
     (\<forall>(m, body) \<in> set ms. wire (m, body) \<noteq> '''' \<and>
        (\<forall>rest. parse (wire (m, body) @ rest) = Parsed m body rest))"

lemma consume_loop_wire:
  "reads parse wire ms \<Longrightarrow> length ms < n \<Longrightarrow> consume_loop n parse (concat (map wire ms)) = Some (ms, '''')"
proof (induction ms arbitrary: n)
  case Nil
  then show ?case by (cases n) (simp_all add: reads_def)
next
  case (Cons mb ms)
  obtain m body where mb: "mb = (m, body)" by (cases mb)
  obtain k where "n = Suc k" using Cons.prems(2) by (cases n) auto
  then show ?case using Cons by (simp add: mb reads_def)
qed

lemma length_wire: "reads parse wire ms \<Longrightarrow> length ms \<le> length (concat (map wire ms))"
proof (induction ms)
  case (Cons mb ms)
  then have "wire mb \<noteq> ''''" by (cases mb) (simp add: reads_def)
  then have "1 \<le> length (wire mb)" by (simp add: Suc_le_eq)
  moreover have "length ms \<le> length (concat (map wire ms))" using Cons by (simp add: reads_def)
  ultimately show ?case by simp
qed simp

lemma consume_wire: "reads parse wire ms \<Longrightarrow> consume parse (concat (map wire ms)) = Some (ms, '''')"
  using consume_loop_wire [of parse wire ms] length_wire [of parse wire ms]
  by (simp add: consume_def less_Suc_eq_le del: consume_loop.simps)

text \<open>A message that is not HTTP: the rest of the stream is drained, unless the text of the error
  mentions \<open>EOF\<close> or \<open>closed\<close>.  The library quotes the offending line in the text, so a line that
  contains one of the words keeps the rest unread, and the assembler waits for its reader.\<close>

definition malformed :: "string \<Rightarrow> string" where
  "malformed line = ''malformed HTTP request '' @ [CHR 0x22] @ line @ [CHR 0x22]"

lemma malformed_examples: "errIsClosed (malformed ''GEOFF'')" "\<not> errIsClosed (malformed ''HELLO'')"
  by code_simp+

lemma bad_line_left_unread:
  "parse s = ParseError (malformed ''GEOFF'') \<Longrightarrow> consume parse s = Some ([], s)"
  "parse s = ParseError (malformed ''HELLO'') \<Longrightarrow> consume parse s = Some ([], '''')"
  by (simp_all add: consume_def malformed_examples)

section \<open>The events of a stream\<close>

text \<open>\<open>now i\<close> is the time at which the i-th request of the stream is handed on.\<close>

definition request_events :: "string \<Rightarrow> (nat \<Rightarrow> int) \<Rightarrow> (InReq \<times> string) list \<Rightarrow> pair_event list" where
  "request_events key now ms = map (\<lambda>(i, m, body). ReqEv key (now i) m body) (enumerate 0 ms)"

definition response_events :: "string \<Rightarrow> (64 word \<times> string) list \<Rightarrow> pair_event list" where
  "response_events key ms = map (\<lambda>(status, body). RespEv key status body) ms"

definition stream_events ::
  "(string \<Rightarrow> InReq parsed) \<Rightarrow> (string \<Rightarrow> 64 word parsed) \<Rightarrow> (nat \<Rightarrow> int) \<Rightarrow> bool \<times> string \<Rightarrow> string \<Rightarrow>
   pair_event list option" where
  "stream_events parseReq parseResp now stream bytes =
     (if fst stream
      then map_option (\<lambda>(ms, _). request_events (snd stream) now ms) (consume parseReq bytes)
      else map_option (\<lambda>(ms, _). response_events (snd stream) ms) (consume parseResp bytes))"

lemma reqs_of_response_events [simp]: "reqs_of k (response_events key ms) = []"
  by (induction ms) (auto simp: response_events_def)

lemma resps_of_request_events [simp]: "resps_of k (request_events key now ms) = []"
proof -
  have "resps_of k (map (\<lambda>(i, m, body). ReqEv key (now i) m body) (enumerate n ms)) = []" for n
    by (induction ms arbitrary: n) auto
  then show ?thesis by (simp add: request_events_def)
qed

definition pendings :: "(nat \<Rightarrow> int) \<Rightarrow> (InReq \<times> string) list \<Rightarrow> pendingRequest list" where
  "pendings now ms = map (\<lambda>(i, m, body). pending_of (now i) m (take sniff_limit body)) (enumerate 0 ms)"

definition answers :: "(64 word \<times> string) list \<Rightarrow> pendingResponse list" where
  "answers ms = map (\<lambda>(status, body). \<lparr>ps_status = status, ps_body = take sniff_limit body\<rparr>) ms"

lemma reqs_of_request_events [simp]: "reqs_of k (request_events k now ms) = pendings now ms"
proof -
  have "reqs_of k (map (\<lambda>(i, m, body). ReqEv k (now i) m body) (enumerate n ms)) =
      map (\<lambda>(i, m, body). pending_of (now i) m (take sniff_limit body)) (enumerate n ms)" for n
    by (induction ms arbitrary: n) auto
  then show ?thesis by (simp add: request_events_def pendings_def)
qed

lemma resps_of_response_events [simp]: "resps_of k (response_events k ms) = answers ms"
  by (induction ms) (auto simp: response_events_def answers_def)

text \<open>The parsers run concurrently: the events of one connection come out in some interleaving with
  each other and with those of other connections.\<close>

definition is_request :: "pair_event \<Rightarrow> bool" where
  "is_request ev \<longleftrightarrow> (case ev of ReqEv _ _ _ _ \<Rightarrow> True | _ \<Rightarrow> False)"

definition own_events :: "string \<Rightarrow> bool \<Rightarrow> pair_event list \<Rightarrow> pair_event list" where
  "own_events k side evs = filter (\<lambda>ev. ev_key ev = k \<and> is_request ev = side) evs"

lemma reqs_of_own: "reqs_of k (own_events k True evs) = reqs_of k evs"
  by (induction k evs rule: reqs_of.induct) (auto simp: own_events_def ev_key_def is_request_def)

lemma resps_of_own: "resps_of k (own_events k False evs) = resps_of k evs"
  by (induction k evs rule: resps_of.induct) (auto simp: own_events_def ev_key_def is_request_def)

text \<open>The exchanges of a connection are its messages paired in order, whatever the interleaving.\<close>

lemma streams_paired:
  assumes "own_events k True evs = request_events k now reqs" and "own_events k False evs = response_events k resps"
  shows "map snd (filter (\<lambda>kx. fst kx = k) (fst (pair_run evs []))) =
    map (\<lambda>(r, s). exchange_of r s) (zip (pendings now reqs) (answers resps))"
  using pair_run_conn [of "[]" k evs] assms reqs_of_own [of k evs] resps_of_own [of k evs]
  by (simp add: get_conn_def settled_def pairs_def)

text \<open>An interim response (\<open>100 Continue\<close>) is a message like the others: it is taken for the answer, and
  every later answer of the connection goes to the wrong request.\<close>

lemma interim_response_shifts:
  assumes "own_events k True evs = request_events k now [r1, r2]"
    and "own_events k False evs = response_events k [(100, ''''), (201, b1), (200, b2)]"
  shows "map xc_Status (map snd (filter (\<lambda>kx. fst kx = k) (fst (pair_run evs [])))) = [100, 201]"
  unfolding streams_paired [OF assms]
  by (cases r1; cases r2) (simp add: pendings_def answers_def exchange_of_def)

section \<open>Live capture and the mirror\<close>

text \<open>\<open>RunLive\<close>: opening the device and setting the filter may fail; both names are what it asks for.\<close>

definition RunLive ::
  "(string \<Rightarrow> string option) \<Rightarrow> (string \<Rightarrow> string option) \<Rightarrow> string \<Rightarrow> int \<Rightarrow> int \<Rightarrow> live_event list \<Rightarrow>
   pipe_call list \<times> string option" where
  "RunLive openLive setFilter name port now evs =
     (case openLive name of
        Some e \<Rightarrow>
          ([], Some (''open '' @ name @ '' (need root or CAP_NET_RAW '' @ em_dash @ '' see README): '' @ e))
      | None \<Rightarrow>
          (case setFilter (''tcp port '' @ int_str port) of
             Some e \<Rightarrow> ([], Some e)
           | None \<Rightarrow> (RunLive_loop port now evs, None)))"

text \<open>\<open>vxlan\<close> gives the payload of a datagram that has a VXLAN layer, \<open>ethernet\<close> decodes a frame; a
  packet of a file has a UDP payload or not.\<close>

definition decapVXLANPayload :: "(string \<Rightarrow> string option) \<Rightarrow> (string \<Rightarrow> packet) \<Rightarrow> string \<Rightarrow> packet option" where
  "decapVXLANPayload vxlan ethernet datagram = map_option ethernet (vxlan datagram)"

definition decapVXLAN ::
  "(string \<Rightarrow> string option) \<Rightarrow> (string \<Rightarrow> packet) \<Rightarrow> ('p \<Rightarrow> string option) \<Rightarrow> 'p \<Rightarrow> packet option" where
  "decapVXLAN vxlan ethernet udp pkt =
     (case udp pkt of None \<Rightarrow> None | Some dgram \<Rightarrow> decapVXLANPayload vxlan ethernet dgram)"

text \<open>What happens to the mirror's socket: a datagram, a tick of the flusher, or a failed read, which ends
  the loop, without an error when it was told to stop (that is what closes the socket).\<close>

datatype mirror_event = Datagram string | MirrorTick | ReadFailed string bool

fun mirror_loop ::
  "int \<Rightarrow> int \<Rightarrow> (string \<Rightarrow> packet option) \<Rightarrow> mirror_event list \<Rightarrow> pipe_call list \<times> string option" where
  "mirror_loop port now decap [] = ([], None)"
| "mirror_loop port now decap (ReadFailed e stopped # _) =
     (if stopped then ([FlushEverything], None) else ([], Some e))"
| "mirror_loop port now decap (MirrorTick # evs) =
     (case mirror_loop port now decap evs of (cs, e) \<Rightarrow> (FlushOlder 15 # cs, e))"
| "mirror_loop port now decap (Datagram d # evs) =
     (case mirror_loop port now decap evs of
        (cs, e) \<Rightarrow>
          ((case Option.bind (decap d) (HandlePacket port now) of None \<Rightarrow> [] | Some s \<Rightarrow> [Feed s]) @ cs, e))"

definition RunMirror ::
  "(string \<Rightarrow> string option) \<Rightarrow> (string \<Rightarrow> string option) \<Rightarrow> string \<Rightarrow> int \<Rightarrow> int \<Rightarrow> (string \<Rightarrow> packet option) \<Rightarrow>
   mirror_event list \<Rightarrow> pipe_call list \<times> string option" where
  "RunMirror resolve listenUDP addr port now decap evs =
     (case resolve addr of
        Some e \<Rightarrow> ([], Some e)
      | None \<Rightarrow> (case listenUDP addr of Some e \<Rightarrow> ([], Some e) | None \<Rightarrow> mirror_loop port now decap evs))"

text \<open>A mirror that is stopped flushes what it has; one whose socket breaks does not.\<close>

lemma mirror_stops:
  "\<forall>e s. ReadFailed e s \<notin> set evs \<Longrightarrow>
   mirror_loop port now decap (evs @ ReadFailed e stopped # rest) =
     (fst (mirror_loop port now decap evs) @ (if stopped then [FlushEverything] else []),
      if stopped then None else Some e)"
  by (induction port now decap evs rule: mirror_loop.induct) (auto split: prod.splits option.splits)

text \<open>A datagram that is not VXLAN is ignored; the segments fed are those of the inner packets of the
  service port.\<close>

definition fed :: "pipe_call list \<Rightarrow> segment list" where
  "fed cs = List.map_filter (\<lambda>c. case c of Feed s \<Rightarrow> Some s | _ \<Rightarrow> None) cs"

lemma fed_simps [simp]:
  "fed [] = []" "fed (Feed s # cs) = s # fed cs" "fed (FlushOlder n # cs) = fed cs"
  "fed (FlushEverything # cs) = fed cs" "fed (cs @ ds) = fed cs @ fed ds"
  by (simp_all add: fed_def List.map_filter_simps map_filter_def)

lemma mirror_feeds:
  "fed (fst (mirror_loop port now decap (map Datagram ds))) =
     List.map_filter (\<lambda>d. Option.bind (decap d) (HandlePacket port now)) ds"
  by (induction ds) (auto simp: List.map_filter_simps split: prod.splits option.splits)

end
