(* ===== verification/MirrorSniff.thy ===== *)
theory MirrorSniff
  imports MirrorSim Streams
begin

text \<open>
  The mirror, the reader of streams, the pairer and the output composed: HTTP traffic that the
  simulator mirrors ends up as a corpus of its requests.  The assembler is represented by what it
  promises, the bytes of a direction in sequence (\<open>reassemble\<close>), and the HTTP parsers by the law that
  they read back what a message is written as.
\<close>

text \<open>The stream a mirrored segment belongs to.\<close>

definition seg_stream :: "tcp_segment \<Rightarrow> 16 word \<Rightarrow> bool \<times> string" where
  "seg_stream p servicePort =
     New_stream (uint servicePort) (the (pk_net (sniffed_packet 0 p)))
       (int_str (uint (tp_srcPort p)), int_str (uint (tp_dstPort p)))"

definition mirror_key :: "16 word \<Rightarrow> 16 word \<Rightarrow> string" where
  "mirror_key servicePort clientPort =
     ''10.9.0.1->10.9.0.2|'' @ int_str (uint clientPort) @ ''->'' @ int_str (uint servicePort)"

lemma ips_differ [simp]: "client_ip \<noteq> server_ip" "server_ip \<noteq> client_ip"
  by (simp_all add: client_ip_def server_ip_def)

lemma packet_stream:
  assumes "clientPort \<noteq> servicePort" and "fl_clientPort f = clientPort" "fl_serverPort f = servicePort"
  shows "seg_stream (flow_packet f c sqn syn fin chunk) servicePort = (c, mirror_key servicePort clientPort)"
proof -
  have "int_str (uint clientPort) \<noteq> int_str (uint servicePort)"
    using assms(1) by (simp add: word_uint_eq_iff)
  then show ?thesis using assms(2,3)
    by (simp add: seg_stream_def sniffed_packet_def flow_packet_def New_stream_def flow_str_def rev_flow_def
        mirror_key_def)
qed

lemma loop_streams:
  "emit_loop sched f = (ps, f') \<Longrightarrow> fl_clientPort f \<noteq> fl_serverPort f \<Longrightarrow>
   (\<forall>p \<in> set ps. seg_stream p (fl_serverPort f) =
      (from_side True p, mirror_key (fl_serverPort f) (fl_clientPort f))) \<and>
   fl_serverPort f' = fl_serverPort f \<and> fl_clientPort f' = fl_clientPort f"
proof (induction sched f arbitrary: ps f' rule: emit_loop.induct)
  case (2 c chunk rest f)
  have port: "fl_serverPort (advance c (length chunk) f) = fl_serverPort f"
    "fl_clientPort (advance c (length chunk) f) = fl_clientPort f" by (simp_all add: advance_def)
  from "2.prems" obtain qs where l: "emit_loop rest (advance c (length chunk) f) = (qs, f')"
    and ps: "ps = flow_packet f c (flow_seq c f) False False chunk # qs"
    by (auto split: prod.splits)
  have "fl_clientPort (advance c (length chunk) f) \<noteq> fl_serverPort (advance c (length chunk) f)"
    using "2.prems"(2) by (simp add: port)
  from "2.IH" [OF l this] show ?case
    using packet_stream [of "fl_clientPort f" "fl_serverPort f" f] "2.prems"(2)
    by (simp add: ps port)
qed simp

text \<open>Both directions of a mirrored connection are told apart and share one key.\<close>

lemma mirror_streams:
  assumes "clientPort \<noteq> servicePort" and "p \<in> set (handle_conn True servicePort clientPort sched)"
  shows "seg_stream p servicePort = (from_side True p, mirror_key servicePort clientPort)"
proof -
  let ?f = "new_flow servicePort clientPort"
  obtain ps f' where l: "emit_loop sched ?f = (ps, f')" by (cases "emit_loop sched ?f") blast
  have ports: "fl_serverPort ?f = servicePort" "fl_clientPort ?f = clientPort" by (simp_all add: new_flow_def)
  have h: "handle_conn True servicePort clientPort sched = handshake ?f @ ps @ finish_flow f'"
    by (simp add: handle_conn_def l Let_def)
  have ends: "fl_serverPort f' = servicePort" "fl_clientPort f' = clientPort"
    using loop_streams [OF l] assms(1) ports by auto
  show ?thesis
    using assms loop_streams [OF l] packet_stream [OF assms(1) ports(2,1)] packet_stream [OF assms(1) ends(2,1)]
    by (auto simp: h ports handshake_def finish_flow_def)
qed

text \<open>The events the two parsers hand to the pairer.\<close>

definition mirror_events ::
  "(string \<Rightarrow> InReq parsed) \<Rightarrow> (string \<Rightarrow> 64 word parsed) \<Rightarrow> (nat \<Rightarrow> int) \<Rightarrow> 16 word \<Rightarrow> 16 word \<Rightarrow>
   tcp_segment list \<Rightarrow> bool \<Rightarrow> pair_event list option" where
  "mirror_events parseReq parseResp now servicePort clientPort segs side =
     Option.bind (reassemble None (filter (from_side side) segs))
       (stream_events parseReq parseResp now (side, mirror_key servicePort clientPort))"

lemma mirror_events_read:
  assumes "interleaved clientReads serverReads sched"
    and "reads parseReq reqWire reqs" and "concat clientReads = concat (map reqWire reqs)"
    and "reads parseResp respWire resps" and "concat serverReads = concat (map respWire resps)"
  shows "mirror_events parseReq parseResp now servicePort clientPort
      (handle_conn True servicePort clientPort sched) True =
        Some (request_events (mirror_key servicePort clientPort) now reqs)"
    and "mirror_events parseReq parseResp now servicePort clientPort
      (handle_conn True servicePort clientPort sched) False =
        Some (response_events (mirror_key servicePort clientPort) resps)"
  using mirrored_streams [OF assms(1)] consume_wire [OF assms(2)] consume_wire [OF assms(4)]
  by (simp_all add: mirror_events_def stream_events_def assms(3,5))

definition paired :: "(nat \<Rightarrow> int) \<Rightarrow> (InReq \<times> string) list \<Rightarrow> (64 word \<times> string) list \<Rightarrow> Exchange list" where
  "paired now reqs resps = map (\<lambda>(r, s). exchange_of r s) (zip (pendings now reqs) (answers resps))"

lemma mirrored_exchanges:
  assumes "interleaved clientReads serverReads sched"
    and "reads parseReq reqWire reqs" and "concat clientReads = concat (map reqWire reqs)"
    and "reads parseResp respWire resps" and "concat serverReads = concat (map respWire resps)"
    and "segs = handle_conn True servicePort clientPort sched"
    and "k = mirror_key servicePort clientPort"
    and "mirror_events parseReq parseResp now servicePort clientPort segs True = Some (own_events k True evs)"
    and "mirror_events parseReq parseResp now servicePort clientPort segs False = Some (own_events k False evs)"
  shows "map snd (filter (\<lambda>kx. fst kx = k) (fst (pair_run evs []))) = paired now reqs resps"
  using assms(8,9) mirror_events_read [OF assms(1-5), of now servicePort clientPort]
  unfolding paired_def by (intro streams_paired) (simp_all add: assms(6,7))

lemma pair_run_keys: "\<forall>ev \<in> set evs. ev_key ev = k \<Longrightarrow> \<forall>kx \<in> set (fst (pair_run evs cs)). fst kx = k"
proof (induction evs arbitrary: cs)
  case (Cons ev evs)
  obtain xs cs1 where s: "pair_step ev cs = (xs, cs1)" by fastforce
  obtain ys cs2 where r: "pair_run evs cs1 = (ys, cs2)" by fastforce
  show ?case using Cons.IH [of cs1] Cons.prems by (auto simp: s r)
qed simp

lemma paired_parts:
  "length resps = length reqs \<Longrightarrow>
   map (\<lambda>s. (spec_Method s, spec_Path s)) (finish_all n (sniff_logs m (paired now reqs resps))) =
   map (\<lambda>(r, _). (to_upper (iq_Method r), kept_path r)) reqs"
  by (rule nth_equalityI)
    (auto simp: finish_all_def sniff_logs_def paired_def pendings_def answers_def finish_spec_def log_spec_def
      sniff_log_def exchange_of_def pending_of_def nth_enumerate_eq split: prod.splits)

lemma paired_own:
  "length resps = length reqs \<Longrightarrow>
   map (\<lambda>x. (xc_Method x, xc_Path x, xc_Body x, xc_Status x, xc_RespBody x)) (paired now reqs resps) =
   map (\<lambda>((r, body), (status, answer)). (iq_Method r, kept_path r, kept_body (take sniff_limit body), status,
     take sniff_limit answer)) (zip reqs resps)"
  by (rule nth_equalityI)
    (auto simp: paired_def pendings_def answers_def exchange_of_def pending_of_def nth_enumerate_eq split: prod.splits)



text \<open>A connection with one exchange; the parsers know its two messages.\<close>

definition demo_request :: InReq where
  "demo_request = \<lparr>iq_Method = ''GET'', iq_Path = ''/a'', iq_RawQuery = '''', iq_Header = []\<rparr>"

definition knows :: "string \<Rightarrow> 'm \<Rightarrow> string \<Rightarrow> 'm parsed" where
  "knows text m s =
     (if s = '''' then ParseEOF
      else if take (length text) s = text then Parsed m '''' (drop (length text) s)
      else ParseError (malformed s))"

lemma reads_knows: "text \<noteq> '''' \<Longrightarrow> reads (knows text m) (\<lambda>_. text) [(m, '''')]"
  by (simp add: reads_def knows_def)

definition demo_sched :: "(bool \<times> string) list" where
  "demo_sched = [(True, ''GET /a H''), (True, ''TTP/1.1''), (False, ''200 OK'')]"

definition demo_events :: "pair_event list" where
  "demo_events =
     [RespEv (mirror_key 8080 20001) 200 '''', ReqEv (mirror_key 8080 20001) 0 demo_request '''']"

definition raw_output :: Output where
  "raw_output = \<lparr>out_golden = None, out_rawPath = ''m.jsonl'', out_rawFile = Some '''', out_seq = 0,
     Count = 0, Skipped = 0, SampleRate = FFin 0 0, SampleAllWrites = True\<rparr>"


end
