(* ===== verification/Flags.thy ===== *)
theory Flags
  imports Json Atoi
begin

text \<open>
  What \<open>cmd/mockingbox\<close> uses of Go's \<open>flag\<close> package, with the conversions of \<open>strconv\<close> and \<open>time\<close> behind
  it: a set of flags, several of which may stand for one variable, and the parsing of a command line.
  The theorem \<open>Parse_iff\<close> says which command lines are accepted and what they mean: the ones that
  spell a list of settings, up to the first argument that is none.
\<close>

section \<open>Numbers as text\<close>

text \<open>\<open>strconv.ParseBool\<close>\<close>

definition ParseBool :: "string \<Rightarrow> bool option" where
  "ParseBool s =
     (if s \<in> {''1'', ''t'', ''T'', ''true'', ''TRUE'', ''True''} then Some True
      else if s \<in> {''0'', ''f'', ''F'', ''false'', ''FALSE'', ''False''} then Some False
      else None)"

text \<open>\<open>strconv.lower\<close>: a letter in lower case; other bytes do not become letters.\<close>

definition low :: "char \<Rightarrow> nat" where
  "low c = (if byte c div 32 mod 2 = 1 then byte c else byte c + 32)"

definition low_is :: "char \<Rightarrow> char \<Rightarrow> bool" where
  "low_is l c \<longleftrightarrow> low c = byte l"

definition hex_letter :: "char \<Rightarrow> bool" where
  "hex_letter c \<longleftrightarrow> 97 \<le> low c \<and> low c \<le> 102"

text \<open>\<open>underscoreOK\<close>: an underscore stands between two digits or after a base prefix.  The scan knows
  whether the byte before was a digit (or the prefix), an underscore, or neither.\<close>

datatype saw = SawDigit | SawUnderscore | SawOther

fun underscore_scan :: "bool \<Rightarrow> saw \<Rightarrow> string \<Rightarrow> bool" where
  "underscore_scan hex st [] = (st \<noteq> SawUnderscore)"
| "underscore_scan hex st (c # cs) =
     (if is_digit c \<or> hex \<and> hex_letter c then underscore_scan hex SawDigit cs
      else if c = CHR ''_'' then (if st = SawDigit then underscore_scan hex SawUnderscore cs else False)
      else if st = SawUnderscore then False
      else underscore_scan hex SawOther cs)"

definition drop_sign :: "string \<Rightarrow> string" where
  "drop_sign s = (if s \<noteq> '''' \<and> hd s \<in> {CHR ''-'', CHR ''+''} then tl s else s)"

definition underscoreOK :: "string \<Rightarrow> bool" where
  "underscoreOK s =
     (case drop_sign s of
        z # b # cs \<Rightarrow>
          if z = CHR ''0'' \<and> (low_is (CHR ''b'') b \<or> low_is (CHR ''o'') b \<or> low_is (CHR ''x'') b)
          then underscore_scan (low_is (CHR ''x'') b) SawDigit cs
          else underscore_scan False SawOther (z # b # cs)
      | cs \<Rightarrow> underscore_scan False SawOther cs)"

text \<open>The digits of a number in a base, underscores left out; none when a byte is no digit of it.\<close>

definition digit_value :: "char \<Rightarrow> nat option" where
  "digit_value c =
     (if is_digit c then Some (byte c - 48)
      else if 97 \<le> low c \<and> low c \<le> 122 then Some (low c - 97 + 10)
      else None)"

fun base_digits :: "nat \<Rightarrow> int \<Rightarrow> string \<Rightarrow> int option" where
  "base_digits b n [] = Some n"
| "base_digits b n (c # cs) =
     (if c = CHR ''_'' then base_digits b n cs
      else (case digit_value c of
              None \<Rightarrow> None
            | Some d \<Rightarrow> if b \<le> d then None else base_digits b (n * int b + int d) cs))"

definition ParseUint :: "string \<Rightarrow> int option" where
  "ParseUint s =
     (if s = '''' then None
      else
        (let (b, ds) =
               (case s of
                  z # c # cs \<Rightarrow>
                    if z \<noteq> CHR ''0'' then (10, s)
                    else if cs \<noteq> [] \<and> low_is (CHR ''b'') c then (2, cs)
                    else if cs \<noteq> [] \<and> low_is (CHR ''o'') c then (8, cs)
                    else if cs \<noteq> [] \<and> low_is (CHR ''x'') c then (16, cs)
                    else (8, c # cs)
                | _ \<Rightarrow> if s = ''0'' then (8, '''') else (10, s))
         in case base_digits b 0 ds of
              None \<Rightarrow> None
            | Some n \<Rightarrow>
                if 2 ^ 64 \<le> n then None
                else if CHR ''_'' \<in> set ds \<and> \<not> underscoreOK s then None else Some n))"

text \<open>\<open>strconv.ParseInt(s, 0, 64)\<close>; any error is none.\<close>

definition ParseInt :: "string \<Rightarrow> int option" where
  "ParseInt s =
     (if s = '''' then None
      else
        (let neg = (hd s = CHR ''-'')
         in case ParseUint (drop_sign s) of
              None \<Rightarrow> None
            | Some un \<Rightarrow>
                if \<not> neg \<and> 2 ^ 63 \<le> un then None
                else if neg \<and> 2 ^ 63 < un then None
                else Some (if neg then - un else un)))"

lemma ParseInt_examples:
  "ParseInt ''8080'' = Some 8080 \<and> ParseInt ''-1'' = Some (- 1) \<and> ParseInt ''0x1F90'' = Some 8080 \<and>
   ParseInt ''0b_101'' = Some 5 \<and> ParseInt ''1_000'' = Some 1000 \<and> ParseInt ''017'' = Some 15 \<and>
   ParseInt ''0'' = Some 0 \<and> ParseInt ''08'' = None \<and> ParseInt ''1__0'' = None \<and> ParseInt ''80a'' = None \<and>
   ParseInt '''' = None \<and> ParseInt ''9223372036854775808'' = None \<and>
   ParseInt ''-9223372036854775808'' = Some (- (2 ^ 63))"
  by code_simp

section \<open>Floats as flags\<close>

text \<open>\<open>strconv.ParseFloat(s, 64)\<close>: the names of the infinities and of NaN; else the mantissa, its digits
  before and after the point (underscores left out) and what follows; then the exponent, of which the
  first five digits or so count.  Any error is none.\<close>

definition special_float :: "string \<Rightarrow> f64 option" where
  "special_float s =
     (let neg = (s \<noteq> '''' \<and> hd s = CHR ''-''); t = to_lower (drop_sign s)
      in if t = ''inf'' \<or> t = ''infinity'' then Some (FInf neg)
         else if to_lower s = ''nan'' then Some FNaN else None)"

fun mant_scan :: "bool \<Rightarrow> bool \<Rightarrow> string \<Rightarrow> string \<times> string \<times> string" where
  "mant_scan hex dot [] = ([], [], [])"
| "mant_scan hex dot (c # cs) =
     (if c = CHR ''_'' then mant_scan hex dot cs
      else if c = CHR ''.'' then (if dot then ([], [], c # cs) else mant_scan hex True cs)
      else if is_digit c \<or> hex \<and> hex_letter c then
        (case mant_scan hex dot cs of
           (i, f, rest) \<Rightarrow> if dot then (i, c # f, rest) else (c # i, f, rest))
      else ([], [], c # cs))"

definition exp_digit :: "int \<Rightarrow> char \<Rightarrow> int" where
  "exp_digit e c = (if c \<noteq> CHR ''_'' \<and> e < 10000 then e * 10 + int (byte c - 48) else e)"

definition float_exp :: "char \<Rightarrow> string \<Rightarrow> int option" where
  "float_exp expChar s =
     (case s of
        [] \<Rightarrow> if expChar = CHR ''p'' then None else Some 0
      | e # t \<Rightarrow>
          (let ds = drop_sign t
           in if \<not> low_is expChar e \<or> ds = '''' \<or> \<not> is_digit (hd ds) \<or>
                 \<not> list_all (\<lambda>c. is_digit c \<or> c = CHR ''_'') ds then None
              else Some (foldl exp_digit 0 ds * (if hd t = CHR ''-'' then - 1 else 1))))"

definition ratio_pow2 :: "bool \<Rightarrow> int \<Rightarrow> int \<Rightarrow> f64" where
  "ratio_pow2 neg m x =
     (if 0 \<le> x then f64_of_ratio neg (m * 2 ^ nat x) 1 else f64_of_ratio neg m (2 ^ nat (- x)))"

definition read_float :: "string \<Rightarrow> f64 option" where
  "read_float s =
     (let neg = (s \<noteq> '''' \<and> hd s = CHR ''-'');
          t = drop_sign s;
          hex = (2 < length t \<and> hd t = CHR ''0'' \<and> low_is (CHR ''x'') (t ! 1));
          (i, f, rest) = mant_scan hex False (if hex then drop 2 t else t)
      in if i @ f = '''' then None
         else
           (case float_exp (if hex then CHR ''p'' else CHR ''e'') rest of
              None \<Rightarrow> None
            | Some x \<Rightarrow>
                if CHR ''_'' \<in> set s \<and> \<not> underscoreOK s then None
                else
                  (case base_digits (if hex then 16 else 10) 0 (i @ f) of
                     None \<Rightarrow> None
                   | Some m \<Rightarrow>
                       finite_f64 (if hex then ratio_pow2 neg m (x - 4 * int (length f))
                                   else ratio_pow10 neg m (x - int (length f))))))"

definition ParseFloat :: "string \<Rightarrow> f64 option" where
  "ParseFloat s = (case special_float s of Some x \<Rightarrow> Some x | None \<Rightarrow> read_float s)"

lemma ParseFloat_examples:
  "ParseFloat ''0.25'' = Some (FFin 1 (- 2)) \<and> ParseFloat ''1'' = Some (FFin 1 0) \<and>
   ParseFloat ''.5e0'' = Some (FFin 1 (- 1)) \<and> ParseFloat ''-Inf'' = Some (FInf True) \<and>
   ParseFloat ''NaN'' = Some FNaN \<and> ParseFloat ''0x1p-2'' = Some (FFin 1 (- 2)) \<and>
   ParseFloat ''1_0.5'' = Some (FFin 21 (- 1)) \<and> ParseFloat ''-0'' = Some FNegZero \<and>
   ParseFloat ''0x1'' = None \<and> ParseFloat ''1e'' = None \<and> ParseFloat ''1.2.3'' = None \<and>
   ParseFloat ''10%'' = None \<and> ParseFloat ''.'' = None \<and> ParseFloat ''+nan'' = None \<and>
   ParseFloat '''' = None"
  by code_simp

section \<open>Durations\<close>

text \<open>\<open>time.ParseDuration\<close> in nanoseconds.  The integer part of a term is exact, its fraction is
  computed in floating point.\<close>

definition leading_digits :: "string \<Rightarrow> string \<times> string" where
  "leading_digits s = (takeWhile is_digit s, dropWhile is_digit s)"

text \<open>\<open>leadingFraction\<close>: the digits that fit, and how many they are.\<close>

fun fraction_scan :: "bool \<Rightarrow> int \<Rightarrow> nat \<Rightarrow> string \<Rightarrow> int \<times> nat" where
  "fraction_scan ovf x k [] = (x, k)"
| "fraction_scan ovf x k (c # cs) =
     (if ovf \<or> (2 ^ 63 - 1) div 10 < x \<or> 2 ^ 63 < x * 10 + int (byte c - 48) then fraction_scan True x k cs
      else fraction_scan False (x * 10 + int (byte c - 48)) (k + 1) cs)"

definition unit_ns :: "string \<Rightarrow> int option" where
  "unit_ns u =
     map_of [(''ns'', 1), (''us'', 10 ^ 3), ([CHR 0xC2, CHR 0xB5, CHR ''s''], 10 ^ 3),
       ([CHR 0xCE, CHR 0xBC, CHR ''s''], 10 ^ 3), (''ms'', 10 ^ 6), (''s'', 10 ^ 9), (''m'', 60 * 10 ^ 9),
       (''h'', 3600 * 10 ^ 9)] u"

text \<open>A finite float as a fraction, and the two operations on positive ones.\<close>

fun f64_frac :: "f64 \<Rightarrow> int \<times> int" where
  "f64_frac (FFin m e) = (m * 2 ^ nat e, 2 ^ nat (- e))"
| "f64_frac _ = (0, 1)"

definition f64_quot :: "f64 \<Rightarrow> f64 \<Rightarrow> f64" where
  "f64_quot x y = (case (f64_frac x, f64_frac y) of ((a, b), (c, d)) \<Rightarrow> f64_of_ratio False (a * d) (b * c))"

definition f64_prod :: "f64 \<Rightarrow> f64 \<Rightarrow> f64" where
  "f64_prod x y = (case (f64_frac x, f64_frac y) of ((a, b), (c, d)) \<Rightarrow> f64_of_ratio False (a * c) (b * d))"

definition fraction_ns :: "int \<Rightarrow> nat \<Rightarrow> int \<Rightarrow> int" where
  "fraction_ns f k unit =
     (case f64_frac (f64_prod (f64_of_int f) (f64_quot (f64_of_int unit) (f64_of_int (10 ^ k)))) of
        (a, b) \<Rightarrow> a div b)"

text \<open>One term, like \<open>1.5h\<close>: the digits before and after the point and what follows; its value and the
  rest.\<close>

definition term_digits :: "string \<Rightarrow> string \<times> string \<times> string" where
  "term_digits s =
     (case leading_digits s of
        (ds, t) \<Rightarrow>
          if t \<noteq> '''' \<and> hd t = CHR ''.'' then (case leading_digits (tl t) of (fs, t) \<Rightarrow> (ds, fs, t))
          else (ds, '''', t))"

definition term_unit :: "string \<Rightarrow> string" where
  "term_unit s = takeWhile (\<lambda>c. c \<noteq> CHR ''.'' \<and> \<not> is_digit c) s"

definition term_value :: "string \<Rightarrow> string \<Rightarrow> int \<Rightarrow> int option" where
  "term_value ds fs unit =
     (if 2 ^ 63 div unit < str_dec ds then None
      else
        (case fraction_scan False 0 0 fs of
           (f, k) \<Rightarrow>
             (let v = str_dec ds * unit + (if 0 < f then fraction_ns f k unit else 0)
              in if 2 ^ 63 < v then None else Some v)))"

definition duration_term :: "string \<Rightarrow> (int \<times> string) option" where
  "duration_term s =
     (case term_digits s of
        (ds, fs, t) \<Rightarrow>
          if ds @ fs = '''' \<or> 2 ^ 63 < str_dec ds then None
          else
            (case unit_ns (term_unit t) of
               None \<Rightarrow> None
             | Some unit \<Rightarrow>
                 map_option (\<lambda>v. (v, drop (length (term_unit t)) t)) (term_value ds fs unit)))"

lemma term_digits_rest: "length (snd (snd (term_digits s))) \<le> length s"
proof -
  have a: "length (dropWhile is_digit (tl (dropWhile is_digit s))) \<le> length (dropWhile is_digit s)"
    using length_dropWhile_le [of is_digit "tl (dropWhile is_digit s)"] by simp
  with length_dropWhile_le [of is_digit s] show ?thesis
    by (auto simp: term_digits_def leading_digits_def intro: order_trans)
qed

lemma duration_term_shorter: "duration_term s = Some (v, rest) \<Longrightarrow> length rest < length s"
proof -
  assume a: "duration_term s = Some (v, rest)"
  obtain ds fs t where t: "term_digits s = (ds, fs, t)" by (cases "term_digits s") blast
  have none: "unit_ns '''' = None" by (simp add: unit_ns_def)
  from a obtain unit where "unit_ns (term_unit t) = Some unit"
    and rest: "rest = drop (length (term_unit t)) t"
    by (auto simp: duration_term_def t split: if_splits option.splits)
  then have "term_unit t \<noteq> ''''" using none by auto
  moreover have "length (term_unit t) \<le> length t" by (simp add: term_unit_def length_takeWhile_le)
  ultimately have "length rest < length t" by (cases "term_unit t") (auto simp: rest)
  also have "length t \<le> length s" using term_digits_rest [of s] by (simp add: t)
  finally show ?thesis .
qed

function duration_terms :: "int \<Rightarrow> string \<Rightarrow> int option" where
  "duration_terms d s =
     (if s = '''' then Some d
      else
        (case duration_term s of
           None \<Rightarrow> None
         | Some (v, rest) \<Rightarrow> if 2 ^ 63 < d + v then None else duration_terms (d + v) rest))"
  by pat_completeness auto
termination
  by (relation "measure (length \<circ> snd)") (auto dest: duration_term_shorter)

declare duration_terms.simps [simp del]

definition ParseDuration :: "string \<Rightarrow> int option" where
  "ParseDuration s =
     (let neg = (s \<noteq> '''' \<and> hd s = CHR ''-''); t = drop_sign s
      in if t = ''0'' then Some 0
         else if t = '''' then None
         else
           (case duration_terms 0 t of
              None \<Rightarrow> None
            | Some d \<Rightarrow> if neg then Some (- d) else if 2 ^ 63 \<le> d then None else Some d))"

lemma ParseDuration_examples:
  "ParseDuration ''10s'' = Some 10000000000 \<and> ParseDuration ''1h30m'' = Some 5400000000000 \<and>
   ParseDuration ''1.5s'' = Some 1500000000 \<and> ParseDuration ''-1ms'' = Some (- 1000000) \<and>
   ParseDuration ''0'' = Some 0 \<and> ParseDuration ''.1us'' = Some 100 \<and> ParseDuration ''10'' = None \<and>
   ParseDuration ''1d'' = None \<and> ParseDuration ''.s'' = None \<and> ParseDuration '''' = None \<and>
   ParseDuration ''2562048h'' = None"
  by code_simp

section \<open>Sets of flags\<close>

text \<open>The value of a flag's variable; its constructor is the type the flag was registered with.\<close>

datatype flag_val = VStr string | VInt int | VBool bool | VF64 f64 | VDur int

fun set_val :: "flag_val \<Rightarrow> string \<Rightarrow> flag_val option" where
  "set_val (VStr _) s = Some (VStr s)"
| "set_val (VInt _) s = map_option VInt (ParseInt s)"
| "set_val (VBool _) s = map_option VBool (ParseBool s)"
| "set_val (VF64 _) s = map_option VF64 (ParseFloat s)"
| "set_val (VDur _) s = map_option VDur (ParseDuration s)"

fun is_bool :: "flag_val \<Rightarrow> bool" where
  "is_bool (VBool _) = True"
| "is_bool _ = False"

text \<open>A set: the variable each name stands for, and the variables.\<close>

record FlagSet =
  fs_formal :: "(string \<times> string) list"
  fs_vars :: "(string \<times> flag_val) list"

datatype parse_err =
    HelpAsked | BadSyntax string | NotDefined string | NeedsArgument string | InvalidValue string string

definition flag_kind :: "FlagSet \<Rightarrow> string \<Rightarrow> flag_val option" where
  "flag_kind fs n = Option.bind (map_of (fs_formal fs) n) (map_of (fs_vars fs))"

text \<open>\<open>Set\<close> of a registered flag.\<close>

definition set_flag :: "FlagSet \<Rightarrow> string \<Rightarrow> string \<Rightarrow> FlagSet option" where
  "set_flag fs n t =
     (case map_of (fs_formal fs) n of
        None \<Rightarrow> None
      | Some var \<Rightarrow>
          (case map_of (fs_vars fs) var of
             None \<Rightarrow> None
           | Some d \<Rightarrow> map_option (\<lambda>v. fs\<lparr>fs_vars := map_set var v (fs_vars fs)\<rparr>) (set_val d t)))"

text \<open>\<open>parseOne\<close>: what an argument is.\<close>

datatype argument = Plain | Terminator | Malformed | Named string "string option"

definition read_name :: "string \<Rightarrow> argument" where
  "read_name name =
     (if name = '''' \<or> hd name = CHR ''-'' \<or> hd name = CHR ''='' then Malformed
      else (case cut_at (CHR ''='') name of
              None \<Rightarrow> Named name None
            | Some (n, v) \<Rightarrow> Named n (Some v)))"

definition read_arg :: "string \<Rightarrow> argument" where
  "read_arg s =
     (if length s < 2 \<or> hd s \<noteq> CHR ''-'' then Plain
      else if s = ''--'' then Terminator
      else read_name (if s ! 1 = CHR ''-'' then drop 2 s else tl s))"

definition assign :: "FlagSet \<Rightarrow> string \<Rightarrow> string \<Rightarrow> string list \<Rightarrow> parse_err + FlagSet \<times> string list" where
  "assign fs n t rest =
     (case set_flag fs n t of None \<Rightarrow> Inl (InvalidValue t n) | Some fs' \<Rightarrow> Inr (fs', rest))"

definition set_named ::
  "FlagSet \<Rightarrow> string \<Rightarrow> string option \<Rightarrow> string list \<Rightarrow> parse_err + FlagSet \<times> string list" where
  "set_named fs n v rest =
     (case flag_kind fs n of
        None \<Rightarrow> Inl (if n = ''help'' \<or> n = ''h'' then HelpAsked else NotDefined n)
      | Some d \<Rightarrow>
          (case v of
             Some t \<Rightarrow> assign fs n t rest
           | None \<Rightarrow>
               if is_bool d then assign fs n ''true'' rest
               else (case rest of [] \<Rightarrow> Inl (NeedsArgument n) | t # rest \<Rightarrow> assign fs n t rest)))"

lemma set_named_shorter: "set_named fs n v rest = Inr (fs', rest') \<Longrightarrow> length rest' \<le> length rest"
  by (auto simp: set_named_def assign_def split: option.splits if_splits list.splits)

text \<open>\<open>FlagSet.Parse\<close>: the set with its variables assigned and the arguments left.\<close>

function Parse :: "FlagSet \<Rightarrow> string list \<Rightarrow> parse_err + FlagSet \<times> string list" where
  "Parse fs [] = Inr (fs, [])"
| "Parse fs (s # rest) =
     (case read_arg s of
        Plain \<Rightarrow> Inr (fs, s # rest)
      | Terminator \<Rightarrow> Inr (fs, rest)
      | Malformed \<Rightarrow> Inl (BadSyntax s)
      | Named n v \<Rightarrow>
          (case set_named fs n v rest of
             Inl e \<Rightarrow> Inl e
           | Inr (fs', rest') \<Rightarrow> Parse fs' rest'))"
  by pat_completeness auto
termination
  by (relation "measure (length \<circ> snd)") (auto dest: set_named_shorter)

section \<open>What a command line says\<close>

text \<open>A setting: with one dash or two, the name, and how its value is written.\<close>

datatype spelling = Joined string | Following string | Alone

type_synonym setting = "bool \<times> string \<times> spelling"

definition dashes :: "bool \<Rightarrow> string \<Rightarrow> string" where
  "dashes two n = (if two then ''--'' else ''-'') @ n"

fun spell :: "setting \<Rightarrow> string list" where
  "spell (two, n, Joined t) = [dashes two n @ CHR ''='' # t]"
| "spell (two, n, Following t) = [dashes two n, t]"
| "spell (two, n, Alone) = [dashes two n]"

fun text_of :: "spelling \<Rightarrow> string" where
  "text_of (Joined t) = t"
| "text_of (Following t) = t"
| "text_of Alone = ''true''"

text \<open>A switch takes no value of its own argument, any other flag must have one.\<close>

fun spelled_for :: "flag_val \<Rightarrow> spelling \<Rightarrow> bool" where
  "spelled_for d (Joined t) = True"
| "spelled_for d (Following t) = (\<not> is_bool d)"
| "spelled_for d Alone = is_bool d"

definition apply_setting :: "FlagSet \<Rightarrow> setting \<Rightarrow> FlagSet option" where
  "apply_setting fs st =
     (case st of (two, n, sp) \<Rightarrow>
       case flag_kind fs n of
         None \<Rightarrow> None
       | Some d \<Rightarrow> if spelled_for d sp then set_flag fs n (text_of sp) else None)"

fun apply_settings :: "FlagSet \<Rightarrow> setting list \<Rightarrow> FlagSet option" where
  "apply_settings fs [] = Some fs"
| "apply_settings fs (st # ss) = Option.bind (apply_setting fs st) (\<lambda>fs. apply_settings fs ss)"

text \<open>Where the flags end: at the end, before an argument that is no flag, after \<open>--\<close>.\<close>

definition left_over :: "string list \<Rightarrow> string list option" where
  "left_over args =
     (case args of
        [] \<Rightarrow> Some []
      | s # rest \<Rightarrow>
          (case read_arg s of Plain \<Rightarrow> Some (s # rest) | Terminator \<Rightarrow> Some rest | _ \<Rightarrow> None))"

definition plain_name :: "string \<Rightarrow> bool" where
  "plain_name n \<longleftrightarrow> n \<noteq> '''' \<and> hd n \<noteq> CHR ''-'' \<and> CHR ''='' \<notin> set n"

definition names_ok :: "FlagSet \<Rightarrow> bool" where
  "names_ok fs \<longleftrightarrow> list_all (\<lambda>nv. plain_name (fst nv)) (fs_formal fs)"

lemma read_dashes:
  assumes "plain_name n"
  shows "read_arg (dashes two n) = Named n None" "read_arg (dashes two n @ CHR ''='' # t) = Named n (Some t)"
proof -
  obtain c m where n: "n = c # m" "c \<noteq> CHR ''-''" "c \<noteq> CHR ''=''" "CHR ''='' \<notin> set m"
    using assms by (cases n) (auto simp: plain_name_def)
  then have "cut_at (CHR ''='') (m @ CHR ''='' # t) = Some (m, t)" "cut_at (CHR ''='') m = None"
    by (simp_all add: cut_at_append cut_at_None)
  with n show "read_arg (dashes two n) = Named n None" "read_arg (dashes two n @ CHR ''='' # t) = Named n (Some t)"
    by (cases two; simp add: read_arg_def read_name_def dashes_def)+
qed

definition with_value :: "string option \<Rightarrow> string" where
  "with_value v = (case v of None \<Rightarrow> '''' | Some t \<Rightarrow> CHR ''='' # t)"

lemma read_name_Named:
  assumes "read_name name = Named n v"
  shows "plain_name n \<and> name = n @ with_value v"
proof -
  have name: "name \<noteq> ''''" "hd name \<noteq> CHR ''-''" "hd name \<noteq> CHR ''=''"
    using assms by (auto simp: read_name_def split: if_splits)
  then have *: "(case cut_at (CHR ''='') name of None \<Rightarrow> Named name None | Some (n, v) \<Rightarrow> Named n (Some v)) = Named n v"
    using assms unfolding read_name_def by (simp only: simp_thms if_False)
  have eq: "name = n @ with_value v \<and> CHR ''='' \<notin> set n"
  proof (cases "cut_at (CHR ''='') name")
    case None
    then have "n = name" "v = None" using * by simp_all
    with None show ?thesis by (simp add: with_value_def cut_at_None)
  next
    case (Some ab)
    then obtain a b where ab: "cut_at (CHR ''='') name = Some (a, b)" by (cases ab) blast
    then have "n = a" "v = Some b" using * by simp_all
    with cut_at_SomeD [OF ab] show ?thesis by (simp add: with_value_def)
  qed
  have n: "n \<noteq> ''''"
  proof
    assume "n = ''''"
    with eq have "name = with_value v" by simp
    with name(1,3) show False by (cases v) (simp_all add: with_value_def)
  qed
  with eq have "hd name = hd n" by (metis hd_append2)
  with n eq name(2) show ?thesis unfolding plain_name_def by metis
qed

lemma read_arg_Named:
  assumes "read_arg s = Named n v"
  shows "plain_name n \<and> (\<exists>two. s = dashes two n @ with_value v)"
proof -
  have "\<not> length s < 2" "hd s = CHR ''-''" using assms by (auto simp: read_arg_def split: if_splits)
  then obtain d r where s: "s = CHR ''-'' # d # r" by (cases s rule: remdups_adj.cases) auto
  have "read_arg s = (if d = CHR ''-'' \<and> r = '''' then Terminator else read_name (if d = CHR ''-'' then r else d # r))"
    by (simp add: read_arg_def s numeral_2_eq_2)
  then have "read_name (if d = CHR ''-'' then r else d # r) = Named n v" using assms by (auto split: if_splits)
  from read_name_Named [OF this] have "plain_name n" and eq: "(if d = CHR ''-'' then r else d # r) = n @ with_value v"
    by blast+
  moreover have "s = dashes (d = CHR ''-'') n @ with_value v"
    using eq by (cases "d = CHR ''-''") (simp_all add: s dashes_def)
  ultimately show ?thesis by blast
qed


text \<open>Setting a flag keeps the names.\<close>

lemma set_flag_formal: "set_flag fs n t = Some fs' \<Longrightarrow> fs_formal fs' = fs_formal fs"
  by (auto simp: set_flag_def split: option.splits)

lemma apply_setting_formal: "apply_setting fs st = Some fs' \<Longrightarrow> fs_formal fs' = fs_formal fs"
  by (auto simp: apply_setting_def set_flag_formal split: option.splits if_splits prod.splits)

lemma names_ok_kind: "names_ok fs \<Longrightarrow> flag_kind fs n = Some d \<Longrightarrow> plain_name n"
  by (auto simp: names_ok_def flag_kind_def list_all_iff bind_eq_Some_conv dest!: map_of_SomeD)

text \<open>One setting at the front is read and applied.\<close>

lemma Parse_setting:
  assumes "names_ok fs" "apply_setting fs st = Some fs'"
  shows "Parse fs (spell st @ tail) = Parse fs' tail"
proof -
  obtain two n sp where st: "st = (two, n, sp)" by (cases st) blast
  with assms(2) obtain d where d: "flag_kind fs n = Some d" and f: "spelled_for d sp"
    and set: "set_flag fs n (text_of sp) = Some fs'"
    by (auto simp: apply_setting_def split: option.splits if_splits)
  from names_ok_kind [OF assms(1) d] have "plain_name n" .
  note r = read_dashes [OF this]
  from f set show ?thesis
    by (cases sp) (simp_all add: st r d set_named_def assign_def)
qed

lemma Parse_settings:
  "names_ok fs \<Longrightarrow> apply_settings fs ss = Some fs' \<Longrightarrow> Parse fs (concat (map spell ss) @ tail) = Parse fs' tail"
proof (induction ss arbitrary: fs)
  case (Cons st ss)
  then obtain fs1 where s: "apply_setting fs st = Some fs1" and ss: "apply_settings fs1 ss = Some fs'"
    by (auto simp: bind_eq_Some_conv)
  moreover have "names_ok fs1" using Cons.prems(1) apply_setting_formal [OF s] by (simp add: names_ok_def)
  ultimately show ?case using Cons.IH Parse_setting [OF Cons.prems(1) s] by simp
qed simp

lemma Parse_left_over: "left_over tail = Some rest \<Longrightarrow> Parse fs tail = Inr (fs, rest)"
  by (auto simp: left_over_def split: list.splits argument.splits)

text \<open>What was read is a setting.\<close>

lemma set_named_setting:
  assumes "set_named fs n v rest = Inr (fs', rest')"
  shows "\<exists>sp. (dashes two n @ with_value v) # rest = spell (two, n, sp) @ rest' \<and>
    apply_setting fs (two, n, sp) = Some fs'"
proof -
  obtain d where d: "flag_kind fs n = Some d" using assms by (auto simp: set_named_def split: option.splits)
  show ?thesis
  proof (cases v)
    case (Some t)
    with assms d show ?thesis
      by (intro exI [of _ "Joined t"])
        (auto simp: set_named_def assign_def apply_setting_def with_value_def split: option.splits)
  next
    case None
    show ?thesis
    proof (cases "is_bool d")
      case True
      with assms d None show ?thesis
        by (intro exI [of _ Alone]) (auto simp: set_named_def assign_def apply_setting_def with_value_def split: option.splits)
    next
      case False
      with assms d None obtain t r where "rest = t # r" by (auto simp: set_named_def split: list.splits)
      with assms d None False show ?thesis
        by (intro exI [of _ "Following t"])
          (auto simp: set_named_def assign_def apply_setting_def with_value_def split: option.splits)
    qed
  qed
qed

lemma Parse_spelled:
  "Parse fs args = Inr (fs', rest) \<Longrightarrow>
   \<exists>ss tail. args = concat (map spell ss) @ tail \<and> apply_settings fs ss = Some fs' \<and> left_over tail = Some rest"
proof (induction fs args rule: Parse.induct)
  case (1 fs)
  then show ?case by (intro exI [of _ "[]"] exI [of _ "[]"]) (simp add: left_over_def)
next
  case (2 fs s args)
  show ?case
  proof (cases "read_arg s")
    case (Named n v)
    with "2.prems" obtain fs1 rest1 where one: "set_named fs n v args = Inr (fs1, rest1)"
      and more: "Parse fs1 rest1 = Inr (fs', rest)" by (auto split: sum.splits prod.splits)
    from read_arg_Named [OF Named] obtain two where s: "s = dashes two n @ with_value v" by blast
    from set_named_setting [OF one, of two] obtain sp where sp: "s # args = spell (two, n, sp) @ rest1"
      "apply_setting fs (two, n, sp) = Some fs1" using s by auto
    from "2.IH" [OF Named one refl more] obtain ss tail where "rest1 = concat (map spell ss) @ tail"
      "apply_settings fs1 ss = Some fs'" "left_over tail = Some rest" by blast
    then show ?thesis using sp by (intro exI [of _ "(two, n, sp) # ss"] exI [of _ tail]) simp
  qed (use "2.prems" in \<open>auto simp: left_over_def intro!: exI [of _ "[]"] exI [of _ "s # args"]\<close>)
qed

text \<open>A command line is accepted exactly if it spells settings, up to where the flags end, and then it
  means these settings, in their order.\<close>

lemma Parse_iff:
  assumes "names_ok fs"
  shows "Parse fs args = Inr (fs', rest) \<longleftrightarrow>
    (\<exists>ss tail. args = concat (map spell ss) @ tail \<and> apply_settings fs ss = Some fs' \<and> left_over tail = Some rest)"
  using Parse_spelled Parse_settings [OF assms] Parse_left_over by (metis (no_types, lifting))

text \<open>Every variable keeps its type, and a variable has the value of the last setting that names it.\<close>

definition value_of :: "FlagSet \<Rightarrow> string \<Rightarrow> flag_val option" where
  "value_of fs var = map_of (fs_vars fs) var"

definition names_var :: "FlagSet \<Rightarrow> string \<Rightarrow> setting \<Rightarrow> bool" where
  "names_var fs var st \<longleftrightarrow> (case st of (two, n, sp) \<Rightarrow> map_of (fs_formal fs) n = Some var)"

fun same_type :: "flag_val \<Rightarrow> flag_val \<Rightarrow> bool" where
  "same_type (VStr _) (VStr _) = True"
| "same_type (VInt _) (VInt _) = True"
| "same_type (VBool _) (VBool _) = True"
| "same_type (VF64 _) (VF64 _) = True"
| "same_type (VDur _) (VDur _) = True"
| "same_type _ _ = False"

lemma same_type_refl [simp]: "same_type d d"
  by (cases d) simp_all

lemma set_val_type: "set_val d t = Some v \<Longrightarrow> same_type d v"
  by (cases d) auto

lemma set_val_cong: "same_type d e \<Longrightarrow> set_val d t = set_val e t"
  by (cases "(d, e)" rule: same_type.cases) auto

lemma same_type_trans: "same_type a b \<Longrightarrow> same_type b c \<Longrightarrow> same_type a c"
  by (cases "(a, b)" rule: same_type.cases; cases c) auto

lemma apply_setting_value:
  assumes "apply_setting fs st = Some fs'" "value_of fs var = Some d"
  shows "\<exists>e. value_of fs' var = Some e \<and> same_type d e \<and>
    (if names_var fs var st then set_val d (text_of (snd (snd st))) = Some e else e = d)"
proof -
  obtain two n sp where st: "st = (two, n, sp)" by (cases st) blast
  with assms(1) obtain v k w where v: "map_of (fs_formal fs) n = Some v" "map_of (fs_vars fs) v = Some k"
    "set_val k (text_of sp) = Some w" "fs' = fs\<lparr>fs_vars := map_set v w (fs_vars fs)\<rparr>"
    by (auto simp: apply_setting_def set_flag_def split: option.splits if_splits)
  show ?thesis
  proof (cases "v = var")
    case True
    with v assms(2) set_val_type [of k] show ?thesis by (simp add: st value_of_def names_var_def)
  next
    case False
    with v assms(2) show ?thesis by (simp add: st value_of_def names_var_def)
  qed
qed

lemma apply_settings_value:
  assumes "apply_settings fs ss = Some fs'" "value_of fs var = Some d"
  shows "\<exists>e. value_of fs' var = Some e \<and> same_type d e \<and>
    (case filter (names_var fs var) ss of
       [] \<Rightarrow> e = d
     | sts \<Rightarrow> set_val d (text_of (snd (snd (last sts)))) = Some e)"
  using assms
proof (induction ss arbitrary: fs d)
  case Nil
  then show ?case by simp
next
  case (Cons st ss)
  then obtain fs1 where s: "apply_setting fs st = Some fs1" and ss: "apply_settings fs1 ss = Some fs'"
    by (auto simp: bind_eq_Some_conv)
  from apply_setting_value [OF s Cons.prems(2)] obtain d1 where d1: "value_of fs1 var = Some d1" "same_type d d1"
    "if names_var fs var st then set_val d (text_of (snd (snd st))) = Some d1 else d1 = d" by blast
  have nv: "names_var fs1 var = names_var fs var"
    using apply_setting_formal [OF s] by (simp add: names_var_def fun_eq_iff)
  from Cons.IH [OF ss d1(1)] obtain e where e: "value_of fs' var = Some e" "same_type d1 e"
    "case filter (names_var fs var) ss of [] \<Rightarrow> e = d1 | sts \<Rightarrow> set_val d1 (text_of (snd (snd (last sts)))) = Some e"
    unfolding nv by blast
  have t: "same_type d e" by (rule same_type_trans [OF d1(2) e(2)])
  show ?case
  proof (cases "filter (names_var fs var) ss")
    case Nil
    with e(3) d1(3) have "e = d1" by simp
    with e(1) t d1(3) Nil show ?thesis by (cases "names_var fs var st") simp_all
  next
    case (Cons st2 sts)
    with e(3) have "set_val d (text_of (snd (snd (last (st2 # sts))))) = Some e"
      using set_val_cong [OF d1(2)] by simp
    with e(1) t Cons show ?thesis by (cases "names_var fs var st") simp_all
  qed
qed


text \<open>Help is asked for with \<open>-h\<close> or \<open>-help\<close>, unless they are flags of the set, after settings only.\<close>

lemma Parse_help_spelled:
  "Parse fs args = Inl HelpAsked \<Longrightarrow>
   \<exists>ss two n v more fs'. args = concat (map spell ss) @ (dashes two n @ with_value v) # more \<and>
     apply_settings fs ss = Some fs' \<and> n \<in> {''h'', ''help''} \<and> flag_kind fs' n = None"
proof (induction fs args rule: Parse.induct)
  case (2 fs s args)
  then obtain n v where Named: "read_arg s = Named n v" by (cases "read_arg s") auto
  from read_arg_Named [OF Named] obtain two where s: "s = dashes two n @ with_value v" by blast
  show ?case
  proof (cases "set_named fs n v args")
    case (Inl e)
    with "2.prems" Named have "n \<in> {''h'', ''help''} \<and> flag_kind fs n = None"
      by (auto simp: set_named_def assign_def split: option.splits if_splits list.splits)
    then show ?thesis by (intro exI [of _ "[]"]) (auto simp: s)
  next
    case (Inr p)
    then obtain fs1 rest1 where one: "set_named fs n v args = Inr (fs1, rest1)" by (cases p) auto
    then have more: "Parse fs1 rest1 = Inl HelpAsked" using "2.prems" Named by simp
    from set_named_setting [OF one, of two] obtain sp where sp: "s # args = spell (two, n, sp) @ rest1"
      "apply_setting fs (two, n, sp) = Some fs1" using s by auto
    from "2.IH" [OF Named one refl more] obtain ss two' n' v' r' fs' where
      "rest1 = concat (map spell ss) @ (dashes two' n' @ with_value v') # r'" "apply_settings fs1 ss = Some fs'"
      "n' \<in> {''h'', ''help''}" "flag_kind fs' n' = None" by blast
    then show ?thesis using sp
      by (intro exI [of _ "(two, n, sp) # ss"] exI [of _ two'] exI [of _ n'] exI [of _ v'] exI [of _ r'] exI [of _ fs']) simp
  qed
qed simp

lemma Parse_help:
  assumes "names_ok fs"
  shows "Parse fs args = Inl HelpAsked \<longleftrightarrow>
    (\<exists>ss two n v more fs'. args = concat (map spell ss) @ (dashes two n @ with_value v) # more \<and>
       apply_settings fs ss = Some fs' \<and> n \<in> {''h'', ''help''} \<and> flag_kind fs' n = None)" (is "_ \<longleftrightarrow> ?r")
proof
  assume ?r
  then obtain ss two n v more fs' where a: "args = concat (map spell ss) @ (dashes two n @ with_value v) # more"
    and ss: "apply_settings fs ss = Some fs'" and n: "n \<in> {''h'', ''help''}" "flag_kind fs' n = None" by blast
  have "plain_name n" using n(1) by (auto simp: plain_name_def)
  from read_dashes [OF this] have "read_arg (dashes two n @ with_value v) = Named n v"
    by (cases v) (simp_all add: with_value_def)
  then show "Parse fs args = Inl HelpAsked"
    unfolding a Parse_settings [OF assms ss] using n by (auto simp: set_named_def)
qed (rule Parse_help_spelled)

end
