(* ===== verification/MirrorRun.thy ===== *)
theory MirrorRun
  imports MirrorSim Flags "HOL-Library.Sublist"
begin

text \<open>
  \<open>cmd/mirrorsim\<close> as it runs: \<open>main\<close> with its flags and its accept loop, and \<open>handle\<close> as a state machine
  of the two pipes of a connection, one step for every read, every segment that is mirrored and every
  write, in any interleaving.  A segment may fail to be serialized or its datagram to be written; the
  relay goes on and the sequence number advances all the same.  The theorem says that the relay is
  transparent whatever happens to the mirror, that the mirror is complete when no datagram of a direction
  failed, and that a receiver that follows the sequence numbers never takes an incomplete stream for a
  complete one.
\<close>

section \<open>The two pipes\<close>

text \<open>Where a pipe is: before a read; mirroring a buffer, of which a part is left; before the write of a
  buffer; after its loop.  A read that ends the stream is noted with the buffer it returned.\<close>

datatype pipe_pc = Reading | Mirroring string string bool | Writing string bool | Ended

record pipe =
  pi_pc :: pipe_pc
  pi_read :: string
  pi_written :: string
  pi_failed :: bool

record relay =
  ry_flow :: flowState
  ry_log :: "(tcp_segment \<times> bool) list"
  ry_client :: pipe
  ry_server :: pipe
  ry_sched :: "((bool \<times> string) \<times> bool) list"

text \<open>\<open>ry_log\<close> has every segment that was to be mirrored and whether its datagram went out.  \<open>ry_sched\<close> is
  no state of the program: it is the history of the chunks, with the same mark.\<close>

definition new_pipe :: pipe where
  "new_pipe = \<lparr>pi_pc = Reading, pi_read = '''', pi_written = '''', pi_failed = False\<rparr>"

definition open_relay :: "16 word \<Rightarrow> 16 word \<Rightarrow> bool \<times> bool \<Rightarrow> relay" where
  "open_relay servicePort clientPort out =
     (let f = new_flow servicePort clientPort
      in \<lparr>ry_flow = f, ry_log = zip (handshake f) [fst out, snd out], ry_client = new_pipe,
          ry_server = new_pipe, ry_sched = []\<rparr>)"

text \<open>The pipe that copies from the client, or from the server.\<close>

definition pipe_of :: "bool \<Rightarrow> relay \<Rightarrow> pipe" where
  "pipe_of fromClient R = (if fromClient then ry_client R else ry_server R)"

definition set_pipe :: "bool \<Rightarrow> pipe \<Rightarrow> relay \<Rightarrow> relay" where
  "set_pipe fromClient p R = (if fromClient then R\<lparr>ry_client := p\<rparr> else R\<lparr>ry_server := p\<rparr>)"

text \<open>What happens: a read returns bytes and perhaps an error, a chunk is mirrored and its datagram goes
  out or not, a write returns the number of bytes it wrote and whether it failed.\<close>

datatype pipe_event = ReadRet string bool | ChunkSent bool | WriteRet nat bool

definition on_read :: "string \<Rightarrow> bool \<Rightarrow> pipe \<Rightarrow> pipe" where
  "on_read buf err p =
     p\<lparr>pi_read := pi_read p @ buf,
       pi_pc := (if buf \<noteq> '''' then Mirroring buf buf err else if err then Ended else Reading)\<rparr>"

definition on_write :: "string \<Rightarrow> bool \<Rightarrow> nat \<Rightarrow> bool \<Rightarrow> pipe \<Rightarrow> pipe" where
  "on_write buf err n failed p =
     p\<lparr>pi_written := pi_written p @ (if failed then take n buf else buf),
       pi_failed := failed, pi_pc := (if failed \<or> err then Ended else Reading)\<rparr>"

definition send_chunk :: "bool \<Rightarrow> bool \<Rightarrow> string \<Rightarrow> string \<Rightarrow> bool \<Rightarrow> relay \<Rightarrow> relay" where
  "send_chunk d out rest buf err R =
     (let chunk = take chunkSize rest; rest = drop chunkSize rest; f = ry_flow R;
          p = pipe_of d R
      in set_pipe d (p\<lparr>pi_pc := (if rest = '''' then Writing buf err else Mirroring rest buf err)\<rparr>)
           (R\<lparr>ry_log := ry_log R @ [(flow_packet f d (flow_seq d f) False False chunk, out)],
              ry_flow := advance d (length chunk) f, ry_sched := ry_sched R @ [((d, chunk), out)]\<rparr>))"

text \<open>A step of one pipe; an event the pipe does not wait for changes nothing.\<close>

definition relay_step :: "bool \<times> pipe_event \<Rightarrow> relay \<Rightarrow> relay" where
  "relay_step ev R =
     (case ev of (d, e) \<Rightarrow>
       let p = pipe_of d R in
       case (pi_pc p, e) of
         (Reading, ReadRet buf err) \<Rightarrow> set_pipe d (on_read buf err p) R
       | (Mirroring rest buf err, ChunkSent out) \<Rightarrow> send_chunk d out rest buf err R
       | (Writing buf err, WriteRet n failed) \<Rightarrow> set_pipe d (on_write buf err n failed p) R
       | _ \<Rightarrow> R)"

definition relay_run :: "(bool \<times> pipe_event) list \<Rightarrow> relay \<Rightarrow> relay" where
  "relay_run evs R = foldl (\<lambda>R ev. relay_step ev R) R evs"

text \<open>\<open>handle\<close>: the segments, with whether they went out, when the upstream was dialled; those of \<open>finish\<close>
  when both pipes have ended.\<close>

definition both_ended :: "relay \<Rightarrow> bool" where
  "both_ended R \<longleftrightarrow> pi_pc (ry_client R) = Ended \<and> pi_pc (ry_server R) = Ended"

definition handle_run ::
  "bool \<Rightarrow> 16 word \<Rightarrow> 16 word \<Rightarrow> bool \<times> bool \<Rightarrow> (bool \<times> pipe_event) list \<Rightarrow> bool \<times> bool \<Rightarrow>
   (tcp_segment \<times> bool) list" where
  "handle_run dialled servicePort clientPort syns evs fins =
     (if \<not> dialled then []
      else
        (let R = relay_run evs (open_relay servicePort clientPort syns)
         in ry_log R @ (if both_ended R then zip (finish_flow (ry_flow R)) [fst fins, snd fins] else [])))"

text \<open>What goes to the mirror.\<close>

definition went_out :: "(tcp_segment \<times> bool) list \<Rightarrow> tcp_segment list" where
  "went_out log = map fst (filter snd log)"

section \<open>The invariant\<close>

definition mirrored :: "bool \<Rightarrow> relay \<Rightarrow> string" where
  "mirrored d R = concat (map snd (filter (\<lambda>e. fst e = d) (map fst (ry_sched R))))"

text \<open>A pipe between what it read, what it wrote and what of it was mirrored.\<close>

definition pipe_ok :: "pipe \<Rightarrow> string \<Rightarrow> bool" where
  "pipe_ok p m \<longleftrightarrow>
     (case pi_pc p of
        Reading \<Rightarrow> m = pi_read p \<and> pi_written p = pi_read p \<and> \<not> pi_failed p
      | Mirroring rest buf err \<Rightarrow>
          pi_read p = m @ rest \<and> pi_read p = pi_written p @ buf \<and> prefix (pi_written p) m \<and> rest \<noteq> '''' \<and> \<not> pi_failed p
      | Writing buf err \<Rightarrow> m = pi_read p \<and> pi_read p = pi_written p @ buf \<and> \<not> pi_failed p
      | Ended \<Rightarrow> m = pi_read p \<and> prefix (pi_written p) (pi_read p) \<and>
          (\<not> pi_failed p \<longrightarrow> pi_written p = pi_read p))"

definition relay_ok :: "16 word \<Rightarrow> 16 word \<Rightarrow> bool \<times> bool \<Rightarrow> relay \<Rightarrow> bool" where
  "relay_ok servicePort clientPort out R \<longleftrightarrow>
     (case emit_loop (map fst (ry_sched R)) (new_flow servicePort clientPort) of
        (ps, f) \<Rightarrow> ry_flow R = f \<and>
          ry_log R = zip (handshake (new_flow servicePort clientPort)) [fst out, snd out] @ zip ps (map snd (ry_sched R))) \<and>
     (\<forall>d. pipe_ok (pipe_of d R) (mirrored d R))"

lemma length_emit_loop: "emit_loop sched f = (ps, f') \<Longrightarrow> length ps = length sched"
  by (induction sched f arbitrary: ps f' rule: emit_loop.induct) (auto split: prod.splits)

lemma emit_loop_snoc:
  "emit_loop (sched @ [(d, chunk)]) f =
     (case emit_loop sched f of
        (ps, f') \<Rightarrow> (ps @ [flow_packet f' d (flow_seq d f') False False chunk], advance d (length chunk) f'))"
  by (induction sched f rule: emit_loop.induct) (auto split: prod.splits)

lemma pipe_of_set [simp]: "pipe_of d (set_pipe e p R) = (if d = e then p else pipe_of d R)"
  by (auto simp: pipe_of_def set_pipe_def)

lemma set_pipe_fields [simp]:
  "ry_flow (set_pipe d p R) = ry_flow R" "ry_log (set_pipe d p R) = ry_log R" "ry_sched (set_pipe d p R) = ry_sched R"
  by (simp_all add: set_pipe_def)

lemma mirrored_set_pipe [simp]: "mirrored d (set_pipe e p R) = mirrored d R"
  by (simp add: mirrored_def)

lemma relay_ok_open: "relay_ok sp cp out (open_relay sp cp out)"
  by (simp add: relay_ok_def open_relay_def pipe_of_def pipe_ok_def new_pipe_def mirrored_def Let_def)

lemma relay_ok_set:
  assumes "relay_ok sp cp out R" "pipe_ok p (mirrored d R)"
  shows "relay_ok sp cp out (set_pipe d p R)"
  using assms by (auto simp: relay_ok_def)

lemma on_read_ok:
  assumes "pipe_ok p m" "pi_pc p = Reading"
  shows "pipe_ok (on_read buf err p) m"
  using assms by (auto simp: pipe_ok_def on_read_def)

lemma on_write_ok:
  assumes "pipe_ok p m" "pi_pc p = Writing buf err"
  shows "pipe_ok (on_write buf err n failed p) m"
  using assms by (auto simp: pipe_ok_def on_write_def intro: take_is_prefix)

lemma send_chunk_ok:
  assumes "relay_ok sp cp hs R" "pi_pc (pipe_of d R) = Mirroring rest buf err"
  shows "relay_ok sp cp hs (send_chunk d out rest buf err R)"
proof -
  let ?R = "send_chunk d out rest buf err R" and ?c = "take chunkSize rest"
  obtain ps f where e: "emit_loop (map fst (ry_sched R)) (new_flow sp cp) = (ps, f)" "ry_flow R = f"
    "ry_log R = zip (handshake (new_flow sp cp)) [fst hs, snd hs] @ zip ps (map snd (ry_sched R))"
    using assms(1) by (auto simp: relay_ok_def split: prod.splits)
  have p: "pipe_ok (pipe_of d R) (mirrored d R)" using assms(1) by (simp add: relay_ok_def)
  have m: "mirrored e ?R = (if e = d then mirrored d R @ ?c else mirrored e R)" for e
    by (auto simp: mirrored_def send_chunk_def Let_def)
  have o: "pipe_of e ?R = pipe_of e R" if "e \<noteq> d" for e
    using that by (simp add: send_chunk_def Let_def) (simp add: pipe_of_def)
  have "pipe_ok (pipe_of d ?R) (mirrored d R @ ?c)"
  proof (cases "drop chunkSize rest = ''''")
    case True
    then have "?c = rest" by simp
    with p assms(2) True show ?thesis by (auto simp: pipe_ok_def send_chunk_def Let_def)
  next
    case False
    with p assms(2) show ?thesis
      by (simp add: pipe_ok_def send_chunk_def Let_def) (metis prefix_prefix)
  qed
  moreover have "pipe_ok (pipe_of e ?R) (mirrored e ?R)" if "e \<noteq> d" for e
    using that assms(1) by (simp add: o m relay_ok_def)
  ultimately have "pipe_ok (pipe_of e ?R) (mirrored e ?R)" for e by (cases "e = d") (simp_all add: m)
  moreover have "ry_sched ?R = ry_sched R @ [((d, ?c), out)]" "ry_flow ?R = advance d (length ?c) f"
    "ry_log ?R = ry_log R @ [(flow_packet f d (flow_seq d f) False False ?c, out)]"
    by (simp_all add: send_chunk_def Let_def e)
  ultimately show ?thesis using length_emit_loop [OF e(1)] by (simp add: relay_ok_def emit_loop_snoc e)
qed

lemma relay_step_ok:
  assumes "relay_ok sp cp hs R"
  shows "relay_ok sp cp hs (relay_step ev R)"
proof -
  obtain d e where ev: "ev = (d, e)" by fastforce
  have p: "pipe_ok (pipe_of d R) (mirrored d R)" using assms by (simp add: relay_ok_def)
  show ?thesis
    using assms relay_ok_set [OF assms on_read_ok [OF p]] relay_ok_set [OF assms on_write_ok [OF p]]
      send_chunk_ok [OF assms, of d]
    by (cases "pi_pc (pipe_of d R)"; cases e) (simp_all add: relay_step_def ev)
qed

lemma relay_run_ok: "relay_ok sp cp hs R \<Longrightarrow> relay_ok sp cp hs (relay_run evs R)"
  unfolding relay_run_def by (induction evs arbitrary: R) (simp_all add: relay_step_ok)


section \<open>Transparency\<close>

lemma finished_log:
  assumes "relay_ok sp cp hs R" "both_ended R"
    and "emit_loop (map fst (ry_sched R)) (new_flow sp cp) = (ps, f)"
  shows "ry_log R @ zip (finish_flow (ry_flow R)) [c, c'] =
    zip (handshake (new_flow sp cp)) [fst hs, snd hs] @ zip ps (map snd (ry_sched R)) @ zip (finish_flow f) [c, c']"
  using assms by (auto simp: relay_ok_def)

text \<open>The bytes of a direction.\<close>

definition of_side :: "bool \<Rightarrow> (bool \<times> string) list \<Rightarrow> string" where
  "of_side d sched = concat (map snd (filter (\<lambda>e. fst e = d) sched))"

lemma of_side_simps [simp]:
  "of_side d [] = ''''" "of_side d ((c, chunk) # rest) = (if c = d then chunk else '''') @ of_side d rest"
  by (simp_all add: of_side_def)

lemma went_out_simps [simp]:
  "went_out [] = []" "went_out ((p, out) # log) = (if out then [p] else []) @ went_out log"
  "went_out (log @ log') = went_out log @ went_out log'"
  by (simp_all add: went_out_def)

lemma behind_neq:
  assumes "0 < k" "k < 2 ^ 32"
  shows "x \<noteq> x + (of_nat k :: 32 word)"
proof
  assume "x = x + of_nat k"
  then have "(of_nat k :: 32 word) = 0" by simp
  then have "unat (of_nat k :: 32 word) = 0" by simp
  with assms show False by (simp add: unat_of_nat)
qed

text \<open>A receiver that waits for a sequence number behind the next segment's gets nothing, as long as fewer
  than 2^32 bytes are in question.\<close>

lemma reassemble_behind:
  assumes "emit_loop sched f = (ps, f')" "length outs = length ps" "x + of_nat k = flow_seq d f" "0 < k"
    and "k + length (of_side d sched) < 2 ^ 32" "fin = [] \<or> fin = [flow_packet g d (flow_seq d f') False True '''']"
  shows "reassemble (Some x) (filter (from_side d) (went_out (zip ps outs)) @ fin) = None"
  using assms
proof (induction sched f arbitrary: ps outs k rule: emit_loop.induct)
  case (1 f)
  then have "x \<noteq> flow_seq d f" using behind_neq [of k x] by simp
  then show ?case using 1 by auto
next
  case (2 c chunk rest f)
  obtain qs where l: "emit_loop rest (advance c (length chunk) f) = (qs, f')"
    and ps: "ps = flow_packet f c (flow_seq c f) False False chunk # qs"
    using "2.prems"(1) by (auto split: prod.splits)
  obtain b bs where outs: "outs = b # bs" "length bs = length qs"
    using "2.prems"(2) by (cases outs) (auto simp: ps)
  have ne: "x \<noteq> flow_seq d f" using "2.prems"(3,4,5) behind_neq [of k x] by simp
  show ?case
  proof (cases "c = d")
    case True
    have "reassemble (Some x) (filter (from_side d) (went_out (zip qs bs)) @ fin) = None"
      using "2.prems" True outs by (intro "2.IH" [OF l, of bs "k + length chunk"]) (auto simp: ac_simps)
    with True ne show ?thesis by (auto simp: ps outs)
  next
    case False
    have "reassemble (Some x) (filter (from_side d) (went_out (zip qs bs)) @ fin) = None"
      using "2.prems" False outs by (intro "2.IH" [OF l, of bs k]) auto
    with False show ?thesis by (simp add: ps outs)
  qed
qed

lemma reassemble_lossy:
  assumes "emit_loop sched f = (ps, f')" "length outs = length ps" "length (of_side d sched) < 2 ^ 32"
    and "fin = [] \<or> fin = [flow_packet g d (flow_seq d f') False True '''']"
    and "reassemble (Some (flow_seq d f)) (filter (from_side d) (went_out (zip ps outs)) @ fin) = Some s"
  shows "s = of_side d sched"
  using assms
proof (induction sched f arbitrary: ps outs s rule: emit_loop.induct)
  case (2 c chunk rest f)
  obtain qs where l: "emit_loop rest (advance c (length chunk) f) = (qs, f')"
    and ps: "ps = flow_packet f c (flow_seq c f) False False chunk # qs"
    using "2.prems"(1) by (auto split: prod.splits)
  obtain b bs where outs: "outs = b # bs" "length bs = length qs"
    using "2.prems"(2) by (cases outs) (auto simp: ps)
  let ?rest = "filter (from_side d) (went_out (zip qs bs)) @ fin"
  have rest: "t = of_side d rest" if "reassemble (Some (flow_seq d (advance c (length chunk) f))) ?rest = Some t" for t
    using "2.IH" [OF l outs(2) _ "2.prems"(4) that] "2.prems"(3) by (simp split: if_splits)
  show ?case
  proof (cases "c = d")
    case True
    show ?thesis
    proof (cases "b \<or> chunk = ''''")
      case True
      with \<open>c = d\<close> "2.prems"(5) rest show ?thesis by (auto simp: ps outs split: if_splits)
    next
      case False
      then have "reassemble (Some (flow_seq d f)) ?rest = None"
        using "2.prems" \<open>c = d\<close> outs by (intro reassemble_behind [OF l, of bs _ "length chunk"]) auto
      with False "2.prems"(5) \<open>c = d\<close> show ?thesis by (simp add: ps outs)
    qed
  next
    case False
    with "2.prems"(5) rest show ?thesis by (auto simp: ps outs)
  qed
qed auto

lemma reassemble_all_out:
  assumes "emit_loop sched f = (ps, f')" "length outs = length ps"
    and "\<And>p b. (p, b) \<in> set (zip ps outs) \<Longrightarrow> from_side d p \<Longrightarrow> b"
  shows "filter (from_side d) (went_out (zip ps outs)) = filter (from_side d) ps"
  using assms(2,3)
proof (induction ps outs rule: list_induct2')
  case (4 p ps b outs)
  then show ?case by (cases "from_side d p") auto
qed auto

lemma loop_not_syn: "emit_loop sched f = (ps, f') \<Longrightarrow> p \<in> set ps \<Longrightarrow> \<not> tp_syn p"
  by (induction sched f arbitrary: ps f' rule: emit_loop.induct) (auto split: prod.splits)

lemma went_out_zip: "set (went_out (zip ps outs)) \<subseteq> set ps"
  by (auto simp: went_out_def dest: set_zip_leftD)

lemma reassemble_unopened: "list_all (\<lambda>p. \<not> tp_syn p) ps \<Longrightarrow> reassemble None ps = None"
  by (cases ps) auto

text \<open>
  C28.  The mirror simulator is transparent, and a stream of fewer than 2^32 bytes of which its mirror lost
  a part is not taken for a complete one.  In every run of a connection, with the reads, the segments to mirror and the writes of its
  two pipes in any order, any of them failing (a segment that cannot be serialized or whose datagram cannot
  be written is dropped, and its sequence number is used all the same): what either peer has received is a
  beginning of what the other one sent, and all of it was handed to the mirror before it was passed on; a
  pipe that ended without a failed write passed everything on.  Once both have ended, consider a receiver
  that follows the sequence numbers from the handshake to the end of a direction.  If all datagrams of that
  direction went out, it reassembles exactly the bytes that side sent, also those a failed write lost; if
  some did not, and the side sent fewer than 2^32 bytes, it reassembles exactly those bytes or nothing.
\<close>

theorem relay_transparent:
  assumes "relay_run evs (open_relay servicePort clientPort syns) = R"
  shows "prefix (pi_written (pipe_of d R)) (mirrored d R) \<and> prefix (mirrored d R) (pi_read (pipe_of d R)) \<and>
    (pi_pc (pipe_of d R) = Ended \<and> \<not> pi_failed (pipe_of d R) \<longrightarrow> pi_written (pipe_of d R) = pi_read (pipe_of d R)) \<and>
    (both_ended R \<longrightarrow>
      (let log = handle_run True servicePort clientPort syns evs fins;
           got = reassemble None (filter (from_side d) (went_out log))
       in ((\<forall>(p, out) \<in> set log. from_side d p \<longrightarrow> out) \<longrightarrow> got = Some (pi_read (pipe_of d R))) \<and>
          (length (pi_read (pipe_of d R)) < 2 ^ 32 \<longrightarrow> got = None \<or> got = Some (pi_read (pipe_of d R)))))"
proof -
  let ?f = "new_flow servicePort clientPort"
  have ok: "relay_ok servicePort clientPort syns R"
    using relay_run_ok [OF relay_ok_open [of servicePort clientPort syns], of evs] assms by simp
  then have p: "pipe_ok (pipe_of d R) (mirrored d R)" for d by (simp add: relay_ok_def)
  have prefixes: "prefix (pi_written (pipe_of d R)) (mirrored d R)" "prefix (mirrored d R) (pi_read (pipe_of d R))"
    using p [of d] by (auto simp: pipe_ok_def split: pipe_pc.splits)
  have full: "pi_written (pipe_of d R) = pi_read (pipe_of d R)"
    if "pi_pc (pipe_of d R) = Ended" "\<not> pi_failed (pipe_of d R)"
    using p [of d] that by (simp add: pipe_ok_def)
  have mirror: "((\<forall>(p, out) \<in> set log. from_side d p \<longrightarrow> out) \<longrightarrow>
        reassemble None (filter (from_side d) (went_out log)) = Some (pi_read (pipe_of d R))) \<and>
      (length (pi_read (pipe_of d R)) < 2 ^ 32 \<longrightarrow>
        reassemble None (filter (from_side d) (went_out log)) \<in> {None, Some (pi_read (pipe_of d R))})"
    if e: "both_ended R" and log: "log = handle_run True servicePort clientPort syns evs fins" for log
  proof -
    have "pi_pc (pipe_of d R) = Ended" using e by (simp add: both_ended_def pipe_of_def)
    then have m: "pi_read (pipe_of d R) = of_side d (map fst (ry_sched R))"
      using p [of d] by (simp add: pipe_ok_def mirrored_def of_side_def)
    obtain ps f' where l: "emit_loop (map fst (ry_sched R)) ?f = (ps, f')" by fastforce
    let ?outs = "map snd (ry_sched R)"
    let ?kept = "filter (from_side d) (went_out (zip ps ?outs))"
    have len: "length ?outs = length ps" using length_emit_loop [OF l] by simp
    define opened closed where "opened = (if d then fst syns else snd syns)"
      and "closed = (if d then fst fins else snd fins)"
    define fin where "fin = flow_packet f' d (flow_seq d f') False True ''''"
    have zipped: "log = zip (handshake ?f) [fst syns, snd syns] @ zip ps ?outs @
        zip (finish_flow f') [fst fins, snd fins]"
      using finished_log [OF ok e l] e assms by (simp add: log handle_run_def Let_def)
    have sent: "filter (from_side d) (went_out log) =
        (if opened then [flow_packet ?f d (flow_seq d ?f - 1) True False ''''] else []) @ ?kept @
        (if closed then [fin] else [])"
      by (cases d) (simp_all add: zipped handshake_def finish_flow_def flow_seq_def opened_def closed_def fin_def)
    have "list_all (\<lambda>p. \<not> tp_syn p) (?kept @ (if closed then [fin] else []))"
      using loop_not_syn [OF l] went_out_zip [of ps ?outs] by (auto simp: list_all_iff fin_def)
    then have got: "reassemble None (filter (from_side d) (went_out log)) =
        (if opened then reassemble (Some (flow_seq d ?f)) (?kept @ (if closed then [fin] else [])) else None)"
      using reassemble_unopened by (simp add: sent)
    have "reassemble None (filter (from_side d) (went_out log)) = Some (pi_read (pipe_of d R))"
      if out: "\<forall>(p, out) \<in> set log. from_side d p \<longrightarrow> out"
    proof -
      have "opened" "closed"
        using out by (cases d; simp add: zipped handshake_def finish_flow_def opened_def closed_def)+
      moreover have "?kept = filter (from_side d) ps"
        using out by (intro reassemble_all_out [OF l len]) (auto simp: zipped)
      moreover note reassemble_loop [OF l, of d f']
      ultimately show ?thesis by (simp add: got fin_def m of_side_def)
    qed
    moreover have "reassemble None (filter (from_side d) (went_out log)) \<in> {None, Some (pi_read (pipe_of d R))}"
      if "length (pi_read (pipe_of d R)) < 2 ^ 32"
    proof (cases "reassemble None (filter (from_side d) (went_out log))")
      case (Some s)
      with got have "reassemble (Some (flow_seq d ?f)) (?kept @ (if closed then [fin] else [])) = Some s"
        by (simp split: if_splits)
      from reassemble_lossy [OF l len _ _ this, of f'] that Some m show ?thesis by (auto simp: fin_def)
    qed simp
    ultimately show ?thesis by blast
  qed
  show ?thesis using prefixes full mirror by (simp add: Let_def)
qed

definition demo_pipes :: "(bool \<times> pipe_event) list" where
  "demo_pipes =
     [(True, ReadRet ''GET / HTTP/1.1'' False), (True, ChunkSent False), (True, WriteRet 0 False),
      (False, ReadRet ''HTTP/1.1 200 OK'' False), (True, ReadRet '''' True), (False, ChunkSent True),
      (False, WriteRet 4 True)]"

text \<open>The request's datagram is lost: the service still gets the request, and the mirror shows only the
  answer.\<close>

theorem relay_transparent_witness:
  "(let R = relay_run demo_pipes (open_relay 8080 20001 (True, True));
        out = went_out (handle_run True 8080 20001 (True, True) demo_pipes (True, True))
    in reassemble None (filter (from_side False) out) = Some ''HTTP/1.1 200 OK'' \<and>
      reassemble None (filter (from_side True) out) = None \<and>
      pi_written (pipe_of False R) = ''HTTP'' \<and> pi_written (pipe_of True R) = ''GET / HTTP/1.1'')"
proof -
  let ?R = "relay_run demo_pipes (open_relay 8080 20001 (True, True))"
  let ?log = "handle_run True 8080 20001 (True, True) demo_pipes (True, True)"
  have r: "both_ended ?R" "pi_read (pipe_of False ?R) = ''HTTP/1.1 200 OK''" "pi_written (pipe_of False ?R) = ''HTTP''"
    "pi_read (pipe_of True ?R) = ''GET / HTTP/1.1''" "\<not> pi_failed (pipe_of True ?R)"
    by (simp_all add: relay_run_def demo_pipes_def open_relay_def relay_step_def on_read_def on_write_def
        send_chunk_def pipe_of_def set_pipe_def new_pipe_def both_ended_def chunkSize_def Let_def)
  have "pi_pc (pipe_of True ?R) = Ended" using r(1) by (simp add: both_ended_def pipe_of_def)
  moreover have o: "list_all (\<lambda>(p, out). from_side False p \<longrightarrow> out) ?log"
    "reassemble None (filter (from_side True) (went_out ?log)) = None" by code_simp+
  then have "\<forall>(p, out) \<in> set ?log. from_side False p \<longrightarrow> out" by (simp add: list_all_iff)
  ultimately show ?thesis
    using relay_transparent [where evs = demo_pipes and servicePort = 8080 and clientPort = 20001
        and syns = "(True, True)" and fins = "(True, True)" and d = False, OF refl]
      relay_transparent [where evs = demo_pipes and servicePort = 8080 and clientPort = 20001
        and syns = "(True, True)" and fins = "(True, True)" and d = True, OF refl] r o(2)
    by (simp add: Let_def)
qed

section \<open>main\<close>

definition sim_flags :: FlagSet where
  "sim_flags =
     \<lparr>fs_formal = [(''listen'', ''listen''), (''upstream'', ''upstream''), (''mirror'', ''mirror'')],
      fs_vars = [(''listen'', VStr '':10000''), (''upstream'', VStr ''127.0.0.1:10103''),
        (''mirror'', VStr ''127.0.0.1:4789'')]\<rparr>"

text \<open>A connection that was accepted and is handled concurrently: the upstream and the two ports.\<close>

record handled =
  hd_upstream :: string
  hd_servicePort :: "16 word"
  hd_clientPort :: "16 word"

text \<open>The accept loop, from the counter of connections: an accepted connection is handled, an error ends
  the process.  The result tells whether the loop still runs.\<close>

fun accept_loop :: "string \<Rightarrow> 32 word \<Rightarrow> bool list \<Rightarrow> handled list \<times> bool" where
  "accept_loop upstream n [] = ([], True)"
| "accept_loop upstream n (ok # oks) =
     (if \<not> ok then ([], False)
      else
        (case accept_loop upstream (n + 1) oks of
           (hs, running) \<Rightarrow>
             (\<lparr>hd_upstream = upstream, hd_servicePort = sim_service_port upstream,
               hd_clientPort = sim_client_port (n + 1)\<rparr> # hs, running)))"

datatype sim_outcome = SimExit int | SimFatal "handled list" | SimRuns "handled list"

definition sim_main :: "(string \<Rightarrow> bool) \<Rightarrow> (string \<Rightarrow> bool) \<Rightarrow> string list \<Rightarrow> bool list \<Rightarrow> sim_outcome" where
  "sim_main dialUDP listenTCP args accepts =
     (case Parse sim_flags args of
        Inl e \<Rightarrow> SimExit (if e = HelpAsked then 0 else 2)
      | Inr (fs, _) \<Rightarrow>
          (case (value_of fs ''listen'', value_of fs ''upstream'', value_of fs ''mirror'') of
             (Some (VStr listen), Some (VStr upstream), Some (VStr mirror)) \<Rightarrow>
               if \<not> dialUDP mirror then SimFatal []
               else if \<not> listenTCP listen then SimFatal []
               else (case accept_loop upstream 0 accepts of
                       (hs, running) \<Rightarrow> if running then SimRuns hs else SimFatal hs)
           | _ \<Rightarrow> SimExit 2))"

text \<open>The connections get ports of their own, as long as there are not more of them than ports; but a
  service port above 20000 is met by one of them, and then both directions look like requests.\<close>

lemma accept_ports:
  "accept_loop upstream n oks = (hs, running) \<Longrightarrow> i < length hs \<Longrightarrow> hd_clientPort (hs ! i) = sim_client_port (n + of_nat (i + 1))"
proof (induction upstream n oks arbitrary: hs running i rule: accept_loop.induct)
  case (2 upstream n ok oks)
  show ?case
  proof (cases ok)
    case True
    obtain hs' running' where r: "accept_loop upstream (n + 1) oks = (hs', running')"
      by (cases "accept_loop upstream (n + 1) oks") blast
    with 2 True show ?thesis by (cases i) (auto simp: add.assoc)
  qed (use 2 in simp)
qed simp

lemma sim_ports_distinct:
  assumes "0 < i" "i < j" "j < i + 65536" "j < 2 ^ 31"
  shows "sim_client_port (of_nat i) \<noteq> sim_client_port (of_nat j)"
proof
  assume "sim_client_port (of_nat i) = sim_client_port (of_nat j)"
  then have "unat (sim_client_port (of_nat i)) = unat (sim_client_port (of_nat j))" by simp
  moreover have "unat (sim_client_port (of_nat k)) = (20000 + k) mod 65536" if "k < 2 ^ 31" for k
    using that by (simp add: sim_client_port_def unsigned_ucast_eq take_bit_eq_mod unat_word_ariths unat_of_nat)
  ultimately have "(20000 + i) mod 65536 = (20000 + j) mod 65536" using assms by simp
  then have "65536 dvd (20000 + j) - (20000 + i)" using assms(2) by (metis mod_eq_dvd_iff_nat add_le_cancel_left less_imp_le)
  then have "65536 dvd j - i" by simp
  then show False using assms(2,3) by (auto dest: dvd_imp_le)
qed

lemma sim_port_collision: "sim_client_port 103 = sim_service_port ''127.0.0.1:20103''"
  by code_simp

end
