(* ===== verification/Config.thy ===== *)
theory Config
  imports GoValue
begin

text \<open>
  \<open>internal/config/config.go\<close>: the configuration records, their accessors, and what \<open>Load\<close> does
  after reading the file.  The YAML decoder (third-party) is a parameter of \<open>Load\<close>; \<open>%d\<close> of a
  port is \<open>int_str\<close>.  The theorems: a loaded configuration is in normal form, loading it again
  changes nothing, and when loading fails.
\<close>

section \<open>Records\<close>

record MySQL =
  my_Host :: string
  my_Port :: int
  my_User :: string
  my_Password :: string

definition MySQL_Addr :: "MySQL \<Rightarrow> string" where
  "MySQL_Addr m = my_Host m @ '':'' @ int_str (my_Port m)"

definition MySQL_DSN :: "MySQL \<Rightarrow> string" where
  "MySQL_DSN m =
     my_User m @ '':'' @ my_Password m @ ''@tcp('' @ my_Host m @ '':'' @ int_str (my_Port m) @ '')/''"

record Datastore =
  ds_Name :: string
  ds_Type :: string
  ds_Host :: string
  ds_Port :: int
  ds_User :: string
  ds_Password :: string
  ds_Database :: string
  ds_Schemas :: "string list"
  ds_Exclude :: "string list"
  ds_SeedFrom :: "MySQL option"

definition Datastore_Addr :: "Datastore \<Rightarrow> string" where
  "Datastore_Addr d = ds_Host d @ '':'' @ int_str (ds_Port d)"

definition Datastore_MySQL :: "Datastore \<Rightarrow> MySQL option" where
  "Datastore_MySQL d =
     (if ds_Type d \<noteq> '''' \<and> ds_Type d \<noteq> ''mysql'' then None
      else Some \<lparr>my_Host = ds_Host d, my_Port = ds_Port d, my_User = ds_User d,
                 my_Password = ds_Password d\<rparr>)"

text \<open>A stack, over its list of pointers to datastores: a decoded list can hold null, \<open>None\<close> in
  \<open>Datastore option Stack_of\<close>; a list that was normalized cannot.\<close>

record 'd Stack_of =
  st_Name :: string
  BaseURL :: string
  st_MySQL :: "MySQL option"
  Datastores :: "'d list"

type_synonym Stack = "Datastore Stack_of"

fun first_mysql :: "Datastore list \<Rightarrow> MySQL option" where
  "first_mysql [] = None"
| "first_mysql (d # ds) = (case Datastore_MySQL d of Some m \<Rightarrow> Some m | None \<Rightarrow> first_mysql ds)"

definition PrimaryMySQL :: "Stack \<Rightarrow> MySQL option" where
  "PrimaryMySQL s = first_mysql (Datastores s)"

definition DatastoreByName :: "Stack \<Rightarrow> string \<Rightarrow> Datastore option" where
  "DatastoreByName s name = find (\<lambda>d. ds_Name d = name) (Datastores s)"

record Attribution =
  QuietMs :: int
  TimeoutMs :: int
  CheckInnodbTrx :: "bool option"

definition TrxCheck :: "Attribution \<Rightarrow> bool" where
  "TrxCheck a \<longleftrightarrow> CheckInnodbTrx a = None \<or> CheckInnodbTrx a = Some True"

record Noise_cfg =
  ResponsePaths :: "string list"
  Columns :: "string list"
  TablesIgnore :: "string list"

record SeedSource =
  ss_Host :: string
  ss_Port :: int
  ss_User :: string
  ss_Password :: string
  ss_Schemas :: "string list"
  ss_Exclude :: "string list"

record SortRule_cfg =
  sr_Path :: string
  sr_By :: string

record 'd Config_of =
  Old_stack :: "'d Stack_of"
  New_stack :: "'d Stack_of"
  cfg_Attribution :: Attribution
  cfg_Noise :: Noise_cfg
  Compare_SortArrays :: "SortRule_cfg list"
  HTTPTimeoutS :: f64
  cfg_CompareHeaders :: "string list"
  Report_Dir :: string
  Corpus_Dir :: string
  cfg_SeedSource :: "SeedSource option"

type_synonym Config_rec = "Datastore Config_of"

type_synonym Decoded = "Datastore option Config_of"

text \<open>The same stack and configuration with another list of datastores.\<close>

definition with_datastores :: "'d Stack_of \<Rightarrow> 'e list \<Rightarrow> 'e Stack_of" where
  "with_datastores s ds = \<lparr>st_Name = st_Name s, BaseURL = BaseURL s, st_MySQL = st_MySQL s, Datastores = ds\<rparr>"

definition with_stacks :: "'d Config_of \<Rightarrow> 'e Stack_of \<Rightarrow> 'e Stack_of \<Rightarrow> 'e Config_of" where
  "with_stacks cfg old new =
     \<lparr>Old_stack = old, New_stack = new, cfg_Attribution = cfg_Attribution cfg, cfg_Noise = cfg_Noise cfg,
      Compare_SortArrays = Compare_SortArrays cfg, HTTPTimeoutS = HTTPTimeoutS cfg,
      cfg_CompareHeaders = cfg_CompareHeaders cfg, Report_Dir = Report_Dir cfg, Corpus_Dir = Corpus_Dir cfg,
      cfg_SeedSource = cfg_SeedSource cfg\<rparr>"

text \<open>A configuration without null, as the decoder would give it.\<close>

definition as_decoded :: "Config_rec \<Rightarrow> Decoded" where
  "as_decoded cfg =
     with_stacks cfg (with_datastores (Old_stack cfg) (map Some (Datastores (Old_stack cfg))))
       (with_datastores (New_stack cfg) (map Some (Datastores (New_stack cfg))))"

section \<open>Load\<close>

datatype cfg_error = ReadError string | ParseError string | NewBaseURLRequired
  | UnsupportedDatastore string string

definition promoteLegacy :: "Datastore option Stack_of \<Rightarrow> SeedSource option \<Rightarrow> Datastore option Stack_of" where
  "promoteLegacy stack seedSource =
     (case st_MySQL stack of
        None \<Rightarrow> stack
      | Some m \<Rightarrow>
          if Datastores stack \<noteq> [] then stack
          else
            (let d = \<lparr>ds_Name = ''default'', ds_Type = ''mysql'', ds_Host = my_Host m,
                      ds_Port = my_Port m, ds_User = my_User m, ds_Password = my_Password m,
                      ds_Database = '''', ds_Schemas = [], ds_Exclude = [], ds_SeedFrom = None\<rparr>;
                 d' = (case seedSource of
                         None \<Rightarrow> d
                       | Some ss \<Rightarrow>
                           if ss_Host ss = '''' then d
                           else d\<lparr>ds_Schemas := ss_Schemas ss, ds_Exclude := ss_Exclude ss,
                                  ds_SeedFrom := Some \<lparr>my_Host = ss_Host ss, my_Port = ss_Port ss,
                                    my_User = ss_User ss, my_Password = ss_Password ss\<rparr>\<rparr>)
             in stack\<lparr>Datastores := [Some d'], st_MySQL := None\<rparr>))"

definition default_type :: "Datastore \<Rightarrow> Datastore" where
  "default_type d = (if ds_Type d = '''' then d\<lparr>ds_Type := ''mysql''\<rparr> else d)"

definition default_port :: "Datastore \<Rightarrow> Datastore" where
  "default_port d =
     (if ds_Port d = 0 then d\<lparr>ds_Port := (if ds_Type d = ''postgres'' then 5432 else 3306)\<rparr> else d)"

definition default_name :: "nat \<Rightarrow> Datastore \<Rightarrow> Datastore" where
  "default_name i d = (if ds_Name d = '''' then d\<lparr>ds_Name := ''db'' @ nat_str (i + 1)\<rparr> else d)"

definition default_seed_port :: "Datastore \<Rightarrow> Datastore" where
  "default_seed_port d =
     (case ds_SeedFrom d of
        None \<Rightarrow> d
      | Some s \<Rightarrow> if my_Port s = 0 then d\<lparr>ds_SeedFrom := Some (s\<lparr>my_Port := 3306\<rparr>)\<rparr> else d)"

text \<open>A null is dereferenced, which panics; an entry before it may end the loop with an error.\<close>

fun normalize_from :: "nat \<Rightarrow> Datastore option list \<Rightarrow> (cfg_error + Datastore list) outcome" where
  "normalize_from i [] = Returns (Inr [])"
| "normalize_from i (None # ds) = Panics"
| "normalize_from i (Some d # ds) =
     (let d = default_type d
      in if ds_Type d \<noteq> ''mysql'' \<and> ds_Type d \<noteq> ''postgres''
         then Returns (Inl (UnsupportedDatastore (ds_Name d) (ds_Type d)))
         else (case normalize_from (i + 1) ds of
                 Panics \<Rightarrow> Panics
               | Returns (Inl e) \<Rightarrow> Returns (Inl e)
               | Returns (Inr ds') \<Rightarrow>
                   Returns (Inr (default_seed_port (default_name i (default_port d)) # ds'))))"

definition normalizeDatastores :: "Datastore option list \<Rightarrow> (cfg_error + Datastore list) outcome" where
  "normalizeDatastores datastores = normalize_from 0 datastores"

definition default_values :: "Config_rec \<Rightarrow> Config_rec" where
  "default_values cfg =
     cfg\<lparr>cfg_Attribution := (cfg_Attribution cfg)
           \<lparr>QuietMs := (if QuietMs (cfg_Attribution cfg) = 0 then 300 else QuietMs (cfg_Attribution cfg)),
            TimeoutMs := (if TimeoutMs (cfg_Attribution cfg) = 0 then 5000
                          else TimeoutMs (cfg_Attribution cfg))\<rparr>,
         HTTPTimeoutS := (if f64_eq (HTTPTimeoutS cfg) (FFin 0 0) then f64_of_int 10 else HTTPTimeoutS cfg),
         Report_Dir := (if Report_Dir cfg = '''' then ''./report'' else Report_Dir cfg),
         Corpus_Dir := (if Corpus_Dir cfg = '''' then ''./corpus'' else Corpus_Dir cfg),
         cfg_CompareHeaders := map to_lower (cfg_CompareHeaders cfg)\<rparr>"

definition named_stack :: "string \<Rightarrow> 'd Stack_of \<Rightarrow> 'd Stack_of" where
  "named_stack name s = s\<lparr>st_Name := name, BaseURL := trim_right (CHR ''/'') (BaseURL s)\<rparr>"

definition finish_config :: "Decoded \<Rightarrow> (cfg_error + Config_rec) outcome" where
  "finish_config cfg =
     (let old = named_stack ''old'' (Old_stack cfg);
          new = named_stack ''new'' (New_stack cfg)
      in if BaseURL new = '''' then Returns (Inl NewBaseURLRequired)
         else
           (let old = promoteLegacy old None;
                new = promoteLegacy new (cfg_SeedSource cfg)
            in case normalizeDatastores (Datastores old) of
                 Panics \<Rightarrow> Panics
               | Returns (Inl e) \<Rightarrow> Returns (Inl e)
               | Returns (Inr ods) \<Rightarrow>
                   (case normalizeDatastores (Datastores new) of
                      Panics \<Rightarrow> Panics
                    | Returns (Inl e) \<Rightarrow> Returns (Inl e)
                    | Returns (Inr nds) \<Rightarrow>
                        Returns (Inr (default_values
                          (with_stacks cfg (with_datastores old ods) (with_datastores new nds)))))))"

definition Load_config ::
  "(string \<Rightarrow> string + string) \<Rightarrow> (string \<Rightarrow> string + Decoded) \<Rightarrow> string \<Rightarrow>
   (cfg_error + Config_rec) outcome" where
  "Load_config readFile yamlUnmarshal path =
     (case readFile path of
        Inl e \<Rightarrow> Returns (Inl (ReadError e))
      | Inr raw \<Rightarrow>
          (case yamlUnmarshal raw of
             Inl e \<Rightarrow> Returns (Inl (ParseError e))
           | Inr cfg \<Rightarrow> finish_config cfg))"

section \<open>Normal form\<close>

definition wf_datastore :: "Datastore \<Rightarrow> bool" where
  "wf_datastore d \<longleftrightarrow>
     (ds_Type d = ''mysql'' \<or> ds_Type d = ''postgres'') \<and> ds_Port d \<noteq> 0 \<and> ds_Name d \<noteq> '''' \<and>
     (case ds_SeedFrom d of None \<Rightarrow> True | Some s \<Rightarrow> my_Port s \<noteq> 0)"

definition wf_stack :: "Stack \<Rightarrow> bool" where
  "wf_stack s \<longleftrightarrow>
     trim_right (CHR ''/'') (BaseURL s) = BaseURL s \<and> (\<forall>d \<in> set (Datastores s). wf_datastore d) \<and>
     (Datastores s = [] \<longrightarrow> st_MySQL s = None)"

definition wf_config :: "Config_rec \<Rightarrow> bool" where
  "wf_config cfg \<longleftrightarrow>
     wf_stack (Old_stack cfg) \<and> wf_stack (New_stack cfg) \<and>
     st_Name (Old_stack cfg) = ''old'' \<and> st_Name (New_stack cfg) = ''new'' \<and>
     BaseURL (New_stack cfg) \<noteq> '''' \<and>
     QuietMs (cfg_Attribution cfg) \<noteq> 0 \<and> TimeoutMs (cfg_Attribution cfg) \<noteq> 0 \<and>
     \<not> f64_eq (HTTPTimeoutS cfg) (FFin 0 0) \<and>
     Report_Dir cfg \<noteq> '''' \<and> Corpus_Dir cfg \<noteq> '''' \<and>
     (\<forall>h \<in> set (cfg_CompareHeaders cfg). to_lower h = h)"

lemmas datastore_defaults = default_type_def default_port_def default_name_def default_seed_port_def

lemma normalize_from_wf:
  "normalize_from i ds = Returns (Inr ds') \<Longrightarrow> \<forall>d \<in> set ds'. wf_datastore d"
proof (induction i ds arbitrary: ds' rule: normalize_from.induct)
  case (3 i d ds)
  from "3.prems" obtain rest where rest: "normalize_from (i + 1) ds = Returns (Inr rest)"
    and t: "ds_Type (default_type d) = ''mysql'' \<or> ds_Type (default_type d) = ''postgres''"
    and ds': "ds' = default_seed_port (default_name i (default_port (default_type d))) # rest"
    by (auto simp: Let_def split: if_splits sum.splits outcome.splits)
  have "wf_datastore (default_seed_port (default_name i (default_port (default_type d))))"
    using t by (auto simp: wf_datastore_def datastore_defaults split: option.splits)
  with "3.IH" rest t ds' show ?case by (auto simp: Let_def)
qed simp_all

lemma wf_datastore_fixed:
  "wf_datastore d \<Longrightarrow> default_type d = d \<and> default_port d = d \<and> default_name i d = d \<and>
    default_seed_port d = d"
  by (auto simp: wf_datastore_def datastore_defaults split: option.splits)

lemma normalize_from_fixed: "\<forall>d \<in> set ds. wf_datastore d \<Longrightarrow> normalize_from i (map Some ds) = Returns (Inr ds)"
  by (induction ds arbitrary: i) (simp_all add: wf_datastore_fixed, auto simp: wf_datastore_def)

lemma length_normalize_from: "normalize_from i ds = Returns (Inr ds') \<Longrightarrow> length ds' = length ds"
  by (induction i ds arbitrary: ds' rule: normalize_from.induct)
    (auto simp: Let_def split: if_splits sum.splits outcome.splits)

text \<open>An entry that ends the loop: null, or of another type.\<close>

definition bad_entry :: "Datastore option \<Rightarrow> bool" where
  "bad_entry d \<longleftrightarrow> (case d of None \<Rightarrow> True | Some d \<Rightarrow> ds_Type d \<notin> {'''', ''mysql'', ''postgres''})"

lemma normalize_from_find:
  "case find bad_entry ds of
     None \<Rightarrow> \<exists>ds'. normalize_from i ds = Returns (Inr ds')
   | Some None \<Rightarrow> normalize_from i ds = Panics
   | Some (Some d) \<Rightarrow> normalize_from i ds = Returns (Inl (UnsupportedDatastore (ds_Name d) (ds_Type d)))"
proof (induction i ds rule: normalize_from.induct)
  case (3 i d ds)
  show ?case
  proof (cases "bad_entry (Some d)")
    case True
    then show ?thesis by (auto simp: bad_entry_def default_type_def Let_def)
  next
    case False
    then have "ds_Type (default_type d) = ''mysql'' \<or> ds_Type (default_type d) = ''postgres''"
      by (auto simp: bad_entry_def default_type_def)
    with 3 False show ?thesis by (auto simp: Let_def split: option.splits)
  qed
qed (simp_all add: bad_entry_def)

lemma promoteLegacy_cases:
  "promoteLegacy s ss = s \<and> (st_MySQL s = None \<or> Datastores s \<noteq> []) \<or>
   st_MySQL (promoteLegacy s ss) = None \<and> Datastores s = [] \<and> st_MySQL s \<noteq> None \<and>
   BaseURL (promoteLegacy s ss) = BaseURL s \<and> st_Name (promoteLegacy s ss) = st_Name s \<and>
   (\<exists>d. Datastores (promoteLegacy s ss) = [Some d] \<and> ds_Type d = ''mysql'')"
  by (cases "st_MySQL s") (auto simp: promoteLegacy_def Let_def split: option.splits)

lemma promoteLegacy_simps [simp]:
  "BaseURL (promoteLegacy s ss) = BaseURL s" "st_Name (promoteLegacy s ss) = st_Name s"
  using promoteLegacy_cases [of s ss] by auto

lemma promoteLegacy_fixed: "st_MySQL s = None \<or> Datastores s \<noteq> [] \<Longrightarrow> promoteLegacy s ss = s"
  by (auto simp: promoteLegacy_def split: option.splits)

lemma promoted: "st_MySQL (promoteLegacy s ss) = None \<or> Datastores (promoteLegacy s ss) \<noteq> []"
  using promoteLegacy_cases [of s ss] by auto

lemma f64_eq_10: "\<not> f64_eq (f64_of_int 10) (FFin 0 0)"
  by code_simp

lemma default_values_simps [simp]:
  "Old_stack (default_values c) = Old_stack c" "New_stack (default_values c) = New_stack c"
  "cfg_SeedSource (default_values c) = cfg_SeedSource c"
  by (simp_all add: default_values_def)

lemma with_datastores_simps [simp]:
  "st_Name (with_datastores s ds) = st_Name s" "BaseURL (with_datastores s ds) = BaseURL s"
  "st_MySQL (with_datastores s ds) = st_MySQL s" "Datastores (with_datastores s ds) = ds"
  by (simp_all add: with_datastores_def)

lemma with_stacks_simps [simp]:
  "Old_stack (with_stacks c old new) = old" "New_stack (with_stacks c old new) = new"
  "cfg_SeedSource (with_stacks c old new) = cfg_SeedSource c"
  by (simp_all add: with_stacks_def)

lemma with_own [simp]:
  "with_datastores (with_datastores s ds) (Datastores s) = s"
  "with_stacks (with_stacks c old new) (Old_stack c) (New_stack c) = c"
  by (simp_all add: with_datastores_def with_stacks_def)

lemma finish_config_wf:
  assumes "finish_config cfg = Returns (Inr cfg')"
  shows "wf_config cfg'"
proof -
  let ?o = "promoteLegacy (named_stack ''old'' (Old_stack cfg)) None"
  let ?n = "promoteLegacy (named_stack ''new'' (New_stack cfg)) (cfg_SeedSource cfg)"
  from assms obtain ods nds where
    nb: "BaseURL (named_stack ''new'' (New_stack cfg)) \<noteq> ''''"
    and o: "normalize_from 0 (Datastores ?o) = Returns (Inr ods)"
    and n: "normalize_from 0 (Datastores ?n) = Returns (Inr nds)"
    and cfg': "cfg' = default_values (with_stacks cfg (with_datastores ?o ods) (with_datastores ?n nds))"
    by (auto simp: finish_config_def Let_def normalizeDatastores_def split: if_splits sum.splits outcome.splits)
  have "wf_stack (with_datastores ?o ods)" "wf_stack (with_datastores ?n nds)"
    using normalize_from_wf [OF o] normalize_from_wf [OF n] length_normalize_from [OF o]
      length_normalize_from [OF n] promoted [of "named_stack ''old'' (Old_stack cfg)" None]
      promoted [of "named_stack ''new'' (New_stack cfg)" "cfg_SeedSource cfg"]
    by (auto simp: wf_stack_def named_stack_def trim_right_idem)
  then show ?thesis
    using nb by (auto simp: wf_config_def cfg' named_stack_def default_values_def f64_eq_10)
qed

lemma finish_config_fixed:
  assumes "wf_config cfg"
  shows "finish_config (as_decoded cfg) = Returns (Inr cfg)"
proof -
  let ?cfg = "as_decoded cfg"
  have f: "Old_stack ?cfg = with_datastores (Old_stack cfg) (map Some (Datastores (Old_stack cfg)))"
    "New_stack ?cfg = with_datastores (New_stack cfg) (map Some (Datastores (New_stack cfg)))"
    by (simp_all add: as_decoded_def)
  have s: "named_stack ''old'' (Old_stack ?cfg) = Old_stack ?cfg" "named_stack ''new'' (New_stack ?cfg) = New_stack ?cfg"
    using assms unfolding f by (auto simp: wf_config_def wf_stack_def named_stack_def with_datastores_def)
  have p: "promoteLegacy (Old_stack ?cfg) ss = Old_stack ?cfg" "promoteLegacy (New_stack ?cfg) ss = New_stack ?cfg"
    for ss using assms by (auto simp: f wf_config_def wf_stack_def intro!: promoteLegacy_fixed)
  have n: "normalizeDatastores (Datastores (Old_stack ?cfg)) = Returns (Inr (Datastores (Old_stack cfg)))"
    "normalizeDatastores (Datastores (New_stack ?cfg)) = Returns (Inr (Datastores (New_stack cfg)))"
    using assms by (auto simp: f wf_config_def wf_stack_def normalizeDatastores_def intro!: normalize_from_fixed)
  have "map to_lower (cfg_CompareHeaders cfg) = cfg_CompareHeaders cfg"
    using assms by (intro map_idI) (simp add: wf_config_def)
  then have d: "default_values cfg = cfg"
    using assms by (simp add: wf_config_def default_values_def)
  have b: "BaseURL (New_stack ?cfg) \<noteq> ''''" using assms by (simp add: f wf_config_def)
  have "with_stacks ?cfg (with_datastores (Old_stack ?cfg) (Datastores (Old_stack cfg)))
      (with_datastores (New_stack ?cfg) (Datastores (New_stack cfg))) = cfg"
    unfolding f by (simp add: as_decoded_def)
  then show ?thesis using b d by (simp add: finish_config_def Let_def s p n)
qed

text \<open>
  C12.  A configuration that loads is in normal form: the stacks are named, the base URLs carry no
  trailing slash and the new one is not empty, every datastore has a supported type, a port and a
  name, no legacy shorthand is pending, the intervals, the timeout and the directories are set, and
  the compared headers are lower-case.  Loading it once more yields the same configuration.
\<close>

theorem Load_normal_form:
  assumes "Load_config readFile yamlUnmarshal path = Returns (Inr cfg)"
  shows "wf_config cfg \<and> finish_config (as_decoded cfg) = Returns (Inr cfg)"
  using assms finish_config_wf finish_config_fixed
  by (auto simp: Load_config_def split: sum.splits)

definition demo_stack :: Stack where
  "demo_stack = \<lparr>st_Name = '''', BaseURL = ''http://h//'',
     st_MySQL = Some \<lparr>my_Host = ''h'', my_Port = 0, my_User = ''u'', my_Password = ''p''\<rparr>,
     Datastores = []\<rparr>"

definition demo_config :: Config_rec where
  "demo_config = \<lparr>Old_stack = demo_stack, New_stack = demo_stack,
     cfg_Attribution = \<lparr>QuietMs = 0, TimeoutMs = 0, CheckInnodbTrx = None\<rparr>,
     cfg_Noise = \<lparr>ResponsePaths = [], Columns = [], TablesIgnore = []\<rparr>,
     Compare_SortArrays = [], HTTPTimeoutS = FFin 0 0, cfg_CompareHeaders = [''ETag''],
     Report_Dir = '''', Corpus_Dir = '''', cfg_SeedSource = None\<rparr>"

theorem Load_normal_form_witness:
  "\<exists>cfg. Load_config Inr (\<lambda>_. Inr (as_decoded demo_config)) ''mb.yaml'' = Returns (Inr cfg) \<and> wf_config cfg"
proof -
  let ?l = "Load_config Inr (\<lambda>_. Inr (as_decoded demo_config)) ''mb.yaml''"
  have "case ?l of Returns (Inr _) \<Rightarrow> True | _ \<Rightarrow> False" by code_simp
  then obtain cfg where l: "?l = Returns (Inr cfg)" by (auto split: outcome.splits sum.splits)
  with Load_normal_form [OF l] show ?thesis by blast
qed

text \<open>
  C13.  What \<open>Load\<close> does, in every case: it reports the error of reading or of parsing the file, then a
  base URL of the stack under test that is empty (slashes aside); else it goes by the first datastore of
  the old stack and then of the new one that is null or has a type other than mysql and postgres.  Such a
  type is reported with the datastore's name, a null makes it panic, and when there is no such entry the
  configuration loads.
\<close>

theorem Load_outcome:
  "case readFile path of
     Inl e \<Rightarrow> Load_config readFile yamlUnmarshal path = Returns (Inl (ReadError e))
   | Inr raw \<Rightarrow>
       (case yamlUnmarshal raw of
          Inl e \<Rightarrow> Load_config readFile yamlUnmarshal path = Returns (Inl (ParseError e))
        | Inr cfg \<Rightarrow>
            if trim_right (CHR ''/'') (BaseURL (New_stack cfg)) = ''''
            then Load_config readFile yamlUnmarshal path = Returns (Inl NewBaseURLRequired)
            else
              (case find (\<lambda>d. case d of None \<Rightarrow> True | Some d \<Rightarrow> ds_Type d \<notin> {'''', ''mysql'', ''postgres''})
                      (Datastores (Old_stack cfg) @ Datastores (New_stack cfg)) of
                 None \<Rightarrow> \<exists>cfg'. Load_config readFile yamlUnmarshal path = Returns (Inr cfg')
               | Some None \<Rightarrow> Load_config readFile yamlUnmarshal path = Panics
               | Some (Some d) \<Rightarrow>
                   Load_config readFile yamlUnmarshal path =
                     Returns (Inl (UnsupportedDatastore (ds_Name d) (ds_Type d)))))"
proof -
  have sup: "find bad_entry (Datastores (promoteLegacy (named_stack n s) ss)) = find bad_entry (Datastores s)" for n s ss
    using promoteLegacy_cases [of "named_stack n s" ss] by (auto simp: bad_entry_def named_stack_def)
  have app: "find P (xs @ ys) = (case find P xs of None \<Rightarrow> find P ys | Some x \<Rightarrow> Some x)" for P :: "'x \<Rightarrow> bool" and xs ys
    by (induction xs) auto
  have fin: "if trim_right (CHR ''/'') (BaseURL (New_stack cfg)) = '''' then finish_config cfg = Returns (Inl NewBaseURLRequired)
      else
        (case find bad_entry (Datastores (Old_stack cfg) @ Datastores (New_stack cfg)) of
           None \<Rightarrow> \<exists>cfg'. finish_config cfg = Returns (Inr cfg')
         | Some None \<Rightarrow> finish_config cfg = Panics
         | Some (Some d) \<Rightarrow> finish_config cfg = Returns (Inl (UnsupportedDatastore (ds_Name d) (ds_Type d))))" for cfg
  proof -
    let ?o = "Datastores (promoteLegacy (named_stack ''old'' (Old_stack cfg)) None)"
    let ?n = "Datastores (promoteLegacy (named_stack ''new'' (New_stack cfg)) (cfg_SeedSource cfg))"
    have b: "BaseURL (named_stack ''new'' (New_stack cfg)) = trim_right (CHR ''/'') (BaseURL (New_stack cfg))"
      by (simp add: named_stack_def)
    show ?thesis
      using normalize_from_find [where ds = ?o and i = 0] normalize_from_find [where ds = ?n and i = 0]
      by (auto simp: sup app finish_config_def normalizeDatastores_def Let_def b split: option.splits)
  qed
  have e: "(\<lambda>d. case d of None \<Rightarrow> True | Some d \<Rightarrow> ds_Type d \<notin> {'''', ''mysql'', ''postgres''}) = bad_entry"
    by (rule ext) (simp add: bad_entry_def)
  show ?thesis
  proof (cases "readFile path")
    case (Inr raw)
    then show ?thesis unfolding e Load_config_def
      using fin by (cases "yamlUnmarshal raw") (simp_all only: sum.case)
  qed (simp add: Load_config_def)
qed

text \<open>The legacy shorthand names the MySQL of the stack.\<close>

lemma legacy_primary:
  assumes "st_MySQL s = Some m" and "Datastores s = []"
  shows "\<exists>d. Datastores (promoteLegacy s ss) = [Some d] \<and> Datastore_MySQL d = Some m"
  using assms
  by (auto simp: promoteLegacy_def Datastore_MySQL_def Let_def split: option.splits)

text \<open>The default name of an unnamed datastore may be taken: two datastores of one stack then share
  a name, and \<open>DatastoreByName\<close> only ever finds the first.\<close>

lemma default_names_collide:
  "\<exists>ds ds'. normalizeDatastores ds = Returns (Inr ds') \<and> \<not> distinct (map ds_Name ds')"
proof -
  let ?d = "\<lambda>n. \<lparr>ds_Name = n, ds_Type = '''', ds_Host = ''h'', ds_Port = 0, ds_User = '''',
    ds_Password = '''', ds_Database = '''', ds_Schemas = [], ds_Exclude = [], ds_SeedFrom = None\<rparr>"
  let ?n = "normalizeDatastores [Some (?d ''db2''), Some (?d '''')]"
  have "(case ?n of Returns (Inr ds') \<Rightarrow> \<not> distinct (map ds_Name ds') | _ \<Rightarrow> False)" by code_simp
  then obtain ds' where "?n = Returns (Inr ds')" "\<not> distinct (map ds_Name ds')"
    by (cases ?n) (simp_all split: sum.splits)
  then show ?thesis by blast
qed

text \<open>A list with a null entry, which YAML writes as an item without a value, ends the process.\<close>

lemma null_datastore_panics: "normalizeDatastores (None # ds) = Panics"
  by (simp add: normalizeDatastores_def)

end
