(* ===== verification/Sources.thy ===== *)
theory Sources
  imports Config Writeset "HOL-Library.Sublist"
begin

text \<open>
  The write-set interface of \<open>internal/writeset/writeset.go\<close>: a source buffers the row changes its
  stream delivers; \<open>BeginWindow\<close> opens a request's window and \<open>TakeWindow\<close> polls until the stream is
  quiet, then hands the buffer over.  The polling loop both sources have is \<open>poll_loop\<close> over an
  explicit schedule: what arrives before each poll, the clock readings of the poll, and what still
  arrives before the buffer is taken.  The locale \<open>write_source\<close> states what a source promises; the
  lemmas proved in it hold for every source of the program.
\<close>

section \<open>The polling loop\<close>

record 'ev poll =
  arrivals :: "'ev list"
  now_quiet :: int
  now_deadline :: int
  trx_count :: "string + int"
  late :: "'ev list"

definition arrive_all :: "('ev \<Rightarrow> 's \<Rightarrow> 's) \<Rightarrow> 'ev list \<Rightarrow> 's \<Rightarrow> 's" where
  "arrive_all arrive evs s = foldl (\<lambda>s e. arrive e s) s evs"

lemma arrive_all_Nil [simp]: "arrive_all arrive [] s = s"
  by (simp add: arrive_all_def)

lemma arrive_all_append: "arrive_all arrive (xs @ ys) s = arrive_all arrive ys (arrive_all arrive xs s)"
  by (simp add: arrive_all_def)

text \<open>\<^const>\<open>None\<close> when the schedule ends before the loop does.\<close>

fun poll_loop ::
  "('ev \<Rightarrow> 's \<Rightarrow> 's) \<Rightarrow> ('s \<Rightarrow> string option) \<Rightarrow> ('ev poll \<Rightarrow> 's \<Rightarrow> bool) \<Rightarrow>
   ('s \<Rightarrow> RowChange list \<times> 's) \<Rightarrow> 'ev poll list \<Rightarrow> 's \<Rightarrow> ((string + RowChange list) \<times> 's) option" where
  "poll_loop arrive failed stops drain [] s = None"
| "poll_loop arrive failed stops drain (p # ps) s =
     (let s = arrive_all arrive (arrivals p) s
      in case failed s of
           Some e \<Rightarrow> Some (Inl e, s)
         | None \<Rightarrow>
             if stops p s
             then (let (ws, s') = drain (arrive_all arrive (late p) s) in Some (Inr ws, s'))
             else poll_loop arrive failed stops drain ps s)"

text \<open>Once a poll is bound to stop, the loop returns; the clock makes it so.\<close>

lemma poll_loop_returns:
  "\<exists>p \<in> set ps. \<forall>s. stops p s \<Longrightarrow> poll_loop arrive failed stops drain ps s \<noteq> None"
proof (induction ps arbitrary: s)
  case (Cons p ps)
  then show ?case by (auto simp: Let_def split: option.splits prod.splits)
qed simp

lemma poll_loop_deadline:
  assumes "\<And>p s. deadline < now_deadline p \<Longrightarrow> stops p s"
    and "\<And>i. i < length ps \<Longrightarrow> start + int i * pause \<le> now_deadline (ps ! i)"
    and "deadline < start + int n * pause" and "n < length ps"
  shows "poll_loop arrive failed stops drain ps s \<noteq> None"
proof (rule poll_loop_returns)
  have "deadline < now_deadline (ps ! n)" using assms(2) [OF assms(4)] assms(3) by linarith
  then have "\<forall>s. stops (ps ! n) s" using assms(1) by blast
  then show "\<exists>p \<in> set ps. \<forall>s. stops p s" using assms(4) nth_mem by blast
qed

section \<open>The contract of a source\<close>

datatype 'ev action = Arrive 'ev | Begin | Take

locale write_source =
  fixes arrive :: "'ev \<Rightarrow> 's \<Rightarrow> 's"
    and begin_window :: "'s \<Rightarrow> 's"
    and drain :: "'s \<Rightarrow> RowChange list \<times> 's"
    and buffer :: "'s \<Rightarrow> RowChange list"
    and rows :: "'ev \<Rightarrow> 's \<Rightarrow> RowChange list"
  assumes arrive_appends: "buffer (arrive e s) = buffer s @ rows e s"
    and drain_takes: "fst (drain s) = buffer s"
    and drain_clears: "buffer (snd (drain s)) = []"
    and begin_buffer: "buffer (begin_window s) = buffer s \<or> buffer (begin_window s) = []"
begin

text \<open>What a sequence of events adds to the buffer.\<close>

fun rows_all :: "'ev list \<Rightarrow> 's \<Rightarrow> RowChange list" where
  "rows_all [] s = []"
| "rows_all (e # es) s = rows e s @ rows_all es (arrive e s)"

lemma buffer_arrive_all: "buffer (arrive_all arrive es s) = buffer s @ rows_all es s"
  by (induction es arbitrary: s) (simp_all add: arrive_all_def arrive_appends)

text \<open>A window is what was buffered at its start and everything that arrived until it was taken,
  in order; after it the buffer is empty.\<close>

lemma poll_loop_window:
  assumes "poll_loop arrive failed stops drain ps s = Some (Inr ws, s')"
  obtains n where "n < length ps"
    and "ws = buffer s @ rows_all (concat (map arrivals (take (Suc n) ps)) @ late (ps ! n)) s"
    and "buffer s' = []"
    and "stops (ps ! n) (arrive_all arrive (concat (map arrivals (take (Suc n) ps))) s)"
  using assms
proof (induction ps arbitrary: s thesis)
  case (Cons p ps)
  let ?s = "arrive_all arrive (arrivals p) s"
  have nf: "failed ?s = None" using Cons.prems(2) by (auto simp: Let_def split: option.splits)
  show ?case
  proof (cases "stops p ?s")
    case True
    then have d: "drain (arrive_all arrive (late p) ?s) = (ws, s')"
      using Cons.prems(2) nf by (simp add: Let_def split: prod.splits)
    have "ws = buffer (arrive_all arrive (arrivals p @ late p) s)"
      using drain_takes [of "arrive_all arrive (late p) ?s"] d by (simp add: arrive_all_append)
    moreover have "buffer s' = []"
      using drain_clears [of "arrive_all arrive (late p) ?s"] d by simp
    ultimately show ?thesis
      using True by (intro Cons.prems(1) [of 0]) (simp_all add: buffer_arrive_all)
  next
    case False
    then have "poll_loop arrive failed stops drain ps ?s = Some (Inr ws, s')"
      using Cons.prems(2) nf by (simp add: Let_def)
    then obtain n where n: "n < length ps"
      "ws = buffer ?s @ rows_all (concat (map arrivals (take (Suc n) ps)) @ late (ps ! n)) ?s"
      "buffer s' = []"
      "stops (ps ! n) (arrive_all arrive (concat (map arrivals (take (Suc n) ps))) ?s)"
      using Cons.IH by blast
    have split: "rows_all (xs @ ys) t = rows_all xs t @ rows_all ys (arrive_all arrive xs t)" for xs ys t
      by (induction xs arbitrary: t) (simp_all add: arrive_all_def)
    show ?thesis
      using n by (intro Cons.prems(1) [of "Suc n"])
        (simp_all add: buffer_arrive_all split arrive_all_append)
  qed
qed simp

text \<open>A run of the source: the windows taken, the rows that arrived, the state reached.\<close>

fun run :: "'ev action list \<Rightarrow> 's \<Rightarrow> RowChange list list \<times> RowChange list \<times> 's" where
  "run [] s = ([], [], s)"
| "run (Arrive e # as) s =
     (let (ws, rs, t) = run as (arrive e s) in (ws, rows e s @ rs, t))"
| "run (Begin # as) s = run as (begin_window s)"
| "run (Take # as) s =
     (let (w, s') = drain s; (ws, rs, t) = run as s' in (w # ws, rs, t))"

lemma no_change_twice:
  "run as s = (ws, rs, t) \<Longrightarrow> subseq (concat ws @ buffer t) (buffer s @ rs)"
proof (induction as arbitrary: s ws rs t)
  case (Cons a as)
  show ?case
  proof (cases a)
    case (Arrive e)
    then obtain rs' where r: "run as (arrive e s) = (ws, rs', t)" "rs = rows e s @ rs'"
      using Cons.prems by (auto split: prod.splits)
    with Cons.IH [OF r(1)] show ?thesis by (simp add: arrive_appends)
  next
    case Begin
    with Cons.prems have "subseq (concat ws @ buffer t) (buffer (begin_window s) @ rs)"
      using Cons.IH by simp
    moreover have "subseq (buffer (begin_window s) @ rs) (buffer s @ rs)"
      using begin_buffer [of s] by auto
    ultimately show ?thesis by (rule subseq_order.trans)
  next
    case Take
    then obtain ws' where r: "run as (snd (drain s)) = (ws', rs, t)" "ws = buffer s # ws'"
      using Cons.prems drain_takes [of s] by (auto split: prod.splits)
    have "subseq (concat ws' @ buffer t) rs" using Cons.IH [OF r(1)] by (simp add: drain_clears)
    then have "subseq (buffer s @ (concat ws' @ buffer t)) (buffer s @ rs)"
      by (rule list_emb_append_mono [OF subseq_order.order_refl])
    with r show ?thesis by simp
  qed
qed simp

end

text \<open>A source that keeps what arrives between windows loses nothing.\<close>

locale lossless_source = write_source +
  assumes begin_keeps: "buffer (begin_window s) = buffer s"
begin

lemma no_change_lost: "run as s = (ws, rs, t) \<Longrightarrow> concat ws @ buffer t = buffer s @ rs"
proof (induction as arbitrary: s ws rs t)
  case (Cons a as)
  show ?case
  proof (cases a)
    case (Arrive e)
    then obtain rs' where r: "run as (arrive e s) = (ws, rs', t)" "rs = rows e s @ rs'"
      using Cons.prems by (auto split: prod.splits)
    with Cons.IH [OF r(1)] show ?thesis by (simp add: arrive_appends)
  next
    case Begin
    with Cons show ?thesis by (simp add: begin_keeps)
  next
    case Take
    then obtain ws' where r: "run as (snd (drain s)) = (ws', rs, t)" "ws = buffer s # ws'"
      using Cons.prems drain_takes [of s] by (auto split: prod.splits)
    with Cons.IH [OF r(1)] show ?thesis by (simp add: drain_clears)
  qed
qed simp

end

text \<open>A source that starts every window empty returns nothing from before it.\<close>

locale fresh_source = write_source +
  assumes begin_empties: "buffer (begin_window s) = []"
begin

lemma window_after_begin:
  assumes "poll_loop arrive failed stops drain ps (begin_window s) = Some (Inr ws, s')"
  obtains n where "n < length ps"
    and "ws = rows_all (concat (map arrivals (take (Suc n) ps)) @ late (ps ! n)) (begin_window s)"
  using poll_loop_window [OF assms] begin_empties by auto

end

end
