(* ===== verification/Binlog.thy ===== *)
theory Binlog
  imports Sources
begin

text \<open>
  \<open>internal/binlog/capture.go\<close>: the MySQL source.  Events of the replication library are the
  datatype \<open>binlog_event\<close>, each with the time at which the pump handles it; the query for column
  names is a parameter.  The state is the part of \<open>Capture\<close> the pump and the windows share, with
  the pump's \<open>lastQuery\<close>.
\<close>

section \<open>Events and state\<close>

datatype EventType =
    WRITE_ROWS_EVENTv0 | WRITE_ROWS_EVENTv1 | WRITE_ROWS_EVENTv2
  | UPDATE_ROWS_EVENTv0 | UPDATE_ROWS_EVENTv1 | UPDATE_ROWS_EVENTv2
  | DELETE_ROWS_EVENTv0 | DELETE_ROWS_EVENTv1 | DELETE_ROWS_EVENTv2
  | OtherEventType

record RowsEvent =
  re_Schema :: string
  re_Table :: string
  re_ColumnName :: "string list"
  re_Rows :: "gval list list"

datatype binlog_event =
    RowsQuery string
  | Rows EventType RowsEvent
  | Ignored
  | StreamError string

record Capture =
  bc_name :: string
  changes :: "RowChange list"
  lastEvent :: "int option"
  bc_err :: "string option"
  colCache :: "(string \<times> string list) list"
  lastQuery :: string

definition New_Capture :: "string \<Rightarrow> Capture" where
  "New_Capture name = \<lparr>bc_name = name, changes = [], lastEvent = None, bc_err = None, colCache = [],
     lastQuery = ''''\<rparr>"

type_synonym column_query = "string \<Rightarrow> string \<Rightarrow> string list option"

definition systemSchemas :: "string list" where
  "systemSchemas = [''mysql'', ''sys'', ''information_schema'', ''performance_schema'']"

section \<open>The pump\<close>

fun opOf :: "EventType \<Rightarrow> string" where
  "opOf WRITE_ROWS_EVENTv0 = ''INSERT''"
| "opOf WRITE_ROWS_EVENTv1 = ''INSERT''"
| "opOf WRITE_ROWS_EVENTv2 = ''INSERT''"
| "opOf UPDATE_ROWS_EVENTv0 = ''UPDATE''"
| "opOf UPDATE_ROWS_EVENTv1 = ''UPDATE''"
| "opOf UPDATE_ROWS_EVENTv2 = ''UPDATE''"
| "opOf DELETE_ROWS_EVENTv0 = ''DELETE''"
| "opOf DELETE_ROWS_EVENTv1 = ''DELETE''"
| "opOf DELETE_ROWS_EVENTv2 = ''DELETE''"
| "opOf OtherEventType = ''''"

text \<open>The names of a table's columns, and the cache afterwards.\<close>

definition columnNames ::
  "column_query \<Rightarrow> RowsEvent \<Rightarrow> (string \<times> string list) list \<Rightarrow>
   string list \<times> (string \<times> string list) list" where
  "columnNames query e cache =
     (if re_ColumnName e \<noteq> [] then (re_ColumnName e, cache)
      else
        (let key = re_Schema e @ ''.'' @ re_Table e
         in case map_of cache key of
              Some names \<Rightarrow> (names, cache)
            | None \<Rightarrow>
                (case query (re_Schema e) (re_Table e) of
                   None \<Rightarrow> ([], cache)
                 | Some names \<Rightarrow> (names, map_set key names cache))))"

definition column_name :: "string list \<Rightarrow> nat \<Rightarrow> string" where
  "column_name cols i =
     (if i < length cols \<and> cols ! i \<noteq> '''' then cols ! i else ''col_'' @ nat_str i)"

definition rowMap :: "string list \<Rightarrow> gval list \<Rightarrow> row" where
  "rowMap cols r = go_map (map (\<lambda>(i, v). (column_name cols i, v)) (enumerate 0 r))"

fun update_pairs :: "(row \<Rightarrow> row \<Rightarrow> RowChange) \<Rightarrow> row list \<Rightarrow> RowChange list" where
  "update_pairs mk (b # a # rest) = mk b a # update_pairs mk rest"
| "update_pairs mk _ = []"

definition normalize_rows :: "string list \<Rightarrow> EventType \<Rightarrow> RowsEvent \<Rightarrow> string \<Rightarrow> RowChange list" where
  "normalize_rows cols t e query =
     (let op = opOf t; table = re_Schema e @ ''.'' @ re_Table e
      in if op = '''' then []
         else if op = ''UPDATE''
         then update_pairs (\<lambda>b a. \<lparr>rc_Table = table, rc_Op = op, Before = Some b, After = Some a,
                                  Query = query\<rparr>) (map (rowMap cols) (re_Rows e))
         else map (\<lambda>r. if op = ''INSERT''
                       then \<lparr>rc_Table = table, rc_Op = op, Before = None, After = Some (rowMap cols r),
                             Query = query\<rparr>
                       else \<lparr>rc_Table = table, rc_Op = op, Before = Some (rowMap cols r), After = None,
                             Query = query\<rparr>) (re_Rows e))"

text \<open>\<open>normalize\<close> asks for the column names only for an insert, update or delete.\<close>

definition normalize_event ::
  "column_query \<Rightarrow> EventType \<Rightarrow> RowsEvent \<Rightarrow> Capture \<Rightarrow> RowChange list \<times> Capture" where
  "normalize_event query t e c =
     (if opOf t = '''' then ([], c)
      else (let (cols, cache) = columnNames query e (colCache c)
            in (normalize_rows cols t e (lastQuery c), c\<lparr>colCache := cache\<rparr>)))"

text \<open>One turn of \<open>pump\<close> at time \<open>now\<close>.  After an error the pump has returned: later events are
  never read.\<close>

definition pump_event :: "column_query \<Rightarrow> int \<Rightarrow> binlog_event \<Rightarrow> Capture \<Rightarrow> Capture" where
  "pump_event query now ev c =
     (case ev of
        RowsQuery q \<Rightarrow> c\<lparr>lastQuery := q\<rparr>
      | Rows t e \<Rightarrow>
          if re_Schema e \<in> set systemSchemas then c
          else
            (let (chs, c') = normalize_event query t e c
             in if chs = [] then c' else c'\<lparr>changes := changes c' @ chs, lastEvent := Some now\<rparr>)
      | Ignored \<Rightarrow> c
      | StreamError e \<Rightarrow> c\<lparr>bc_err := Some e\<rparr>)"

definition pump :: "column_query \<Rightarrow> int \<times> binlog_event \<Rightarrow> Capture \<Rightarrow> Capture" where
  "pump query tev c =
     (if bc_err c \<noteq> None then c else pump_event query (fst tev) (snd tev) c)"

section \<open>The attribution window\<close>

definition BeginWindow :: "Capture \<Rightarrow> Capture" where
  "BeginWindow c = c\<lparr>lastEvent := None\<rparr>"

definition hasActiveTrx :: "string + int \<Rightarrow> bool" where
  "hasActiveTrx r = (case r of Inl _ \<Rightarrow> False | Inr n \<Rightarrow> 0 < n)"

definition drain_changes :: "Capture \<Rightarrow> RowChange list \<times> Capture" where
  "drain_changes c = (changes c, c\<lparr>changes := []\<rparr>)"

definition capture_failed :: "Capture \<Rightarrow> string option" where
  "capture_failed c =
     map_option (\<lambda>e. ''['' @ bc_name c @ ''] binlog capture failed: '' @ e) (bc_err c)"

definition millis :: "int \<Rightarrow> int" where
  "millis ms = ms * 1000000"

definition window_stops :: "Attribution \<Rightarrow> int \<Rightarrow> int \<Rightarrow> (int \<times> binlog_event) poll \<Rightarrow> Capture \<Rightarrow> bool" where
  "window_stops attr deadline opened p c \<longleftrightarrow>
     (millis (QuietMs attr) \<le> now_quiet p - (case lastEvent c of None \<Rightarrow> opened | Some t \<Rightarrow> t) \<and>
      (\<not> TrxCheck attr \<or> \<not> hasActiveTrx (trx_count p))) \<or>
     deadline < now_deadline p"

definition TakeWindow ::
  "column_query \<Rightarrow> Attribution \<Rightarrow> int \<Rightarrow> int \<Rightarrow> (int \<times> binlog_event) poll list \<Rightarrow> Capture \<Rightarrow>
   ((string + RowChange list) \<times> Capture) option" where
  "TakeWindow query attr now opened polls c =
     poll_loop (pump query) capture_failed
       (window_stops attr (now + millis (TimeoutMs attr)) opened) drain_changes polls c"

text \<open>What one event adds to the buffer.\<close>

definition pump_rows :: "column_query \<Rightarrow> int \<times> binlog_event \<Rightarrow> Capture \<Rightarrow> RowChange list" where
  "pump_rows query tev c =
     (if bc_err c \<noteq> None then []
      else (case snd tev of
              Rows t e \<Rightarrow> if re_Schema e \<in> set systemSchemas then [] else fst (normalize_event query t e c)
            | _ \<Rightarrow> []))"

lemma fst_normalize_event:
  "fst (normalize_event query t e c) =
     (if opOf t = '''' then []
      else normalize_rows (fst (columnNames query e (colCache c))) t e (lastQuery c))"
  by (simp add: normalize_event_def split: prod.splits)

lemma changes_normalize_event [simp]: "changes (snd (normalize_event query t e c)) = changes c"
  by (simp add: normalize_event_def split: prod.splits)

lemma changes_pump: "changes (pump query tev c) = changes c @ pump_rows query tev c"
proof (cases "snd tev")
  case (Rows t e)
  obtain chs c' where n: "normalize_event query t e c = (chs, c')" by fastforce
  then have "changes c' = changes c" by (metis changes_normalize_event snd_conv)
  with n Rows show ?thesis by (auto simp: pump_def pump_event_def pump_rows_def)
qed (simp_all add: pump_def pump_event_def pump_rows_def)

interpretation mysql: lossless_source "pump query" BeginWindow drain_changes changes "pump_rows query"
  for query
  by unfold_locales (simp_all add: changes_pump drain_changes_def BeginWindow_def)

text \<open>
  The MySQL source attributes every row change to exactly one window, in the order of the
  binlog: over any schedule of events and of \<open>BeginWindow\<close> and \<open>TakeWindow\<close> calls, the windows taken
  and what is still buffered are, concatenated, what was buffered first followed by all row changes
  that arrived.  Nothing is lost, duplicated or reordered.
\<close>

theorem binlog_windows_partition:
  assumes "mysql.run query schedule c = (windows, arrived, c')"
  shows "concat windows @ changes c' = changes c @ arrived"
  by (rule mysql.no_change_lost [OF assms])

definition demo_rows :: "int \<times> binlog_event" where
  "demo_rows = (5, Rows WRITE_ROWS_EVENTv2 \<lparr>re_Schema = ''db'', re_Table = ''t'',
     re_ColumnName = [''id''], re_Rows = [[GInt 1]]\<rparr>)"

theorem binlog_windows_partition_witness:
  "\<exists>windows arrived c'. mysql.run (\<lambda>_ _. None) [Begin, Arrive demo_rows, Take, Arrive demo_rows]
       (New_Capture ''old'') = (windows, arrived, c') \<and>
     concat windows @ changes c' = arrived \<and> length arrived = 2"
proof -
  let ?q = "\<lambda>_ _. None" and ?as = "[Begin, Arrive demo_rows, Take, Arrive demo_rows]"
  obtain windows arrived c' where r: "mysql.run ?q ?as (New_Capture ''old'') = (windows, arrived, c')"
    by (cases "mysql.run ?q ?as (New_Capture ''old'')")
  have "length (fst (snd (mysql.run ?q ?as (New_Capture ''old'')))) = 2"
    by (simp add: demo_rows_def New_Capture_def BeginWindow_def drain_changes_def pump_def pump_event_def
        pump_rows_def normalize_event_def normalize_rows_def columnNames_def systemSchemas_def)
  with binlog_windows_partition [OF r] r show ?thesis by (simp add: New_Capture_def)
qed

section \<open>TakeWindow returns\<close>

text \<open>
  C15.  \<open>TakeWindow\<close> of the MySQL source returns: with 50 ms between polls, a schedule with more
  polls than fit between the call and the deadline is never exhausted, whatever the stream and the
  transaction check do.
\<close>

theorem binlog_TakeWindow_returns:
  assumes "\<And>i. i < length polls \<Longrightarrow> now + int i * millis 50 \<le> now_deadline (polls ! i)"
    and "0 \<le> TimeoutMs attr" and "nat (TimeoutMs attr div 50) + 1 < length polls"
  shows "TakeWindow query attr now opened polls c \<noteq> None"
  unfolding TakeWindow_def
proof (rule poll_loop_deadline)
  show "now + millis (TimeoutMs attr) < now + int (nat (TimeoutMs attr div 50) + 1) * millis 50"
  proof -
    have "TimeoutMs attr < (TimeoutMs attr div 50 + 1) * 50" by presburger
    then show ?thesis using assms(2) by (simp add: millis_def algebra_simps)
  qed
qed (use assms in \<open>auto simp: window_stops_def\<close>)

definition demo_poll :: "int \<Rightarrow> (int \<times> binlog_event) poll" where
  "demo_poll t = \<lparr>arrivals = [], now_quiet = t, now_deadline = t, trx_count = Inr 1, late = []\<rparr>"

theorem binlog_TakeWindow_returns_witness:
  "TakeWindow (\<lambda>_ _. None) \<lparr>QuietMs = 300, TimeoutMs = 60, CheckInnodbTrx = None\<rparr> 0 0
     [demo_poll 0, demo_poll 50000000, demo_poll 100000000] (New_Capture ''new'') \<noteq> None"
proof (rule binlog_TakeWindow_returns)
  fix i assume "i < length [demo_poll 0, demo_poll 50000000, demo_poll 100000000]"
  then have "i = 0 \<or> i = 1 \<or> i = 2" by auto
  then show "0 + int i * millis 50
      \<le> now_deadline ([demo_poll 0, demo_poll 50000000, demo_poll 100000000] ! i)"
    by (auto simp: demo_poll_def millis_def)
qed simp_all

text \<open>What it returns, and why it stopped: quiet for long enough with no open transaction, or out of
  time.\<close>

lemma binlog_TakeWindow_window:
  assumes "TakeWindow query attr now opened polls c = Some (Inr ws, c')"
  obtains n where "n < length polls"
    and "ws = changes c @ mysql.rows_all query
           (concat (map arrivals (take (Suc n) polls)) @ late (polls ! n)) c"
    and "changes c' = []"
    and "window_stops attr (now + millis (TimeoutMs attr)) opened (polls ! n)
           (arrive_all (pump query) (concat (map arrivals (take (Suc n) polls))) c)"
  using assms mysql.poll_loop_window unfolding TakeWindow_def by blast

section \<open>Row images\<close>

lemma distinct_rowMap: "distinct (keys (rowMap cols r))"
  by (simp add: rowMap_def distinct_go_map)

lemma length_update_pairs: "length (update_pairs mk rs) = length rs div 2"
  by (induction mk rs rule: update_pairs.induct) auto

text \<open>An insert has an after-image only, a delete a before-image only, an update both; every image
  is a map with distinct columns.\<close>

definition image_ok :: "RowChange \<Rightarrow> bool" where
  "image_ok ch \<longleftrightarrow>
     (rc_Op ch = ''INSERT'' \<and> Before ch = None \<and> After ch \<noteq> None \<or>
      rc_Op ch = ''UPDATE'' \<and> Before ch \<noteq> None \<and> After ch \<noteq> None \<or>
      rc_Op ch = ''DELETE'' \<and> Before ch \<noteq> None \<and> After ch = None) \<and>
     (case Before ch of None \<Rightarrow> True | Some r \<Rightarrow> distinct (keys r)) \<and>
     (case After ch of None \<Rightarrow> True | Some r \<Rightarrow> distinct (keys r))"

lemma update_pairs_all:
  "(\<And>a b. a \<in> set rs \<Longrightarrow> b \<in> set rs \<Longrightarrow> P (mk a b)) \<Longrightarrow> ch \<in> set (update_pairs mk rs) \<Longrightarrow> P ch"
  by (induction mk rs rule: update_pairs.induct) auto

lemma opOf_cases: "opOf t \<in> {'''', ''INSERT'', ''UPDATE'', ''DELETE''}"
  by (cases t) auto

lemma normalize_rows_image_ok: "ch \<in> set (normalize_rows cols t e q) \<Longrightarrow> image_ok ch"
proof -
  assume ch: "ch \<in> set (normalize_rows cols t e q)"
  show "image_ok ch"
  proof (cases "opOf t = ''UPDATE''")
    case True
    then have "ch \<in> set (update_pairs (\<lambda>b a. \<lparr>rc_Table = re_Schema e @ ''.'' @ re_Table e,
        rc_Op = ''UPDATE'', Before = Some b, After = Some a, Query = q\<rparr>) (map (rowMap cols) (re_Rows e)))"
      using ch by (simp add: normalize_rows_def)
    then show ?thesis
      by (rule update_pairs_all [rotated]) (auto simp: image_ok_def distinct_rowMap)
  next
    case False
    with ch opOf_cases [of t] show ?thesis
      by (auto simp: normalize_rows_def Let_def image_ok_def distinct_rowMap split: if_splits)
  qed
qed

lemma image_ok_pump: "\<forall>ch \<in> set (changes c). image_ok ch \<Longrightarrow> \<forall>ch \<in> set (changes (pump query tev c)). image_ok ch"
proof -
  have "\<forall>ch \<in> set (pump_rows query tev c). image_ok ch"
    by (auto simp: pump_rows_def fst_normalize_event split: binlog_event.splits if_splits
        dest: normalize_rows_image_ok)
  then show "\<forall>ch \<in> set (changes c). image_ok ch \<Longrightarrow> ?thesis" by (auto simp: changes_pump)
qed

text \<open>
  Every row change of a MySQL window carries the images its operation calls for: an INSERT
  only the row after, a DELETE only the row before, an UPDATE both, each with distinct column names;
  the invariant holds for the empty capture and is kept by every event of the stream.
\<close>

theorem binlog_image_invariant:
  "list_all image_ok (changes (arrive_all (pump query) evs (New_Capture name)))"
proof -
  have "\<forall>ch \<in> set (changes c). image_ok ch \<Longrightarrow>
      \<forall>ch \<in> set (changes (arrive_all (pump query) evs c)). image_ok ch" for c
  proof (induction evs arbitrary: c)
    case (Cons ev evs)
    from Cons.IH [OF image_ok_pump [OF Cons.prems]] show ?case by (simp add: arrive_all_def)
  qed simp
  from this [of "New_Capture name"] show ?thesis by (simp add: New_Capture_def list_all_iff)
qed

end
