(* ===== verification/PgCapture.thy ===== *)
theory PgCapture
  imports Sources
begin

text \<open>
  \<open>internal/pg/capture.go\<close> and the helpers of \<open>internal/pg/pg.go\<close>: the PostgreSQL source.  The
  messages of the logical decoding protocol are the datatype \<open>wal_msg\<close>, as the library parses
  them; the decoder of column values is a parameter.
\<close>

section \<open>Names and quoting\<close>

definition safe_name :: "string \<Rightarrow> string" where
  "safe_name name = map (\<lambda>r. if r = CHR ''-'' \<or> r = CHR '' '' then CHR ''_'' else r) name"

definition databaseName :: "Datastore \<Rightarrow> string" where
  "databaseName d = (if ds_Database d \<noteq> '''' then ds_Database d else ds_User d)"

text \<open>\<open>strings.ReplaceAll(s, "'", by)\<close> for the one-byte separator, and the two quoting functions.\<close>

definition sq :: char where
  "sq = CHR 0x27"

definition replace_quote :: "string \<Rightarrow> string \<Rightarrow> string" where
  "replace_quote by_str s = concat (map (\<lambda>c. if c = sq then by_str else [c]) s)"

definition quoteLiteral :: "string \<Rightarrow> string" where
  "quoteLiteral s = [sq] @ replace_quote [sq, sq] s @ [sq]"

definition conn_quote :: "string \<Rightarrow> string" where
  "conn_quote v = [sq] @ replace_quote [CHR 0x5C, sq] v @ [sq]"

definition connString :: "Datastore \<Rightarrow> string \<Rightarrow> string" where
  "connString d dbname =
     join_with '' ''
       [''host='' @ conn_quote (ds_Host d),
        ''port='' @ int_str (ds_Port d),
        ''user='' @ conn_quote (ds_User d),
        ''password='' @ conn_quote (ds_Password d),
        ''dbname='' @ conn_quote dbname,
        ''sslmode=prefer'']"

text \<open>How a SQL string constant is read: up to a quote that is not doubled.\<close>

fun read_literal :: "string \<Rightarrow> (string \<times> string) option" where
  "read_literal [] = None"
| "read_literal [c] = (if c = sq then Some ([], []) else None)"
| "read_literal (c # d # s) =
     (if c = sq then
        (if d = sq then map_option (\<lambda>(a, r). (sq # a, r)) (read_literal s) else Some ([], d # s))
      else map_option (\<lambda>(a, r). (c # a, r)) (read_literal (d # s)))"

lemma read_literal_plain: "c \<noteq> sq \<Longrightarrow> read_literal (c # s) = map_option (\<lambda>(a, r). (c # a, r)) (read_literal s)"
  by (cases s) auto

lemma read_literal_quoted:
  "take 1 rest \<noteq> [sq] \<Longrightarrow> read_literal (replace_quote [sq, sq] s @ sq # rest) = Some (s, rest)"
proof (induction s)
  case Nil
  then show ?case by (cases rest) (auto simp: replace_quote_def)
next
  case (Cons c s)
  show ?case
  proof (cases "c = sq")
    case True
    with Cons show ?thesis by (simp add: replace_quote_def)
  next
    case False
    then have "replace_quote [sq, sq] (c # s) @ sq # rest = c # (replace_quote [sq, sq] s @ sq # rest)"
      by (simp add: replace_quote_def)
    with False Cons show ?thesis by (simp add: read_literal_plain)
  qed
qed

text \<open>
  C17.  A schema name quoted by \<open>quoteLiteral\<close> is read back by the server as exactly that name,
  whatever quotes it contains, and the statement goes on right after it: no name can end the literal
  early.
\<close>

theorem quoteLiteral_read_back:
  assumes "take 1 rest \<noteq> [sq]"
  shows "\<exists>body. quoteLiteral s @ rest = sq # body \<and> read_literal body = Some (s, rest)"
  using read_literal_quoted [OF assms, of s] by (simp add: quoteLiteral_def)

theorem quoteLiteral_read_back_witness:
  "\<exists>body. quoteLiteral [CHR ''a'', sq, CHR ''b''] @ '' ;'' = sq # body \<and>
     read_literal body = Some ([CHR ''a'', sq, CHR ''b''], '' ;'')"
  by (rule quoteLiteral_read_back) (simp add: sq_def)

text \<open>How libpq reads a quoted connection value: a backslash makes the next byte literal.\<close>

fun read_conn :: "string \<Rightarrow> (string \<times> string) option" where
  "read_conn [] = None"
| "read_conn [c] = (if c = sq then Some ([], []) else None)"
| "read_conn (c # d # s) =
     (if c = sq then Some ([], d # s)
      else if c = CHR 0x5C then map_option (\<lambda>(a, r). (d # a, r)) (read_conn s)
      else map_option (\<lambda>(a, r). (c # a, r)) (read_conn (d # s)))"

lemma read_conn_plain:
  "c \<noteq> sq \<Longrightarrow> c \<noteq> CHR 0x5C \<Longrightarrow> read_conn (c # s) = map_option (\<lambda>(a, r). (c # a, r)) (read_conn s)"
  by (cases s) auto

lemma read_conn_quoted:
  "CHR 0x5C \<notin> set v \<Longrightarrow> read_conn (replace_quote [CHR 0x5C, sq] v @ sq # rest) = Some (v, rest)"
proof (induction v)
  case Nil
  then show ?case by (cases rest) (auto simp: replace_quote_def)
next
  case (Cons c v)
  show ?case
  proof (cases "c = sq")
    case True
    with Cons show ?thesis by (simp add: replace_quote_def sq_def)
  next
    case False
    then have "replace_quote [CHR 0x5C, sq] (c # v) @ sq # rest = c # (replace_quote [CHR 0x5C, sq] v @ sq # rest)"
      by (simp add: replace_quote_def)
    moreover have "c \<noteq> CHR 0x5C" using Cons.prems by auto
    ultimately show ?thesis using False Cons by (simp add: read_conn_plain)
  qed
qed

text \<open>A backslash is not escaped: one at the end of a value swallows the closing quote.\<close>

lemma conn_quote_backslash: "read_conn (tl (conn_quote [CHR ''a'', CHR 0x5C])) = None"
  by code_simp

section \<open>State and messages\<close>

record RelCol =
  rel_col_Name :: string
  rel_col_Type :: "32 word"

record Relation =
  rel_ID :: "32 word"
  rel_Namespace :: string
  rel_Name :: string
  rel_Columns :: "RelCol list"

type_synonym tuple_data = "(char \<times> string) list"

datatype wal_msg =
    RelationMsg Relation
  | InsertMsg "32 word" "tuple_data option"
  | UpdateMsg "32 word" "tuple_data option" "tuple_data option"
  | DeleteMsg "32 word" "tuple_data option"
  | CommitMsg "64 word"
  | OtherMsg

record PgCapture =
  pc_name :: string
  slot :: string
  pub :: string
  relations :: "(32 word \<times> Relation) list"
  pc_changes :: "RowChange list"
  pc_lastEvent :: "int option"
  lastCommitLSN :: "64 word"
  windowStart :: "64 word"
  pc_err :: "string option"

definition NewCapture :: "string \<Rightarrow> PgCapture" where
  "NewCapture name =
     \<lparr>pc_name = name, slot = ''mb_slot_'' @ safe_name name, pub = ''mb_pub_'' @ safe_name name,
      relations = [], pc_changes = [], pc_lastEvent = None, lastCommitLSN = 0, windowStart = 0,
      pc_err = None\<rparr>"

section \<open>Decoding\<close>

text \<open>\<open>decode oid data\<close> is the library's decoder: \<^const>\<open>None\<close> for an unknown type or a failure, and
  then the text itself is the value.\<close>

definition decodeText :: "(32 word \<Rightarrow> string \<Rightarrow> gval option) \<Rightarrow> 32 word \<Rightarrow> string \<Rightarrow> gval" where
  "decodeText decode oid data = (case decode oid data of Some v \<Rightarrow> v | None \<Rightarrow> GStr data)"

fun decode_cols ::
  "(32 word \<Rightarrow> string \<Rightarrow> gval option) \<Rightarrow> RelCol list \<Rightarrow> tuple_data \<Rightarrow> row \<Rightarrow> row" where
  "decode_cols decode (rc # rcs) ((t, data) # tup) out =
     decode_cols decode rcs tup
       (if t = CHR ''n'' then map_set (rel_col_Name rc) GNil out
        else if t = CHR ''t'' then map_set (rel_col_Name rc) (decodeText decode (rel_col_Type rc) data) out
        else out)"
| "decode_cols decode _ _ out = out"

definition decodeTuple :: "(32 word \<Rightarrow> string \<Rightarrow> gval option) \<Rightarrow> Relation \<Rightarrow> tuple_data \<Rightarrow> row" where
  "decodeTuple decode rel tup = decode_cols decode (rel_Columns rel) tup []"

definition record_change ::
  "(32 word \<Rightarrow> string \<Rightarrow> gval option) \<Rightarrow> int \<Rightarrow> 32 word \<Rightarrow> string \<Rightarrow> tuple_data option \<Rightarrow> tuple_data option \<Rightarrow>
   PgCapture \<Rightarrow> PgCapture" where
  "record_change decode now relID op oldTup newTup c =
     (case map_of (relations c) relID of
        None \<Rightarrow> c
      | Some rel \<Rightarrow>
          c\<lparr>pc_changes := pc_changes c @
              [\<lparr>rc_Table = rel_Namespace rel @ ''.'' @ rel_Name rel, rc_Op = op,
                Before = map_option (decodeTuple decode rel) oldTup,
                After = map_option (decodeTuple decode rel) newTup, Query = ''''\<rparr>],
            pc_lastEvent := Some now\<rparr>)"

fun handle_msg :: "(32 word \<Rightarrow> string \<Rightarrow> gval option) \<Rightarrow> int \<Rightarrow> wal_msg \<Rightarrow> PgCapture \<Rightarrow> PgCapture" where
  "handle_msg decode now (RelationMsg m) c = c\<lparr>relations := map_set (rel_ID m) m (relations c)\<rparr>"
| "handle_msg decode now (InsertMsg rid tup) c = record_change decode now rid ''INSERT'' None tup c"
| "handle_msg decode now (UpdateMsg rid old new) c = record_change decode now rid ''UPDATE'' old new c"
| "handle_msg decode now (DeleteMsg rid old) c = record_change decode now rid ''DELETE'' old None c"
| "handle_msg decode now (CommitMsg lsn) c = c\<lparr>lastCommitLSN := lsn, pc_lastEvent := Some now\<rparr>"
| "handle_msg decode now OtherMsg c = c"

section \<open>The pump\<close>

text \<open>
  What \<open>ReceiveMessage\<close> returns.  A keepalive carries the request flag unless it does not parse; an
  XLogData message carries its start, the length of its data and the parsed message unless they do
  not parse.  \<open>Timeout\<close> is the library's timeout error.
\<close>

datatype pg_raw =
    Timeout
  | RecvError string
  | NotCopyData
  | Keepalive "bool option"
  | XLogData "(64 word \<times> 64 word \<times> wal_msg option) option"
  | OtherCopyData

record PumpState =
  nextDeadline :: int
  clientXLogPos :: "64 word"
  status_updates :: "64 word list"
  stopped :: bool
  capture :: PgCapture

definition seconds :: "int \<Rightarrow> int" where
  "seconds s = s * 1000000000"

definition send_status :: "int \<Rightarrow> PumpState \<Rightarrow> PumpState" where
  "send_status now st =
     (if nextDeadline st < now
      then st\<lparr>status_updates := status_updates st @ [clientXLogPos st], nextDeadline := now + seconds 10\<rparr>
      else st)"

definition setErr :: "string \<Rightarrow> PgCapture \<Rightarrow> PgCapture" where
  "setErr e c = c\<lparr>pc_err := Some e\<rparr>"

text \<open>One turn of the loop at time \<open>now\<close>, the context not cancelled.\<close>

definition pump_turn ::
  "(32 word \<Rightarrow> string \<Rightarrow> gval option) \<Rightarrow> int \<Rightarrow> pg_raw \<Rightarrow> PumpState \<Rightarrow> PumpState" where
  "pump_turn decode now raw st =
     (if stopped st then st
      else
        (let st = send_status now st
         in case raw of
              Timeout \<Rightarrow> st
            | RecvError e \<Rightarrow> st\<lparr>stopped := True, capture := setErr e (capture st)\<rparr>
            | NotCopyData \<Rightarrow> st
            | Keepalive r \<Rightarrow> (if r = Some True then st\<lparr>nextDeadline := now\<rparr> else st)
            | XLogData None \<Rightarrow> st
            | XLogData (Some (walStart, len, msg)) \<Rightarrow>
                st\<lparr>clientXLogPos := walStart + len,
                   capture := (case msg of None \<Rightarrow> capture st
                               | Some m \<Rightarrow> handle_msg decode now m (capture st))\<rparr>
            | OtherCopyData \<Rightarrow> st))"

text \<open>What a turn does to the capture, as an event of the source.\<close>

definition pg_arrive :: "(32 word \<Rightarrow> string \<Rightarrow> gval option) \<Rightarrow> int \<times> pg_raw \<Rightarrow> PgCapture \<Rightarrow> PgCapture" where
  "pg_arrive decode ev c =
     (if pc_err c \<noteq> None then c
      else (case snd ev of
              RecvError e \<Rightarrow> setErr e c
            | XLogData (Some (walStart, len, Some m)) \<Rightarrow> handle_msg decode (fst ev) m c
            | _ \<Rightarrow> c))"

definition pump_ok :: "PumpState \<Rightarrow> bool" where
  "pump_ok st \<longleftrightarrow> (stopped st \<longleftrightarrow> pc_err (capture st) \<noteq> None)"

lemma pc_err_handle_msg [simp]: "pc_err (handle_msg decode now m c) = pc_err c"
  by (cases m) (auto simp: record_change_def split: option.splits)

lemma send_status_simps [simp]:
  "capture (send_status now st) = capture st" "stopped (send_status now st) = stopped st"
  by (simp_all add: send_status_def)

text \<open>The pump refines the source's event: its loop changes the capture as \<open>pg_arrive\<close> does.\<close>

lemma pump_turn_capture:
  "pump_ok st \<Longrightarrow>
   capture (pump_turn decode now raw st) = pg_arrive decode (now, raw) (capture st) \<and>
   pump_ok (pump_turn decode now raw st)"
  by (auto simp: pump_ok_def pump_turn_def pg_arrive_def setErr_def Let_def
      split: pg_raw.splits option.splits prod.splits)

section \<open>The attribution window\<close>

definition BeginWindow_pg :: "PgCapture \<Rightarrow> PgCapture" where
  "BeginWindow_pg c = c\<lparr>pc_changes := [], windowStart := lastCommitLSN c, pc_lastEvent := None\<rparr>"

definition pg_drain :: "PgCapture \<Rightarrow> RowChange list \<times> PgCapture" where
  "pg_drain c = (pc_changes c, c\<lparr>pc_changes := []\<rparr>)"

definition pg_failed :: "PgCapture \<Rightarrow> string option" where
  "pg_failed c = map_option (\<lambda>e. ''['' @ pc_name c @ ''] pg capture failed: '' @ e) (pc_err c)"

definition pg_millis :: "int \<Rightarrow> int" where
  "pg_millis ms = ms * 1000000"

definition pg_window_stops :: "Attribution \<Rightarrow> int \<Rightarrow> int \<Rightarrow> (int \<times> pg_raw) poll \<Rightarrow> PgCapture \<Rightarrow> bool" where
  "pg_window_stops attr deadline opened p c \<longleftrightarrow>
     windowStart c < lastCommitLSN c \<or>
     (pc_changes c = [] \<and> pg_millis (QuietMs attr) \<le> now_quiet p - opened) \<or>
     deadline < now_deadline p"

definition TakeWindow_pg ::
  "(32 word \<Rightarrow> string \<Rightarrow> gval option) \<Rightarrow> Attribution \<Rightarrow> int \<Rightarrow> int \<Rightarrow> (int \<times> pg_raw) poll list \<Rightarrow> PgCapture \<Rightarrow>
   ((string + RowChange list) \<times> PgCapture) option" where
  "TakeWindow_pg decode attr now opened polls c =
     poll_loop (pg_arrive decode) pg_failed
       (pg_window_stops attr (now + pg_millis (TimeoutMs attr)) opened) pg_drain polls c"

definition pg_rows :: "(32 word \<Rightarrow> string \<Rightarrow> gval option) \<Rightarrow> int \<times> pg_raw \<Rightarrow> PgCapture \<Rightarrow> RowChange list" where
  "pg_rows decode ev c = drop (length (pc_changes c)) (pc_changes (pg_arrive decode ev c))"

lemma changes_handle_msg:
  "pc_changes (handle_msg decode now m c) =
     pc_changes c @ drop (length (pc_changes c)) (pc_changes (handle_msg decode now m c))"
  by (cases m) (auto simp: record_change_def split: option.splits)

lemma changes_pg_arrive: "pc_changes (pg_arrive decode ev c) = pc_changes c @ pg_rows decode ev c"
proof (cases "snd ev")
  case (XLogData x)
  then show ?thesis
    using changes_handle_msg [of decode "fst ev" _ c]
    by (auto simp: pg_rows_def pg_arrive_def split: option.splits)
qed (simp_all add: pg_rows_def pg_arrive_def setErr_def)

interpretation postgres: fresh_source "pg_arrive decode" BeginWindow_pg pg_drain pc_changes "pg_rows decode"
  for decode
  by unfold_locales
    (simp_all add: changes_pg_arrive pg_drain_def BeginWindow_pg_def)

text \<open>
  C18.  The PostgreSQL source never attributes a row change twice nor out of order, and a window holds
  only what arrived since its \<open>BeginWindow\<close>: over any schedule the windows taken and the rest of the
  buffer are a subsequence of what arrived, and a window that returns is the rows of the messages
  from its start to its end, in order.
\<close>

theorem pg_windows_sound:
  assumes "postgres.run decode schedule c = (windows, arrived, c')"
    and "TakeWindow_pg decode attr now opened polls (BeginWindow_pg d) = Some (Inr ws, d')"
  shows "subseq (concat windows @ pc_changes c') (pc_changes c @ arrived) \<and>
    (\<exists>n < length polls. ws = postgres.rows_all decode
       (concat (map arrivals (take (Suc n) polls)) @ late (polls ! n)) (BeginWindow_pg d))"
proof
  show "subseq (concat windows @ pc_changes c') (pc_changes c @ arrived)"
    by (rule postgres.no_change_twice [OF assms(1)])
  show "\<exists>n < length polls. ws = postgres.rows_all decode
       (concat (map arrivals (take (Suc n) polls)) @ late (polls ! n)) (BeginWindow_pg d)"
    using assms(2) unfolding TakeWindow_pg_def by (rule postgres.window_after_begin) blast
qed

definition demo_rel :: Relation where
  "demo_rel = \<lparr>rel_ID = 7, rel_Namespace = ''public'', rel_Name = ''t'',
     rel_Columns = [\<lparr>rel_col_Name = ''id'', rel_col_Type = 23\<rparr>]\<rparr>"

definition demo_pg_poll :: "(int \<times> pg_raw) poll" where
  "demo_pg_poll = \<lparr>arrivals =
       [(1, XLogData (Some (0, 10, Some (RelationMsg demo_rel)))),
        (2, XLogData (Some (10, 10, Some (InsertMsg 7 (Some [(CHR ''t'', ''5'')]))))),
        (3, XLogData (Some (20, 10, Some (CommitMsg 30))))],
     now_quiet = 4, now_deadline = 4, trx_count = Inr 0, late = []\<rparr>"

theorem pg_windows_sound_witness:
  "\<exists>ws d'. TakeWindow_pg (\<lambda>_ _. None) \<lparr>QuietMs = 300, TimeoutMs = 5000, CheckInnodbTrx = None\<rparr> 0 0
       [demo_pg_poll] (BeginWindow_pg (NewCapture ''new'')) = Some (Inr ws, d') \<and> length ws = 1 \<and>
     ws = postgres.rows_all (\<lambda>_ _. None) (arrivals demo_pg_poll) (BeginWindow_pg (NewCapture ''new''))"
proof -
  let ?attr = "\<lparr>QuietMs = 300, TimeoutMs = 5000, CheckInnodbTrx = None\<rparr>"
  let ?t = "TakeWindow_pg (\<lambda>_ _. None) ?attr 0 0 [demo_pg_poll] (BeginWindow_pg (NewCapture ''new''))"
  have "case ?t of Some (Inr ws, _) \<Rightarrow> length ws = 1 | _ \<Rightarrow> False" by code_simp
  then obtain ws d' where t: "?t = Some (Inr ws, d')" and l: "length ws = 1"
    by (auto split: option.splits sum.splits)
  have "postgres.run (\<lambda>_ _. None) [] (NewCapture ''new'') = ([], [], NewCapture ''new'')" by simp
  from pg_windows_sound [OF this t] have "ws = postgres.rows_all (\<lambda>_ _. None) (arrivals demo_pg_poll)
      (BeginWindow_pg (NewCapture ''new''))"
    by (auto simp: demo_pg_poll_def)
  with t l show ?thesis by blast
qed

text \<open>
  \<open>TakeWindow\<close> of the PostgreSQL source returns: with 20 ms between polls, a schedule with more
  polls than fit before the deadline is never exhausted.
\<close>

theorem pg_TakeWindow_returns:
  assumes "\<And>i. i < length polls \<Longrightarrow> now + int i * pg_millis 20 \<le> now_deadline (polls ! i)"
    and "0 \<le> TimeoutMs attr" and "nat (TimeoutMs attr div 20) + 1 < length polls"
  shows "TakeWindow_pg decode attr now opened polls c \<noteq> None"
  unfolding TakeWindow_pg_def
proof (rule poll_loop_deadline)
  show "now + pg_millis (TimeoutMs attr) < now + int (nat (TimeoutMs attr div 20) + 1) * pg_millis 20"
  proof -
    have "TimeoutMs attr < (TimeoutMs attr div 20 + 1) * 20" by presburger
    then show ?thesis using assms(2) by (simp add: pg_millis_def algebra_simps)
  qed
qed (use assms in \<open>auto simp: pg_window_stops_def\<close>)

definition demo_idle_poll :: "int \<Rightarrow> (int \<times> pg_raw) poll" where
  "demo_idle_poll t = \<lparr>arrivals = [], now_quiet = t, now_deadline = t, trx_count = Inr 0, late = []\<rparr>"

theorem pg_TakeWindow_returns_witness:
  "TakeWindow_pg (\<lambda>_ _. None) \<lparr>QuietMs = 300, TimeoutMs = 30, CheckInnodbTrx = None\<rparr> 0 0
     [demo_idle_poll 0, demo_idle_poll 20000000, demo_idle_poll 40000000] (NewCapture ''new'') \<noteq> None"
proof (rule pg_TakeWindow_returns)
  fix i assume "i < length [demo_idle_poll 0, demo_idle_poll 20000000, demo_idle_poll 40000000]"
  then have "i = 0 \<or> i = 1 \<or> i = 2" by auto
  then show "0 + int i * pg_millis 20
      \<le> now_deadline ([demo_idle_poll 0, demo_idle_poll 20000000, demo_idle_poll 40000000] ! i)"
    by (auto simp: demo_idle_poll_def pg_millis_def)
qed simp_all

text \<open>A change that arrives between two windows is dropped by the next \<open>BeginWindow\<close>.\<close>

lemma pg_between_windows_dropped: "pc_changes (BeginWindow_pg c) = []"
  by (simp add: BeginWindow_pg_def)

end
