(* ===== verification/Wscapture.thy ===== *)
theory Wscapture
  imports Binlog PgCapture
begin

text \<open>\<open>internal/wscapture/factory.go\<close>: which source captures the write-set of a stack.\<close>

datatype source =
    BinlogSource Capture "MySQL option" "32 word"
  | PgSource PgCapture Datastore

text \<open>The loop over the datastores returns in its first turn: \<open>Inr None\<close> is the nil source.\<close>

definition For :: "string \<Rightarrow> Stack \<Rightarrow> 32 word \<Rightarrow> (string \<times> string) + source option" where
  "For name stack serverID =
     (case Datastores stack of
        [] \<Rightarrow> Inr None
      | d # _ \<Rightarrow>
          if ds_Type d = '''' \<or> ds_Type d = ''mysql''
          then Inr (Some (BinlogSource (New_Capture name) (Datastore_MySQL d) serverID))
          else if ds_Type d = ''postgres'' then Inr (Some (PgSource (NewCapture name) d))
          else Inl (ds_Name d, ds_Type d))"

lemma For_not_Inl: "\<forall>d \<in> set (Datastores s). wf_datastore d \<Longrightarrow> For name s sid \<noteq> Inl e"
  by (cases "Datastores s") (auto simp: For_def wf_datastore_def)

text \<open>
  C20.  For a configuration that loaded, choosing the source of either stack never fails: there is
  none exactly when the stack lists no datastore, and otherwise the first datastore decides, a MySQL
  one by its binlog with the connection of that datastore, a PostgreSQL one by logical decoding.
\<close>

theorem For_loaded:
  assumes "finish_config cfg = Returns (Inr cfg')" and "s = Old_stack cfg' \<or> s = New_stack cfg'"
  shows "\<exists>src. For name s sid = Inr src \<and> (src = None \<longleftrightarrow> Datastores s = []) \<and>
    (case src of
       None \<Rightarrow> True
     | Some (BinlogSource c m i) \<Rightarrow>
         ds_Type (hd (Datastores s)) = ''mysql'' \<and> c = New_Capture name \<and> i = sid \<and>
         m \<noteq> None \<and> m = PrimaryMySQL s
     | Some (PgSource c d) \<Rightarrow>
         ds_Type (hd (Datastores s)) = ''postgres'' \<and> c = NewCapture name \<and> d = hd (Datastores s))"
proof -
  have wf: "\<forall>d \<in> set (Datastores s). wf_datastore d"
    using finish_config_wf [OF assms(1)] assms(2) by (auto simp: wf_config_def wf_stack_def)
  then show ?thesis
    by (cases "Datastores s")
      (auto simp: For_def wf_datastore_def PrimaryMySQL_def Datastore_MySQL_def)
qed

theorem For_loaded_witness:
  "\<exists>cfg' src. finish_config (as_decoded demo_config) = Returns (Inr cfg') \<and>
     For ''new'' (New_stack cfg') 1 = Inr (Some src)"
proof -
  let ?f = "finish_config (as_decoded demo_config)"
  have "case ?f of Returns (Inr c) \<Rightarrow> Datastores (New_stack c) \<noteq> [] | _ \<Rightarrow> False" by code_simp
  then obtain c where c: "?f = Returns (Inr c)" "Datastores (New_stack c) \<noteq> []"
    by (cases ?f) (simp_all split: sum.splits)
  with For_loaded [OF c(1), of "New_stack c" "''new''" 1] show ?thesis by (auto split: option.splits)
qed

text \<open>Without loading, an unsupported type in the first place is an error even when a later datastore
  could be captured.\<close>

lemma For_first_unsupported:
  "ds_Type d = ''oracle'' \<Longrightarrow> Datastores s = d # ds \<Longrightarrow> For name s sid = Inl (ds_Name d, ''oracle'')"
  by (simp add: For_def)

end
