(* ===== verification/Lifecycle.thy ===== *)
theory Lifecycle
  imports Wscapture
begin

text \<open>
  \<open>Start\<close> and \<open>Stop\<close> of the write-set sources (\<open>internal/binlog/capture.go\<close>, \<open>internal/pg/capture.go\<close>) and of
  the replayer's two stacks (\<open>replay.go\<close>, \<open>verify.go\<close>).  The libraries are seen as the calls made on them,
  each with whether it succeeded; the servers' answers are parameters.  A call that succeeds acquires or
  releases connections, streams, goroutines and publications, and the lemmas count these: what a source
  holds after \<open>Start\<close>, failed or not, is what its \<open>Stop\<close> gives back.
\<close>

section \<open>Calls and resources\<close>

record SyncerConfig =
  sy_ServerID :: "32 word"
  sy_Flavor :: string
  sy_Host :: string
  sy_Port :: "16 word"
  sy_User :: string
  sy_Password :: string
  sy_UseDecimal :: bool

datatype source_call =
    OpenDB string | QueryDB string | CloseDB
  | NewSyncer SyncerConfig | StartSync string "32 word" | CloseSyncer
  | GoPump | CancelPump
  | Connect string | ConnClose string | ReplClose string string
  | ExecSQL string string | ReadSQL string string
  | DropPublication string string | CreatePublication string string
  | DropSlot string | CreateSlot string string | IdentifySystem | StartReplication string "64 word" "string list"

type_synonym call_log = "(source_call \<times> bool) list"

datatype resource = DBPool | Syncer | PumpRoutine | PgConn string | Slot string string

text \<open>What is live: handles, sessions and slots with their number, and the publications that exist as
  pairs of a connection string and a name.  A temporary slot ends with the session that made it.\<close>

type_synonym live = "resource multiset \<times> (string \<times> string) set"

fun on_handles :: "source_call \<Rightarrow> resource multiset \<Rightarrow> resource multiset" where
  "on_handles (OpenDB _) H = add_mset DBPool H"
| "on_handles CloseDB H = H - {#DBPool#}"
| "on_handles (NewSyncer _) H = add_mset Syncer H"
| "on_handles CloseSyncer H = H - {#Syncer#}"
| "on_handles GoPump H = add_mset PumpRoutine H"
| "on_handles CancelPump H = H - {#PumpRoutine#}"
| "on_handles (Connect c) H = add_mset (PgConn c) H"
| "on_handles (ConnClose c) H = H - {#PgConn c#}"
| "on_handles (ReplClose c n) H = H - {#PgConn c, Slot c n#}"
| "on_handles (CreateSlot c n) H = add_mset (Slot c n) H"
| "on_handles _ H = H"

fun on_pubs :: "source_call \<Rightarrow> (string \<times> string) set \<Rightarrow> (string \<times> string) set" where
  "on_pubs (CreatePublication c p) P = insert (c, p) P"
| "on_pubs (DropPublication c p) P = P - {(c, p)}"
| "on_pubs _ P = P"

definition live_step :: "live \<Rightarrow> source_call \<times> bool \<Rightarrow> live" where
  "live_step L c = (if snd c then (on_handles (fst c) (fst L), on_pubs (fst c) (snd L)) else L)"

definition live_after :: "call_log \<Rightarrow> live \<Rightarrow> live" where
  "live_after cs L = foldl live_step L cs"

lemma live_after_simps [simp]:
  "live_after [] L = L"
  "live_after (c # cs) L = live_after cs (live_step L c)"
  "live_after (cs @ ds) L = live_after ds (live_after cs L)"
  by (simp_all add: live_after_def)

lemma live_step_simps [simp]:
  "live_step L (c, True) = (on_handles c (fst L), on_pubs c (snd L))"
  "live_step L (c, False) = L"
  by (simp_all add: live_step_def)

section \<open>The MySQL source\<close>

text \<open>A status query answers with the column names and the first row, if any; a column's text is absent
  when it is NULL.\<close>

record status_rows =
  sr_cols :: "string list option"
  sr_row :: "string option list option"

record mysql_server =
  sv_open :: "string option"
  sv_status :: "string \<Rightarrow> status_rows option"
  sv_sync :: "string \<Rightarrow> 32 word \<Rightarrow> string option"

text \<open>\<open>rows.Scan\<close> into a \<open>uint32\<close>: the decimal digits of a number of at most 32 bits.\<close>

definition scan_uint32 :: "string option \<Rightarrow> 32 word option" where
  "scan_uint32 v =
     (case v of
        None \<Rightarrow> None
      | Some s \<Rightarrow>
          if s \<noteq> '''' \<and> list_all is_digit s \<and> str_dec s < 2 ^ 32 then Some (word_of_int (str_dec s))
          else None)"

definition tryPosition :: "mysql_server \<Rightarrow> string \<Rightarrow> (string \<times> 32 word) option" where
  "tryPosition sv stmt =
     (case sv_status sv stmt of
        None \<Rightarrow> None
      | Some rows \<Rightarrow>
          (case (sr_row rows, sr_cols rows) of
             (Some vals, Some cols) \<Rightarrow>
               if length cols < 2 \<or> length vals \<noteq> length cols then None
               else (case (vals ! 0, scan_uint32 (vals ! 1)) of
                       (Some file, Some pos) \<Rightarrow> Some (file, pos)
                     | _ \<Rightarrow> None)
           | _ \<Rightarrow> None))"

fun first_position :: "mysql_server \<Rightarrow> string list \<Rightarrow> (string \<times> 32 word) option \<times> call_log" where
  "first_position sv [] = (None, [])"
| "first_position sv (stmt # stmts) =
     (let asked = (QueryDB stmt, sv_status sv stmt \<noteq> None)
      in case tryPosition sv stmt of
           Some at \<Rightarrow> (Some at, [asked])
         | None \<Rightarrow> (case first_position sv stmts of (at, cs) \<Rightarrow> (at, asked # cs)))"

definition position_stmts :: "string list" where
  "position_stmts = [''SHOW MASTER STATUS'', ''SHOW BINARY LOG STATUS'']"

definition currentPosition :: "mysql_server \<Rightarrow> MySQL \<Rightarrow> (string + string \<times> 32 word) \<times> call_log" where
  "currentPosition sv my =
     (case first_position sv position_stmts of
        (Some at, cs) \<Rightarrow> (Inr at, cs)
      | (None, cs) \<Rightarrow>
          (Inl (''read binlog position on '' @ MySQL_Addr my @ '' (is binary logging enabled?)''), cs))"

text \<open>Which of the fields \<open>db\<close>, \<open>syncer\<close> and \<open>cancel\<close> are set.\<close>

record BinlogHandles =
  bh_db :: bool
  bh_syncer :: bool
  bh_cancel :: bool

definition no_binlog :: BinlogHandles where
  "no_binlog = \<lparr>bh_db = False, bh_syncer = False, bh_cancel = False\<rparr>"

definition labelled :: "string \<Rightarrow> string \<Rightarrow> string" where
  "labelled name msg = ''['' @ name @ ''] '' @ msg"

definition syncer_config :: "MySQL \<Rightarrow> 32 word \<Rightarrow> SyncerConfig" where
  "syncer_config my serverID =
     \<lparr>sy_ServerID = serverID, sy_Flavor = ''mysql'', sy_Host = my_Host my, sy_Port = word_of_int (my_Port my),
      sy_User = my_User my, sy_Password = my_Password my, sy_UseDecimal = True\<rparr>"

definition binlog_Start ::
  "string \<Rightarrow> MySQL \<Rightarrow> 32 word \<Rightarrow> mysql_server \<Rightarrow> string option \<times> BinlogHandles \<times> call_log" where
  "binlog_Start name my serverID sv =
     (case sv_open sv of
        Some e \<Rightarrow> (Some e, no_binlog, [(OpenDB (MySQL_DSN my), False)])
      | None \<Rightarrow>
          (let h = no_binlog\<lparr>bh_db := True\<rparr>; cs = [(OpenDB (MySQL_DSN my), True)]
           in case currentPosition sv my of
                (Inl e, asked) \<Rightarrow> (Some (labelled name e), h, cs @ asked)
              | (Inr (file, pos), asked) \<Rightarrow>
                  (let h = h\<lparr>bh_syncer := True\<rparr>;
                       cs = cs @ asked @ [(NewSyncer (syncer_config my serverID), True)]
                   in case sv_sync sv file pos of
                        Some e \<Rightarrow>
                          (Some (labelled name (''start binlog sync: '' @ e)), h, cs @ [(StartSync file pos, False)])
                      | None \<Rightarrow>
                          (None, h\<lparr>bh_cancel := True\<rparr>,
                           cs @ [(StartSync file pos, True), (GoPump, True)]))))"

definition binlog_Stop :: "BinlogHandles \<Rightarrow> call_log" where
  "binlog_Stop h =
     (if bh_cancel h then [(CancelPump, True)] else []) @
     (if bh_syncer h then [(CloseSyncer, True)] else []) @
     (if bh_db h then [(CloseDB, True)] else [])"


section \<open>The PostgreSQL source\<close>

text \<open>The answers of a server: the error of a connection or a statement, the results of a query (each the
  texts of its first column), the errors of the replication commands and the position of the server.\<close>

record pg_server =
  sp_connect :: "string \<Rightarrow> string option"
  sp_exec :: "string \<Rightarrow> string option"
  sp_read :: "string \<Rightarrow> string list list option"
  sp_dropSlot :: "string option"
  sp_createSlot :: "string option"
  sp_identify :: "string + 64 word"
  sp_startRepl :: "string option"

definition drop_publication :: "string \<Rightarrow> string" where
  "drop_publication p = ''DROP PUBLICATION IF EXISTS '' @ p"

definition create_publication :: "string \<Rightarrow> string" where
  "create_publication p = ''CREATE PUBLICATION '' @ p @ '' FOR ALL TABLES''"

definition schema_tables :: "string \<Rightarrow> string" where
  "schema_tables schema =
     ''SELECT quote_ident(schemaname)||'' @ [sq] @ ''.'' @ [sq] @
     ''||quote_ident(tablename) FROM pg_tables WHERE schemaname = '' @ quoteLiteral schema"

definition replica_identity :: "string \<Rightarrow> string" where
  "replica_identity qtable = ''ALTER TABLE '' @ qtable @ '' REPLICA IDENTITY FULL''"

definition alter_tables :: "pg_server \<Rightarrow> string \<Rightarrow> string list \<Rightarrow> call_log" where
  "alter_tables sv conn qtables =
     map (\<lambda>t. (ExecSQL conn (replica_identity t), sp_exec sv (replica_identity t) = None)) qtables"

definition setReplicaIdentityFull :: "pg_server \<Rightarrow> string \<Rightarrow> string list \<Rightarrow> call_log" where
  "setReplicaIdentityFull sv conn schemas =
     concat (map (\<lambda>schema.
       (ReadSQL conn (schema_tables schema), sp_read sv (schema_tables schema) \<noteq> None) #
       (case sp_read sv (schema_tables schema) of
          Some (rows # _) \<Rightarrow> alter_tables sv conn rows
        | _ \<Rightarrow> [])) schemas)"

text \<open>Which of the fields \<open>admin\<close>, \<open>conn\<close> and \<open>cancel\<close> are set.\<close>

record PgHandles =
  ph_admin :: bool
  ph_conn :: bool
  ph_cancel :: bool
  ph_slot :: bool

definition no_pg :: PgHandles where
  "no_pg = \<lparr>ph_admin = False, ph_conn = False, ph_cancel = False, ph_slot = False\<rparr>"

definition admin_conn :: "Datastore \<Rightarrow> string" where
  "admin_conn d = connString d (databaseName d)"

definition repl_conn :: "Datastore \<Rightarrow> string" where
  "repl_conn d = connString d (databaseName d) @ '' replication=database''"

definition plugin_args :: "string \<Rightarrow> string list" where
  "plugin_args p =
     [''proto_version '' @ [sq] @ ''2'' @ [sq], ''publication_names '' @ [sq] @ p @ [sq],
      ''messages '' @ [sq] @ ''true'' @ [sq]]"

text \<open>From the replication connection on: the slot, the position of the server, the stream.\<close>

definition start_stream ::
  "PgCapture \<Rightarrow> Datastore \<Rightarrow> pg_server \<Rightarrow> PgHandles \<Rightarrow> string option \<times> PgHandles \<times> call_log" where
  "start_stream c d sv h =
     (let dropped = (DropSlot (slot c), sp_dropSlot sv = None)
      in case sp_createSlot sv of
           Some e \<Rightarrow>
             (Some (labelled (pc_name c) (''create slot: '' @ e)), h,
              [dropped, (CreateSlot (repl_conn d) (slot c), False)])
         | None \<Rightarrow>
             (let h = h\<lparr>ph_slot := True\<rparr>; cs = [dropped, (CreateSlot (repl_conn d) (slot c), True)]
              in case sp_identify sv of
                   Inl e \<Rightarrow>
                     (Some (labelled (pc_name c) (''identify system: '' @ e)), h, cs @ [(IdentifySystem, False)])
                 | Inr lsn \<Rightarrow>
                     (let start = StartReplication (slot c) lsn (plugin_args (pub c));
                          cs = cs @ [(IdentifySystem, True)]
                      in case sp_startRepl sv of
                           Some e \<Rightarrow>
                             (Some (labelled (pc_name c) (''start replication: '' @ e)), h, cs @ [(start, False)])
                         | None \<Rightarrow> (None, h\<lparr>ph_cancel := True\<rparr>, cs @ [(start, True), (GoPump, True)]))))"

definition pg_Start ::
  "PgCapture \<Rightarrow> Datastore \<Rightarrow> pg_server \<Rightarrow> string option \<times> PgHandles \<times> call_log" where
  "pg_Start c d sv =
     (case sp_connect sv (admin_conn d) of
        Some e \<Rightarrow>
          (Some (labelled (pc_name c) (''pg admin connect: '' @ e)), no_pg, [(Connect (admin_conn d), False)])
      | None \<Rightarrow>
          (let h = no_pg\<lparr>ph_admin := True\<rparr>;
               cs = [(Connect (admin_conn d), True),
                     (DropPublication (admin_conn d) (pub c), sp_exec sv (drop_publication (pub c)) = None)]
           in case sp_exec sv (create_publication (pub c)) of
                Some e \<Rightarrow>
                  (Some (labelled (pc_name c) (''create publication: '' @ e)), h,
                   cs @ [(CreatePublication (admin_conn d) (pub c), False)])
              | None \<Rightarrow>
                  (let cs = cs @ [(CreatePublication (admin_conn d) (pub c), True)] @
                         setReplicaIdentityFull sv (admin_conn d) (ds_Schemas d)
                   in case sp_connect sv (repl_conn d) of
                        Some e \<Rightarrow>
                          (Some (labelled (pc_name c) (''pg replication connect: '' @ e)), h,
                           cs @ [(Connect (repl_conn d), False)])
                      | None \<Rightarrow>
                          (case start_stream c d sv (h\<lparr>ph_conn := True\<rparr>) of
                             (r, h, streamed) \<Rightarrow> (r, h, cs @ [(Connect (repl_conn d), True)] @ streamed)))))"

text \<open>Closing the replication connection ends its temporary slot; \<open>ph_slot\<close> only says whether there is
  one.\<close>

definition pg_Stop :: "PgCapture \<Rightarrow> Datastore \<Rightarrow> pg_server \<Rightarrow> PgHandles \<Rightarrow> call_log" where
  "pg_Stop c d sv h =
     (if ph_cancel h then [(CancelPump, True)] else []) @
     (if ph_conn h then [(if ph_slot h then ReplClose (repl_conn d) (slot c) else ConnClose (repl_conn d), True)]
      else []) @
     (if ph_admin h
      then [(DropPublication (admin_conn d) (pub c), sp_exec sv (drop_publication (pub c)) = None),
            (ConnClose (admin_conn d), True)]
      else [])"


section \<open>Several sources\<close>

text \<open>\<open>Start\<close> of the sources in order stops at the first error; those after it stay \<open>idle\<close>.  \<open>Stop\<close> goes
  through all of them.\<close>

fun start_each ::
  "('s \<Rightarrow> 'e \<Rightarrow> string option \<times> 'h \<times> call_log) \<Rightarrow> ('s \<Rightarrow> 'h) \<Rightarrow> ('s \<times> 'e) list \<Rightarrow>
   string option \<times> 'h list \<times> call_log" where
  "start_each start idle [] = (None, [], [])"
| "start_each start idle ((s, e) # rest) =
     (case start s e of
        (Some err, h, cs) \<Rightarrow> (Some err, h # map (idle \<circ> fst) rest, cs)
      | (None, h, cs) \<Rightarrow> (case start_each start idle rest of (r, hs, ds) \<Rightarrow> (r, h # hs, cs @ ds)))"

fun stop_each :: "('s \<Rightarrow> 'e \<Rightarrow> 'h \<Rightarrow> call_log) \<Rightarrow> ('s \<times> 'e) list \<Rightarrow> 'h list \<Rightarrow> call_log" where
  "stop_each stop ((s, e) # rest) (h # hs) = stop s e h @ stop_each stop rest hs"
| "stop_each stop _ _ = []"

definition owns_each :: "('s \<Rightarrow> 'h \<Rightarrow> resource multiset) \<Rightarrow> 's list \<Rightarrow> 'h list \<Rightarrow> resource multiset" where
  "owns_each owns ss hs = sum_list (map2 owns ss hs)"

definition names_each ::
  "('s \<Rightarrow> 'h \<Rightarrow> (string \<times> string) set) \<Rightarrow> 's list \<Rightarrow> 'h list \<Rightarrow> (string \<times> string) set" where
  "names_each names ss hs = \<Union> (set (map2 names ss hs))"

lemma owns_each_simps [simp]:
  "owns_each owns [] hs = {#}" "owns_each owns (s # ss) (h # hs) = owns s h + owns_each owns ss hs"
  by (simp_all add: owns_each_def)

lemma names_each_simps [simp]:
  "names_each names [] hs = {}" "names_each names (s # ss) (h # hs) = names s h \<union> names_each names ss hs"
  by (simp_all add: names_each_def)

lemma start_each_length: "start_each start idle ss = (r, hs, cs) \<Longrightarrow> length hs = length ss"
  by (induction ss arbitrary: r hs cs) (auto split: prod.splits option.splits)

section \<open>The contract of a source\<close>

text \<open>What a client of \<open>writeset.Source\<close> relies on: \<open>Start\<close> acquires what its handles say, whether or not
  it succeeds, and \<open>Stop\<close> releases what the handles say.  \<open>names\<close> are the publications a source may
  have made; the drop in \<open>Stop\<close> is assumed to succeed by \<open>stoppable\<close>.\<close>

locale managed_source =
  fixes start :: "'s \<Rightarrow> 'e \<Rightarrow> string option \<times> 'h \<times> call_log"
    and stop :: "'s \<Rightarrow> 'e \<Rightarrow> 'h \<Rightarrow> call_log"
    and idle :: "'s \<Rightarrow> 'h"
    and owns :: "'s \<Rightarrow> 'h \<Rightarrow> resource multiset"
    and names :: "'s \<Rightarrow> 'h \<Rightarrow> (string \<times> string) set"
    and stoppable :: "'s \<Rightarrow> 'e \<Rightarrow> bool"
  assumes start_acquires:
      "start s e = (r, h, cs) \<Longrightarrow>
       \<exists>P'. live_after cs (H, P) = (H + owns s h, P') \<and> P' \<subseteq> P \<union> names s h"
    and stop_releases:
      "stoppable s e \<Longrightarrow> live_after (stop s e h) (H, P) = (H - owns s h, P - names s h)"
    and idle_owns: "owns s (idle s) = {#}" "names s (idle s) = {}"
begin

lemma idle_each:
  "owns_each owns (map fst ss) (map (idle \<circ> fst) ss) = {#} \<and>
   names_each names (map fst ss) (map (idle \<circ> fst) ss) = {}"
  by (induction ss) (auto simp: idle_owns)

lemma start_each_acquires:
  "start_each start idle ss = (r, hs, cs) \<Longrightarrow>
   \<exists>P'. live_after cs (H, P) = (H + owns_each owns (map fst ss) hs, P') \<and>
     P' \<subseteq> P \<union> names_each names (map fst ss) hs"
proof (induction ss arbitrary: r hs cs H P)
  case (Cons se rest)
  obtain s e where se: "se = (s, e)" by (cases se)
  obtain r1 h1 c1 where st: "start s e = (r1, h1, c1)" by (cases "start s e") blast
  from start_acquires [OF st, of H P]
  obtain P1 where P1: "live_after c1 (H, P) = (H + owns s h1, P1)" "P1 \<subseteq> P \<union> names s h1" by blast
  show ?case
  proof (cases r1)
    case None
    obtain r2 hs2 c2 where rest: "start_each start idle rest = (r2, hs2, c2)"
      by (cases "start_each start idle rest") blast
    with Cons.prems st None se have eq: "hs = h1 # hs2" "cs = c1 @ c2" by auto
    from Cons.IH [OF rest, of "H + owns s h1" P1] obtain P2 where
      "live_after c2 (H + owns s h1, P1) = (H + owns s h1 + owns_each owns (map fst rest) hs2, P2)"
      "P2 \<subseteq> P1 \<union> names_each names (map fst rest) hs2" by blast
    with P1 show ?thesis by (intro exI [of _ P2]) (auto simp: eq se add.assoc)
  next
    case (Some err)
    with Cons.prems st se have eq: "hs = h1 # map (idle \<circ> fst) rest" "cs = c1" by auto
    show ?thesis using P1 idle_each [of rest] by (intro exI [of _ P1]) (simp add: eq se)
  qed
qed auto

lemma stop_each_releases:
  "\<forall>(s, e) \<in> set ss. stoppable s e \<Longrightarrow> length hs = length ss \<Longrightarrow>
   live_after (stop_each stop ss hs) (H, P) =
     (H - owns_each owns (map fst ss) hs, P - names_each names (map fst ss) hs)"
proof (induction ss arbitrary: hs H P)
  case (Cons se rest)
  obtain s e where se: "se = (s, e)" by (cases se)
  obtain h hs' where hs: "hs = h # hs'" using Cons.prems(2) by (cases hs) auto
  have "live_after (stop s e h) (H, P) = (H - owns s h, P - names s h)"
    using Cons.prems(1) by (intro stop_releases) (simp add: se)
  then show ?case
    using Cons.IH [of hs' "H - owns s h" "P - names s h"] Cons.prems
    by (simp add: se hs Diff_eq Int_assoc)
qed simp

text \<open>Started and stopped, with any outcome of the start: nothing new stays behind.\<close>

lemma start_stop_each:
  assumes "start_each start idle ss = (r, hs, cs)" and "\<forall>(s, e') \<in> set ss'. stoppable s e'"
    and "map fst ss' = map fst ss"
  shows "\<exists>P'. live_after (cs @ stop_each stop ss' hs) (H, P) = (H, P') \<and> P' \<subseteq> P"
proof -
  have len: "length hs = length ss'"
    using start_each_length [OF assms(1)] assms(3) by (metis length_map)
  from start_each_acquires [OF assms(1), of H P] obtain P' where
    P': "live_after cs (H, P) = (H + owns_each owns (map fst ss) hs, P')"
      "P' \<subseteq> P \<union> names_each names (map fst ss) hs" by blast
  then show ?thesis using stop_each_releases [OF assms(2) len] by (auto simp: assms(3))
qed

end


section \<open>The sources keep the contract\<close>

definition binlog_owns :: "BinlogHandles \<Rightarrow> resource multiset" where
  "binlog_owns h =
     (if bh_cancel h then {#PumpRoutine#} else {#}) + (if bh_syncer h then {#Syncer#} else {#}) +
     (if bh_db h then {#DBPool#} else {#})"

lemma first_position_live [simp]: "first_position sv stmts = (at, cs) \<Longrightarrow> live_after cs L = L"
  by (induction stmts arbitrary: at cs) (auto simp: Let_def live_step_def split: option.splits prod.splits)

lemma currentPosition_live: "currentPosition sv my = (r, cs) \<Longrightarrow> live_after cs L = L"
  by (auto simp: currentPosition_def split: prod.splits option.splits)

lemma binlog_Start_acquires:
  assumes "binlog_Start name my serverID sv = (r, h, cs)"
  shows "live_after cs (H, P) = (H + binlog_owns h, P)"
  using assms
  by (cases "currentPosition sv my")
    (auto simp: binlog_Start_def Let_def binlog_owns_def no_binlog_def currentPosition_live
      split: option.splits sum.splits prod.splits)

lemma binlog_Stop_releases: "live_after (binlog_Stop h) (H, P) = (H - binlog_owns h, P)"
  by (auto simp: binlog_Stop_def binlog_owns_def)

definition pg_owns :: "PgCapture \<Rightarrow> Datastore \<Rightarrow> PgHandles \<Rightarrow> resource multiset" where
  "pg_owns c d h =
     (if ph_cancel h then {#PumpRoutine#} else {#}) +
     (if ph_conn h
      then {#PgConn (repl_conn d)#} + (if ph_slot h then {#Slot (repl_conn d) (slot c)#} else {#})
      else {#}) +
     (if ph_admin h then {#PgConn (admin_conn d)#} else {#})"

definition pg_names :: "PgCapture \<Rightarrow> Datastore \<Rightarrow> PgHandles \<Rightarrow> (string \<times> string) set" where
  "pg_names c d h = (if ph_admin h then {(admin_conn d, pub c)} else {})"

lemmas pg_owns_fields = pg_owns_def [of c d "PgHandles.make a b e s" for c d a b e s, unfolded PgHandles.defs, simplified]

lemma alter_tables_live [simp]: "live_after (alter_tables sv conn qtables) L = L"
  by (induction qtables) (auto simp: alter_tables_def live_step_def)

lemma setReplicaIdentityFull_live [simp]: "live_after (setReplicaIdentityFull sv conn schemas) L = L"
proof (induction schemas)
  case (Cons schema rest)
  then show ?case
    by (simp add: setReplicaIdentityFull_def live_step_def split: option.split list.split)
qed (simp add: setReplicaIdentityFull_def)

lemma start_stream_acquires:
  assumes "start_stream c d sv h = (r, h', cs)" and "\<not> ph_slot h" "\<not> ph_cancel h" "ph_conn h"
  shows "live_after cs (H, P) = (H + (pg_owns c d h' - pg_owns c d h), P)"
    and "ph_conn h'" "ph_admin h' = ph_admin h" "pg_owns c d h \<subseteq># pg_owns c d h'"
  using assms
  by (auto simp: start_stream_def Let_def pg_owns_def live_step_def add_mset_commute
      split: option.splits sum.splits)

lemma pg_Start_acquires:
  assumes "pg_Start c d sv = (r, h, cs)"
  shows "\<exists>P'. live_after cs (H, P) = (H + pg_owns c d h, P') \<and> P' \<subseteq> P \<union> pg_names c d h"
proof -
  let ?h = "no_pg\<lparr>ph_admin := True, ph_conn := True\<rparr>"
  obtain r2 h2 c2 where st: "start_stream c d sv ?h = (r2, h2, c2)" by (cases "start_stream c d sv ?h") blast
  have flags: "\<not> ph_slot ?h" "\<not> ph_cancel ?h" "ph_conn ?h" by (simp_all add: no_pg_def)
  note str = start_stream_acquires [OF st flags]
  have base: "pg_owns c d ?h = {#PgConn (repl_conn d), PgConn (admin_conn d)#}"
    by (simp add: pg_owns_def no_pg_def add_mset_commute)
  obtain X where X: "pg_owns c d h2 = pg_owns c d ?h + X" using str(4) by (auto simp: subset_mset.le_iff_add)
  then have own: "pg_owns c d h2 = {#PgConn (repl_conn d), PgConn (admin_conn d)#} + X"
    and new: "live_after c2 (H, P) = (H + X, P)" for H P
    using str(1) by (simp_all only: base add_diff_cancel_left')
  have adm: "ph_admin h2" using str(3) by (simp add: no_pg_def)
  show ?thesis
    using assms new adm own st
    by (auto simp: pg_Start_def Let_def pg_owns_fields pg_names_def no_pg_def live_step_def
        split: option.splits prod.splits)
qed

lemma pg_Stop_releases:
  assumes "sp_exec sv (drop_publication (pub c)) = None"
  shows "live_after (pg_Stop c d sv h) (H, P) = (H - pg_owns c d h, P - pg_names c d h)"
  using assms by (auto simp: pg_Stop_def pg_owns_def pg_names_def add_mset_commute)


interpretation mysql: managed_source
  "\<lambda>(name, my, i) sv. binlog_Start name my i sv" "\<lambda>_ _ h. binlog_Stop h" "\<lambda>_. no_binlog"
  "\<lambda>_. binlog_owns" "\<lambda>_ _. {}" "\<lambda>_ _. True"
  by unfold_locales
    (auto simp: binlog_Start_acquires binlog_Stop_releases, auto simp: binlog_owns_def no_binlog_def)

interpretation pg: managed_source
  "\<lambda>(c, d) sv. pg_Start c d sv" "\<lambda>(c, d) sv h. pg_Stop c d sv h" "\<lambda>_. no_pg"
  "\<lambda>(c, d). pg_owns c d" "\<lambda>(c, d). pg_names c d"
  "\<lambda>(c, d) sv. sp_exec sv (drop_publication (pub c)) = None"
  by unfold_locales
    (auto simp: pg_Start_acquires pg_Stop_releases, auto simp: pg_owns_def pg_names_def no_pg_def)

section \<open>A source of either kind\<close>

text \<open>The value behind the interface: a capture of \<open>binlog\<close> with its configuration, or one of \<open>pg\<close>.\<close>

datatype managed = OnMySQL Capture MySQL "32 word" | OnPostgres PgCapture Datastore

datatype managed_handles = MySQLHandles BinlogHandles | PgHandles PgHandles

record servers =
  se_mysql :: mysql_server
  se_pg :: pg_server

fun idle_handles :: "managed \<Rightarrow> managed_handles" where
  "idle_handles (OnMySQL _ _ _) = MySQLHandles no_binlog"
| "idle_handles (OnPostgres _ _) = PgHandles no_pg"

fun source_Start :: "managed \<Rightarrow> servers \<Rightarrow> string option \<times> managed_handles \<times> call_log" where
  "source_Start (OnMySQL c my i) e =
     (case binlog_Start (bc_name c) my i (se_mysql e) of (r, h, cs) \<Rightarrow> (r, MySQLHandles h, cs))"
| "source_Start (OnPostgres c d) e = (case pg_Start c d (se_pg e) of (r, h, cs) \<Rightarrow> (r, PgHandles h, cs))"

fun source_Stop :: "managed \<Rightarrow> servers \<Rightarrow> managed_handles \<Rightarrow> call_log" where
  "source_Stop (OnMySQL c my i) e (MySQLHandles h) = binlog_Stop h"
| "source_Stop (OnPostgres c d) e (PgHandles h) = pg_Stop c d (se_pg e) h"
| "source_Stop _ _ _ = []"

fun source_owns :: "managed \<Rightarrow> managed_handles \<Rightarrow> resource multiset" where
  "source_owns (OnMySQL c my i) (MySQLHandles h) = binlog_owns h"
| "source_owns (OnPostgres c d) (PgHandles h) = pg_owns c d h"
| "source_owns _ _ = {#}"

fun source_names :: "managed \<Rightarrow> managed_handles \<Rightarrow> (string \<times> string) set" where
  "source_names (OnPostgres c d) (PgHandles h) = pg_names c d h"
| "source_names _ _ = {}"

text \<open>The only thing \<open>Stop\<close> relies on: the server drops the publication.\<close>

fun drops :: "managed \<Rightarrow> servers \<Rightarrow> bool" where
  "drops (OnMySQL _ _ _) e = True"
| "drops (OnPostgres c d) e = (sp_exec (se_pg e) (drop_publication (pub c)) = None)"

interpretation src: managed_source source_Start source_Stop idle_handles source_owns source_names drops
proof
  fix s e r h cs H P
  assume "source_Start s e = (r, h, cs)"
  then show "\<exists>P'. live_after cs (H, P) = (H + source_owns s h, P') \<and> P' \<subseteq> P \<union> source_names s h"
    by (cases "(s, e)" rule: source_Start.cases)
      (auto simp: binlog_Start_acquires pg_Start_acquires split: prod.splits)
next
  fix s e h H P
  assume "drops s e"
  then show "live_after (source_Stop s e h) (H, P) = (H - source_owns s h, P - source_names s h)"
    by (cases "(s, e, h)" rule: source_Stop.cases) (simp_all add: binlog_Stop_releases pg_Stop_releases)
next
  fix s
  show "source_owns s (idle_handles s) = {#}" "source_names s (idle_handles s) = {}"
    by (cases s; simp add: binlog_owns_def no_binlog_def pg_owns_def pg_names_def no_pg_def)+
qed

section \<open>The stacks of a run\<close>

text \<open>\<open>NewRunner\<close> and \<open>NewVerifier\<close> keep no source when choosing one fails.\<close>

fun managed_of :: "source \<Rightarrow> managed option" where
  "managed_of (BinlogSource c None i) = None"
| "managed_of (BinlogSource c (Some my) i) = Some (OnMySQL c my i)"
| "managed_of (PgSource c d) = Some (OnPostgres c d)"

definition runtime_source :: "string \<Rightarrow> Stack \<Rightarrow> 32 word \<Rightarrow> managed option" where
  "runtime_source name stack serverID =
     (case For name stack serverID of
        Inl _ \<Rightarrow> None
      | Inr src \<Rightarrow> Option.bind src managed_of)"

text \<open>A source that is chosen always has its configuration.\<close>

lemma For_managed: "For name s i = Inr (Some src) \<Longrightarrow> managed_of src \<noteq> None"
  by (auto simp: For_def Datastore_MySQL_def split: list.splits if_splits)

text \<open>The client's timeout in nanoseconds, \<open>time.Duration(s * float64(time.Second))\<close>.\<close>

fun times_second :: "f64 \<Rightarrow> f64" where
  "times_second (FFin m e) =
     (if m = 0 then FFin 0 0 else f64_of_ratio (m < 0) (\<bar>m\<bar> * 10 ^ 9 * 2 ^ nat e) (2 ^ nat (- e)))"
| "times_second x = x"

definition http_timeout :: "Config_rec \<Rightarrow> 64 word" where
  "http_timeout cfg = f64_to_int64 (times_second (HTTPTimeoutS cfg))"

lemma http_timeout_examples:
  "f64_to_int64 (times_second (f64_of_int 10)) = 10000000000"
  "f64_to_int64 (times_second (f64_of_ratio False 1 10)) = 100000000"
  by code_simp+

record stackRuntime =
  rt_cfg :: Stack
  rt_capture :: "managed option"

record Runner =
  ru_cfg :: Config_rec
  ru_Timeout :: "64 word"
  ru_old :: stackRuntime
  ru_new :: stackRuntime

record Verifier =
  vr_cfg :: Config_rec
  vr_Timeout :: "64 word"
  vr_capture :: "managed option"

definition newRt :: "Stack \<Rightarrow> 32 word \<Rightarrow> stackRuntime" where
  "newRt stack serverID =
     \<lparr>rt_cfg = stack, rt_capture = runtime_source (st_Name stack) stack serverID\<rparr>"

definition NewRunner :: "Config_rec \<Rightarrow> Runner" where
  "NewRunner cfg =
     \<lparr>ru_cfg = cfg, ru_Timeout = http_timeout cfg, ru_old = newRt (Old_stack cfg) 5501,
      ru_new = newRt (New_stack cfg) 5502\<rparr>"

definition NewVerifier :: "Config_rec \<Rightarrow> Verifier" where
  "NewVerifier cfg =
     \<lparr>vr_cfg = cfg, vr_Timeout = http_timeout cfg, vr_capture = runtime_source ''new'' (New_stack cfg) 5502\<rparr>"

definition runner_captures :: "Runner \<Rightarrow> managed option list" where
  "runner_captures r = [rt_capture (ru_old r), rt_capture (ru_new r)]"

definition verifier_captures :: "Verifier \<Rightarrow> managed option list" where
  "verifier_captures v = [vr_capture v]"

text \<open>The loops over the stacks skip those without a source; \<open>e s\<close> are the servers of a source.\<close>

definition with_servers :: "(managed \<Rightarrow> servers) \<Rightarrow> managed option list \<Rightarrow> (managed \<times> servers) list" where
  "with_servers e rts = map (\<lambda>s. (s, e s)) (List.map_filter id rts)"

definition Start_stacks ::
  "(managed \<Rightarrow> servers) \<Rightarrow> managed option list \<Rightarrow> string option \<times> managed_handles list \<times> call_log" where
  "Start_stacks e rts = start_each source_Start idle_handles (with_servers e rts)"

definition Stop_stacks :: "(managed \<Rightarrow> servers) \<Rightarrow> managed option list \<Rightarrow> managed_handles list \<Rightarrow> call_log" where
  "Stop_stacks e rts hs = stop_each source_Stop (with_servers e rts) hs"

text \<open>A session of the dashboard or of the command line: \<open>Stop\<close> is deferred only once \<open>Start\<close> has
  succeeded.  \<open>e'\<close> are the servers when it runs.\<close>

definition session ::
  "(managed \<Rightarrow> servers) \<Rightarrow> (managed \<Rightarrow> servers) \<Rightarrow> managed option list \<Rightarrow> string option \<times> call_log" where
  "session e e' rts =
     (case Start_stacks e rts of
        (Some err, hs, cs) \<Rightarrow> (Some err, cs)
      | (None, hs, cs) \<Rightarrow> (None, cs @ Stop_stacks e' rts hs))"

text \<open>\<open>log.Fatalf\<close> ends the process without the deferred calls: its handles, sessions and temporary slots
  go with it, publications do not.\<close>

definition process_exit :: "live \<Rightarrow> live" where
  "process_exit L = ({#}, snd L)"


lemma fst_with_servers: "map fst (with_servers e rts) = List.map_filter id rts"
  by (simp add: with_servers_def comp_def)

lemma drops_with_servers:
  "\<forall>s. Some s \<in> set rts \<longrightarrow> drops s (e s) \<Longrightarrow> \<forall>(s, v) \<in> set (with_servers e rts). drops s v"
  by (force simp: with_servers_def List.map_filter_def)

text \<open>What a started PostgreSQL source holds, and what it was given to start with.\<close>

lemma pg_started:
  assumes "pg_Start c d sv = (None, h, cs)"
  shows "live_after cs (H, P) =
      (H + {#PumpRoutine, PgConn (repl_conn d), Slot (repl_conn d) (slot c), PgConn (admin_conn d)#},
       insert (admin_conn d, pub c) P) \<and>
    (\<exists>lsn. sp_identify sv = Inr lsn \<and>
      last cs = (GoPump, True) \<and>
      (StartReplication (slot c) lsn (plugin_args (pub c)), True) \<in> set cs)"
  using assms
  by (auto simp: pg_Start_def start_stream_def Let_def no_pg_def live_step_def add_mset_commute
      split: option.splits sum.splits prod.splits)

text \<open>The older statement is asked first; the newer one only when it has no usable answer.\<close>

lemma currentPosition_order:
  "fst (currentPosition sv my) =
     (case tryPosition sv ''SHOW MASTER STATUS'' of
        Some at \<Rightarrow> Inr at
      | None \<Rightarrow>
          (case tryPosition sv ''SHOW BINARY LOG STATUS'' of
             Some at \<Rightarrow> Inr at
           | None \<Rightarrow> Inl (''read binlog position on '' @ MySQL_Addr my @ '' (is binary logging enabled?)'')))"
  by (auto simp: currentPosition_def position_stmts_def Let_def split: option.splits prod.splits)

text \<open>A session whose start failed keeps what the sources it started hold: the dashboard, which goes on,
  never stops them.\<close>

lemma failed_session:
  assumes "Start_stacks e rts = (Some err, hs, cs)"
  shows "\<exists>P'. session e e' rts = (Some err, cs) \<and>
    live_after cs (H, P) = (H + owns_each source_owns (List.map_filter id rts) hs, P')"
  using src.start_each_acquires [OF assms [unfolded Start_stacks_def], of H P] assms
  by (auto simp: session_def fst_with_servers)

text \<open>
  C5.  Capturing leaves nothing behind: whatever the database servers answer to the start of the
  sources of a run, stopping them afterwards releases every connection, binlog stream, goroutine and
  replication slot that was acquired, and no publication is left that was not there before, provided
  the server drops the publication when it is told to.  In particular a session that started well ends
  that way; its sources were all started before it ran and are all stopped after it.
\<close>

theorem captures_released:
  assumes "Start_stacks e rts = (r, hs, cs)" and "\<forall>s. Some s \<in> set rts \<longrightarrow> drops s (e' s)"
  shows "(\<exists>P'. live_after (cs @ Stop_stacks e' rts hs) (H, P) = (H, P') \<and> P' \<subseteq> P) \<and>
    (r = None \<longrightarrow> session e e' rts = (None, cs @ Stop_stacks e' rts hs))"
  using src.start_stop_each [OF assms(1) [unfolded Start_stacks_def] drops_with_servers [OF assms(2)], of H P]
    assms(1)
  by (auto simp: Stop_stacks_def fst_with_servers session_def)

text \<open>Servers of a run whose old stack is MySQL and whose new one is PostgreSQL.\<close>

definition demo_mysql :: mysql_server where
  "demo_mysql =
     \<lparr>sv_open = None,
      sv_status = (\<lambda>stmt. if stmt = ''SHOW MASTER STATUS'' then None
        else Some \<lparr>sr_cols = Some [''File'', ''Position'', ''Binlog_Do_DB''],
                   sr_row = Some [Some ''binlog.000007'', Some ''157'', None]\<rparr>),
      sv_sync = (\<lambda>_ _. None)\<rparr>"

definition demo_pg :: pg_server where
  "demo_pg =
     \<lparr>sp_connect = (\<lambda>_. None), sp_exec = (\<lambda>_. None), sp_read = (\<lambda>_. Some [[''public.users'']]),
      sp_dropSlot = Some ''replication slot does not exist'', sp_createSlot = None, sp_identify = Inr 7,
      sp_startRepl = None\<rparr>"

definition demo_rts :: "managed option list" where
  "demo_rts =
     [Some (OnMySQL (New_Capture ''old'') \<lparr>my_Host = ''db'', my_Port = 3306, my_User = ''u'', my_Password = ''p''\<rparr> 5501),
      Some (OnPostgres (NewCapture ''new'')
        \<lparr>ds_Name = ''main'', ds_Type = ''postgres'', ds_Host = ''pg'', ds_Port = 5432, ds_User = ''u'', ds_Password = ''p'',
         ds_Database = ''app'', ds_Schemas = [''public''], ds_Exclude = [], ds_SeedFrom = None\<rparr>)]"

text \<open>The same run with a new database that refuses the second connection.\<close>

definition refusing_pg :: pg_server where
  "refusing_pg = demo_pg\<lparr>sp_startRepl := Some ''wal_level is not logical''\<rparr>"

lemmas demo_defs =
  session_def Start_stacks_def with_servers_def demo_rts_def refusing_pg_def demo_pg_def
  demo_mysql_def List.map_filter_def binlog_Start_def pg_Start_def start_stream_def currentPosition_def
  position_stmts_def tryPosition_def scan_uint32_def is_digit_def byte_def str_dec_def Let_def labelled_def
  New_Capture_def NewCapture_def

lemma failed_start_leaks:
  "case session (\<lambda>_. \<lparr>se_mysql = demo_mysql, se_pg = refusing_pg\<rparr>) e' demo_rts of
     (err, cs) \<Rightarrow>
       err = Some ''[new] start replication: wal_level is not logical'' \<and>
       PumpRoutine \<in># fst (live_after cs ({#}, {})) \<and> snd (live_after cs ({#}, {})) \<noteq> {}"
  by (simp add: demo_defs live_step_def)

theorem captures_released_witness:
  "\<exists>cs hs P'. Start_stacks (\<lambda>_. \<lparr>se_mysql = demo_mysql, se_pg = demo_pg\<rparr>) demo_rts = (None, hs, cs) \<and>
     cs \<noteq> [] \<and>
     live_after (cs @ Stop_stacks (\<lambda>_. \<lparr>se_mysql = demo_mysql, se_pg = demo_pg\<rparr>) demo_rts hs) ({#}, {}) = ({#}, P') \<and>
     P' = {}"
proof -
  let ?e = "\<lambda>_ :: managed. \<lparr>se_mysql = demo_mysql, se_pg = demo_pg\<rparr>"
  obtain r hs cs where st: "Start_stacks ?e demo_rts = (r, hs, cs)" by (cases "Start_stacks ?e demo_rts") blast
  have ok: "fst (Start_stacks ?e demo_rts) = None" "snd (snd (Start_stacks ?e demo_rts)) \<noteq> []"
    by (simp_all add: demo_defs)
  have "\<forall>s. Some s \<in> set demo_rts \<longrightarrow> drops s (?e s)" by (auto simp: demo_rts_def demo_pg_def)
  from captures_released [OF st this, of "{#}" "{}"] ok show ?thesis by (auto simp: st)
qed

end
