(* ===== verification/Show.thy ===== *)
theory Show
  imports Json
begin

text \<open>
  Values as text for a reader: \<open>json.MarshalIndent\<close> with two spaces, which reads back as the same tree,
  and \<open>%v\<close> of a value decoded from JSON.
\<close>

section \<open>Indented JSON\<close>

definition new_line :: "nat \<Rightarrow> string" where
  "new_line d = CHR 0x0A # concat (replicate d ''  '')"

fun indent_json :: "nat \<Rightarrow> jval \<Rightarrow> string" where
  "indent_json d (JArr xs) =
     (if xs = [] then [CHR 0x5B, CHR 0x5D]
      else CHR 0x5B # join_with comma (map (\<lambda>x. new_line (Suc d) @ indent_json (Suc d) x) xs) @
        new_line d @ [CHR 0x5D])"
| "indent_json d (JObj kvs) =
     (if kvs = [] then [CHR 0x7B, CHR 0x7D]
      else CHR 0x7B # join_with comma (map (\<lambda>kv. new_line (Suc d) @ quote_str (fst kv) @ CHR 0x3A # CHR 0x20 #
          indent_json (Suc d) (snd kv)) kvs) @ new_line d @ [CHR 0x7D])"
| "indent_json d j = print_json j"

lemma new_line_ws: "\<forall>c \<in> set (new_line d). json_ws c"
  by (auto simp: new_line_def json_ws_def byte_def)

lemma lex_white: "\<forall>c \<in> set w. json_ws c \<Longrightarrow> lex (w @ s) = lex s"
  by (induction w) (simp_all add: lex.simps(2))

lemma lexes_before: "\<forall>c \<in> set w. json_ws c \<Longrightarrow> lexes s ts \<Longrightarrow> lexes (w @ s) ts"
  by (simp add: lexes_def lex_white)

lemma no_num_white: "\<forall>c \<in> set w. json_ws c \<Longrightarrow> no_num r \<Longrightarrow> no_num (w @ r)"
  using num_char_classes(1) by (cases w) (auto simp: no_num_def)

lemma lexes_after: "\<forall>c \<in> set w. json_ws c \<Longrightarrow> lexes s ts \<Longrightarrow> lexes (s @ w) ts"
  by (simp add: lexes_def lex_white no_num_white)

lemma lexes_indent: "valid_j j \<Longrightarrow> lexes (indent_json d j) (toks j)"
proof (induction d j rule: indent_json.induct)
  case (1 d xs)
  have "lexes (new_line (Suc d) @ indent_json (Suc d) x) (toks x)" if x: "x \<in> set xs" for x
  proof (rule lexes_before [OF new_line_ws])
    from x have "xs \<noteq> []" by auto
    from "1.IH" [OF this x] "1.prems" x show "lexes (indent_json (Suc d) x) (toks x)" by simp
  qed
  from lexes_join [OF this]
  have "lexes (join_with comma (map (\<lambda>x. new_line (Suc d) @ indent_json (Suc d) x) xs) @ new_line d)
      (join_with [TComma] (map toks xs))"
    by (rule lexes_after [OF new_line_ws])
  from lexes_bracket [OF punct_lits(3) this punct_lits(4)]
  show ?case using lexes_bracket [OF punct_lits(3) lexes_Nil punct_lits(4)] by simp
next
  case (2 d kvs)
  have "lexes (new_line (Suc d) @ quote_str (fst kv) @ CHR 0x3A # CHR 0x20 # indent_json (Suc d) (snd kv))
      (TStr (fst kv) # TColon # toks (snd kv))" if kv: "kv \<in> set kvs" for kv
  proof -
    from kv have "kvs \<noteq> []" by auto
    from "2.IH" [OF this kv] "2.prems" kv
    have "lexes (indent_json (Suc d) (snd kv)) (toks (snd kv))" and u: "valid_utf8 (fst kv)" by auto
    then have "lexes ([CHR 0x20] @ indent_json (Suc d) (snd kv)) (toks (snd kv))"
      by (intro lexes_before) (simp_all add: json_ws_def byte_def)
    from lexes_entry [OF u this] show ?thesis
      using lexes_before [OF new_line_ws] by simp
  qed
  from lexes_join [OF this]
  have "lexes (join_with comma (map (\<lambda>kv. new_line (Suc d) @ quote_str (fst kv) @ CHR 0x3A # CHR 0x20 #
          indent_json (Suc d) (snd kv)) kvs) @ new_line d)
      (join_with [TComma] (map (\<lambda>kv. TStr (fst kv) # TColon # toks (snd kv)) kvs))"
    by (rule lexes_after [OF new_line_ws])
  from lexes_bracket [OF punct_lits(1) this punct_lits(2)]
  show ?case using lexes_bracket [OF punct_lits(1) lexes_Nil punct_lits(2)] by simp
qed (simp_all only: indent_json.simps lexes_print)

lemma parse_indent: "valid_j j \<Longrightarrow> parse_json (indent_json d j) = Some j"
proof -
  assume v: "valid_j j"
  have "lex (indent_json d j) = Some (toks j)" "lex (print_json j) = Some (toks j)"
    using lexesD [OF lexes_indent [OF v], of "[]"] lexesD [OF lexes_print [OF v], of "[]"]
    by (simp_all add: no_num_def)
  with parse_print [OF v] show ?thesis by (simp add: parse_json_def)
qed

section \<open>\<open>%v\<close>\<close>

text \<open>\<open>%v\<close> of a \<open>float64\<close> is \<open>%g\<close> with the shortest digits that read back: the plain form, or an exponent
  of at least two digits when the exponent is less than -4 or at least 6; the digits are those of
  \<^const>\<open>fmt_ratio\<close>.\<close>

definition exp_g :: "string \<Rightarrow> int \<Rightarrow> string" where
  "exp_g ds p =
     (let x = \<bar>p - 1\<bar>
      in take 1 ds @ (if length ds = 1 then [] else ''.'' @ drop 1 ds) @
         (if p - 1 < 0 then ''e-'' else ''e+'') @ (if x < 10 then ''0'' else '''') @ dec_str x)"

definition ratio_g :: "int \<Rightarrow> int \<Rightarrow> string" where
  "ratio_g n d =
     (case (case shortest (f64_of_ratio False n d) n d (rat_log10 n d) [1..17] of (m, k) \<Rightarrow> strip_tens m k) of
        (m, k) \<Rightarrow>
          (let p = dec_len m + k
           in if p - 1 < - 4 \<or> 6 \<le> p - 1 then exp_g (dec_str m) p else fmt_plain (dec_str m) p))"

fun f64_v :: "f64 \<Rightarrow> string" where
  "f64_v (FFin m e) =
     (if m = 0 then ''0''
      else (if m < 0 then ''-'' else '''') @
           (if 0 \<le> e then ratio_g (\<bar>m\<bar> * 2 ^ nat e) 1 else ratio_g \<bar>m\<bar> (2 ^ nat (- e))))"
| "f64_v x = fmt_f64 x"

text \<open>Of a value decoded from JSON: slices and maps (by key) in brackets.\<close>

fun show_v :: "gval \<Rightarrow> string" where
  "show_v GNil = ''<nil>''"
| "show_v (GBool b) = (if b then ''true'' else ''false'')"
| "show_v (GStr s) = s"
| "show_v (GF64 x) = f64_v x"
| "show_v (GArr xs) = CHR 0x5B # join_with '' '' (map show_v xs) @ [CHR 0x5D]"
| "show_v (GMap kvs) =
     ''map['' @ join_with '' '' (map snd (sort_key fst (map (\<lambda>kv. (fst kv, fst kv @ '':'' @ show_v (snd kv))) kvs)))
       @ [CHR 0x5D]"
| "show_v _ = ''''"


section \<open>\<open>%q\<close>\<close>

text \<open>A double-quoted Go string; bytes above 126 are kept, as those of printable characters are.\<close>

definition quote_char :: "char \<Rightarrow> string" where
  "quote_char c =
     (if c = CHR 0x22 then [CHR 0x5C, CHR 0x22] else if c = CHR 0x5C then [CHR 0x5C, CHR 0x5C]
      else if c = CHR 0x07 then [CHR 0x5C, CHR ''a''] else if c = CHR 0x08 then [CHR 0x5C, CHR ''b'']
      else if c = CHR 0x0C then [CHR 0x5C, CHR ''f''] else if c = CHR 0x0A then [CHR 0x5C, CHR ''n'']
      else if c = CHR 0x0D then [CHR 0x5C, CHR ''r''] else if c = CHR 0x09 then [CHR 0x5C, CHR ''t'']
      else if c = CHR 0x0B then [CHR 0x5C, CHR ''v'']
      else if byte c < 32 \<or> byte c = 127
      then [CHR 0x5C, CHR ''x'', hex_digit (byte c div 16), hex_digit (byte c mod 16)]
      else [c])"

definition go_quote :: "string \<Rightarrow> string" where
  "go_quote s = CHR 0x22 # concat (map quote_char s) @ [CHR 0x22]"

end
