(* ===== verification/McpTools.thy ===== *)
theory McpTools
  imports GoValue
begin

text \<open>
  The tool catalog of the MCP server (\<open>internal/mcp/tools.go\<close>): the schema helpers and, for each tool,
  its name, its description and its arguments with those required.
\<close>

definition str_schema :: "string \<Rightarrow> gval" where
  "str_schema desc = GMap [(''type'', GStr ''string''), (''description'', GStr desc)]"

definition num_schema :: "string \<Rightarrow> gval" where
  "num_schema desc = GMap [(''type'', GStr ''integer''), (''description'', GStr desc)]"

definition boolean_schema :: "string \<Rightarrow> gval" where
  "boolean_schema desc = GMap [(''type'', GStr ''boolean''), (''description'', GStr desc)]"

definition objRaw :: "string \<Rightarrow> gval" where
  "objRaw desc = GMap [(''type'', GStr ''object''), (''description'', GStr desc)]"

text \<open>\<open>obj\<close>: no required list is written when it is empty.\<close>

definition obj_schema :: "(string \<times> gval) list \<Rightarrow> string list \<Rightarrow> gval" where
  "obj_schema props required =
     GMap ([(''type'', GStr ''object''), (''properties'', GMap props)] @
       (if required = [] then [] else [(''required'', GArr (map GStr required))]))"

definition tool_spec :: "string \<Rightarrow> string \<Rightarrow> gval \<Rightarrow> gval" where
  "tool_spec name desc schema =
     GMap [(''name'', GStr name), (''description'', GStr desc), (''inputSchema'', schema)]"

definition get_config_spec :: gval where
  "get_config_spec =
     tool_spec ''get_config''
      (''Read the current mocking-box config (target servers, databases, noise/compare '' @
       ''rules). Call this first to see what'' @ [CHR 0x27] @ ''s set.'')
      (obj_schema
       []
       [])"

definition test_connection_spec :: gval where
  "test_connection_spec =
     tool_spec ''test_connection''
      (''Check a database connection READ-ONLY without saving it (validates '' @
       ''host/port/user/password). Safe on production '' @ [CHR 0xE2, CHR 0x80, CHR 0x94] @
       '' only connects and checks binlog_format/wal_level. Use before configuring a prod'' @ '' DB.'')
      (obj_schema
       [(''type'', str_schema (''mysql | postgres'')),
        (''host'', str_schema (''DB host'')),
        (''port'', num_schema (''DB port (3306 mysql / 5432 postgres)'')),
        (''user'', str_schema (''DB user'')),
        (''password'', str_schema (''DB password'')),
        (''database'', str_schema (''database name (postgres only)''))]
       [''type'', ''host'', ''user''])"

definition set_config_spec :: gval where
  "set_config_spec =
     tool_spec ''set_config''
      (''Fill in the verification config. Provide the new (under-test) and optionally old'' @
       '' (reference/copy-source) stacks with their datastores. This is the '' @ [CHR 0x27] @
       ''fill in the connection info'' @ [CHR 0x27] @ '' step '' @ [CHR 0xE2, CHR 0x80, CHR 0x94] @
       '' an AI can populate it from what the user describes. Does not touch any DB.'')
      (obj_schema
       [(''config'', objRaw (''Full config object (same shape as get_config returns): '' @
            ''{new:{base_url,datastores:[...]}, old:{...}, noise:{...}, compare:{...}}''))]
       [''config''])"

definition health_spec :: gval where
  "health_spec =
     tool_spec ''health''
      (''Test all configured connections (APIs + databases) and report green/red with the'' @
       '' reason. Read-only.'')
      (obj_schema
       []
       [])"

definition discover_db_spec :: gval where
  "discover_db_spec =
     tool_spec ''discover_db''
      (''List a database'' @ [CHR 0x27] @
       ''s schemas and tables with row counts and sizes (READ-ONLY, safe on prod). Use '' @
       ''this to see what exists before copying '' @ [CHR 0xE2, CHR 0x80, CHR 0x94] @
       '' e.g. to spot huge tables to exclude.'')
      (obj_schema
       [(''type'', str_schema (''mysql | postgres'')),
        (''host'', str_schema (''DB host'')),
        (''port'', num_schema (''DB port'')),
        (''user'', str_schema (''DB user'')),
        (''password'', str_schema (''DB password'')),
        (''database'', str_schema (''database (postgres)''))]
       [''type'', ''host'', ''user''])"

definition copy_db_spec :: gval where
  "copy_db_spec =
     tool_spec ''copy_db''
      (''WRITE OPERATION. Copy schemas+data from the reference (old) DB into the '' @
       ''verification (new) DB, per the saved config. Reads prod (SELECT only) and writes'' @
       '' the isolated copy. Requires confirm:true '' @ [CHR 0xE2, CHR 0x80, CHR 0x94] @
       '' the human must approve first because it moves data.'')
      (obj_schema
       [(''confirm'', boolean_schema (''Must be true to run. Copies data into the verification DB.''))]
       [''confirm''])"

definition list_recordings_spec :: gval where
  "list_recordings_spec =
     tool_spec ''list_recordings''
      (''List captured traffic recordings (corpora) available to verify against.'')
      (obj_schema
       []
       [])"

definition verify_spec :: gval where
  "verify_spec =
     tool_spec ''verify''
      (''WRITE OPERATION on the verification DB. Replay a recording against the new stack'' @
       '' and diff responses + DB write-sets. Requires confirm:true. Returns when '' @
       ''finished with a summary; use get_results for detail.'')
      (obj_schema
       [(''corpus'', str_schema (''recording file name (from list_recordings)'')),
        (''confirm'', boolean_schema (''Must be true to run.''))]
       [''corpus'', ''confirm''])"

definition list_runs_spec :: gval where
  "list_runs_spec =
     tool_spec ''list_runs''
      (''List past verification runs (most recent first) with their pass/diff summary.'')
      (obj_schema
       []
       [])"

definition get_results_spec :: gval where
  "get_results_spec =
     tool_spec ''get_results''
      (''Get per-request results of a verification run (differences, verdicts). Omit '' @ [CHR 0x27] @
       ''file'' @ [CHR 0x27] @ '' for the most recent run.'')
      (obj_schema
       [(''file'', str_schema (''run report file (from list_runs); omit for latest'')),
        (''only_diffs'', boolean_schema (''if true, return only non-MATCH results''))]
       [])"

definition toolSpecs :: "gval list" where
  "toolSpecs =
     [get_config_spec, test_connection_spec, set_config_spec, health_spec, discover_db_spec, copy_db_spec, list_recordings_spec, verify_spec, list_runs_spec, get_results_spec]"

text \<open>The name and the required arguments of an entry.\<close>

fun row_of :: "gval \<Rightarrow> (string \<times> gval) list" where
  "row_of (GMap m) = m"
| "row_of _ = []"

definition spec_name :: "gval \<Rightarrow> string" where
  "spec_name t = (case map_of (row_of t) ''name'' of Some (GStr s) \<Rightarrow> s | _ \<Rightarrow> '''')"

definition spec_required :: "gval \<Rightarrow> gval list" where
  "spec_required t =
     (case map_of (row_of t) ''inputSchema'' of
        Some s \<Rightarrow> (case map_of (row_of s) ''required'' of Some (GArr rs) \<Rightarrow> rs | _ \<Rightarrow> [])
      | None \<Rightarrow> [])"

text \<open>The two tools that write ask for the confirmation in their schemas.\<close>

lemma writers_require_confirm:
  "GStr ''confirm'' \<in> set (spec_required copy_db_spec) \<and> GStr ''confirm'' \<in> set (spec_required verify_spec)"
  by (simp add: spec_required_def copy_db_spec_def verify_spec_def tool_spec_def obj_schema_def)

end
