(* ===== verification/Mcp.thy ===== *)
theory Mcp
  imports Corpus Show McpTools
begin

text \<open>
  \<open>internal/mcp\<close>: the MCP server, a line-delimited JSON-RPC loop that turns tool calls into requests to
  the dashboard.  The HTTP client is a function of the request and the world, so that the dashboard
  may answer differently from poll to poll.  The theorem is the safety promise of the package: what
  writes is only ever requested by a call that confirms it.
\<close>

section \<open>The dashboard's HTTP interface\<close>

record HttpCall =
  hc_Method :: string
  hc_URL :: string
  hc_Headers :: "(string \<times> string) list"
  hc_Body :: "string option"

text \<open>The request cannot be built, it gets no answer, or it is answered with a status code, a status
  line and a body.\<close>

datatype http_answer = BadRequest string | Unreachable string | Answer nat string string

type_synonym 'w client = "HttpCall \<Rightarrow> 'w \<Rightarrow> http_answer \<times> 'w"

record 'w McpServer =
  ms_dashboard :: string
  ms_token :: string
  ms_client :: "'w client"

definition dash_call :: "'w McpServer \<Rightarrow> string \<Rightarrow> string \<Rightarrow> string option \<Rightarrow> HttpCall" where
  "dash_call s meth path body =
     \<lparr>hc_Method = meth, hc_URL = ms_dashboard s @ path,
      hc_Headers = (if body \<noteq> None then [(''Content-Type'', ''application/json'')] else []) @
        (if ms_token s \<noteq> '''' then [(''X-MB-Token'', ms_token s)] else []),
      hc_Body = body\<rparr>"

definition do_call ::
  "'w McpServer \<Rightarrow> string \<Rightarrow> string \<Rightarrow> string option \<Rightarrow> 'w \<Rightarrow> (string \<times> string option) \<times> 'w" where
  "do_call s meth path body w =
     (case ms_client s (dash_call s meth path body) w of
        (a, w) \<Rightarrow>
          ((case a of
              BadRequest e \<Rightarrow> ('''', Some e)
            | Unreachable e \<Rightarrow> ('''', Some (''dashboard '' @ ms_dashboard s @ '' unreachable: '' @ e))
            | Answer code status data \<Rightarrow>
                (data, if 400 \<le> code then Some (''dashboard returned '' @ status @ '': '' @ data) else None)), w))"

definition get_dash :: "'w McpServer \<Rightarrow> string \<Rightarrow> 'w \<Rightarrow> (string \<times> string option) \<times> 'w" where
  "get_dash s path w = do_call s ''GET'' path None w"

text \<open>A body that cannot be marshalled is not sent.\<close>

definition json_bytes :: "gval \<Rightarrow> string option" where
  "json_bytes v = (case marshal v of Inl _ \<Rightarrow> None | Inr j \<Rightarrow> Some (print_json j))"

definition postJSON :: "'w McpServer \<Rightarrow> string \<Rightarrow> gval \<Rightarrow> 'w \<Rightarrow> (string \<times> string option) \<times> 'w" where
  "postJSON s path v w = do_call s ''POST'' path (json_bytes v) w"

definition putJSON :: "'w McpServer \<Rightarrow> string \<Rightarrow> gval \<Rightarrow> 'w \<Rightarrow> (string \<times> string option) \<times> 'w" where
  "putJSON s path v w = do_call s ''PUT'' path (json_bytes v) w"

text \<open>\<open>url.QueryEscape\<close>.\<close>

definition upper_hex :: "nat \<Rightarrow> char" where
  "upper_hex n = upper_char (hex_digit n)"

definition query_char :: "char \<Rightarrow> string" where
  "query_char c =
     (if (97 \<le> byte c \<and> byte c \<le> 122) \<or> (65 \<le> byte c \<and> byte c \<le> 90) \<or> is_digit c \<or> c \<in> set ''-_.~''
      then [c]
      else if c = CHR '' '' then ''+''
      else [CHR 0x25, upper_hex (byte c div 16), upper_hex (byte c mod 16)])"

definition QueryEscape :: "string \<Rightarrow> string" where
  "QueryEscape s = concat (map query_char s)"

section \<open>Answers as text\<close>

definition pretty :: "string \<times> string option \<Rightarrow> string + string" where
  "pretty r =
     (case snd r of
        Some e \<Rightarrow> Inl e
      | None \<Rightarrow>
          Inr (case unmarshal (fst r) of
                 None \<Rightarrow> fst r
               | Some v \<Rightarrow> (case marshal v of Inl _ \<Rightarrow> '''' | Inr j \<Rightarrow> indent_json 0 j)))"

text \<open>Decoding whose error is ignored: a field of the wrong kind keeps its zero value.\<close>

definition lenient :: "'a \<Rightarrow> (jval option \<Rightarrow> 'a option) \<Rightarrow> jval option \<Rightarrow> 'a" where
  "lenient z dec j = (case dec j of None \<Rightarrow> z | Some v \<Rightarrow> v)"

definition fields_of :: "string \<Rightarrow> jobj" where
  "fields_of data = (case json_object data of None \<Rightarrow> [] | Some o' \<Rightarrow> o')"

record DiffView =
  dv_Path :: string
  dv_Old :: gval
  dv_New :: gval

record ResultView =
  rv_Name :: string
  rv_Request :: string
  rv_Verdict :: string
  rv_Differences :: "DiffView list"

record RunView =
  rn_Corpus :: string
  rn_Summary :: "(string \<times> 64 word) list"
  rn_Results :: "ResultView list"

definition dec_diff :: "jval \<Rightarrow> DiffView option" where
  "dec_diff j =
     (case dec_struct (Some j) of
        None \<Rightarrow> None
      | Some kvs \<Rightarrow>
          (case (dec_string (field ''kind'' kvs), dec_string (field ''path'' kvs),
                 dec_any (field ''old'' kvs), dec_any (field ''new'' kvs)) of
             (Some _, Some p, Some old, Some new) \<Rightarrow> Some \<lparr>dv_Path = p, dv_Old = old, dv_New = new\<rparr>
           | _ \<Rightarrow> None))"

definition dec_list :: "(jval \<Rightarrow> 'a option) \<Rightarrow> jval option \<Rightarrow> 'a list option" where
  "dec_list dec j = (case dec_array j of None \<Rightarrow> None | Some js \<Rightarrow> those (map dec js))"

definition dec_result :: "jval \<Rightarrow> ResultView option" where
  "dec_result j =
     (case dec_struct (Some j) of
        None \<Rightarrow> None
      | Some kvs \<Rightarrow>
          (case (dec_string (field ''name'' kvs), dec_string (field ''request'' kvs),
                 dec_string (field ''verdict'' kvs), dec_list dec_diff (field ''differences'' kvs)) of
             (Some n, Some r, Some v, Some ds) \<Rightarrow>
               Some \<lparr>rv_Name = n, rv_Request = r, rv_Verdict = v, rv_Differences = ds\<rparr>
           | _ \<Rightarrow> None))"

definition dec_int_map :: "jval option \<Rightarrow> (string \<times> 64 word) list option" where
  "dec_int_map j =
     (case dec_struct j of
        None \<Rightarrow> None
      | Some kvs \<Rightarrow>
          map_option go_map (those (map (\<lambda>kv. map_option (Pair (fst kv)) (dec_int (Some (snd kv)))) kvs)))"

definition dec_run :: "string \<Rightarrow> RunView option" where
  "dec_run data =
     (case json_object data of
        None \<Rightarrow> None
      | Some kvs \<Rightarrow>
          (case (dec_string (field ''corpus'' kvs), dec_int_map (field ''summary'' kvs),
                 dec_list dec_result (field ''results'' kvs)) of
             (Some c, Some sm, Some rs) \<Rightarrow> Some \<lparr>rn_Corpus = c, rn_Summary = sm, rn_Results = rs\<rparr>
           | _ \<Rightarrow> None))"

definition nl :: string where
  "nl = [CHR 0x0A]"

definition arrow :: string where
  "arrow = '' '' @ [CHR 0xE2, CHR 0x86, CHR 0x92] @ '' ''"

definition summary_text :: "(string \<times> 64 word) list \<Rightarrow> string" where
  "summary_text sm =
     ''map['' @ join_with '' '' (map (\<lambda>kv. fst kv @ '':'' @ int_str (sint (snd kv))) (sort_key fst sm)) @ '']''"

definition first_diff_text :: "DiffView list \<Rightarrow> string" where
  "first_diff_text ds =
     (case ds of
        [] \<Rightarrow> ''''
      | d # rest \<Rightarrow>
          ''  | '' @ dv_Path d @ '': '' @ show_v (dv_Old d) @ arrow @ show_v (dv_New d) @
          (if rest \<noteq> [] then '' (+'' @ nat_str (length rest) @ '' more)'' else ''''))"

definition result_text :: "ResultView \<Rightarrow> string" where
  "result_text r =
     ''- ['' @ rv_Verdict r @ ''] '' @ rv_Name r @ '' '' @ rv_Request r @
       first_diff_text (rv_Differences r) @ nl"

definition summarizeRun :: "string \<Rightarrow> bool \<Rightarrow> string + string" where
  "summarizeRun data onlyDiffs =
     (case dec_run data of
        None \<Rightarrow> Inr data
      | Some run \<Rightarrow>
          Inr (''corpus: '' @ rn_Corpus run @ nl @ ''summary: '' @ summary_text (rn_Summary run) @ nl @
            concat (map result_text
              (filter (\<lambda>r. \<not> (onlyDiffs \<and> rv_Verdict r = ''MATCH'')) (rn_Results run)))))"


section \<open>Waiting for a copy or a run\<close>

text \<open>The first argument is the number of polls left: 600 for a copy and 900 for a run.\<close>

definition copy_complete :: "64 word \<Rightarrow> 64 word \<Rightarrow> string" where
  "copy_complete tables rows =
     ''copy complete: '' @ int_str (sint tables) @ '' tables, '' @ int_str (sint rows) @
       '' rows into the verification DB''"

definition seed_result :: "jobj \<Rightarrow> string + string" where
  "seed_result st =
     (let e = lenient '''' dec_string (field ''error'' st)
      in if e \<noteq> '''' then Inl e
         else Inr (copy_complete (lenient 0 dec_int (field ''tables'' st)) (lenient 0 dec_int (field ''rows'' st))))"

fun seed_loop :: "nat \<Rightarrow> 'w McpServer \<Rightarrow> 'w \<Rightarrow> (string + string) \<times> 'w" where
  "seed_loop 0 s w = (Inr ''copy still running (timed out waiting)'', w)"
| "seed_loop (Suc n) s w =
     (case get_dash s ''/api/seed/status'' w of
        (r, w) \<Rightarrow>
          (case snd r of
             Some e \<Rightarrow> (Inl e, w)
           | None \<Rightarrow>
               if lenient False dec_bool (field ''running'' (fields_of (fst r))) then seed_loop n s w
               else (seed_result (fields_of (fst r)), w)))"

definition pollSeed :: "'w McpServer \<Rightarrow> 'w \<Rightarrow> (string + string) \<times> 'w" where
  "pollSeed s w = seed_loop 600 s w"

definition replay_end :: "'w McpServer \<Rightarrow> jobj \<Rightarrow> 'w \<Rightarrow> (string + string) \<times> 'w" where
  "replay_end s st w =
     (let e = lenient '''' dec_string (field ''last_error'' st);
          rep = lenient '''' dec_string (field ''last_report'' st)
      in if e \<noteq> '''' then (Inl e, w)
         else if rep \<noteq> ''''
         then (case get_dash s (''/api/run?file='' @ QueryEscape rep) w of
                 (r, w) \<Rightarrow> (summarizeRun (fst r) True, w))
         else (Inr ''verification finished'', w))"

fun replay_loop :: "nat \<Rightarrow> 'w McpServer \<Rightarrow> 'w \<Rightarrow> (string + string) \<times> 'w" where
  "replay_loop 0 s w = (Inr ''verification still running (timed out)'', w)"
| "replay_loop (Suc n) s w =
     (case get_dash s ''/api/replay/status'' w of
        (r, w) \<Rightarrow>
          (case snd r of
             Some e \<Rightarrow> (Inl e, w)
           | None \<Rightarrow>
               if lenient False dec_bool (field ''running'' (fields_of (fst r))) then replay_loop n s w
               else replay_end s (fields_of (fst r)) w))"

definition pollReplay :: "'w McpServer \<Rightarrow> 'w \<Rightarrow> (string + string) \<times> 'w" where
  "pollReplay s w = replay_loop 900 s w"

section \<open>The tools\<close>

text \<open>The arguments are the map of the call, nil when it was null.\<close>

definition arg :: "string \<Rightarrow> row option \<Rightarrow> gval option" where
  "arg k args = (case args of None \<Rightarrow> None | Some m \<Rightarrow> map_of m k)"

definition arg_text :: "string \<Rightarrow> row option \<Rightarrow> string" where
  "arg_text k args = (case arg k args of Some (GStr s) \<Rightarrow> s | _ \<Rightarrow> '''')"

definition arg_true :: "string \<Rightarrow> row option \<Rightarrow> bool" where
  "arg_true k args \<longleftrightarrow> arg k args = Some (GBool True)"

definition args_value :: "row option \<Rightarrow> gval" where
  "args_value args = (case args of None \<Rightarrow> GNil | Some m \<Rightarrow> GMap m)"

definition copy_needs_confirm :: string where
  "copy_needs_confirm =
     ''copy_db needs confirm:true '' @ [CHR 0xE2, CHR 0x80, CHR 0x94] @ '' this copies data into '' @
     ''the verification DB. Confirm with the user first.''"

definition pretty_call :: "('w \<Rightarrow> (string \<times> string option) \<times> 'w) \<Rightarrow> 'w \<Rightarrow> (string + string) \<times> 'w" where
  "pretty_call call w = (case call w of (r, w) \<Rightarrow> (pretty r, w))"

definition copy_db :: "'w McpServer \<Rightarrow> row option \<Rightarrow> 'w \<Rightarrow> (string + string) \<times> 'w" where
  "copy_db s args w =
     (if \<not> arg_true ''confirm'' args then (Inl copy_needs_confirm, w)
      else
        (case postJSON s ''/api/seed/start'' (GMap []) w of
           (r, w) \<Rightarrow> (case snd r of Some e \<Rightarrow> (Inl e, w) | None \<Rightarrow> pollSeed s w)))"

definition verify_tool :: "'w McpServer \<Rightarrow> row option \<Rightarrow> 'w \<Rightarrow> (string + string) \<times> 'w" where
  "verify_tool s args w =
     (if \<not> arg_true ''confirm'' args then (Inl ''verify needs confirm:true'', w)
      else if arg_text ''corpus'' args = '''' then (Inl ''corpus required (see list_recordings)'', w)
      else
        (case postJSON s ''/api/replay/start'' (GMap [(''corpus'', GStr (arg_text ''corpus'' args))]) w of
           (r, w) \<Rightarrow> (case snd r of Some e \<Rightarrow> (Inl e, w) | None \<Rightarrow> pollReplay s w)))"

text \<open>The file of the latest run: none when there is no list or it is empty.\<close>

definition latest_file :: "string \<Rightarrow> string option" where
  "latest_file runs =
     (case parse_json runs of
        Some (JArr (JObj kvs # _)) \<Rightarrow> Some (case map_of (rev kvs) ''file'' of Some (JStr f) \<Rightarrow> f | _ \<Rightarrow> '''')
      | Some (JArr (_ # _)) \<Rightarrow> Some ''''
      | _ \<Rightarrow> None)"

definition run_summary :: "'w McpServer \<Rightarrow> row option \<Rightarrow> string \<Rightarrow> 'w \<Rightarrow> (string + string) \<times> 'w" where
  "run_summary s args name w =
     (case get_dash s (''/api/run?file='' @ QueryEscape name) w of
        (r, w) \<Rightarrow>
          (case snd r of
             Some e \<Rightarrow> (Inl e, w)
           | None \<Rightarrow> (summarizeRun (fst r) (arg_true ''only_diffs'' args), w)))"

definition get_results :: "'w McpServer \<Rightarrow> row option \<Rightarrow> 'w \<Rightarrow> (string + string) \<times> 'w" where
  "get_results s args w =
     (if arg_text ''file'' args \<noteq> '''' then run_summary s args (arg_text ''file'' args) w
      else
        (case get_dash s ''/api/runs'' w of
           (r, w) \<Rightarrow>
             (case snd r of
                Some e \<Rightarrow> (Inl e, w)
              | None \<Rightarrow>
                  (case latest_file (fst r) of
                     None \<Rightarrow> (Inr ''no runs yet'', w)
                   | Some name \<Rightarrow> run_summary s args name w))))"

definition runTool :: "'w McpServer \<Rightarrow> string \<Rightarrow> row option \<Rightarrow> 'w \<Rightarrow> (string + string) \<times> 'w" where
  "runTool s name args w =
     (if name = ''get_config'' then pretty_call (get_dash s ''/api/config'') w
      else if name = ''test_connection'' then pretty_call (postJSON s ''/api/test-connection'' (args_value args)) w
      else if name = ''discover_db'' then pretty_call (postJSON s ''/api/seed/discover'' (args_value args)) w
      else if name = ''set_config'' then
        (case arg ''config'' args of
           None \<Rightarrow> (Inl ''config argument required'', w)
         | Some cfg \<Rightarrow> pretty_call (putJSON s ''/api/config'' cfg) w)
      else if name = ''health'' then pretty_call (get_dash s ''/api/health'') w
      else if name = ''list_recordings'' then pretty_call (get_dash s ''/api/corpora'') w
      else if name = ''list_runs'' then pretty_call (get_dash s ''/api/runs'') w
      else if name = ''copy_db'' then copy_db s args w
      else if name = ''verify'' then verify_tool s args w
      else if name = ''get_results'' then get_results s args w
      else (Inl (''unknown tool '' @ go_quote name), w))"

section \<open>The JSON-RPC loop\<close>

record rpcRequest =
  rq_ID :: "jval option"
  rq_Method :: string
  rq_Params :: "jval option"

definition dec_rpc :: "string \<Rightarrow> rpcRequest option" where
  "dec_rpc line =
     (case json_object line of
        None \<Rightarrow> None
      | Some kvs \<Rightarrow>
          (case (dec_string (field ''jsonrpc'' kvs), dec_string (field ''method'' kvs)) of
             (Some _, Some m) \<Rightarrow> Some \<lparr>rq_ID = field ''id'' kvs, rq_Method = m, rq_Params = field ''params'' kvs\<rparr>
           | _ \<Rightarrow> None))"

text \<open>The error is a code and a message; the answer of a call without an id has the id null.\<close>

definition rpc_reply :: "jval option \<Rightarrow> gval \<Rightarrow> (int \<times> string) option \<Rightarrow> string" where
  "rpc_reply k res err =
     (case json_bytes (GMap
        [(''id'', case k of None \<Rightarrow> GNil | Some j \<Rightarrow> GOpaque j), (''jsonrpc'', GStr ''2.0''),
         (case err of
            Some (code, msg) \<Rightarrow>
              (''error'', GMap [(''code'', GInt (word_of_int code)), (''message'', GStr msg)])
          | None \<Rightarrow> (''result'', res))]) of
        None \<Rightarrow> nl | Some line \<Rightarrow> line @ nl)"

text \<open>Decoding the arguments into a map: a number out of range becomes nil, and a value that is not an
  object leaves the empty map.\<close>

fun any_or_nil :: "jval \<Rightarrow> gval" where
  "any_or_nil JNull = GNil"
| "any_or_nil (JBool b) = GBool b"
| "any_or_nil (JNum s) = (case num_f64 s of None \<Rightarrow> GNil | Some x \<Rightarrow> GF64 x)"
| "any_or_nil (JStr s) = GStr s"
| "any_or_nil (JArr xs) = GArr (map any_or_nil xs)"
| "any_or_nil (JObj kvs) = GMap (go_map (map (\<lambda>kv. (fst kv, any_or_nil (snd kv))) kvs))"

definition dec_args :: "jval option \<Rightarrow> row option" where
  "dec_args j =
     (case j of
        Some JNull \<Rightarrow> None
      | Some (JObj kvs) \<Rightarrow> Some (go_map (map (\<lambda>kv. (fst kv, any_or_nil (snd kv))) kvs))
      | _ \<Rightarrow> Some [])"

definition call_params :: "rpcRequest \<Rightarrow> jobj" where
  "call_params req = (case rq_Params req of Some (JObj kvs) \<Rightarrow> kvs | _ \<Rightarrow> [])"

definition tool_name :: "rpcRequest \<Rightarrow> string" where
  "tool_name req = lenient '''' dec_string (field ''name'' (call_params req))"

definition tool_args :: "rpcRequest \<Rightarrow> row option" where
  "tool_args req = dec_args (field ''arguments'' (call_params req))"

definition text_content :: "string \<Rightarrow> gval" where
  "text_content t = GArr [GMap [(''type'', GStr ''text''), (''text'', GStr t)]]"

definition callTool :: "'w McpServer \<Rightarrow> rpcRequest \<Rightarrow> 'w \<Rightarrow> string \<times> 'w" where
  "callTool s req w =
     (case runTool s (tool_name req) (tool_args req) w of
        (r, w) \<Rightarrow>
          ((case r of
              Inl e \<Rightarrow>
                rpc_reply (rq_ID req)
                  (GMap [(''content'', text_content (''error: '' @ e)), (''isError'', GBool True)]) None
            | Inr t \<Rightarrow> rpc_reply (rq_ID req) (GMap [(''content'', text_content t)]) None), w))"

definition initialize_result :: gval where
  "initialize_result =
     GMap [(''protocolVersion'', GStr ''2024-11-05''),
       (''capabilities'', GMap [(''tools'', GMap [])]),
       (''serverInfo'', GMap [(''name'', GStr ''mocking-box''), (''version'', GStr ''0.5.0'')])]"

definition dispatch :: "'w McpServer \<Rightarrow> rpcRequest \<Rightarrow> 'w \<Rightarrow> string \<times> 'w" where
  "dispatch s req w =
     (let m = rq_Method req
      in if m = ''initialize'' then (rpc_reply (rq_ID req) initialize_result None, w)
         else if m = ''notifications/initialized'' \<or> m = ''notifications/cancelled'' then ('''', w)
         else if m = ''tools/list'' then (rpc_reply (rq_ID req) (GMap [(''tools'', GArr toolSpecs)]) None, w)
         else if m = ''tools/call'' then callTool s req w
         else if m = ''ping'' then (rpc_reply (rq_ID req) (GMap []) None, w)
         else if rq_ID req \<noteq> None
         then (rpc_reply (rq_ID req) GNil (Some (- 32601, ''method not found: '' @ m)), w)
         else ('''', w))"

definition serve_line :: "'w McpServer \<Rightarrow> string \<Rightarrow> 'w \<Rightarrow> string \<times> 'w" where
  "serve_line s line w =
     (let line = trim_space line
      in if line = '''' then ('''', w)
         else (case dec_rpc line of None \<Rightarrow> ('''', w) | Some req \<Rightarrow> dispatch s req w))"

fun serve_lines :: "'w McpServer \<Rightarrow> string list \<Rightarrow> 'w \<Rightarrow> string \<times> 'w" where
  "serve_lines s [] w = ('''', w)"
| "serve_lines s (l # ls) w =
     (case serve_line s l w of
        (out, w) \<Rightarrow> (case serve_lines s ls w of (outs, w) \<Rightarrow> (out @ outs, w)))"

text \<open>The lines of the input up to the first that does not fit into 8 MiB; \<open>Run\<close> returns no error when
  there is none.\<close>

definition mcp_limit :: int where
  "mcp_limit = 8388608"

definition Run_mcp :: "'w McpServer \<Rightarrow> string \<Rightarrow> 'w \<Rightarrow> (string \<times> bool) \<times> 'w" where
  "Run_mcp s input w =
     (case scan_lines mcp_limit input of
        (ls, complete) \<Rightarrow> (case serve_lines s ls w of (out, w) \<Rightarrow> ((out, complete), w)))"


section \<open>What is requested of the dashboard\<close>

text \<open>A client that keeps the requests it makes.\<close>

definition logged :: "'w client \<Rightarrow> (HttpCall list \<times> 'w) client" where
  "logged client r lw = (case client r (snd lw) of (a, w) \<Rightarrow> (a, (fst lw @ [r], w)))"

definition logged_server :: "string \<Rightarrow> string \<Rightarrow> 'w client \<Rightarrow> (HttpCall list \<times> 'w) McpServer" where
  "logged_server dashboard token client =
     \<lparr>ms_dashboard = dashboard, ms_token = token, ms_client = logged client\<rparr>"

text \<open>\<open>sends n P f\<close>: running \<open>f\<close> adds at most \<open>n\<close> requests, which satisfy \<open>P\<close>, to those made.\<close>

definition sends ::
  "nat \<Rightarrow> (HttpCall \<Rightarrow> bool) \<Rightarrow> (HttpCall list \<times> 'w \<Rightarrow> 'a \<times> (HttpCall list \<times> 'w)) \<Rightarrow> bool" where
  "sends n P f \<longleftrightarrow>
     (\<forall>lw. \<exists>made. fst (snd (f lw)) = fst lw @ made \<and> length made \<le> n \<and> (\<forall>r \<in> set made. P r))"

named_theorems sending

lemma sends_weaken: "sends n P f \<Longrightarrow> n \<le> m \<Longrightarrow> (\<And>r. P r \<Longrightarrow> Q r) \<Longrightarrow> sends m Q f"
  unfolding sends_def by (meson order_trans)

lemma sends_none [sending]: "sends n P (\<lambda>lw. (x, lw))"
  by (simp add: sends_def)

lemma sends_bind:
  assumes "sends n P f" and "\<And>x. sends m P (g x)"
  shows "sends (n + m) P (\<lambda>lw. case f lw of (x, lw) \<Rightarrow> g x lw)"
  unfolding sends_def
proof
  fix lw
  obtain x lw' where f: "f lw = (x, lw')" by (cases "f lw") blast
  from assms(1) f obtain made where m: "fst lw' = fst lw @ made" "length made \<le> n" "\<forall>r \<in> set made. P r"
    unfolding sends_def by (metis snd_conv)
  from assms(2) [of x] obtain made' where m': "fst (snd (g x lw')) = fst lw' @ made'"
      "length made' \<le> m" "\<forall>r \<in> set made'. P r"
    unfolding sends_def by blast
  show "\<exists>made. fst (snd (case f lw of (x, lw) \<Rightarrow> g x lw)) = fst lw @ made \<and> length made \<le> n + m \<and>
      (\<forall>r \<in> set made. P r)"
    using f m m' by (intro exI [of _ "made @ made'"]) auto
qed

lemma sends_map: "sends n P f \<Longrightarrow> sends n P (\<lambda>lw. case f lw of (x, lw) \<Rightarrow> (h x, lw))"
  using sends_bind [of n P f 0 "\<lambda>x lw. (h x, lw)"] by (simp add: sends_none)

lemma sends_if: "(b \<Longrightarrow> sends n P f) \<Longrightarrow> (\<not> b \<Longrightarrow> sends n P g) \<Longrightarrow> sends n P (\<lambda>lw. if b then f lw else g lw)"
  by (cases b) simp_all

lemma sends_option:
  "(x = None \<Longrightarrow> sends n P f) \<Longrightarrow> (\<And>y. x = Some y \<Longrightarrow> sends n P (g y)) \<Longrightarrow>
   sends n P (\<lambda>lw. case x of None \<Rightarrow> f lw | Some y \<Rightarrow> g y lw)"
  by (cases x) simp_all

lemma sends_do:
  "P (dash_call s meth path body) \<Longrightarrow> ms_client s = logged client \<Longrightarrow> sends 1 P (do_call s meth path body)"
  by (auto simp: sends_def do_call_def logged_def split: prod.split)

text \<open>Where a request goes: reading, asking a database that is read only, saving the configuration,
  starting a copy, starting a run.\<close>

definition goes_to :: "string \<Rightarrow> string \<Rightarrow> string \<Rightarrow> HttpCall \<Rightarrow> bool" where
  "goes_to dashboard meth path r \<longleftrightarrow> hc_Method r = meth \<and> hc_URL r = dashboard @ path"

text \<open>The path of a request target, and the paths that are asked for with GET.\<close>

definition target_path :: "string \<Rightarrow> string" where
  "target_path t = takeWhile (\<lambda>c. c \<noteq> CHR ''?'') t"

definition read_path :: "string \<Rightarrow> bool" where
  "read_path t \<longleftrightarrow>
     target_path t \<in> {''/api/config'', ''/api/health'', ''/api/corpora'', ''/api/runs'', ''/api/run'',
       ''/api/seed/status'', ''/api/replay/status''}"

lemma read_paths:
  "read_path ''/api/config''" "read_path ''/api/health''" "read_path ''/api/corpora''" "read_path ''/api/runs''"
  "read_path (''/api/run?file='' @ name)" "read_path ''/api/seed/status''" "read_path ''/api/replay/status''"
  by (simp_all add: read_path_def target_path_def)

definition reads_only :: "string \<Rightarrow> HttpCall \<Rightarrow> bool" where
  "reads_only dashboard r \<longleftrightarrow>
     (\<exists>t. read_path t \<and> goes_to dashboard ''GET'' t r) \<or>
     goes_to dashboard ''POST'' ''/api/test-connection'' r \<or>
     goes_to dashboard ''POST'' ''/api/seed/discover'' r"

definition confirmed :: "string \<Rightarrow> row option \<Rightarrow> bool" where
  "confirmed name args \<longleftrightarrow> name \<in> {''copy_db'', ''verify''} \<and> arg_true ''confirm'' args"

text \<open>The requests a call may make.\<close>

definition allowed :: "string \<Rightarrow> string \<Rightarrow> row option \<Rightarrow> HttpCall \<Rightarrow> bool" where
  "allowed dashboard name args r \<longleftrightarrow>
     reads_only dashboard r \<or>
     (name = ''set_config'' \<and> goes_to dashboard ''PUT'' ''/api/config'' r) \<or>
     (name = ''copy_db'' \<and> arg_true ''confirm'' args \<and> goes_to dashboard ''POST'' ''/api/seed/start'' r) \<or>
     (name = ''verify'' \<and> arg_true ''confirm'' args \<and> goes_to dashboard ''POST'' ''/api/replay/start'' r)"

lemma dash_call_goes:
  "ms_dashboard s = dashboard \<Longrightarrow> goes_to dashboard meth path (dash_call s meth path body)"
  by (simp add: goes_to_def dash_call_def)

lemma dash_get_reads:
  "ms_dashboard s = dashboard \<Longrightarrow> read_path path \<Longrightarrow> reads_only dashboard (dash_call s ''GET'' path body)"
  unfolding reads_only_def using dash_call_goes by blast

text \<open>Where each operation goes, and how often: a copy is polled at most 600 times, a run 900 times.\<close>

lemma sends_get:
  "s = logged_server dashboard token client \<Longrightarrow> read_path path \<Longrightarrow>
   sends 1 (reads_only dashboard) (get_dash s path)"
  unfolding get_dash_def by (rule sends_do) (simp_all add: dash_get_reads logged_server_def)

lemma seed_loop_unfold:
  "seed_loop (Suc n) s =
     (\<lambda>w. case get_dash s ''/api/seed/status'' w of
        (r, w) \<Rightarrow>
          (case snd r of
             None \<Rightarrow>
               if lenient False dec_bool (field ''running'' (fields_of (fst r))) then seed_loop n s w
               else (seed_result (fields_of (fst r)), w)
           | Some e \<Rightarrow> (Inl e, w)))"
  by (rule ext) simp

lemma sends_seed_loop:
  "s = logged_server dashboard token client \<Longrightarrow> sends n (reads_only dashboard) (seed_loop n s)"
proof (induction n)
  case 0
  have "seed_loop 0 s = (\<lambda>w. (Inr ''copy still running (timed out waiting)'', w))" by (rule ext) simp
  then show ?case by (simp only: sends_none)
next
  case (Suc n)
  show ?case
    unfolding seed_loop_unfold
    by (rule sends_weaken [OF sends_bind [OF sends_get [OF Suc.prems read_paths(6)], where m = n]])
      (auto intro!: sends_option sends_if Suc.IH [OF Suc.prems] sends_none)
qed

lemma sends_replay_end:
  "s = logged_server dashboard token client \<Longrightarrow> sends 1 (reads_only dashboard) (replay_end s st)"
  unfolding replay_end_def Let_def
  by (intro sends_if sends_map sends_get sends_weaken [OF sends_none [where n = 0]] read_paths) auto

lemma replay_loop_unfold:
  "replay_loop (Suc n) s =
     (\<lambda>w. case get_dash s ''/api/replay/status'' w of
        (r, w) \<Rightarrow>
          (case snd r of
             None \<Rightarrow>
               if lenient False dec_bool (field ''running'' (fields_of (fst r))) then replay_loop n s w
               else replay_end s (fields_of (fst r)) w
           | Some e \<Rightarrow> (Inl e, w)))"
  by (rule ext) simp

lemma sends_replay_loop:
  "s = logged_server dashboard token client \<Longrightarrow> sends (n + 1) (reads_only dashboard) (replay_loop n s)"
proof (induction n)
  case 0
  have "replay_loop 0 s = (\<lambda>w. (Inr ''verification still running (timed out)'', w))" by (rule ext) simp
  then show ?case by (simp only: sends_none)
next
  case (Suc n)
  show ?case
    unfolding replay_loop_unfold
    by (rule sends_weaken [OF sends_bind [OF sends_get [OF Suc.prems read_paths(7)], where m = "n + 1"]])
      (auto intro!: sends_option sends_if Suc.IH [OF Suc.prems, unfolded Suc_eq_plus1 [symmetric]] sends_none
        sends_weaken [OF sends_replay_end [OF Suc.prems]])
qed


lemma sends_pretty:
  "sends 1 P call \<Longrightarrow> sends 902 P (pretty_call call)"
  unfolding pretty_call_def by (rule sends_weaken [OF sends_map]) auto

lemma sends_run_summary:
  "s = logged_server dashboard token client \<Longrightarrow> sends 1 (reads_only dashboard) (run_summary s args name)"
  unfolding run_summary_def
  by (rule sends_weaken [OF sends_bind [OF sends_get [OF _ read_paths(5)], where m = 0]])
    (auto intro!: sends_option sends_none)

lemma sends_get_results:
  assumes s: "s = logged_server dashboard token client"
  shows "sends 2 (reads_only dashboard) (get_results s args)"
proof -
  have "sends (1 + 1) (reads_only dashboard) (\<lambda>w. case get_dash s ''/api/runs'' w of (r, w) \<Rightarrow>
      (case snd r of Some e \<Rightarrow> (Inl e, w)
       | None \<Rightarrow> (case latest_file (fst r) of None \<Rightarrow> (Inr ''no runs yet'', w)
            | Some name \<Rightarrow> run_summary s args name w)))"
    by (rule sends_bind [OF sends_get [OF s read_paths(4)]])
      (auto intro!: sends_option sends_none sends_run_summary [OF s] simp del: One_nat_def)
  note two = this [unfolded one_add_one]
  have one: "sends 2 (reads_only dashboard) (run_summary s args name)" for name
    by (rule sends_weaken [OF sends_run_summary [OF s]]) simp_all
  show ?thesis
    unfolding get_results_def by (intro sends_if two one)
qed

lemma sends_copy_db:
  assumes s: "s = logged_server dashboard token client"
  shows "sends 902 (allowed dashboard ''copy_db'' args) (copy_db s args)"
proof -
  have "sends (1 + 600) (allowed dashboard ''copy_db'' args) (\<lambda>w. case postJSON s ''/api/seed/start'' (GMap []) w of
      (r, w) \<Rightarrow> (case snd r of Some e \<Rightarrow> (Inl e, w) | None \<Rightarrow> pollSeed s w))"
    if c: "arg_true ''confirm'' args"
  proof (rule sends_bind)
    show "sends 1 (allowed dashboard ''copy_db'' args) (postJSON s ''/api/seed/start'' (GMap []))"
      unfolding postJSON_def by (rule sends_do)
        (simp_all add: s logged_server_def allowed_def c dash_call_goes)
    show "sends 600 (allowed dashboard ''copy_db'' args) (\<lambda>w. case snd r of Some e \<Rightarrow> (Inl e, w) | None \<Rightarrow> pollSeed s w)" for r :: "string \<times> string option"
      unfolding pollSeed_def
      by (intro sends_option sends_none sends_weaken [OF sends_seed_loop [OF s]]) (simp_all add: allowed_def)
  qed
  then show ?thesis
    unfolding copy_db_def by (intro sends_if sends_none) (auto elim: sends_weaken)
qed

lemma sends_verify_tool:
  assumes s: "s = logged_server dashboard token client"
  shows "sends 902 (allowed dashboard ''verify'' args) (verify_tool s args)"
proof -
  have "sends (1 + 901) (allowed dashboard ''verify'' args)
      (\<lambda>w. case postJSON s ''/api/replay/start'' (GMap [(''corpus'', GStr (arg_text ''corpus'' args))]) w of
         (r, w) \<Rightarrow> (case snd r of Some e \<Rightarrow> (Inl e, w) | None \<Rightarrow> pollReplay s w))"
    if c: "arg_true ''confirm'' args"
  proof (rule sends_bind)
    show "sends 1 (allowed dashboard ''verify'' args)
        (postJSON s ''/api/replay/start'' (GMap [(''corpus'', GStr (arg_text ''corpus'' args))]))"
      unfolding postJSON_def by (rule sends_do)
        (simp_all add: s logged_server_def allowed_def c dash_call_goes)
    show "sends 901 (allowed dashboard ''verify'' args) (\<lambda>w. case snd r of Some e \<Rightarrow> (Inl e, w) | None \<Rightarrow> pollReplay s w)" for r :: "string \<times> string option"
      unfolding pollReplay_def
      by (intro sends_option sends_none sends_weaken [OF sends_replay_loop [OF s]]) (simp_all add: allowed_def)
  qed
  then show ?thesis
    unfolding verify_tool_def by (intro sends_if sends_none) (auto elim: sends_weaken)
qed

lemma sends_runTool:
  assumes s: "s = logged_server dashboard token client"
  shows "sends 902 (allowed dashboard name args) (runTool s name args)"
proof -
  have get: "sends 902 (allowed dashboard name args) (pretty_call (get_dash s path))" if "read_path path" for path
    by (intro sends_pretty sends_weaken [OF sends_get [OF s that]]) (simp_all add: allowed_def)
  have post: "sends 902 (allowed dashboard name args) (pretty_call (postJSON s path v))"
    if "path \<in> {''/api/test-connection'', ''/api/seed/discover''}" for path v
    unfolding postJSON_def using that
    by (intro sends_pretty sends_do) (auto simp: s logged_server_def allowed_def reads_only_def dash_call_goes)
  have put: "sends 902 (allowed dashboard name args) (pretty_call (putJSON s ''/api/config'' cfg))"
    if "name = ''set_config''" for cfg
    unfolding putJSON_def using that
    by (intro sends_pretty sends_do) (auto simp: s logged_server_def allowed_def dash_call_goes)
  have res: "sends 902 (allowed dashboard name args) (get_results s args)"
    by (rule sends_weaken [OF sends_get_results [OF s]]) (simp_all add: allowed_def)
  show ?thesis
    unfolding runTool_def
    by (intro sends_if sends_option sends_none get post put res read_paths)
      (simp_all add: sends_copy_db [OF s] sends_verify_tool [OF s])
qed


text \<open>The tool a line calls, with its arguments.\<close>

definition called :: "string \<Rightarrow> (string \<times> row option) option" where
  "called line =
     (case dec_rpc (trim_space line) of
        None \<Rightarrow> None
      | Some req \<Rightarrow>
          if rq_Method req = ''tools/call'' then Some (tool_name req, tool_args req) else None)"

definition line_allows :: "string \<Rightarrow> string \<Rightarrow> HttpCall \<Rightarrow> bool" where
  "line_allows dashboard line r \<longleftrightarrow>
     (case called line of None \<Rightarrow> False | Some (name, args) \<Rightarrow> allowed dashboard name args r)"

lemma sends_callTool:
  "s = logged_server dashboard token client \<Longrightarrow>
   sends 902 (allowed dashboard (tool_name req) (tool_args req)) (callTool s req)"
  unfolding callTool_def by (rule sends_map [OF sends_runTool])

lemma sends_line:
  assumes s: "s = logged_server dashboard token client"
  shows "sends 902 (line_allows dashboard line) (serve_line s line)"
proof -
  have disp: "sends 902 (line_allows dashboard line) (dispatch s req)"
    if r: "dec_rpc (trim_space line) = Some req" for req
    unfolding dispatch_def Let_def
  proof (intro sends_if sends_none)
    assume "rq_Method req = ''tools/call''"
    with r have "line_allows dashboard line = allowed dashboard (tool_name req) (tool_args req)"
      by (simp add: line_allows_def called_def fun_eq_iff)
    with sends_callTool [OF s, of req] show "sends 902 (line_allows dashboard line) (callTool s req)" by simp
  qed
  show ?thesis
    unfolding serve_line_def Let_def by (intro sends_if sends_option sends_none disp)
qed

lemma serve_lines_unfold:
  "serve_lines s (l # ls) =
     (\<lambda>w. case serve_line s l w of (out, w) \<Rightarrow> (case serve_lines s ls w of (outs, w) \<Rightarrow> (out @ outs, w)))"
  by (rule ext) simp

lemma sends_lines:
  assumes s: "s = logged_server dashboard token client"
  shows "sends (902 * length ls) (\<lambda>r. \<exists>line \<in> set ls. line_allows dashboard line r) (serve_lines s ls)"
proof (induction ls)
  case Nil
  have "serve_lines s [] = (\<lambda>w. ('''', w))" by (rule ext) simp
  then show ?case by (simp only: sends_none)
next
  case (Cons l ls)
  let ?P = "\<lambda>r. \<exists>line \<in> set (l # ls). line_allows dashboard line r"
  have "sends 902 ?P (serve_line s l)" by (rule sends_weaken [OF sends_line [OF s]]) auto
  moreover have "sends (902 * length ls) ?P (\<lambda>w. case serve_lines s ls w of (outs, w) \<Rightarrow> (out @ outs, w))" for out
    by (rule sends_map, rule sends_weaken [OF Cons.IH]) auto
  ultimately have "sends (902 + 902 * length ls) ?P (serve_lines s (l # ls))"
    unfolding serve_lines_unfold by (rule sends_bind)
  then show ?case by (simp only: length_Cons mult_Suc_right)
qed

lemma run_allows:
  assumes "Run_mcp (logged_server dashboard token client) input ([], w) = (res, (made, w'))"
  shows "(\<forall>r \<in> set made. \<exists>line \<in> set (fst (scan_lines mcp_limit input)). line_allows dashboard line r) \<and>
    length made \<le> 902 * length (fst (scan_lines mcp_limit input))"
proof -
  let ?s = "logged_server dashboard token client" and ?ls = "fst (scan_lines mcp_limit input)"
  have "fst (snd (serve_lines ?s ?ls ([], w))) = made"
    using assms by (auto simp: Run_mcp_def split: prod.splits)
  moreover have "sends (902 * length ?ls) (\<lambda>r. \<exists>line \<in> set ?ls. line_allows dashboard line r) (serve_lines ?s ?ls)"
    by (rule sends_lines [OF refl])
  then obtain made' where "fst (snd (serve_lines ?s ?ls ([], w))) = fst ([], w) @ made'"
      "length made' \<le> 902 * length ?ls" "\<forall>r \<in> set made'. \<exists>line \<in> set ?ls. line_allows dashboard line r"
    unfolding sends_def by blast
  ultimately show ?thesis by auto
qed

text \<open>
  C39.  What writes is only done on request, and what it took is bounded: whatever the input of the MCP
  server and however the dashboard answers, every request it makes reads, or checks or lists a database
  read-only, or saves the configuration for a \<open>set_config\<close> call, or starts a copy for a \<open>copy_db\<close> call
  with \<open>confirm\<close> true, or starts a run for a \<open>verify\<close> call with \<open>confirm\<close> true, where the call is a line
  of the input; and there are at most 902 requests per line.
\<close>

theorem writes_are_confirmed:
  assumes "Run_mcp (logged_server dashboard token client) input ([], w) = (res, (made, w'))"
  shows "(\<forall>r \<in> set made. reads_only dashboard r \<or>
      (\<exists>line \<in> set (fst (scan_lines mcp_limit input)). \<exists>args.
        called line = Some (''set_config'', args) \<and> goes_to dashboard ''PUT'' ''/api/config'' r \<or>
        called line = Some (''copy_db'', args) \<and> arg_true ''confirm'' args \<and>
          goes_to dashboard ''POST'' ''/api/seed/start'' r \<or>
        called line = Some (''verify'', args) \<and> arg_true ''confirm'' args \<and>
          goes_to dashboard ''POST'' ''/api/replay/start'' r)) \<and>
    length made \<le> 902 * length (fst (scan_lines mcp_limit input))"
proof -
  let ?ls = "fst (scan_lines mcp_limit input)"
  have "reads_only dashboard r \<or> (\<exists>line \<in> set ?ls. \<exists>args.
        called line = Some (''set_config'', args) \<and> goes_to dashboard ''PUT'' ''/api/config'' r \<or>
        called line = Some (''copy_db'', args) \<and> arg_true ''confirm'' args \<and>
          goes_to dashboard ''POST'' ''/api/seed/start'' r \<or>
        called line = Some (''verify'', args) \<and> arg_true ''confirm'' args \<and>
          goes_to dashboard ''POST'' ''/api/replay/start'' r)" if "r \<in> set made" for r
  proof -
    from run_allows [OF assms] that obtain line name args where "line \<in> set ?ls" "called line = Some (name, args)"
        "allowed dashboard name args r"
      by (auto simp: line_allows_def split: option.splits)
    then show ?thesis unfolding allowed_def by blast
  qed
  with run_allows [OF assms] show ?thesis by blast
qed

definition demo_call :: string where
  "demo_call = ''{'' @ [CHR 0x22] @ ''method'' @ [CHR 0x22] @ '':'' @ [CHR 0x22] @ ''tools/call'' @ [CHR 0x22] @
     '','' @ [CHR 0x22] @ ''params'' @ [CHR 0x22] @ '':{'' @ [CHR 0x22] @ ''name'' @ [CHR 0x22] @ '':'' @
     [CHR 0x22] @ ''copy_db'' @ [CHR 0x22] @ ''}}''"

theorem writes_are_confirmed_witness:
  "\<exists>made. fst (snd (Run_mcp (logged_server ''http://d'' '''' (\<lambda>_ w. (Unreachable ''down'', w))) demo_call ([], ()))) = made \<and>
     (\<forall>r \<in> set made. reads_only ''http://d'' r) \<and> length made \<le> 902"
proof -
  let ?run = "Run_mcp (logged_server ''http://d'' '''' (\<lambda>_ w. (Unreachable ''down'', w))) demo_call ([], ())"
  obtain res st where st: "?run = (res, st)" by (cases ?run) blast
  obtain made where "st = (made, ())" by (cases st) simp
  with st have run: "?run = (res, (made, ()))" by simp
  have "fst (scan_lines mcp_limit demo_call) = [demo_call] \<and> called demo_call = Some (''copy_db'', Some [])" by code_simp
  then have ls: "fst (scan_lines mcp_limit demo_call) = [demo_call]" and c: "called demo_call = Some (''copy_db'', Some [])"
    by simp_all
  have t: "\<not> arg_true ''confirm'' (Some [])" by (simp add: arg_true_def arg_def)
  from writes_are_confirmed [OF run] show ?thesis
    unfolding run by (auto simp: ls c t)
qed


section \<open>Answers\<close>

text \<open>Every request is answered once, except notifications and unknown methods without an id.\<close>

lemma rpc_reply_nonempty [simp]: "rpc_reply k res err \<noteq> ''''"
  by (cases "json_bytes (GMap
        [(''id'', case k of None \<Rightarrow> GNil | Some j \<Rightarrow> GOpaque j), (''jsonrpc'', GStr ''2.0''),
         (case err of
            Some (code, msg) \<Rightarrow>
              (''error'', GMap [(''code'', GInt (word_of_int code)), (''message'', GStr msg)])
          | None \<Rightarrow> (''result'', res))])") (simp_all add: rpc_reply_def nl_def)

lemma answered_once:
  "fst (dispatch s req w) = '''' \<longleftrightarrow>
     rq_Method req \<in> {''notifications/initialized'', ''notifications/cancelled''} \<or>
     (rq_Method req \<notin> {''initialize'', ''tools/list'', ''tools/call'', ''ping''} \<and> rq_ID req = None)"
  unfolding dispatch_def Let_def by (auto simp: callTool_def split: prod.split sum.split)

text \<open>The tools advertised are exactly those that \<open>runTool\<close> knows.\<close>

definition known_tools :: "string list" where
  "known_tools =
     [''get_config'', ''test_connection'', ''set_config'', ''health'', ''discover_db'', ''copy_db'',
      ''list_recordings'', ''verify'', ''list_runs'', ''get_results'']"

lemma advertised_tools: "map spec_name toolSpecs = known_tools"
  by code_simp

lemma unknown_tool:
  "name \<notin> set known_tools \<Longrightarrow> runTool s name args w = (Inl (''unknown tool '' @ go_quote name), w)"
  by (simp add: runTool_def known_tools_def)

text \<open>A copy that ends within the polls is reported with the status that ended it.\<close>

lemma seed_loop_reports:
  assumes "\<And>k. k \<le> m \<Longrightarrow> get_dash s ''/api/seed/status'' (iter k) = ((status k, None), iter (Suc k))"
    and "\<And>k. k < m \<Longrightarrow> lenient False dec_bool (field ''running'' (fields_of (status k)))"
    and "\<not> lenient False dec_bool (field ''running'' (fields_of (status m)))" and "m < n"
  shows "seed_loop n s (iter 0) = (seed_result (fields_of (status m)), iter (Suc m))"
proof -
  have "seed_loop (n - j) s (iter j) = (seed_result (fields_of (status m)), iter (Suc m))" if "j \<le> m" for j
    using that
  proof (induction "m - j" arbitrary: j)
    case 0
    then have j: "j = m" by simp
    obtain p where p: "n - m = Suc p" using assms(4) by (cases "n - m") simp_all
    show ?case using assms(1) [of m] assms(3,4) by (simp add: j p)
  next
    case (Suc x)
    then have j: "j < m" by simp
    obtain p where p: "n - j = Suc p" using j assms(4) by (cases "n - j") simp_all
    then have "p = n - Suc j" by simp
    with Suc.hyps(1) [of "Suc j"] Suc.hyps(2) j assms(1) [of j] assms(2) [OF j] assms(4)
    show ?case by (simp add: p)
  qed
  from this [of 0] show ?thesis by simp
qed


text \<open>
  C9.  A confirmed copy is answered with its outcome: when the dashboard accepts the start and reports
  the copy as running for fewer than 600 polls and then as ended, the tool stops at that poll and
  returns the error of the ended copy, or the numbers of its tables and rows when it had none; the
  dashboard is asked no further.
\<close>

theorem copy_reported:
  assumes "arg_true ''confirm'' args"
    and "postJSON s ''/api/seed/start'' (GMap []) w = ((started, None), iter 0)"
    and "\<forall>k \<le> m. get_dash s ''/api/seed/status'' (iter k) = ((status k, None), iter (Suc k))"
    and "\<forall>k < m. lenient False dec_bool (field ''running'' (fields_of (status k)))"
    and "\<not> lenient False dec_bool (field ''running'' (fields_of (status m)))" and "m < 600"
    and "failure = lenient '''' dec_string (field ''error'' (fields_of (status m)))"
  shows "runTool s ''copy_db'' args w =
    (if failure \<noteq> '''' then Inl failure
     else Inr (''copy complete: '' @ int_str (sint (lenient 0 dec_int (field ''tables'' (fields_of (status m))))) @
       '' tables, '' @ int_str (sint (lenient 0 dec_int (field ''rows'' (fields_of (status m))))) @
       '' rows into the verification DB''), iter (Suc m))"
  using assms seed_loop_reports [of m s iter status 600]
  by (simp add: runTool_def copy_db_def pollSeed_def seed_result_def copy_complete_def del: seed_loop.simps)

text \<open>A dashboard whose copy runs for three polls; the world counts the requests.\<close>

definition demo_status :: "nat \<Rightarrow> string" where
  "demo_status k =
     print_json (if k < 3 then JObj [(''running'', JBool True)]
       else JObj [(''running'', JBool False), (''tables'', JNum ''2''), (''rows'', JNum ''17'')])"

definition demo_dashboard :: "nat client" where
  "demo_dashboard r n =
     (Answer 200 ''200 OK'' (if hc_Method r = ''POST'' then ''{}'' else demo_status (n - 1)), Suc n)"

theorem copy_reported_witness:
  "runTool \<lparr>ms_dashboard = ''http://d'', ms_token = '''', ms_client = demo_dashboard\<rparr> ''copy_db''
     (Some [(''confirm'', GBool True)]) 0 =
   (Inr ''copy complete: 2 tables, 17 rows into the verification DB'', 5)"
proof -
  let ?s = "\<lparr>ms_dashboard = ''http://d'', ms_token = '''', ms_client = demo_dashboard\<rparr>"
  have start: "postJSON ?s ''/api/seed/start'' (GMap []) 0 = ((''{}'', None), Suc 0)"
    by (simp add: postJSON_def do_call_def dash_call_def demo_dashboard_def)
  have poll: "get_dash ?s ''/api/seed/status'' (Suc k) = ((demo_status k, None), Suc (Suc k))" for k
    by (simp add: get_dash_def do_call_def dash_call_def demo_dashboard_def)
  have run: "\<forall>k < 3. lenient False dec_bool (field ''running'' (fields_of (demo_status k)))"
    and ended: "\<not> lenient False dec_bool (field ''running'' (fields_of (demo_status 3)))"
    and none: "lenient '''' dec_string (field ''error'' (fields_of (demo_status 3))) = ''''"
    and tables: "int_str (sint (lenient 0 dec_int (field ''tables'' (fields_of (demo_status 3))))) = ''2''"
    and rows: "int_str (sint (lenient 0 dec_int (field ''rows'' (fields_of (demo_status 3))))) = ''17''"
  proof -
    let ?view = "\<lambda>k. let f = fields_of (demo_status k) in
      (lenient False dec_bool (field ''running'' f), lenient '''' dec_string (field ''error'' f),
       int_str (sint (lenient 0 dec_int (field ''tables'' f))), int_str (sint (lenient 0 dec_int (field ''rows'' f))))"
    have "map (\<lambda>k. fst (?view k)) [0, Suc 0, Suc (Suc 0)] = [True, True, True] \<and> ?view 3 = (False, '''', ''2'', ''17'')"
      by code_simp
    then show "\<forall>k < 3. lenient False dec_bool (field ''running'' (fields_of (demo_status k)))"
      "\<not> lenient False dec_bool (field ''running'' (fields_of (demo_status 3)))"
      "lenient '''' dec_string (field ''error'' (fields_of (demo_status 3))) = ''''"
      "int_str (sint (lenient 0 dec_int (field ''tables'' (fields_of (demo_status 3))))) = ''2''"
      "int_str (sint (lenient 0 dec_int (field ''rows'' (fields_of (demo_status 3))))) = ''17''"
      by (simp_all add: Let_def numeral_3_eq_3 less_Suc_eq)
  qed
  show ?thesis
    using copy_reported [of "Some [(''confirm'', GBool True)]" ?s 0 "''{}''" Suc 3 demo_status,
        OF _ start _ run ended _ none [symmetric]] poll tables rows
    by (simp add: arg_true_def arg_def)
qed

end
