(* ===== verification/Mailbox.thy ===== *)
theory Mailbox
  imports Prelude
begin

text \<open>
  The contract of a queue of messages that one side posts and the other fetches all at once, among
  other operations that leave the queue alone: what is fetched is what was posted, once and in order.
  The command queues of the agent registry implement it.
\<close>

datatype ('m, 'f, 'o) mail = Post 'm | Fetch 'f | Other 'o

locale mailbox =
  fixes post :: "'m \<Rightarrow> 's \<Rightarrow> 's"
    and fetch :: "'f \<Rightarrow> 's \<Rightarrow> 'm list \<times> 's"
    and other :: "'o \<Rightarrow> 's \<Rightarrow> 's"
    and waiting :: "'s \<Rightarrow> 'm list"
    and known :: "'s \<Rightarrow> bool"
    and quiet :: "'o \<Rightarrow> bool"
  assumes post_appends: "known s \<Longrightarrow> waiting (post m s) = waiting s @ [m]"
    and fetch_takes: "known s \<Longrightarrow> fst (fetch f s) = waiting s"
    and fetch_empties: "known s \<Longrightarrow> waiting (snd (fetch f s)) = []"
    and other_keeps: "quiet e \<Longrightarrow> known s \<Longrightarrow> waiting (other e s) = waiting s"
    and stays_known: "known s \<Longrightarrow> known (post m s)" "known s \<Longrightarrow> known (snd (fetch f s))"
      "known s \<Longrightarrow> known (other e s)"
begin

fun mail_step :: "('m, 'f, 'o) mail \<Rightarrow> 's \<Rightarrow> 'm list \<times> 's" where
  "mail_step (Post m) s = ([], post m s)"
| "mail_step (Fetch f) s = fetch f s"
| "mail_step (Other e) s = ([], other e s)"

fun mail_run :: "('m, 'f, 'o) mail list \<Rightarrow> 's \<Rightarrow> 'm list list \<times> 's" where
  "mail_run [] s = ([], s)"
| "mail_run (m # ms) s =
     (let (got, s) = mail_step m s; (gots, s) = mail_run ms s in (got # gots, s))"

fun posted :: "('m, 'f, 'o) mail list \<Rightarrow> 'm list" where
  "posted [] = []"
| "posted (Post m # ms) = m # posted ms"
| "posted (_ # ms) = posted ms"

fun quiet_mail :: "('m, 'f, 'o) mail \<Rightarrow> bool" where
  "quiet_mail (Other e) = quiet e"
| "quiet_mail _ = True"

lemma mail_step_fifo:
  "known s \<Longrightarrow> quiet_mail m \<Longrightarrow> fst (mail_step m s) @ waiting (snd (mail_step m s)) = waiting s @ posted [m]"
  by (cases m) (simp_all add: post_appends fetch_takes fetch_empties other_keeps)

lemma mail_step_known: "known s \<Longrightarrow> known (snd (mail_step m s))"
  by (cases m) (simp_all add: stays_known)

lemma posted_Cons: "posted (m # ms) = posted [m] @ posted ms"
  by (cases m) simp_all

lemma mail_run_fifo:
  "known s \<Longrightarrow> list_all quiet_mail ms \<Longrightarrow>
   concat (fst (mail_run ms s)) @ waiting (snd (mail_run ms s)) = waiting s @ posted ms"
proof (induction ms arbitrary: s)
  case (Cons m ms)
  obtain got s1 where 1: "mail_step m s = (got, s1)" by fastforce
  obtain gots s2 where 2: "mail_run ms s1 = (gots, s2)" by fastforce
  have k: "known s1" and got: "got @ waiting s1 = waiting s @ posted [m]"
    using mail_step_known [of s m] mail_step_fifo [of s m] Cons.prems 1 by simp_all
  have rest: "concat gots @ waiting s2 = waiting s1 @ posted ms"
    using Cons.IH [OF k] Cons.prems(2) 2 by simp
  have "concat (fst (mail_run (m # ms) s)) @ waiting (snd (mail_run (m # ms) s))
      = got @ waiting s1 @ posted ms" using rest by (simp add: 1 2)
  also have "\<dots> = waiting s @ posted (m # ms)"
    using got by (subst posted_Cons) (metis append.assoc)
  finally show ?case .
qed simp

end

end
