(* ===== verification/Files.thy ===== *)
theory Files
  imports Prelude
begin

text \<open>
  File names: \<open>filepath.Base\<close> and the pattern of recording names (\<open>corpusNamePattern\<close> of
  \<open>internal/ui/ui.go\<close>), and a directory tree as a map from a directory and a name to the contents.
\<close>

text \<open>\<open>filepath.Base\<close>.\<close>

definition path_base :: "string \<Rightarrow> string" where
  "path_base p =
     (if p = '''' then ''.''
      else
        (let b = after_last (CHR ''/'') (trim_right (CHR ''/'') p)
         in if b = '''' then ''/'' else b))"

lemma path_base_no_slash: "path_base p = ''/'' \<or> CHR ''/'' \<notin> set (path_base p)"
  using after_last_notin by (auto simp: path_base_def Let_def)

lemma path_base_nonempty [simp]: "path_base p \<noteq> ''''"
  by (simp add: path_base_def Let_def)

lemma path_base_name:
  assumes "CHR ''/'' \<notin> set p" and "p \<noteq> ''''"
  shows "path_base p = p"
proof -
  obtain c s where r: "rev p = c # s" using assms(2) by (cases "rev p") auto
  have "c \<in> set p" using r by (metis list.set_intros(1) set_rev)
  then have "c \<noteq> CHR ''/''" using assms(1) by metis
  then have "trim_right (CHR ''/'') p = rev (c # s)" unfolding trim_right_def r by simp
  also have "\<dots> = p" using r by (metis rev_rev_ident)
  finally show ?thesis using assms by (simp add: path_base_def after_last_no)
qed

text \<open>\<open>filepath.Clean\<close> and \<open>filepath.Join\<close> of a directory and a name.\<close>

fun clean_parts :: "bool \<Rightarrow> string list \<Rightarrow> string list \<Rightarrow> string list" where
  "clean_parts rooted acc [] = rev acc"
| "clean_parts rooted acc (p # ps) =
     clean_parts rooted
       (if p = '''' \<or> p = ''.'' then acc
        else if p \<noteq> ''..'' then p # acc
        else if acc \<noteq> [] \<and> hd acc \<noteq> ''..'' then tl acc
        else if rooted then acc else p # acc) ps"

definition path_clean :: "string \<Rightarrow> string" where
  "path_clean p =
     (let rooted = has_prefix p ''/'';
          s = join_with ''/'' (clean_parts rooted [] (split_on (CHR ''/'') p))
      in if rooted then ''/'' @ s else if s = '''' then ''.'' else s)"

definition path_join :: "string \<Rightarrow> string \<Rightarrow> string" where
  "path_join dir name =
     (let parts = filter (\<lambda>s. s \<noteq> '''') [dir, name]
      in if parts = [] then '''' else path_clean (join_with ''/'' parts))"

lemma path_join_examples:
  "path_join ''./corpus'' ''a.jsonl'' = ''corpus/a.jsonl''"
  "path_join ''/data//x/'' ''../b'' = ''/data/b''"
  by code_simp+

text \<open>The pattern \<open>^[a-zA-Z0-9._-]+$\<close>.\<close>

definition name_char :: "char \<Rightarrow> bool" where
  "name_char c \<longleftrightarrow>
     (97 \<le> byte c \<and> byte c \<le> 122) \<or> (65 \<le> byte c \<and> byte c \<le> 90) \<or> is_digit c \<or>
     c = CHR ''.'' \<or> c = CHR ''_'' \<or> c = CHR ''-''"

definition corpusNamePattern :: "string \<Rightarrow> bool" where
  "corpusNamePattern name \<longleftrightarrow> name \<noteq> '''' \<and> list_all name_char name"

lemma corpusNamePattern_no_slash: "corpusNamePattern name \<Longrightarrow> CHR ''/'' \<notin> set name"
proof -
  have "\<not> name_char (CHR ''/'')" by code_simp
  then show "corpusNamePattern name \<Longrightarrow> CHR ''/'' \<notin> set name"
    by (auto simp: corpusNamePattern_def list_all_iff)
qed

text \<open>The pattern \<open>^run-[0-9]{8}-[0-9]{6}\.json$\<close>.\<close>

definition runFilePattern :: "string \<Rightarrow> bool" where
  "runFilePattern name \<longleftrightarrow>
     length name = 24 \<and> has_prefix name ''run-'' \<and> list_all is_digit (take 8 (drop 4 name)) \<and>
     name ! 12 = CHR ''-'' \<and> list_all is_digit (take 6 (drop 13 name)) \<and> drop 19 name = ''.json''"

lemma runFilePattern_example: "runFilePattern ''run-20250131-235959.json''"
  by code_simp

text \<open>Files by directory and name.\<close>

type_synonym file_store = "string \<times> string \<Rightarrow> string option"

end
