(* ===== verification/Registry.thy ===== *)
theory Registry
  imports Mailbox Files Golden
begin

text \<open>
  \<open>internal/ui/agents.go\<close>: the registry of collectors (registration, heartbeats that hand out queued
  commands, the list with its health colours), the upload of recordings and the health check.  A
  handler maps the request, its body already decoded (or the decoder's error), to the status code and
  the JSON value of its answer and to the new state.  Times are nanoseconds.
\<close>

section \<open>State\<close>

record AgentRecord =
  ar_ID :: string
  ar_Name :: string
  ar_Mode :: string
  ar_Version :: string
  ar_Out :: string
  ar_State :: string
  ar_Count :: "64 word"
  ar_Current :: string
  ar_RemainSec :: "64 word"
  ar_Recordings :: "row list option"
  ar_CaptureOK :: bool
  ar_CaptureDetail :: string
  ar_Iface :: string
  ar_LastError :: string
  ar_Remote :: string
  ar_FirstSeen :: int
  ar_LastSeen :: int
  ar_commands :: "row list"

record Registry =
  rg_agents :: "(string \<times> AgentRecord) list"
  rg_seq :: nat

definition newAgentRegistry :: Registry where
  "newAgentRegistry = \<lparr>rg_agents = [], rg_seq = 0\<rparr>"

definition agent :: "Registry \<Rightarrow> string \<Rightarrow> AgentRecord option" where
  "agent reg k = map_of (rg_agents reg) k"

text \<open>An answer: the status code and the JSON value written.\<close>

type_synonym reply = "nat \<times> gval"

definition jsonError :: "nat \<Rightarrow> string \<Rightarrow> reply" where
  "jsonError code msg = (code, GMap [(''error'', GStr msg)])"

definition writeJSON :: "gval \<Rightarrow> reply" where
  "writeJSON v = (200, v)"

definition checkToken :: "string \<Rightarrow> string \<Rightarrow> bool" where
  "checkToken token hdr \<longleftrightarrow> token = '''' \<or> hdr = token"

section \<open>Registration and heartbeats\<close>

record RegisterReq =
  rq_Name :: string
  rq_Mode :: string
  rq_Version :: string
  rq_Out :: string

definition agent_id :: "nat \<Rightarrow> string" where
  "agent_id n = ''agent-'' @ nat_str n"

definition new_agent :: "string \<Rightarrow> RegisterReq \<Rightarrow> string \<Rightarrow> int \<Rightarrow> AgentRecord" where
  "new_agent k req remote now =
     \<lparr>ar_ID = k, ar_Name = rq_Name req, ar_Mode = rq_Mode req, ar_Version = rq_Version req,
      ar_Out = rq_Out req, ar_State = ''capturing'', ar_Count = 0, ar_Current = '''', ar_RemainSec = 0,
      ar_Recordings = None, ar_CaptureOK = False, ar_CaptureDetail = '''', ar_Iface = '''',
      ar_LastError = '''', ar_Remote = remote, ar_FirstSeen = now, ar_LastSeen = now,
      ar_commands = []\<rparr>"

definition agentRegister ::
  "string \<Rightarrow> string \<Rightarrow> string + RegisterReq \<Rightarrow> string \<Rightarrow> int \<Rightarrow> Registry \<Rightarrow> reply \<times> Registry" where
  "agentRegister token hdr decoded remote now reg =
     (if \<not> checkToken token hdr then (jsonError 401 ''invalid token'', reg)
      else
        (case decoded of
           Inl e \<Rightarrow> (jsonError 400 e, reg)
         | Inr req \<Rightarrow>
             (let reg = reg\<lparr>rg_seq := rg_seq reg + 1\<rparr>;
                  k = agent_id (rg_seq reg);
                  reg = reg\<lparr>rg_agents := map_set k (new_agent k req remote now) (rg_agents reg)\<rparr>
              in (writeJSON (GMap [(''id'', GStr k)]), reg))))"

record HeartbeatReq =
  hb_ID :: string
  hb_State :: string
  hb_Count :: "64 word"
  hb_Current :: string
  hb_RemainSec :: "64 word"
  hb_Recordings :: "row list option"
  hb_CaptureOK :: bool
  hb_CaptureDetail :: string
  hb_Iface :: string
  hb_LastError :: string

definition beat_record :: "HeartbeatReq \<Rightarrow> int \<Rightarrow> AgentRecord \<Rightarrow> AgentRecord" where
  "beat_record req now a =
     a\<lparr>ar_State := hb_State req, ar_Count := hb_Count req, ar_LastError := hb_LastError req,
       ar_LastSeen := now, ar_Current := hb_Current req, ar_RemainSec := hb_RemainSec req,
       ar_Recordings := hb_Recordings req, ar_CaptureOK := hb_CaptureOK req,
       ar_CaptureDetail := hb_CaptureDetail req, ar_Iface := hb_Iface req, ar_commands := []\<rparr>"

definition beat_reply :: "row list \<Rightarrow> reply" where
  "beat_reply commands = writeJSON (GMap [(''commands'', GArr (map GMap commands)), (''ok'', GBool True)])"

definition beat_agent :: "string \<Rightarrow> HeartbeatReq \<times> int \<Rightarrow> Registry \<Rightarrow> row list \<times> Registry" where
  "beat_agent k beat reg =
     (case agent reg k of
        None \<Rightarrow> ([], reg)
      | Some a \<Rightarrow>
          (ar_commands a,
           reg\<lparr>rg_agents := map_set k (beat_record (fst beat) (snd beat) a) (rg_agents reg)\<rparr>))"

definition agentHeartbeat ::
  "string \<Rightarrow> string \<Rightarrow> string + HeartbeatReq \<Rightarrow> int \<Rightarrow> Registry \<Rightarrow> reply \<times> Registry" where
  "agentHeartbeat token hdr decoded now reg =
     (if \<not> checkToken token hdr then (jsonError 401 ''invalid token'', reg)
      else
        (case decoded of
           Inl e \<Rightarrow> (jsonError 400 e, reg)
         | Inr req \<Rightarrow>
             (let (commands, reg) = beat_agent (hb_ID req) (req, now) reg in (beat_reply commands, reg))))"

definition seconds_ns :: "int \<Rightarrow> int" where
  "seconds_ns s = s * 1000000000"

definition health :: "int \<Rightarrow> string" where
  "health fresh =
     (if fresh > seconds_ns 120 then ''red'' else if fresh > seconds_ns 30 then ''yellow'' else ''green'')"

text \<open>A nil slice is written \<open>null\<close>.\<close>

definition json_rows :: "row list option \<Rightarrow> gval" where
  "json_rows rows = (case rows of None \<Rightarrow> GNil | Some rs \<Rightarrow> GArr (map GMap rs))"

definition agent_item :: "int \<Rightarrow> AgentRecord \<Rightarrow> gval" where
  "agent_item now a =
     (let fresh = now - ar_LastSeen a
      in GMap [(''id'', GStr (ar_ID a)), (''name'', GStr (ar_Name a)), (''mode'', GStr (ar_Mode a)),
           (''state'', GStr (ar_State a)), (''count'', GInt (ar_Count a)),
           (''last_error'', GStr (ar_LastError a)), (''out'', GStr (ar_Out a)),
           (''current'', GStr (ar_Current a)), (''remain_sec'', GInt (ar_RemainSec a)),
           (''recordings'', json_rows (ar_Recordings a)), (''capture_ok'', GBool (ar_CaptureOK a)),
           (''capture_detail'', GStr (ar_CaptureDetail a)), (''iface'', GStr (ar_Iface a)),
           (''last_seen_s'', GInt (word_of_int (sgn fresh * (\<bar>fresh\<bar> div 1000000000)))), (''health'', GStr (health fresh))])"

definition agentList :: "int \<Rightarrow> Registry \<Rightarrow> reply" where
  "agentList now reg = writeJSON (GArr (map (agent_item now \<circ> snd) (rg_agents reg)))"

definition command_id :: "row \<Rightarrow> string" where
  "command_id cmd = (case map_of cmd ''id'' of Some (GStr k) \<Rightarrow> k | _ \<Rightarrow> '''')"

definition without_id :: "row \<Rightarrow> row" where
  "without_id cmd = filter (\<lambda>kv. fst kv \<noteq> ''id'') cmd"

definition queue_command :: "string \<Rightarrow> row \<Rightarrow> Registry \<Rightarrow> Registry" where
  "queue_command k cmd reg =
     (case agent reg k of
        None \<Rightarrow> reg
      | Some a \<Rightarrow> reg\<lparr>rg_agents := map_set k (a\<lparr>ar_commands := ar_commands a @ [cmd]\<rparr>) (rg_agents reg)\<rparr>)"

definition agentCommand :: "string + row \<Rightarrow> Registry \<Rightarrow> reply \<times> Registry" where
  "agentCommand decoded reg =
     (case decoded of
        Inl e \<Rightarrow> (jsonError 400 e, reg)
      | Inr cmd \<Rightarrow>
          (let k = command_id cmd
           in if agent reg k = None then (jsonError 404 ''unknown agent'', reg)
              else (writeJSON (GMap [(''queued'', GBool True)]), queue_command k (without_id cmd) reg)))"

section \<open>The registry as a state machine\<close>

datatype reg_event =
    RegisterEv string "string + RegisterReq" string int
  | HeartbeatEv string "string + HeartbeatReq" int
  | CommandEv "string + row"
  | ListEv int

definition reg_step :: "string \<Rightarrow> reg_event \<Rightarrow> Registry \<Rightarrow> reply \<times> Registry" where
  "reg_step token ev reg =
     (case ev of
        RegisterEv hdr decoded remote now \<Rightarrow> agentRegister token hdr decoded remote now reg
      | HeartbeatEv hdr decoded now \<Rightarrow> agentHeartbeat token hdr decoded now reg
      | CommandEv decoded \<Rightarrow> agentCommand decoded reg
      | ListEv now \<Rightarrow> (agentList now reg, reg))"

fun reg_run :: "string \<Rightarrow> reg_event list \<Rightarrow> Registry \<Rightarrow> reply list \<times> Registry" where
  "reg_run token [] reg = ([], reg)"
| "reg_run token (ev # evs) reg =
     (let (r, reg) = reg_step token ev reg; (rs, reg) = reg_run token evs reg in (r # rs, reg))"

section \<open>The invariant of the registry\<close>

definition record_ok :: "nat \<Rightarrow> string \<times> AgentRecord \<Rightarrow> bool" where
  "record_ok seq ka \<longleftrightarrow>
     ar_ID (snd ka) = fst ka \<and> (\<exists>n. 1 \<le> n \<and> n \<le> seq \<and> fst ka = agent_id n)"

definition registry_ok :: "Registry \<Rightarrow> bool" where
  "registry_ok reg \<longleftrightarrow>
     distinct (keys (rg_agents reg)) \<and> list_all (record_ok (rg_seq reg)) (rg_agents reg)"

lemma agent_id_inject [simp]: "agent_id m = agent_id n \<longleftrightarrow> m = n"
  by (simp add: agent_id_def)

lemma record_ok_mono: "record_ok m ka \<Longrightarrow> m \<le> n \<Longrightarrow> record_ok n ka"
  by (auto simp: record_ok_def)

lemma registry_ok_set:
  assumes "registry_ok reg" and "record_ok (rg_seq reg) (k, a)"
  shows "registry_ok (reg\<lparr>rg_agents := map_set k a (rg_agents reg)\<rparr>)"
  using assms distinct_map_set [of "rg_agents reg" k a] set_map_set [of k a "rg_agents reg"]
  by (auto simp: registry_ok_def list_all_iff)

lemma registry_ok_agent: "registry_ok reg \<Longrightarrow> agent reg k = Some a \<Longrightarrow> record_ok (rg_seq reg) (k, a)"
  by (auto simp: registry_ok_def agent_def list_all_iff dest: map_of_SomeD)

lemma fresh_id: "registry_ok reg \<Longrightarrow> rg_seq reg < n \<Longrightarrow> agent reg (agent_id n) = None"
  using registry_ok_agent [of reg "agent_id n"]
  by (cases "agent reg (agent_id n)") (auto simp: record_ok_def)

section \<open>Commands are handed out once\<close>

definition queued :: "string \<Rightarrow> Registry \<Rightarrow> row list" where
  "queued k reg = (case agent reg k of None \<Rightarrow> [] | Some a \<Rightarrow> ar_commands a)"

text \<open>Which event is a message for the queue of one agent.\<close>

definition mail_of :: "string \<Rightarrow> string \<Rightarrow> reg_event \<Rightarrow> (row, HeartbeatReq \<times> int, reg_event) mail" where
  "mail_of token k ev =
     (case ev of
        CommandEv (Inr cmd) \<Rightarrow> if command_id cmd = k then Post (without_id cmd) else Other ev
      | HeartbeatEv hdr (Inr req) now \<Rightarrow>
          if checkToken token hdr \<and> hb_ID req = k then Fetch (req, now) else Other ev
      | _ \<Rightarrow> Other ev)"

text \<open>Events that do not touch the queue of the agent: registrations (of a new number), the list, and
  what concerns another agent or is refused.\<close>

definition quiet_for :: "string \<Rightarrow> string \<Rightarrow> reg_event \<Rightarrow> bool" where
  "quiet_for token k ev \<longleftrightarrow> (\<exists>e. mail_of token k ev = Other e)"


lemma registry_ok_next: "registry_ok reg \<Longrightarrow> registry_ok (reg\<lparr>rg_seq := rg_seq reg + 1\<rparr>)"
  by (auto simp: registry_ok_def list_all_iff intro: record_ok_mono)

lemma new_agent_ok: "1 \<le> seq \<Longrightarrow> record_ok seq (agent_id seq, new_agent (agent_id seq) req remote now)"
  by (auto simp: record_ok_def new_agent_def)

lemma agentRegister_ok: "registry_ok reg \<Longrightarrow> registry_ok (snd (agentRegister token hdr decoded remote now reg))"
  using registry_ok_set [OF registry_ok_next new_agent_ok, of reg]
  by (auto simp: agentRegister_def Let_def split: sum.split)

lemma beat_record_ok: "record_ok seq (k, a) \<Longrightarrow> record_ok seq (k, beat_record req now a)"
  by (simp add: record_ok_def beat_record_def)

lemma beat_agent_ok: "registry_ok reg \<Longrightarrow> registry_ok (snd (beat_agent k beat reg))"
  using registry_ok_set [of reg k] registry_ok_agent [of reg k] beat_record_ok
  by (simp add: beat_agent_def split: option.split)

lemma queue_command_ok:
  "registry_ok reg \<Longrightarrow> registry_ok (queue_command k cmd reg)"
  using registry_ok_set [of reg k] registry_ok_agent [of reg k]
  by (simp add: queue_command_def record_ok_def split: option.split)

lemma reg_step_ok: "registry_ok reg \<Longrightarrow> registry_ok (snd (reg_step token ev reg))"
  using beat_agent_ok [of reg] queue_command_ok [of reg] agentRegister_ok
  by (auto simp: reg_step_def agentHeartbeat_def agentCommand_def Let_def case_prod_beta
      split: reg_event.split sum.split)

inductive reg_reach :: "string \<Rightarrow> Registry \<Rightarrow> bool" for token where
  start: "reg_reach token newAgentRegistry"
| step: "reg_reach token reg \<Longrightarrow> reg_reach token (snd (reg_step token ev reg))"

lemma registry_ok_reach: "reg_reach token reg \<Longrightarrow> registry_ok reg"
proof (induction rule: reg_reach.induct)
  case start
  show ?case by (simp add: registry_ok_def newAgentRegistry_def keys_def)
qed (rule reg_step_ok)

text \<open>What an agent that is registered sees of the steps.\<close>

definition known_agent :: "string \<Rightarrow> Registry \<Rightarrow> bool" where
  "known_agent k reg \<longleftrightarrow> registry_ok reg \<and> agent reg k \<noteq> None"

lemma agent_set [simp]:
  "agent (reg\<lparr>rg_agents := map_set k a (rg_agents reg)\<rparr>) k' = (if k' = k then Some a else agent reg k')"
  by (simp add: agent_def)

lemma agent_seq [simp]: "agent (reg\<lparr>rg_seq := n\<rparr>) k = agent reg k"
  by (simp add: agent_def)

lemma agentRegister_other:
  "known_agent k reg \<Longrightarrow> agent (snd (agentRegister token hdr decoded remote now reg)) k = agent reg k"
proof -
  assume a: "known_agent k reg"
  then have "k \<noteq> agent_id (rg_seq reg + 1)"
    using fresh_id [of reg "rg_seq reg + 1"] by (auto simp: known_agent_def)
  moreover have "rg_agents (reg\<lparr>rg_seq := n\<rparr>) = rg_agents reg" for n by simp
  ultimately show ?thesis
    by (simp add: agentRegister_def agent_def Let_def split: sum.split)
qed

lemma beat_agent_other: "k' \<noteq> k \<Longrightarrow> agent (snd (beat_agent k beat reg)) k' = agent reg k'"
  by (simp add: beat_agent_def split: option.split)

lemma queue_command_other: "k' \<noteq> k \<Longrightarrow> agent (queue_command k cmd reg) k' = agent reg k'"
  by (simp add: queue_command_def split: option.split)

lemma quiet_step:
  assumes "known_agent k reg" and "quiet_for token k ev"
  shows "agent (snd (reg_step token ev reg)) k = agent reg k"
  using assms beat_agent_other [of k] queue_command_other [of k] agentRegister_other
  by (cases ev)
    (auto simp: reg_step_def quiet_for_def mail_of_def agentHeartbeat_def agentCommand_def Let_def
      case_prod_beta split: sum.splits if_splits)


lemma stays_registered:
  "agent reg k \<noteq> None \<Longrightarrow> agent (snd (beat_agent k' beat reg)) k \<noteq> None"
  "agent reg k \<noteq> None \<Longrightarrow> agent (queue_command k' cmd reg) k \<noteq> None"
  by (simp_all add: beat_agent_def queue_command_def split: option.split)

lemma known_beat: "known_agent k reg \<Longrightarrow> known_agent k (snd (beat_agent k' beat reg))"
  by (simp add: known_agent_def beat_agent_ok stays_registered)

lemma known_queue: "known_agent k reg \<Longrightarrow> known_agent k (queue_command k' cmd reg)"
  by (simp add: known_agent_def queue_command_ok stays_registered)

lemma known_register:
  "known_agent k reg \<Longrightarrow> known_agent k (snd (agentRegister token hdr decoded remote now reg))"
  using agentRegister_other agentRegister_ok by (metis known_agent_def)

lemma known_step: "known_agent k reg \<Longrightarrow> known_agent k (snd (reg_step token ev reg))"
  using known_beat [of k reg] known_queue [of k reg] known_register [of k reg]
  by (simp add: reg_step_def agentHeartbeat_def agentCommand_def Let_def case_prod_beta
      split: reg_event.split sum.split)

text \<open>The queue of one agent keeps the contract of a mailbox: commands are posted, a heartbeat fetches,
  every other event is quiet.\<close>

interpretation commands: mailbox
  "queue_command k" "beat_agent k" "\<lambda>ev reg. snd (reg_step token ev reg)"
  "queued k" "known_agent k" "quiet_for token k" for k token
proof
  fix reg m
  assume "known_agent k reg"
  then obtain a where "agent reg k = Some a" by (auto simp: known_agent_def)
  then show "queued k (queue_command k m reg) = queued k reg @ [m]"
    "fst (beat_agent k f reg) = queued k reg" "queued k (snd (beat_agent k f reg)) = []" for f
    by (simp_all add: queue_command_def queued_def beat_agent_def beat_record_def)
next
  fix ev reg
  assume "quiet_for token k ev" "known_agent k reg"
  then show "queued k (snd (reg_step token ev reg)) = queued k reg"
    by (simp add: queued_def quiet_step)
qed (simp_all add: known_queue known_beat known_step)

text \<open>What the replies hand to one agent, and what the dashboard accepted for it.\<close>

definition gmap_of :: "gval \<Rightarrow> row" where
  "gmap_of v = (case v of GMap m \<Rightarrow> m | _ \<Rightarrow> [])"

definition reply_commands :: "reply \<Rightarrow> row list" where
  "reply_commands r =
     (case map_of (gmap_of (snd r)) ''commands'' of Some (GArr vs) \<Rightarrow> map gmap_of vs | _ \<Rightarrow> [])"

definition handed :: "string \<Rightarrow> string \<Rightarrow> reg_event \<Rightarrow> reply \<Rightarrow> row list" where
  "handed token k ev r =
     (case ev of
        HeartbeatEv hdr (Inr req) _ \<Rightarrow> if checkToken token hdr \<and> hb_ID req = k then reply_commands r else []
      | _ \<Rightarrow> [])"

definition accepted :: "string \<Rightarrow> reg_event \<Rightarrow> row list" where
  "accepted k ev =
     (case ev of CommandEv (Inr cmd) \<Rightarrow> if command_id cmd = k then [without_id cmd] else [] | _ \<Rightarrow> [])"

lemma reply_commands_beat [simp]: "reply_commands (beat_reply cmds) = cmds"
  by (simp add: reply_commands_def beat_reply_def writeJSON_def gmap_of_def comp_def)

lemma mail_of_step:
  assumes "known_agent k reg"
  shows "commands.mail_step k token (mail_of token k ev) reg =
    (handed token k ev (fst (reg_step token ev reg)), snd (reg_step token ev reg))"
proof (cases "mail_of token k ev")
  case (Post cmd)
  have "queue_command k cmd reg = snd (reg_step token ev reg)" "handed token k ev r = []" for r
    using Post assms
    by (auto simp: mail_of_def handed_def reg_step_def agentCommand_def known_agent_def Let_def
        split: reg_event.splits sum.splits if_splits)
  with Post show ?thesis by simp
next
  case (Fetch beat)
  have "beat_agent k beat reg = (handed token k ev (fst (reg_step token ev reg)), snd (reg_step token ev reg))"
    using Fetch
    by (auto simp: mail_of_def handed_def reg_step_def agentHeartbeat_def Let_def case_prod_beta
        split: reg_event.splits sum.splits if_splits)
  with Fetch show ?thesis by simp
next
  case (Other e)
  then have "e = ev" "handed token k ev r = []" for r
    by (auto simp: mail_of_def handed_def split: reg_event.splits sum.splits if_splits)
  with Other show ?thesis by simp
qed

lemma posted_mail_of: "commands.posted (map (mail_of token k) evs) = concat (map (accepted k) evs)"
proof (induction evs)
  case (Cons ev evs)
  have "commands.posted [mail_of token k ev] = accepted k ev"
    by (auto simp: mail_of_def accepted_def split: reg_event.split sum.split)
  with Cons commands.posted_Cons [of "mail_of token k ev" "map (mail_of token k) evs"] show ?case by simp
qed simp

lemma mail_of_run:
  "known_agent k reg \<Longrightarrow>
   commands.mail_run k token (map (mail_of token k) evs) reg =
     (map2 (handed token k) evs (fst (reg_run token evs reg)), snd (reg_run token evs reg))"
proof (induction evs arbitrary: reg)
  case (Cons ev evs)
  then show ?case
    using Cons.IH [OF known_step [OF Cons.prems, of token ev]]
    by (simp add: mail_of_step Let_def case_prod_beta)
qed simp

lemma quiet_mail_of: "list_all (commands.quiet_mail token k) (map (mail_of token k) evs)"
proof -
  have "commands.quiet_mail token k (mail_of token k ev)" for ev
    by (cases "mail_of token k ev")
      (auto simp: quiet_for_def mail_of_def split: reg_event.splits sum.splits if_splits)
  then show ?thesis by (simp add: list_all_iff)
qed

text \<open>
  C30.  A command queued for a collector is handed to it exactly once and in order: over any sequence
  of requests to the registry, the commands that the answered heartbeats of a registered agent carry,
  followed by those still queued, are those queued before followed by every command accepted for the
  agent (without its id).  Other agents, refused requests and lists do not disturb the queue.
\<close>

theorem commands_handed_once:
  assumes "reg_reach token reg" and "agent reg k \<noteq> None"
    and "reg_run token evs reg = (replies, reg')"
  shows "concat (map2 (handed token k) evs replies) @ queued k reg' =
    queued k reg @ concat (map (accepted k) evs)"
proof -
  have "known_agent k reg" using assms(1,2) registry_ok_reach by (simp add: known_agent_def)
  from commands.mail_run_fifo [OF this quiet_mail_of, of token evs] mail_of_run [OF this, of token evs]
    assms(3)
  show ?thesis by (simp add: posted_mail_of)
qed

definition demo_register :: reg_event where
  "demo_register = RegisterEv '''' (Inr \<lparr>rq_Name = ''host'', rq_Mode = ''agent'', rq_Version = ''1'',
     rq_Out = ''/rec''\<rparr>) ''10.0.0.1:9'' 0"

definition demo_beat :: "string \<Rightarrow> reg_event" where
  "demo_beat k = HeartbeatEv '''' (Inr \<lparr>hb_ID = k, hb_State = ''idle'', hb_Count = 0, hb_Current = '''',
     hb_RemainSec = 0, hb_Recordings = Some [], hb_CaptureOK = True, hb_CaptureDetail = ''ok'',
     hb_Iface = ''eth0'', hb_LastError = ''''\<rparr>) 1"

definition demo_command :: "string \<Rightarrow> reg_event" where
  "demo_command a = CommandEv (Inr [(''id'', GStr ''agent-1''), (''action'', GStr a)])"

theorem commands_handed_once_witness:
  "let reg = snd (reg_step '''' demo_register newAgentRegistry);
       evs = [demo_command ''start'', demo_command ''stop'', demo_beat ''agent-1'', demo_command ''upload''];
       (replies, reg') = reg_run '''' evs reg
   in concat (map2 (handed '''' ''agent-1'') evs replies) @ queued ''agent-1'' reg' =
        [[(''action'', GStr ''start'')], [(''action'', GStr ''stop'')], [(''action'', GStr ''upload'')]] \<and>
      queued ''agent-1'' reg' = [[(''action'', GStr ''upload'')]]"
proof -
  let ?reg = "snd (reg_step '''' demo_register newAgentRegistry)"
  let ?evs = "[demo_command ''start'', demo_command ''stop'', demo_beat ''agent-1'', demo_command ''upload'']"
  have r: "reg_reach '''' ?reg" by (intro reg_reach.intros)
  have a: "agent ?reg ''agent-1'' \<noteq> None" by code_simp
  obtain replies reg' where run: "reg_run '''' ?evs ?reg = (replies, reg')" by fastforce
  have "queued ''agent-1'' (snd (reg_run '''' ?evs ?reg)) = [[(''action'', GStr ''upload'')]]"
    by code_simp
  then have "queued ''agent-1'' reg' = [[(''action'', GStr ''upload'')]]" unfolding run by simp
  moreover have "queued ''agent-1'' ?reg = []" by code_simp
  moreover have "concat (map (accepted ''agent-1'') ?evs) =
      [[(''action'', GStr ''start'')], [(''action'', GStr ''stop'')], [(''action'', GStr ''upload'')]]"
    by code_simp
  ultimately show ?thesis
    using commands_handed_once [OF r a run] unfolding Let_def run by (simp only: append_Nil split_conv)
qed

text \<open>
  C31.  Every reachable registry lists each collector once, under the id it was given, and never gives
  an id twice: ids run from \<open>agent-1\<close> to the number of registrations, so a registration never
  replaces the record of another collector, whatever requests came before.
\<close>

theorem registry_ids_unique:
  assumes "reg_reach token reg"
  shows "distinct (map (ar_ID \<circ> snd) (rg_agents reg)) \<and>
    agent reg (agent_id (rg_seq reg + 1)) = None \<and>
    (\<forall>(k, a) \<in> set (rg_agents reg). ar_ID a = k \<and> (\<exists>n \<in> {1..rg_seq reg}. k = agent_id n))"
proof -
  have ok: "registry_ok reg" by (rule registry_ok_reach [OF assms])
  have "map (ar_ID \<circ> snd) (rg_agents reg) = keys (rg_agents reg)"
    using ok by (auto simp: registry_ok_def record_ok_def list_all_iff keys_def)
  then show ?thesis using ok fresh_id [OF ok]
    by (auto simp: registry_ok_def record_ok_def list_all_iff Bex_def)
qed

theorem registry_ids_unique_witness:
  "let reg = snd (reg_step '''' demo_register (snd (reg_step '''' demo_register newAgentRegistry)))
   in distinct (map (ar_ID \<circ> snd) (rg_agents reg)) \<and> agent reg ''agent-3'' = None \<and>
      length (rg_agents reg) = 2"
proof -
  let ?reg = "snd (reg_step '''' demo_register (snd (reg_step '''' demo_register newAgentRegistry)))"
  have r: "reg_reach '''' ?reg" by (intro reg_reach.intros)
  have "agent_id (rg_seq ?reg + 1) = ''agent-3''" "length (rg_agents ?reg) = 2" by code_simp+
  with registry_ids_unique [OF r] show ?thesis by (simp add: Let_def)
qed

text \<open>A heartbeat under an id the registry does not know (a dashboard that was restarted) is answered
  as if all were well, without commands, and registers nothing.\<close>

lemma unknown_beat_ok:
  "checkToken token hdr \<Longrightarrow> agent reg (hb_ID req) = None \<Longrightarrow>
   agentHeartbeat token hdr (Inr req) now reg = (beat_reply [], reg)"
  by (simp add: agentHeartbeat_def beat_agent_def)

section \<open>Uploaded recordings\<close>

definition upload_limit :: nat where
  "upload_limit = 512 * 1048576"

text \<open>\<open>body\<close>: the bytes the client sends, or the error of reading them; \<open>mkdirErr\<close> and \<open>writeErr\<close>: the
  errors of the file system.  When \<open>os.WriteFile\<close> fails it could not open the file, which is then as it
  was, or it has emptied the file and written so many bytes of the recording.\<close>

type_synonym write_error = "string \<times> nat option"

definition saveRecording ::
  "string \<Rightarrow> string \<Rightarrow> string + string \<Rightarrow> string option \<Rightarrow> write_error option \<Rightarrow> file_store \<Rightarrow>
   reply \<times> file_store" where
  "saveRecording dir name body mkdirErr writeErr fs =
     (let name = path_base (trim_space name);
          okExt = has_suffix name ''.jsonl'' \<or> has_suffix name ''.har''
      in if \<not> corpusNamePattern name \<or> \<not> okExt
         then (jsonError 400 ''invalid recording name (.jsonl/.golden.jsonl/.har)'', fs)
         else
           (case map_sum id (take upload_limit) body of
              Inl _ \<Rightarrow> (jsonError 400 ''empty body'', fs)
            | Inr raw \<Rightarrow>
                if raw = '''' then (jsonError 400 ''empty body'', fs)
                else
                  (case mkdirErr of
                     Some e \<Rightarrow> (jsonError 500 e, fs)
                   | None \<Rightarrow>
                       (case writeErr of
                          Some (e, None) \<Rightarrow> (jsonError 500 e, fs)
                        | Some (e, Some n) \<Rightarrow> (jsonError 500 e, fs((dir, name) \<mapsto> take n raw))
                        | None \<Rightarrow>
                            (writeJSON (GMap [(''saved'', GStr name),
                               (''bytes'', GInt (of_nat (length raw))),
                               (''golden'', GBool (IsGoldenFile name))]),
                             fs((dir, name) \<mapsto> raw))))))"

definition agentUpload ::
  "string \<Rightarrow> string \<Rightarrow> string \<Rightarrow> string \<Rightarrow> string + string \<Rightarrow> string option \<Rightarrow> write_error option \<Rightarrow>
   file_store \<Rightarrow> reply \<times> file_store" where
  "agentUpload token hdr dir name body mkdirErr writeErr fs =
     (if \<not> checkToken token hdr then (jsonError 401 ''invalid token'', fs)
      else saveRecording dir name body mkdirErr writeErr fs)"

definition stored_name :: "string \<Rightarrow> bool" where
  "stored_name base \<longleftrightarrow>
     corpusNamePattern base \<and> (has_suffix base ''.jsonl'' \<or> has_suffix base ''.har'') \<and>
     CHR ''/'' \<notin> set base \<and> base \<noteq> ''.'' \<and> base \<noteq> ''..''"

text \<open>
  C32.  An upload cannot leave the corpus directory: whatever name and body a client sends, and however
  the file system answers, at most one file changes; it lies directly in the corpus directory, under a
  name made of letters, digits, dots, underscores and dashes that ends in \<open>.jsonl\<close> or \<open>.har\<close> (so neither
  \<open>.\<close> nor \<open>..\<close>).  When the answer is 200 the file holds the body, up to 512 MiB, which is not empty.
  On an error the files are as before, except when writing the file failed after it was opened: then it
  holds a beginning of the body, and what it held before is lost.
\<close>

theorem saveRecording_stays_inside:
  "case saveRecording dir name body mkdirErr writeErr fs of ((code, v), fs') \<Rightarrow>
    (if code = 200
     then \<exists>base raw. fs' = fs((dir, base) \<mapsto> take upload_limit raw) \<and> body = Inr raw \<and> raw \<noteq> '''' \<and>
       stored_name base
     else code \<in> {400, 500} \<and>
       (case writeErr of
          Some (e, Some n) \<Rightarrow>
            fs' = fs \<or> (\<exists>base raw. fs' = fs((dir, base) \<mapsto> take n (take upload_limit raw)) \<and> body = Inr raw \<and>
              stored_name base)
        | _ \<Rightarrow> fs' = fs))"
proof -
  have ext: "\<not> has_suffix ''.'' ''.jsonl'' \<and> \<not> has_suffix ''.'' ''.har'' \<and> \<not> has_suffix ''..'' ''.jsonl'' \<and>
      \<not> has_suffix ''..'' ''.har''" by code_simp
  let ?n = "path_base (trim_space name)"
  have names: "stored_name ?n"
    if "corpusNamePattern ?n" "has_suffix ?n ''.jsonl'' \<or> has_suffix ?n ''.har''"
    unfolding stored_name_def using that ext corpusNamePattern_no_slash by metis
  have "upload_limit \<noteq> 0" by (simp add: upload_limit_def)
  with names show ?thesis
    by (cases body) (auto simp: saveRecording_def Let_def jsonError_def writeJSON_def split: option.split)
qed

text \<open>So a failed upload can destroy the recording it was to replace.\<close>

lemma failed_upload_truncates:
  assumes "raw \<noteq> ''''"
  shows "snd (saveRecording dir ''a.jsonl'' (Inr raw) None (Some (''no space left on device'', Some 0)) fs) =
    fs((dir, ''a.jsonl'') \<mapsto> '''')"
proof -
  have "path_base (trim_space ''a.jsonl'') = ''a.jsonl'' \<and> corpusNamePattern ''a.jsonl'' \<and>
    has_suffix ''a.jsonl'' ''.jsonl''" by code_simp
  moreover have "upload_limit \<noteq> 0" by (simp add: upload_limit_def)
  ultimately show ?thesis using assms by (simp add: saveRecording_def Let_def)
qed

text \<open>A body longer than the limit is stored truncated and reported as saved.\<close>

lemma truncated_upload_saved:
  assumes "upload_limit < length raw"
  shows "\<exists>fs'. snd (saveRecording dir ''a.jsonl'' (Inr raw) None None fs) = fs' \<and>
    fs' (dir, ''a.jsonl'') = Some (take upload_limit raw) \<and>
    fst (fst (saveRecording dir ''a.jsonl'' (Inr raw) None None fs)) = 200"
proof -
  have "path_base (trim_space ''a.jsonl'') = ''a.jsonl''" "corpusNamePattern ''a.jsonl''"
    "has_suffix ''a.jsonl'' ''.jsonl''" by code_simp+
  moreover have "raw \<noteq> ''''" "upload_limit \<noteq> 0" using assms by (auto simp: upload_limit_def)
  ultimately show ?thesis by (simp add: saveRecording_def writeJSON_def Let_def)
qed

end
