(* ===== verification/Agent.thy ===== *)
theory Agent
  imports SniffSources Registry
begin

text \<open>
  \<open>internal/agent\<close>: the reporter of a one-shot collector (\<open>agent.go\<close>) and the daemon that executes
  the dashboard's commands (\<open>daemon.go\<close>).  The daemon's goroutines are modelled as sessions and timers
  of its state: a session is a capture goroutine with its output, a timer calls \<open>stopCapture\<close> once it
  fired.  Every locked section is one step, so a run of the daemon is a sequence of steps of its
  handlers, its goroutines and its timers.  Times are nanoseconds.
\<close>

section \<open>The reporter\<close>

text \<open>\<open>send\<close> is the HTTP client: the URL, the headers and the body; an error, or the status code, the
  status line and the body of the answer.\<close>

type_synonym 'w send = "string \<Rightarrow> (string \<times> string) list \<Rightarrow> string \<Rightarrow> 'w \<Rightarrow> (string + nat \<times> string \<times> string) \<times> 'w"

definition post ::
  "'w send \<Rightarrow> string \<Rightarrow> string \<Rightarrow> string \<Rightarrow> string \<Rightarrow> string \<Rightarrow> 'w \<Rightarrow> (string + string) \<times> 'w" where
  "post send dashboard token path contentType body w =
     (let headers = (''Content-Type'', contentType) #
            (if token \<noteq> '''' then [(''X-MB-Token'', token)] else [])
      in case send (dashboard @ path) headers body w of
           (Inl e, w) \<Rightarrow> (Inl e, w)
         | (Inr (code, status, rbody), w) \<Rightarrow>
             if 400 \<le> code then (Inl (''dashboard returned '' @ status), w) else (Inr rbody, w))"

record Reporter =
  rp_dashboard :: string
  rp_token :: string
  rp_id :: string
  rp_state :: string
  rp_count :: "64 word"
  rp_lastErr :: string
  rp_stopped :: bool

definition register_body :: "string \<Rightarrow> string \<Rightarrow> string \<Rightarrow> string \<Rightarrow> string" where
  "register_body name mode version out =
     print_json (JObj [(''name'', JStr name), (''mode'', JStr mode), (''version'', JStr version),
       (''out'', JStr out)])"

definition json_type :: string where
  "json_type = ''application/json''"

text \<open>\<open>decodeId\<close> is the decoder of the answer: the id (empty when the field is missing) or an error.\<close>

definition Connect ::
  "'w send \<Rightarrow> (string \<Rightarrow> string option) \<Rightarrow> string \<Rightarrow> string \<Rightarrow> string \<Rightarrow> string \<Rightarrow> string \<Rightarrow> string \<Rightarrow> string \<Rightarrow>
   'w \<Rightarrow> Reporter option \<times> 'w" where
  "Connect send decodeId hostname dashboardURL token name mode out version w =
     (if dashboardURL = '''' then (None, w)
      else
        (let name = (if name = '''' then hostname else name)
         in case post send dashboardURL token ''/api/agents/register'' json_type
                  (register_body name mode version out) w of
              (Inl _, w) \<Rightarrow> (None, w)
            | (Inr rbody, w) \<Rightarrow>
                (case decodeId rbody of
                   None \<Rightarrow> (None, w)
                 | Some k \<Rightarrow>
                     if k = '''' then (None, w)
                     else (Some \<lparr>rp_dashboard = dashboardURL, rp_token = token, rp_id = k,
                       rp_state = ''capturing'', rp_count = 0, rp_lastErr = '''', rp_stopped = False\<rparr>, w))))"

definition Update :: "64 word \<Rightarrow> string \<Rightarrow> Reporter option \<Rightarrow> Reporter option" where
  "Update cnt lastErr r = map_option (\<lambda>r. r\<lparr>rp_count := cnt, rp_lastErr := lastErr\<rparr>) r"

definition beat_payload :: "Reporter \<Rightarrow> gval" where
  "beat_payload r =
     GMap [(''count'', GInt (rp_count r)), (''id'', GStr (rp_id r)), (''last_error'', GStr (rp_lastErr r)),
       (''state'', GStr (rp_state r))]"

definition payload_text :: "gval \<Rightarrow> string" where
  "payload_text v = (case marshal v of Inl _ \<Rightarrow> '''' | Inr j \<Rightarrow> print_json j)"

definition reporter_beat :: "'w send \<Rightarrow> Reporter \<Rightarrow> 'w \<Rightarrow> 'w" where
  "reporter_beat send r w =
     snd (post send (rp_dashboard r) (rp_token r) ''/api/agents/heartbeat'' json_type
       (payload_text (beat_payload r)) w)"

definition upload_path :: "string \<Rightarrow> string \<Rightarrow> string" where
  "upload_path k name = ''/api/agents/upload?id='' @ k @ ''&name='' @ name"

definition Finish :: "'w send \<Rightarrow> (string \<Rightarrow> string option) \<Rightarrow> string \<Rightarrow> Reporter option \<Rightarrow> 'w \<Rightarrow> Reporter option \<times> 'w" where
  "Finish send readFile recordingPath r w =
     (case r of
        None \<Rightarrow> (None, w)
      | Some r \<Rightarrow>
          (let r = r\<lparr>rp_state := ''done''\<rparr>;
               w = reporter_beat send r w;
               r = r\<lparr>rp_stopped := True\<rparr>
           in case readFile recordingPath of
                None \<Rightarrow> (Some r, w)
              | Some raw \<Rightarrow>
                  (Some r, snd (post send (rp_dashboard r) (rp_token r)
                     (upload_path (rp_id r) (path_base recordingPath)) ''application/octet-stream'' raw w))))"

section \<open>The daemon's state\<close>

record Command =
  cm_Action :: string
  cm_Mode :: string
  cm_Iface :: string
  cm_Port :: int
  cm_Listen :: string
  cm_Upstream :: string
  cm_Golden :: bool
  cm_Sample :: f64
  cm_Name :: string
  cm_DurationMin :: int

record Session =
  se_id :: nat
  se_mirror :: bool
  se_source :: string
  se_port :: int
  se_output :: Output
  se_cancelled :: bool
  se_ended :: bool

record Daemon =
  dm_dir :: string
  dm_ifaceHint :: string
  dm_capName :: string
  dm_output :: "nat option"
  dm_stopCap :: "nat option"
  dm_running :: bool
  dm_stopAt :: "int option"
  dm_autoStop :: "nat option"
  dm_lastErr :: string
  dm_captureOK :: bool
  dm_captureDetail :: string
  dm_sessions :: "Session list"
  dm_timers :: "(nat \<times> int) list"
  dm_fired :: "nat list"
  dm_next :: nat

definition hardCapMinutes :: int where
  "hardCapMinutes = 24 * 60"

definition minutes :: "int \<Rightarrow> int" where
  "minutes m = m * 60000000000"

definition new_daemon :: "string \<Rightarrow> string \<Rightarrow> bool \<times> string \<Rightarrow> Daemon" where
  "new_daemon dir ifaceHint can =
     \<lparr>dm_dir = dir, dm_ifaceHint = ifaceHint, dm_capName = '''', dm_output = None, dm_stopCap = None,
      dm_running = False, dm_stopAt = None, dm_autoStop = None, dm_lastErr = '''',
      dm_captureOK = fst can, dm_captureDetail = snd can, dm_sessions = [], dm_timers = [],
      dm_fired = [], dm_next = 0\<rparr>"

section \<open>Start and stop\<close>

definition capture_name :: "string \<Rightarrow> string \<Rightarrow> string" where
  "capture_name stamp name =
     (let name = path_base name
      in if name = '''' \<or> name = ''.'' then ''capture-'' @ stamp @ ''.golden.jsonl'' else name)"

definition capture_minutes :: "int \<Rightarrow> int" where
  "capture_minutes mins = (if mins \<le> 0 \<or> mins > hardCapMinutes then hardCapMinutes else mins)"

definition new_session :: "nat \<Rightarrow> string \<Rightarrow> Command \<Rightarrow> Output \<Rightarrow> Session" where
  "new_session i ifaceHint cmd out =
     \<lparr>se_id = i, se_mirror = (cm_Mode cmd = ''mirror''),
      se_source =
        (if cm_Mode cmd = ''mirror'' then (if cm_Listen cmd = '''' then '':4789'' else cm_Listen cmd)
         else if cm_Iface cmd = '''' then ifaceHint else cm_Iface cmd),
      se_port = cm_Port cmd,
      se_output = out\<lparr>SampleRate := cm_Sample cmd, SampleAllWrites := True\<rparr>,
      se_cancelled = False, se_ended = False\<rparr>"

text \<open>\<open>now\<close> is the time, \<open>created\<close> and \<open>stamp\<close> are its renderings for the golden's metadata and for a
  file name; \<open>file\<close> answers for the recording's path with its contents or the error of opening it.\<close>

record clock =
  ck_now :: int
  ck_created :: string
  ck_stamp :: string

definition startCapture :: "clock \<Rightarrow> (string \<Rightarrow> string + string) \<Rightarrow> Command \<Rightarrow> Daemon \<Rightarrow> Daemon" where
  "startCapture ck file cmd d =
     (if dm_running d then d
      else
        (let name = capture_name (ck_stamp ck) (cm_Name cmd);
             path = path_join (dm_dir d) name
         in case NewOutput (ck_created ck) path (cm_Mode cmd @ ''://'' @ dm_ifaceHint d) (file path) of
              Inl _ \<Rightarrow> d
            | Inr out \<Rightarrow>
                (let i = dm_next d; t = dm_next d;
                     deadline = ck_now ck + minutes (capture_minutes (cm_DurationMin cmd))
                 in d\<lparr>dm_sessions := dm_sessions d @ [new_session i (dm_ifaceHint d) cmd out],
                      dm_capName := name, dm_output := Some i, dm_stopCap := Some i,
                      dm_running := True, dm_lastErr := '''', dm_stopAt := Some deadline,
                      dm_autoStop := Some t, dm_timers := dm_timers d @ [(t, deadline)],
                      dm_next := dm_next d + 1\<rparr>)))"

definition stop_timer :: "Daemon \<Rightarrow> Daemon" where
  "stop_timer d =
     (case dm_autoStop d of
        None \<Rightarrow> d
      | Some t \<Rightarrow> d\<lparr>dm_timers := filter (\<lambda>td. fst td \<noteq> t) (dm_timers d), dm_autoStop := None\<rparr>)"

definition cancel_session :: "nat \<Rightarrow> Session \<Rightarrow> Session" where
  "cancel_session i s = (if se_id s = i then s\<lparr>se_cancelled := True\<rparr> else s)"

definition cancel_current :: "Daemon \<Rightarrow> Daemon" where
  "cancel_current d =
     (case dm_stopCap d of
        None \<Rightarrow> d
      | Some i \<Rightarrow> d\<lparr>dm_sessions := map (cancel_session i) (dm_sessions d)\<rparr>)"

definition stopCapture :: "Daemon \<Rightarrow> Daemon" where
  "stopCapture d =
     (if \<not> dm_running d then d
      else (cancel_current (stop_timer d))\<lparr>dm_running := False, dm_stopAt := None\<rparr>)"

text \<open>The end of a capture goroutine: the output is closed, an error is surfaced.\<close>

definition end_session :: "nat \<Rightarrow> Session \<Rightarrow> Session" where
  "end_session i s = (if se_id s = i then s\<lparr>se_ended := True\<rparr> else s)"

definition capture_ended :: "nat \<Rightarrow> string option \<Rightarrow> Daemon \<Rightarrow> Daemon" where
  "capture_ended i runErr d =
     (let d = d\<lparr>dm_sessions := map (end_session i) (dm_sessions d)\<rparr>
      in case runErr of
           None \<Rightarrow> d
         | Some e \<Rightarrow> stop_timer (d\<lparr>dm_lastErr := e, dm_running := False, dm_stopAt := None\<rparr>))"

section \<open>Heartbeats and commands\<close>

definition capture_count :: "Daemon \<Rightarrow> nat" where
  "capture_count d =
     (case dm_output d of
        None \<Rightarrow> 0
      | Some i \<Rightarrow> (case find (\<lambda>s. se_id s = i) (dm_sessions d) of None \<Rightarrow> 0 | Some s \<Rightarrow> fst (Stats (se_output s))))"

definition remain_sec :: "int \<Rightarrow> Daemon \<Rightarrow> int" where
  "remain_sec now d =
     (case dm_stopAt d of
        None \<Rightarrow> 0
      | Some t \<Rightarrow> if dm_running d then sgn (t - now) * (\<bar>t - now\<bar> div 1000000000) else 0)"

text \<open>A directory entry: its name, whether it is a directory, and its size if it can be told.\<close>

record dir_entry =
  de_Name :: string
  de_IsDir :: bool
  de_Size :: "64 word option"

definition recording_row :: "dir_entry \<Rightarrow> row" where
  "recording_row e =
     [(''name'', GStr (de_Name e)), (''size'', GI64 (case de_Size e of None \<Rightarrow> 0 | Some n \<Rightarrow> n)),
      (''golden'', GBool (IsGoldenFile (de_Name e)))]"

definition listRecordings :: "dir_entry list \<Rightarrow> row list" where
  "listRecordings entries =
     map recording_row (sort_key de_Name
       (filter (\<lambda>e. \<not> de_IsDir e \<and> (has_suffix (de_Name e) ''.jsonl'' \<or> has_suffix (de_Name e) ''.har''))
          entries))"

definition daemon_payload :: "string \<Rightarrow> int \<Rightarrow> dir_entry list \<Rightarrow> Daemon \<Rightarrow> gval" where
  "daemon_payload k now entries d =
     GMap [(''id'', GStr k), (''state'', GStr (if dm_running d then ''capturing'' else ''idle'')),
       (''count'', GInt (of_nat (capture_count d))), (''last_error'', GStr (dm_lastErr d)),
       (''current'', GStr (dm_capName d)), (''remain_sec'', GInt (word_of_int (remain_sec now d))),
       (''recordings'', GArr (map GMap (listRecordings entries))),
       (''capture_ok'', GBool (dm_captureOK d)), (''capture_detail'', GStr (dm_captureDetail d)),
       (''iface'', GStr (dm_ifaceHint d))]"

definition exec_command ::
  "clock \<Rightarrow> (string \<Rightarrow> string + string) \<Rightarrow> Command \<Rightarrow> Daemon \<Rightarrow> Daemon" where
  "exec_command ck file cmd d =
     (if cm_Action cmd = ''start'' then startCapture ck file cmd d
      else if cm_Action cmd = ''stop'' then stopCapture d
      else d)"

definition upload ::
  "'w send \<Rightarrow> string \<Rightarrow> string \<Rightarrow> string \<Rightarrow> (string \<Rightarrow> string option) \<Rightarrow> string \<Rightarrow> string \<Rightarrow> 'w \<Rightarrow> 'w" where
  "upload send dashboard token k readFile dir name w =
     (let name = path_base name
      in case readFile (path_join dir name) of
           None \<Rightarrow> w
         | Some raw \<Rightarrow>
             snd (post send dashboard token (upload_path k name) ''application/octet-stream'' raw w))"

text \<open>A heartbeat: the payload is posted, and the commands of the answer are executed in order; when
  posting fails, or the answer cannot be decoded, there are none.\<close>

definition beat_commands :: "(string \<Rightarrow> Command list) \<Rightarrow> string + string \<Rightarrow> Command list" where
  "beat_commands decode answer = (case answer of Inl _ \<Rightarrow> [] | Inr rbody \<Rightarrow> decode rbody)"

definition daemon_beat ::
  "'w send \<Rightarrow> string \<Rightarrow> string \<Rightarrow> string \<Rightarrow> (string \<Rightarrow> Command list) \<Rightarrow> clock \<Rightarrow>
   (string \<Rightarrow> string + string) \<Rightarrow> (string \<Rightarrow> string option) \<Rightarrow> dir_entry list \<Rightarrow> Daemon \<times> 'w \<Rightarrow> Daemon \<times> 'w" where
  "daemon_beat send dashboard token k decode ck file readFile entries dw =
     (case dw of (d, w) \<Rightarrow>
       case post send dashboard token ''/api/agents/heartbeat'' json_type
              (payload_text (daemon_payload k (ck_now ck) entries d)) w of
         (answer, w) \<Rightarrow>
           foldl (\<lambda>(d, w) cmd.
             (exec_command ck file cmd d,
              if cm_Action cmd = ''upload''
              then upload send dashboard token k readFile (dm_dir d) (cm_Name cmd) w else w))
             (d, w) (beat_commands decode answer))"

section \<open>The daemon as a state machine\<close>

text \<open>One locked section each: a command, the end of a capture goroutine, a timer that fires at its
  deadline, the call it then makes, and an exchange written by a capture.\<close>

datatype daemon_event =
    ExecEv clock "string \<Rightarrow> string + string" Command
  | EndEv nat "string option"
  | FireEv nat int
  | CallEv nat
  | SinkEv nat f64 bool Exchange

definition sink_session :: "nat \<Rightarrow> f64 \<Rightarrow> bool \<Rightarrow> Exchange \<Rightarrow> Session \<Rightarrow> Session" where
  "sink_session i draw wr_ok ex s =
     (if se_id s = i \<and> \<not> se_ended s then s\<lparr>se_output := Sink draw wr_ok ex (se_output s)\<rparr> else s)"

definition daemon_step :: "daemon_event \<Rightarrow> Daemon \<Rightarrow> Daemon" where
  "daemon_step ev d =
     (case ev of
        ExecEv ck file cmd \<Rightarrow> exec_command ck file cmd d
      | EndEv i runErr \<Rightarrow> capture_ended i runErr d
      | FireEv t now \<Rightarrow>
          if \<exists>dl \<in> set (map snd (filter (\<lambda>td. fst td = t) (dm_timers d))). dl \<le> now
          then d\<lparr>dm_timers := filter (\<lambda>td. fst td \<noteq> t) (dm_timers d), dm_fired := dm_fired d @ [t]\<rparr>
          else d
      | CallEv t \<Rightarrow>
          if t \<in> set (dm_fired d) then stopCapture (d\<lparr>dm_fired := removeAll t (dm_fired d)\<rparr>) else d
      | SinkEv i draw wr_ok ex \<Rightarrow> d\<lparr>dm_sessions := map (sink_session i draw wr_ok ex) (dm_sessions d)\<rparr>)"

text \<open>A capture that records: started, not cancelled, not ended.\<close>

definition recording :: "Session \<Rightarrow> bool" where
  "recording s \<longleftrightarrow> \<not> se_cancelled s \<and> \<not> se_ended s"

text \<open>The events of a run in which a capture that was cancelled ends without an error, as
  \<open>RunLive\<close> and \<open>RunMirror\<close> do once they are running.\<close>

definition clean_event :: "daemon_event \<Rightarrow> Daemon \<Rightarrow> bool" where
  "clean_event ev d \<longleftrightarrow>
     (case ev of
        EndEv i (Some e) \<Rightarrow> \<exists>s \<in> set (dm_sessions d). se_id s = i \<and> recording s
      | _ \<Rightarrow> True)"

inductive daemon_reach :: "string \<Rightarrow> string \<Rightarrow> bool \<times> string \<Rightarrow> Daemon \<Rightarrow> bool" for dir hint can where
  boot: "daemon_reach dir hint can (new_daemon dir hint can)"
| event: "daemon_reach dir hint can d \<Longrightarrow> clean_event ev d \<Longrightarrow> daemon_reach dir hint can (daemon_step ev d)"

section \<open>No capture runs unattended\<close>

definition attended :: "Daemon \<Rightarrow> nat \<Rightarrow> bool" where
  "attended d i \<longleftrightarrow>
     dm_running d \<and> dm_stopCap d = Some i \<and>
     (\<exists>t dl. dm_autoStop d = Some t \<and> dm_stopAt d = Some dl \<and>
        ((t, dl) \<in> set (dm_timers d) \<or> t \<in> set (dm_fired d)))"

definition daemon_ok :: "Daemon \<Rightarrow> bool" where
  "daemon_ok d \<longleftrightarrow>
     (\<forall>s \<in> set (dm_sessions d). se_id s < dm_next d \<and> (recording s \<longrightarrow> attended d (se_id s))) \<and>
     distinct (map se_id (dm_sessions d)) \<and>
     (\<forall>td \<in> set (dm_timers d). fst td < dm_next d) \<and>
     (\<forall>t \<in> set (dm_fired d). t < dm_next d) \<and>
     (dm_running d \<longleftrightarrow> dm_stopAt d \<noteq> None) \<and> (dm_running d \<longrightarrow> dm_autoStop d \<noteq> None)"

lemma recording_flags [simp]:
  "recording (cancel_session i s) \<longleftrightarrow> recording s \<and> se_id s \<noteq> i" "se_id (cancel_session i s) = se_id s"
  "recording (end_session i s) \<longleftrightarrow> recording s \<and> se_id s \<noteq> i" "se_id (end_session i s) = se_id s"
  "recording (sink_session i dr w ex s) \<longleftrightarrow> recording s" "se_id (sink_session i dr w ex s) = se_id s"
  by (auto simp: recording_def cancel_session_def end_session_def sink_session_def)

lemma map_se_id [simp]:
  "map (se_id \<circ> cancel_session i) ss = map se_id ss" "map (se_id \<circ> end_session i) ss = map se_id ss"
  "map (se_id \<circ> sink_session i dr w ex) ss = map se_id ss"
  by simp_all

lemma new_session_flags [simp]: "se_id (new_session i h cmd out) = i" "recording (new_session i h cmd out)"
  by (simp_all add: new_session_def recording_def)

lemma daemon_ok_boot: "daemon_ok (new_daemon dir hint can)"
  by (simp add: daemon_ok_def new_daemon_def)

lemma not_running_none: "daemon_ok d \<Longrightarrow> \<not> dm_running d \<Longrightarrow> s \<in> set (dm_sessions d) \<Longrightarrow> \<not> recording s"
  by (auto simp: daemon_ok_def attended_def)

lemma startCapture_ok: "daemon_ok d \<Longrightarrow> daemon_ok (startCapture ck file cmd d)"
proof (cases "dm_running d")
  case False
  assume ok: "daemon_ok d"
  show ?thesis
  proof (cases "NewOutput (ck_created ck) (path_join (dm_dir d) (capture_name (ck_stamp ck) (cm_Name cmd)))
      (cm_Mode cmd @ ''://'' @ dm_ifaceHint d) (file (path_join (dm_dir d) (capture_name (ck_stamp ck) (cm_Name cmd))))")
    case (Inr out)
    have old: "\<not> recording s" "se_id s < dm_next d" if "s \<in> set (dm_sessions d)" for s
      using not_running_none [OF ok False that] ok that by (auto simp: daemon_ok_def)
    have new: "dm_next d \<notin> se_id ` set (dm_sessions d)" using old(2) by (metis imageE less_irrefl)
    have "\<forall>td \<in> set (dm_timers d). fst td < Suc (dm_next d)" "\<forall>t \<in> set (dm_fired d). t < Suc (dm_next d)"
      "distinct (map se_id (dm_sessions d))" "\<forall>s \<in> set (dm_sessions d). se_id s < Suc (dm_next d)"
      using ok by (auto simp: daemon_ok_def)
    with new old(1) False Inr show ?thesis
      by (simp add: startCapture_def daemon_ok_def attended_def Let_def)
  qed (use ok False in \<open>simp add: startCapture_def Let_def\<close>)
qed (simp add: startCapture_def)

lemma stop_timer_fields [simp]:
  "dm_sessions (stop_timer d) = dm_sessions d" "dm_next (stop_timer d) = dm_next d"
  "dm_fired (stop_timer d) = dm_fired d" "dm_stopCap (stop_timer d) = dm_stopCap d"
  "dm_running (stop_timer d) = dm_running d" "dm_stopAt (stop_timer d) = dm_stopAt d"
  "dm_autoStop (stop_timer d) = None"
  by (auto simp: stop_timer_def split: option.split)

lemma stop_timer_timers: "td \<in> set (dm_timers (stop_timer d)) \<Longrightarrow> td \<in> set (dm_timers d)"
  by (auto simp: stop_timer_def split: option.splits)

lemma cancel_current_fields [simp]:
  "dm_next (cancel_current d) = dm_next d" "dm_fired (cancel_current d) = dm_fired d"
  "dm_timers (cancel_current d) = dm_timers d" "dm_autoStop (cancel_current d) = dm_autoStop d"
  "map se_id (dm_sessions (cancel_current d)) = map se_id (dm_sessions d)"
  by (simp_all add: cancel_current_def split: option.split)

lemma cancel_current_none:
  assumes "\<forall>s \<in> set (dm_sessions d). recording s \<longrightarrow> dm_stopCap d = Some (se_id s)"
  shows "\<forall>s \<in> set (dm_sessions (cancel_current d)). \<not> recording s"
  using assms by (auto simp: cancel_current_def split: option.split)

text \<open>Stopping leaves nothing recording, whatever the timers.\<close>

definition current_only :: "Daemon \<Rightarrow> bool" where
  "current_only d \<longleftrightarrow>
     (\<forall>s \<in> set (dm_sessions d). recording s \<longrightarrow> dm_running d \<and> dm_stopCap d = Some (se_id s))"

definition bookkeeping :: "Daemon \<Rightarrow> bool" where
  "bookkeeping d \<longleftrightarrow>
     distinct (map se_id (dm_sessions d)) \<and> list_all (\<lambda>i. i < dm_next d) (map se_id (dm_sessions d)) \<and>
     (\<forall>td \<in> set (dm_timers d). fst td < dm_next d) \<and> (\<forall>t \<in> set (dm_fired d). t < dm_next d) \<and>
     (dm_running d \<longleftrightarrow> dm_stopAt d \<noteq> None) \<and> (dm_running d \<longrightarrow> dm_autoStop d \<noteq> None)"

lemma daemon_ok_parts:
  "daemon_ok d \<longleftrightarrow> bookkeeping d \<and> (\<forall>s \<in> set (dm_sessions d). recording s \<longrightarrow> attended d (se_id s))"
  by (auto simp: daemon_ok_def bookkeeping_def list_all_iff)

lemma stopCapture_ok:
  assumes "bookkeeping d" and "current_only d"
  shows "daemon_ok (stopCapture d)"
proof (cases "dm_running d")
  case True
  have "\<forall>s \<in> set (dm_sessions (cancel_current (stop_timer d))). \<not> recording s"
    using assms(2) by (intro cancel_current_none) (auto simp: current_only_def)
  moreover have "bookkeeping ((cancel_current (stop_timer d))\<lparr>dm_running := False, dm_stopAt := None\<rparr>)"
    using assms(1) by (auto simp: bookkeeping_def dest!: stop_timer_timers)
  ultimately show ?thesis using True by (simp add: stopCapture_def daemon_ok_parts)
next
  case False
  with assms show ?thesis by (auto simp: stopCapture_def daemon_ok_parts current_only_def)
qed

lemma daemon_ok_current: "daemon_ok d \<Longrightarrow> bookkeeping d \<and> current_only d"
  by (auto simp: daemon_ok_parts current_only_def attended_def)

lemma capture_ended_ok:
  assumes "daemon_ok d" and "clean_event (EndEv i runErr) d"
  shows "daemon_ok (capture_ended i runErr d)"
proof (cases runErr)
  case None
  with assms(1) show ?thesis
    by (auto simp: capture_ended_def daemon_ok_def attended_def Let_def)
next
  case (Some e)
  with assms obtain s where s: "s \<in> set (dm_sessions d)" "se_id s = i" "recording s"
    by (auto simp: clean_event_def)
  with assms(1) have "dm_stopCap d = Some i" by (auto simp: daemon_ok_def attended_def)
  then have "\<forall>s \<in> set (map (end_session i) (dm_sessions d)). \<not> recording s"
    using assms(1) by (auto simp: daemon_ok_def attended_def)
  moreover have "bookkeeping (capture_ended i runErr d)"
    using assms(1) Some
    by (auto simp: capture_ended_def bookkeeping_def daemon_ok_parts Let_def dest!: stop_timer_timers)
  ultimately show ?thesis using Some by (auto simp: daemon_ok_parts capture_ended_def Let_def)
qed

lemma daemon_step_ok:
  assumes "daemon_ok d" and "clean_event ev d"
  shows "daemon_ok (daemon_step ev d)"
proof (cases ev)
  case (ExecEv ck f cmd)
  with assms show ?thesis
    using startCapture_ok stopCapture_ok daemon_ok_current
    by (simp add: daemon_step_def exec_command_def)
next
  case (EndEv i runErr)
  with assms show ?thesis by (simp add: daemon_step_def capture_ended_ok)
next
  case (FireEv t now)
  with assms show ?thesis by (auto simp: daemon_step_def daemon_ok_def attended_def)
next
  case (CallEv t)
  have "bookkeeping (d\<lparr>dm_fired := removeAll t (dm_fired d)\<rparr>)" "current_only (d\<lparr>dm_fired := removeAll t (dm_fired d)\<rparr>)"
    using daemon_ok_current [OF assms(1)] by (auto simp: bookkeeping_def current_only_def)
  with CallEv assms show ?thesis by (simp add: daemon_step_def stopCapture_ok)
next
  case (SinkEv i dr w ex)
  with assms show ?thesis by (auto simp: daemon_step_def daemon_ok_def attended_def)
qed

lemma daemon_reach_ok: "daemon_reach dir hint can d \<Longrightarrow> daemon_ok d"
  by (induction rule: daemon_reach.induct) (simp_all add: daemon_ok_boot daemon_step_ok)

text \<open>
  C35.  No capture records unattended: in every state the daemon reaches (commands, ends of captures,
  timers and exchanges in any order, a cancelled capture ending without an error), at most one
  capture records; it is the one the dashboard is shown as running and a stop command cancels, and an
  auto-stop for it is armed or about to act.  While nothing runs, nothing records.
\<close>

theorem capture_attended:
  assumes "daemon_reach dir hint can d"
  shows "length (filter recording (dm_sessions d)) \<le> 1 \<and>
    (\<forall>s \<in> set (dm_sessions d). recording s \<longrightarrow> attended d (se_id s)) \<and>
    list_all (\<lambda>s. \<not> recording s) (dm_sessions (stopCapture d))"
proof (intro conjI)
  have ok: "daemon_ok d" by (rule daemon_reach_ok [OF assms])
  then show att: "\<forall>s \<in> set (dm_sessions d). recording s \<longrightarrow> attended d (se_id s)"
    by (simp add: daemon_ok_def)
  have "distinct (map se_id (filter recording (dm_sessions d)))"
    using ok by (simp add: daemon_ok_def distinct_map_filter)
  moreover have "set (map se_id (filter recording (dm_sessions d))) \<subseteq> set_option (dm_stopCap d)"
    using att by (auto simp: attended_def)
  moreover have "finite (set_option (dm_stopCap d))" by (cases "dm_stopCap d") simp_all
  ultimately have "length (map se_id (filter recording (dm_sessions d))) \<le> card (set_option (dm_stopCap d))"
    using card_mono distinct_card [of "map se_id (filter recording (dm_sessions d))"] by metis
  also have "\<dots> \<le> 1" by (cases "dm_stopCap d") simp_all
  finally show "length (filter recording (dm_sessions d)) \<le> 1" by simp
  have "daemon_ok (stopCapture d)" using daemon_ok_current [OF ok] by (simp add: stopCapture_ok)
  moreover have "\<not> dm_running (stopCapture d)" by (simp add: stopCapture_def)
  ultimately show "list_all (\<lambda>s. \<not> recording s) (dm_sessions (stopCapture d))"
    using not_running_none by (simp add: list_all_iff)
qed

definition demo_cmd :: "string \<Rightarrow> Command" where
  "demo_cmd act = \<lparr>cm_Action = act, cm_Mode = ''sniff'', cm_Iface = '''', cm_Port = 80, cm_Listen = '''',
     cm_Upstream = '''', cm_Golden = False, cm_Sample = FFin 0 0, cm_Name = ''a.jsonl'', cm_DurationMin = 5\<rparr>"

definition demo_exec :: "string \<Rightarrow> daemon_event" where
  "demo_exec act = ExecEv \<lparr>ck_now = 0, ck_created = '''', ck_stamp = ''''\<rparr> (\<lambda>_. Inr '''') (demo_cmd act)"

definition demo_daemon :: "daemon_event list \<Rightarrow> Daemon" where
  "demo_daemon evs = foldl (\<lambda>d ev. daemon_step ev d) (new_daemon ''/rec'' ''eth0'' (True, ''ok'')) evs"

theorem capture_attended_witness:
  "let d = demo_daemon [demo_exec ''start'', demo_exec ''stop'', demo_exec ''start'']
   in length (filter recording (dm_sessions d)) = 1 \<and> length (dm_sessions d) = 2 \<and>
      (\<forall>s \<in> set (dm_sessions d). recording s \<longrightarrow> attended d (se_id s))"
proof -
  let ?d = "demo_daemon [demo_exec ''start'', demo_exec ''stop'', demo_exec ''start'']"
  have "daemon_reach ''/rec'' ''eth0'' (True, ''ok'') ?d"
    unfolding demo_daemon_def demo_exec_def foldl_Cons foldl_Nil
    by (intro daemon_reach.intros) (simp_all add: clean_event_def)
  from capture_attended [OF this] have "\<forall>s \<in> set (dm_sessions ?d). recording s \<longrightarrow> attended ?d (se_id s)"
    by blast
  moreover have "length (filter recording (dm_sessions ?d)) = 1" "length (dm_sessions ?d) = 2" by code_simp+
  ultimately show ?thesis by (simp add: Let_def)
qed

text \<open>A capture is stopped within 24 hours of its start, whatever duration is asked for.\<close>

lemma startCapture_deadline:
  assumes "\<not> dm_running d" and "dm_running (startCapture ck f cmd d)"
  shows "\<exists>m. 1 \<le> m \<and> m \<le> hardCapMinutes \<and>
    dm_stopAt (startCapture ck f cmd d) = Some (ck_now ck + minutes m) \<and>
    (1 \<le> cm_DurationMin cmd \<and> cm_DurationMin cmd \<le> hardCapMinutes \<longrightarrow> m = cm_DurationMin cmd)"
  using assms
  by (intro exI [of _ "capture_minutes (cm_DurationMin cmd)"])
    (auto simp: startCapture_def capture_minutes_def hardCapMinutes_def Let_def split: sum.splits if_splits)

text \<open>When a cancelled capture does end with an error (it could not be opened, and the stop and the next
  start came first), it clears the state of the capture that runs now: that one goes on recording, is
  shown as idle, has no auto-stop, and a stop command does nothing.\<close>

lemma stale_error_orphans:
  "let d = demo_daemon [demo_exec ''start'', demo_exec ''stop'', demo_exec ''start'', EndEv 0 (Some ''no permission'')]
   in filter recording (dm_sessions d) \<noteq> [] \<and> \<not> dm_running d \<and> dm_timers d = [] \<and> dm_fired d = [] \<and>
      filter recording (dm_sessions (stopCapture d)) \<noteq> []"
  by code_simp

text \<open>Commands of an answer that cannot be decoded are lost: the dashboard has handed them out.\<close>

lemma undecodable_answer_loses_commands: "decode rbody = [] \<Longrightarrow> beat_commands decode (Inr rbody) = []"
  by (simp add: beat_commands_def)

section \<open>The daemon's registration\<close>

text \<open>\<open>RunDaemon\<close> up to its loop: the daemon and the id it got, or the error.  Unlike \<open>Connect\<close> it goes
  on with an empty id when the answer cannot be decoded.\<close>

definition RunDaemon_start ::
  "'w send \<Rightarrow> (string \<Rightarrow> string option) \<Rightarrow> string \<Rightarrow> string option \<Rightarrow> (string \<Rightarrow> bool \<times> string) \<Rightarrow> string \<Rightarrow>
   string \<Rightarrow> string \<Rightarrow> string \<Rightarrow> string \<Rightarrow> 'w \<Rightarrow> (string + Daemon \<times> string) \<times> 'w" where
  "RunDaemon_start send decodeId hostname mkdirErr canCapture dashboardURL token name dir defaultIface w =
     (if dashboardURL = '''' then (Inl ''--dashboard is required for agent mode'', w)
      else
        (case mkdirErr of
           Some e \<Rightarrow> (Inl e, w)
         | None \<Rightarrow>
             (let name = (if name = '''' then hostname else name)
              in case post send dashboardURL token ''/api/agents/register'' json_type
                       (register_body name ''agent'' ''daemon'' dir) w of
                   (Inl e, w) \<Rightarrow> (Inl (''register: '' @ e), w)
                 | (Inr rbody, w) \<Rightarrow>
                     (let k = (case decodeId rbody of None \<Rightarrow> '''' | Some k \<Rightarrow> k)
                      in (Inr (new_daemon dir defaultIface (canCapture defaultIface), k), w)))))"

end
