(* ===== verification/Seed.thy ===== *)
theory Seed
  imports PgCapture Chunks
begin

text \<open>
  \<open>internal/seed/seed.go\<close>: copying schemas and data from a source MySQL into the target, pairing of
  datastores, the seed marker and discovery.  The databases are parameters: statements are executed
  on the target by a function of the world that answers with an error or none, the source is read in
  the current world (which may be the target itself).  Counters are Go's \<open>int\<close> and \<open>int64\<close>, kept as
  natural numbers: they count rows of a table.
\<close>

section \<open>The databases\<close>

type_synonym 'w exec = "string \<Rightarrow> gval list \<Rightarrow> 'w \<Rightarrow> string option \<times> 'w"

text \<open>Reading a result row by row: a row (a missing value is \<open>NULL\<close>), a row that cannot be scanned,
  or the error \<open>rows.Err\<close> reports at the end.\<close>

datatype row_read = RowRead "string option list" | ScanFails string

record table_rows =
  tr_cols :: "string + string list"
  tr_rows :: "row_read list"
  tr_err :: "string option"

text \<open>A query that is read row by row, each scanned into a \<open>'a\<close> or not.\<close>

record 'a listing =
  ls_items :: "'a option list"
  ls_err :: "string option"

record 'w SourceDb =
  sd_Databases :: "'w \<Rightarrow> string + string listing"
  sd_ShowCreateDatabase :: "string \<Rightarrow> 'w \<Rightarrow> string + string"
  sd_Tables :: "string \<Rightarrow> 'w \<Rightarrow> string + string listing"
  sd_ShowCreateTable :: "string \<Rightarrow> string \<Rightarrow> 'w \<Rightarrow> string + string"
  sd_Select :: "string \<Rightarrow> string \<Rightarrow> 'w \<Rightarrow> string + table_rows"

section \<open>Statements\<close>

definition backtick :: char where
  "backtick = CHR 0x60"

definition bt :: "string \<Rightarrow> string" where
  "bt s = [backtick] @ s @ [backtick]"

definition markerSchema :: string where
  "markerSchema = ''_mockingbox''"

definition batchRows :: nat where
  "batchRows = 500"

definition systemSchemas_seed :: "string list" where
  "systemSchemas_seed =
     [''mysql'', ''sys'', ''information_schema'', ''performance_schema'', markerSchema]"

definition repeat_str :: "nat \<Rightarrow> string \<Rightarrow> string" where
  "repeat_str n s = concat (replicate n s)"

definition colList :: "string list \<Rightarrow> string" where
  "colList cols = [backtick] @ join_with ([backtick] @ '','' @ [backtick]) cols @ [backtick]"

definition placeholderRow :: "string list \<Rightarrow> string" where
  "placeholderRow cols = ''('' @ trim_suffix (repeat_str (length cols) ''?,'') '','' @ '')''"

definition insert_stmt :: "string \<Rightarrow> string \<Rightarrow> string list \<Rightarrow> nat \<Rightarrow> string" where
  "insert_stmt schema table cols n =
     ''INSERT INTO '' @ bt schema @ ''.'' @ bt table @ '' ('' @ colList cols @ '') VALUES '' @
     trim_suffix (repeat_str n (placeholderRow cols @ '','')) '',''"

section \<open>One table\<close>

definition raw_value :: "string option \<Rightarrow> gval" where
  "raw_value v = (case v of None \<Rightarrow> GNil | Some s \<Rightarrow> GBytes s)"

text \<open>The state of the copy loop: the batch, the rows in it, and the rows inserted.\<close>

definition flush ::
  "'w exec \<Rightarrow> string \<Rightarrow> string \<Rightarrow> string list \<Rightarrow> gval list \<times> nat \<times> nat \<Rightarrow> 'w \<Rightarrow>
   string option \<times> (gval list \<times> nat \<times> nat) \<times> 'w" where
  "flush exec schema table cols st w =
     (case st of (batch, rowsInBatch, copied) \<Rightarrow>
       if rowsInBatch = 0 then (None, st, w)
       else
         (case exec (insert_stmt schema table cols rowsInBatch) batch w of
            (Some e, w) \<Rightarrow> (Some e, st, w)
          | (None, w) \<Rightarrow> (None, ([], 0, copied + rowsInBatch), w)))"

text \<open>The last line, \<open>return total, flush()\<close>, leaves the order of reading \<open>total\<close> and calling \<open>flush\<close> to
  the compiler; gc makes the call first, and so does the model.\<close>

fun copy_rows ::
  "'w exec \<Rightarrow> string \<Rightarrow> string \<Rightarrow> string list \<Rightarrow> string option \<Rightarrow> row_read list \<Rightarrow>
   gval list \<times> nat \<times> nat \<Rightarrow> 'w \<Rightarrow> (nat \<times> string option) \<times> 'w" where
  "copy_rows exec schema table cols err [] st w =
     (case err of
        Some e \<Rightarrow> ((snd (snd st), Some e), w)
      | None \<Rightarrow> (case flush exec schema table cols st w of (e, st, w) \<Rightarrow> ((snd (snd st), e), w)))"
| "copy_rows exec schema table cols err (ScanFails e # rs) st w = ((snd (snd st), Some e), w)"
| "copy_rows exec schema table cols err (RowRead vs # rs) st w =
     (case st of (batch, rowsInBatch, copied) \<Rightarrow>
       let st = (batch @ map raw_value vs, rowsInBatch + 1, copied)
       in if batchRows \<le> rowsInBatch + 1 then
            (case flush exec schema table cols st w of
               (Some e, st, w) \<Rightarrow> ((snd (snd st), Some e), w)
             | (None, st, w) \<Rightarrow> copy_rows exec schema table cols err rs st w)
          else copy_rows exec schema table cols err rs st w)"


definition copyTable ::
  "'w exec \<Rightarrow> 'w SourceDb \<Rightarrow> string \<Rightarrow> string \<Rightarrow> 'w \<Rightarrow> (nat \<times> string option) \<times> 'w" where
  "copyTable exec src schema table w =
     (case sd_ShowCreateTable src schema table w of
        Inl e \<Rightarrow> ((0, Some e), w)
      | Inr createSQL \<Rightarrow>
          (case exec (''USE '' @ bt schema) [] w of
             (Some e, w) \<Rightarrow> ((0, Some e), w)
           | (None, w) \<Rightarrow>
               (case exec createSQL [] w of
                  (Some e, w) \<Rightarrow> ((0, Some e), w)
                | (None, w) \<Rightarrow>
                    (case sd_Select src schema table w of
                       Inl e \<Rightarrow> ((0, Some e), w)
                     | Inr rows \<Rightarrow>
                         (case tr_cols rows of
                            Inl e \<Rightarrow> ((0, Some e), w)
                          | Inr cols \<Rightarrow>
                              if cols = [] then ((0, None), w)
                              else copy_rows exec schema table cols (tr_err rows) (tr_rows rows)
                                     ([], 0, 0) w)))))"

section \<open>One schema\<close>

record Seed_Stats =
  ss_SchemaNames :: "string list"
  ss_Tables :: nat
  ss_Rows :: nat

text \<open>Names that cannot be scanned are left out.\<close>

definition listed :: "string + 'a listing \<Rightarrow> string + 'a list" where
  "listed r =
     (case r of
        Inl e \<Rightarrow> Inl e
      | Inr l \<Rightarrow>
          (case ls_err l of
             Some e \<Rightarrow> Inl e
           | None \<Rightarrow> Inr (List.map_filter id (ls_items l))))"

definition excluded :: "string set \<Rightarrow> string \<Rightarrow> string \<Rightarrow> bool" where
  "excluded exclude schema table \<longleftrightarrow> table \<in> exclude \<or> schema @ ''.'' @ table \<in> exclude"

fun copy_tables ::
  "'w exec \<Rightarrow> 'w SourceDb \<Rightarrow> string \<Rightarrow> string set \<Rightarrow> string list \<Rightarrow> Seed_Stats \<Rightarrow> 'w \<Rightarrow>
   (string option \<times> Seed_Stats) \<times> 'w" where
  "copy_tables exec src schema exclude [] stats w = ((None, stats), w)"
| "copy_tables exec src schema exclude (table # tables) stats w =
     (if excluded exclude schema table then copy_tables exec src schema exclude tables stats w
      else
        (case copyTable exec src schema table w of
           ((n, Some e), w) \<Rightarrow> ((Some (''table '' @ table @ '': '' @ e), stats), w)
         | ((n, None), w) \<Rightarrow>
             copy_tables exec src schema exclude tables
               (stats\<lparr>ss_Tables := ss_Tables stats + 1, ss_Rows := ss_Rows stats + n\<rparr>) w))"

definition copySchema ::
  "'w exec \<Rightarrow> 'w SourceDb \<Rightarrow> string \<Rightarrow> string set \<Rightarrow> Seed_Stats \<Rightarrow> 'w \<Rightarrow>
   (string option \<times> Seed_Stats) \<times> 'w" where
  "copySchema exec src schema exclude stats w =
     (case exec (''DROP DATABASE IF EXISTS '' @ bt schema) [] w of
        (Some e, w) \<Rightarrow> ((Some e, stats), w)
      | (None, w) \<Rightarrow>
          (case sd_ShowCreateDatabase src schema w of
             Inl e \<Rightarrow> ((Some e, stats), w)
           | Inr createDB \<Rightarrow>
               (case exec createDB [] w of
                  (Some e, w) \<Rightarrow> ((Some e, stats), w)
                | (None, w) \<Rightarrow>
                    (case listed (sd_Tables src schema w) of
                       Inl e \<Rightarrow> ((Some e, stats), w)
                     | Inr tables \<Rightarrow> copy_tables exec src schema exclude tables stats w))))"

section \<open>Run\<close>

definition discoverSchemas :: "'w SourceDb \<Rightarrow> 'w \<Rightarrow> string + string list" where
  "discoverSchemas src w =
     map_sum id (filter (\<lambda>s. s \<notin> set systemSchemas_seed)) (listed (sd_Databases src w))"

fun copy_schemas ::
  "'w exec \<Rightarrow> 'w SourceDb \<Rightarrow> string set \<Rightarrow> string list \<Rightarrow> Seed_Stats \<Rightarrow> 'w \<Rightarrow>
   (string option \<times> Seed_Stats) \<times> 'w" where
  "copy_schemas exec src exclude [] stats w = ((None, stats), w)"
| "copy_schemas exec src exclude (schema # schemas) stats w =
     (case copySchema exec src schema exclude stats w of
        ((Some e, stats), w) \<Rightarrow> ((Some (''schema '' @ schema @ '': '' @ e), stats), w)
      | ((None, stats), w) \<Rightarrow> copy_schemas exec src exclude schemas stats w)"

definition create_marker :: string where
  "create_marker =
     ''CREATE TABLE IF NOT EXISTS '' @ markerSchema @ ''.seed_info ('' @
     bt ''id'' @ '' BIGINT AUTO_INCREMENT PRIMARY KEY,'' @
     bt ''seeded_at'' @ '' DATETIME NOT NULL,'' @
     bt ''source'' @ '' VARCHAR(255) NOT NULL,'' @
     bt ''schemas'' @ '' VARCHAR(500) NOT NULL,'' @
     bt ''golden'' @ '' VARCHAR(255) NOT NULL,'' @
     bt ''tables_copied'' @ '' INT NOT NULL,'' @
     bt ''rows_copied'' @ '' BIGINT NOT NULL)''"

definition insert_marker :: string where
  "insert_marker =
     ''INSERT INTO '' @ markerSchema @ ''.seed_info ('' @
     join_with '','' (map bt [''seeded_at'', ''source'', ''schemas'', ''golden'', ''tables_copied'',
       ''rows_copied'']) @ '') VALUES (?,?,?,?,?,?)''"

definition writeMarker ::
  "'w exec \<Rightarrow> string \<Rightarrow> MySQL \<Rightarrow> string list \<Rightarrow> string \<Rightarrow> Seed_Stats \<Rightarrow> 'w \<Rightarrow> string option \<times> 'w" where
  "writeMarker exec now src schemas goldenName stats w =
     (case exec (''CREATE DATABASE IF NOT EXISTS '' @ bt markerSchema) [] w of
        (Some e, w) \<Rightarrow> (Some e, w)
      | (None, w) \<Rightarrow>
          (case exec create_marker [] w of
             (Some e, w) \<Rightarrow> (Some e, w)
           | (None, w) \<Rightarrow>
               exec insert_marker
                 [GStr now, GStr (MySQL_Addr src), GStr (join_with '','' schemas), GStr goldenName,
                  GInt (of_nat (ss_Tables stats)), GI64 (of_nat (ss_Rows stats))] w))"

record Seed_Options =
  so_Schemas :: "string list"
  so_ExcludeTables :: "string set"
  so_GoldenName :: string

text \<open>Opening a database answers with its operations or the error; \<open>open\<close> adds the address.\<close>

definition Run_seed ::
  "(MySQL \<Rightarrow> string + 'w SourceDb) \<Rightarrow> (MySQL \<Rightarrow> string + 'w exec) \<Rightarrow> string \<Rightarrow> MySQL \<Rightarrow> MySQL \<Rightarrow>
   Seed_Options \<Rightarrow> 'w \<Rightarrow> (string + Seed_Stats) \<times> 'w" where
  "Run_seed openSrc openDst now src dst opts w =
     (case openSrc src of
        Inl e \<Rightarrow> (Inl (''source: '' @ e), w)
      | Inr srcDB \<Rightarrow>
          (case openDst dst of
             Inl e \<Rightarrow> (Inl (''target: '' @ e), w)
           | Inr exec \<Rightarrow>
               (case (if so_Schemas opts = [] then discoverSchemas srcDB w else Inr (so_Schemas opts)) of
                  Inl e \<Rightarrow> (Inl e, w)
                | Inr schemas \<Rightarrow>
                    if schemas = [] then (Inl ''no non-system schemas found on source'', w)
                    else
                      (case copy_schemas exec srcDB (so_ExcludeTables opts) schemas
                              \<lparr>ss_SchemaNames = schemas, ss_Tables = 0, ss_Rows = 0\<rparr> w of
                         ((Some e, stats), w) \<Rightarrow> (Inl e, w)
                       | ((None, stats), w) \<Rightarrow>
                           (case writeMarker exec now src schemas (so_GoldenName opts) stats w of
                              (Some e, w) \<Rightarrow> (Inl (''seed marker: '' @ e), w)
                            | (None, w) \<Rightarrow> (Inr stats, w))))))"

section \<open>What a copy executes\<close>

text \<open>A target that accepts every statement and records it.\<close>

definition log_exec :: "(string \<times> gval list) list exec" where
  "log_exec stmt args w = (None, w @ [(stmt, args)])"

definition row_args :: "string option list list \<Rightarrow> gval list" where
  "row_args rows = concat (map (map raw_value) rows)"

definition insert_log :: "string \<Rightarrow> string \<Rightarrow> string list \<Rightarrow> string option list list \<Rightarrow> (string \<times> gval list) list" where
  "insert_log schema table cols rows =
     map (\<lambda>b. (insert_stmt schema table cols (length b), row_args b)) (chunks batchRows rows)"

lemma row_args_snoc: "row_args (rows @ [r]) = row_args rows @ map raw_value r"
  by (simp add: row_args_def)

lemma flush_log:
  "flush log_exec schema table cols (row_args b, length b, n) w =
     (if b = [] then (None, (row_args b, length b, n), w)
      else (None, ([], 0, n + length b), w @ [(insert_stmt schema table cols (length b), row_args b)]))"
  by (simp add: flush_def log_exec_def)

lemma copy_rows_log:
  "length b < batchRows \<Longrightarrow>
   copy_rows log_exec schema table cols None (map RowRead rows) (row_args b, length b, n) w =
     ((n + length b + length rows, None), w @ insert_log schema table cols (b @ rows))"
proof (induction rows arbitrary: b n w)
  case Nil
  then show ?case by (simp add: flush_log insert_log_def chunks_short)
next
  case (Cons r rows)
  show ?case
  proof (cases "batchRows \<le> length b + 1")
    case True
    with Cons.prems have full: "length (b @ [r]) = batchRows" by simp
    then have "insert_log schema table cols (b @ r # rows) =
        (insert_stmt schema table cols (length (b @ [r])), row_args (b @ [r])) # insert_log schema table cols rows"
      using chunks_full [of batchRows "b @ [r]" rows] by (simp add: insert_log_def batchRows_def)
    with Cons.IH [of "[]"] full show ?thesis
      using flush_log [of schema table cols "b @ [r]" n w]
      by (simp add: True row_args_snoc batchRows_def) (simp add: row_args_def)
  next
    case False
    with Cons.IH [of "b @ [r]" n w] show ?thesis by (simp add: row_args_snoc Let_def)
  qed
qed

lemma row_args_chunks: "0 < n \<Longrightarrow> concat (map row_args (chunks n rows)) = row_args rows"
proof (induction n rows rule: chunks.induct)
  case (1 n rows)
  show ?case
  proof (cases "rows = []")
    case True
    then show ?thesis by (simp add: row_args_def)
  next
    case False
    then have "concat (map row_args (chunks n rows)) = row_args (take n rows) @ row_args (drop n rows)"
      using 1 by (subst chunks.simps) simp
    also have "\<dots> = row_args rows" by (simp add: row_args_def flip: concat_append map_append)
    finally show ?thesis .
  qed
qed

text \<open>The batches of a table carry its rows, all of them and in order, at most 500 in one statement.\<close>

lemma insert_log_args: "concat (map snd (insert_log schema table cols rows)) = row_args rows"
  by (simp add: insert_log_def comp_def row_args_chunks batchRows_def)

lemma insert_log_sizes:
  "(stmt, args) \<in> set (insert_log schema table cols rows) \<Longrightarrow>
   \<exists>n \<in> {1..batchRows}. stmt = insert_stmt schema table cols n \<and>
     (\<exists>b. length b = n \<and> args = row_args b \<and> set b \<subseteq> set rows)"
proof -
  assume "(stmt, args) \<in> set (insert_log schema table cols rows)"
  then obtain b where b: "b \<in> set (chunks batchRows rows)"
    "stmt = insert_stmt schema table cols (length b)" "args = row_args b"
    by (auto simp: insert_log_def)
  moreover have "0 < length b \<and> length b \<le> batchRows" using chunks_length [OF b(1)] .
  moreover have "set b \<subseteq> set rows"
    using b(1) concat_chunks [of batchRows rows] set_concat [of "chunks batchRows rows"]
    by (auto simp: batchRows_def)
  ultimately show ?thesis by (intro bexI [of _ "length b"]) (auto simp: Suc_le_eq)
qed

text \<open>The placeholders of a statement: one per column and row.\<close>

lemma trim_repeat:
  "0 < n \<Longrightarrow> trim_suffix (repeat_str n (s @ [c])) [c] = join_with [c] (replicate n s)"
proof -
  have "repeat_str (Suc m) (s @ [c]) = join_with [c] (replicate (Suc m) s) @ [c]" for m
    by (induction m) (simp_all add: repeat_str_def join_with_Cons)
  then show "0 < n \<Longrightarrow> ?thesis" by (cases n) simp_all
qed

definition question_marks :: "string \<Rightarrow> nat" where
  "question_marks s = length (filter (\<lambda>c. c = CHR ''?'') s)"

lemma question_marks_append [simp]: "question_marks (s @ t) = question_marks s + question_marks t"
  by (simp add: question_marks_def)

lemma question_marks_join:
  "question_marks (join_with '','' (replicate n s)) = n * question_marks s"
proof (induction n)
  case (Suc n)
  then show ?case by (cases n) (simp_all add: join_with_Cons question_marks_def)
qed (simp add: question_marks_def)

lemma placeholders:
  assumes "cols \<noteq> []" and "0 < n"
  shows "question_marks (trim_suffix (repeat_str n (placeholderRow cols @ '','')) '','') = n * length cols"
proof -
  have "question_marks (placeholderRow cols) = length cols"
    using trim_repeat [of "length cols" "''?''" "CHR '',''"] assms(1) question_marks_join [of "length cols" "''?''"]
    by (simp add: placeholderRow_def question_marks_def)
  then show ?thesis
    using trim_repeat [OF assms(2), of "placeholderRow cols" "CHR '',''"] question_marks_join by simp
qed

text \<open>A full batch of a table of 132 columns needs more placeholders than the 65535 that a MySQL
  statement can have.\<close>

lemma too_many_placeholders:
  assumes "length cols = 132"
  shows "65535 < question_marks (trim_suffix (repeat_str batchRows (placeholderRow cols @ '','')) '','')"
proof -
  have "cols \<noteq> []" using assms by auto
  from placeholders [OF this, of batchRows] assms show ?thesis by (simp add: batchRows_def)
qed

lemma copyTable_log:
  assumes "sd_ShowCreateTable src schema table w = Inr createSQL"
    and "\<And>w. sd_Select src schema table w =
      Inr \<lparr>tr_cols = Inr cols, tr_rows = map RowRead rows, tr_err = None\<rparr>"
    and "cols \<noteq> []"
  shows "copyTable log_exec src schema table w =
    ((length rows, None),
     w @ [(''USE '' @ bt schema, []), (createSQL, [])] @ insert_log schema table cols rows)"
  using assms copy_rows_log [of "[]" schema table cols rows 0]
  by (simp add: copyTable_def log_exec_def row_args_def batchRows_def)

text \<open>The statements for one table, from what the source says of it.\<close>

record table_data =
  td_create :: string
  td_cols :: "string list"
  td_rows :: "string option list list"

definition table_log :: "string \<Rightarrow> string \<Rightarrow> table_data \<Rightarrow> (string \<times> gval list) list" where
  "table_log schema table d =
     [(''USE '' @ bt schema, []), (td_create d, [])] @ insert_log schema table (td_cols d) (td_rows d)"

definition serves :: "'w SourceDb \<Rightarrow> string \<Rightarrow> (string \<Rightarrow> table_data) \<Rightarrow> string \<Rightarrow> bool" where
  "serves src schema data t \<longleftrightarrow>
     (\<forall>w. sd_ShowCreateTable src schema t w = Inr (td_create (data t)) \<and>
        sd_Select src schema t w =
          Inr \<lparr>tr_cols = Inr (td_cols (data t)), tr_rows = map RowRead (td_rows (data t)), tr_err = None\<rparr>) \<and>
     td_cols (data t) \<noteq> []"

lemma copy_tables_log:
  "list_all (serves src schema data) tables \<Longrightarrow>
   copy_tables log_exec src schema exclude tables stats w =
     (let kept = filter (\<lambda>t. \<not> excluded exclude schema t) tables
      in ((None, stats\<lparr>ss_Tables := ss_Tables stats + length kept,
             ss_Rows := ss_Rows stats + (\<Sum>t \<leftarrow> kept. length (td_rows (data t)))\<rparr>),
          w @ concat (map (\<lambda>t. table_log schema t (data t)) kept)))"
proof (induction tables arbitrary: stats w)
  case (Cons t tables)
  then have s: "serves src schema data t" by simp
  have "copyTable log_exec src schema t w =
      ((length (td_rows (data t)), None), w @ table_log schema t (data t))"
    using s copyTable_log [of src schema t w "td_create (data t)" "td_cols (data t)" "td_rows (data t)"]
    by (simp add: serves_def table_log_def)
  with Cons show ?case by (simp add: Let_def add.assoc)
qed (simp add: Let_def)

text \<open>
  C33.  Copying a schema recreates it and fills every table that is not excluded, once, in the listed
  order: on a target that accepts the statements, the schema is dropped and created with the source's
  statement, then for each table come \<open>USE\<close>, the source's \<open>CREATE TABLE\<close>, and insertions that carry
  its rows, all of them in order and at most 500 in each; an excluded table is not touched; the
  counters grow by the tables and rows copied.
\<close>

theorem copySchema_statements:
  assumes "\<And>w. sd_ShowCreateDatabase src schema w = Inr createDB"
    and "\<And>w. sd_Tables src schema w = Inr \<lparr>ls_items = map Some tables, ls_err = None\<rparr>"
    and "list_all (serves src schema data) tables"
    and "kept = filter (\<lambda>t. t \<notin> exclude \<and> schema @ ''.'' @ t \<notin> exclude) tables"
  shows "copySchema log_exec src schema exclude stats [] =
      ((None, stats\<lparr>ss_Tables := ss_Tables stats + length kept,
           ss_Rows := ss_Rows stats + (\<Sum>t \<leftarrow> kept. length (td_rows (data t)))\<rparr>),
       [(''DROP DATABASE IF EXISTS '' @ bt schema, []), (createDB, [])] @
       concat (map (\<lambda>t. table_log schema t (data t)) kept)) \<and>
    (\<forall>t. concat (map snd (insert_log schema t (td_cols (data t)) (td_rows (data t)))) =
           row_args (td_rows (data t)) \<and>
         (\<forall>(stmt, args) \<in> set (insert_log schema t (td_cols (data t)) (td_rows (data t))).
            \<exists>n \<in> {1..batchRows}. stmt = insert_stmt schema t (td_cols (data t)) n))"
proof -
  have "List.map_filter id (map Some tables) = tables" by (induction tables) (auto simp: List.map_filter_simps)
  then have l: "listed (sd_Tables src schema w) = Inr tables" for w
    using assms(2) by (simp add: listed_def)
  have k: "kept = filter (\<lambda>t. \<not> excluded exclude schema t) tables"
    using assms(4) by (simp add: excluded_def)
  show ?thesis
    using copy_tables_log [OF assms(3), of exclude stats] insert_log_args insert_log_sizes
    by (fastforce simp: copySchema_def log_exec_def assms(1) l k Let_def)
qed

definition demo_table :: table_data where
  "demo_table = \<lparr>td_create = ''CREATE TABLE t (id int)'', td_cols = [''id''],
     td_rows = [[Some ''1''], [None]]\<rparr>"

definition demo_source :: "(string \<times> gval list) list SourceDb" where
  "demo_source =
     \<lparr>sd_Databases = (\<lambda>_. Inr \<lparr>ls_items = [Some ''shop''], ls_err = None\<rparr>),
      sd_ShowCreateDatabase = (\<lambda>_ _. Inr ''CREATE DATABASE shop''),
      sd_Tables = (\<lambda>_ _. Inr \<lparr>ls_items = [Some ''audit'', Some ''t''], ls_err = None\<rparr>),
      sd_ShowCreateTable = (\<lambda>_ _ _. Inr (td_create demo_table)),
      sd_Select = (\<lambda>_ _ _. Inr \<lparr>tr_cols = Inr (td_cols demo_table),
        tr_rows = map RowRead (td_rows demo_table), tr_err = None\<rparr>)\<rparr>"

theorem copySchema_statements_witness:
  "copySchema log_exec demo_source ''shop'' {''audit''}
      \<lparr>ss_SchemaNames = [''shop''], ss_Tables = 0, ss_Rows = 0\<rparr> [] =
     ((None, \<lparr>ss_SchemaNames = [''shop''], ss_Tables = 1, ss_Rows = 2\<rparr>),
      [(''DROP DATABASE IF EXISTS '' @ bt ''shop'', []), (''CREATE DATABASE shop'', []),
       (''USE '' @ bt ''shop'', []), (''CREATE TABLE t (id int)'', []),
       (insert_stmt ''shop'' ''t'' [''id''] 2, [GBytes ''1'', GNil])])"
proof -
  have s: "list_all (serves demo_source ''shop'' (\<lambda>_. demo_table)) [''audit'', ''t'']"
    by (simp add: serves_def demo_source_def demo_table_def)
  have i: "insert_log ''shop'' ''t'' [''id''] [[Some ''1''], [None]] =
      [(insert_stmt ''shop'' ''t'' [''id''] 2, [GBytes ''1'', GNil])]"
    by (simp add: insert_log_def chunks_short batchRows_def row_args_def raw_value_def numeral_2_eq_2)
  show ?thesis
    using copySchema_statements [where src = demo_source and tables = "[''audit'', ''t'']"
        and createDB = "''CREATE DATABASE shop''" and schema = "''shop''" and exclude = "{''audit''}"
        and stats = "\<lparr>ss_SchemaNames = [''shop''], ss_Tables = 0, ss_Rows = 0\<rparr>"
        and data = "\<lambda>_. demo_table" and kept = "[''t'']", OF _ _ s] i
    by (simp add: demo_source_def demo_table_def table_log_def)
qed

text \<open>Nothing keeps the target from being the source: then dropping the schema comes before reading it,
  and the copy ends with an error and without the schema.  Here the world is the set of databases of
  one server.\<close>

lemma self_copy_loses_schema:
  assumes "\<And>w. exec (''DROP DATABASE IF EXISTS '' @ bt schema) [] w = (None, w - {schema})"
    and "\<And>w. schema \<notin> w \<Longrightarrow> sd_ShowCreateDatabase src schema w = Inl e"
  shows "copySchema exec src schema exclude stats w = ((Some e, stats), w - {schema})"
  using assms by (simp add: copySchema_def)

section \<open>The marker and discovery\<close>

record Marker =
  mk_SeededAt :: string
  mk_Source :: string
  mk_Schemas :: string
  mk_Golden :: string
  mk_Tables :: "64 word"
  mk_Rows :: "64 word"

text \<open>The query answers with the latest marker or an error; an error counts as never seeded.\<close>

definition ReadMarker ::
  "(MySQL \<Rightarrow> string + 'db) \<Rightarrow> ('db \<Rightarrow> string + Marker) \<Rightarrow> MySQL \<Rightarrow> string + Marker option" where
  "ReadMarker openDb query m =
     (case openDb m of
        Inl e \<Rightarrow> Inl e
      | Inr db \<Rightarrow> (case query db of Inl _ \<Rightarrow> Inr None | Inr mk \<Rightarrow> Inr (Some mk)))"

record TableInfo =
  ti_Name :: string
  ti_Rows :: "64 word"
  ti_SizeMB :: "64 word"

record SchemaInfo =
  si_Name :: string
  si_Tables :: "TableInfo list"

fun discover_tables ::
  "(string \<Rightarrow> string + TableInfo option list) \<Rightarrow> string list \<Rightarrow> string + SchemaInfo list" where
  "discover_tables query [] = Inr []"
| "discover_tables query (schema # schemas) =
     (case query schema of
        Inl e \<Rightarrow> Inl e
      | Inr tis \<Rightarrow>
          map_sum id (Cons \<lparr>si_Name = schema, si_Tables = List.map_filter id tis\<rparr>)
            (discover_tables query schemas))"

definition Discover ::
  "(MySQL \<Rightarrow> string + 'w SourceDb) \<Rightarrow> (string \<Rightarrow> string + TableInfo option list) \<Rightarrow> MySQL \<Rightarrow> 'w \<Rightarrow>
   string + SchemaInfo list" where
  "Discover openDb query src w =
     (case openDb src of
        Inl e \<Rightarrow> Inl e
      | Inr db \<Rightarrow> (case discoverSchemas db w of Inl e \<Rightarrow> Inl e | Inr ss \<Rightarrow> discover_tables query ss))"

lemma discover_no_system:
  "Discover openDb query src w = Inr sis \<Longrightarrow> si \<in> set sis \<Longrightarrow> si_Name si \<notin> set systemSchemas_seed"
proof -
  have names: "discover_tables query ss = Inr sis' \<Longrightarrow> map si_Name sis' = ss" for ss sis'
    by (induction ss arbitrary: sis') (auto split: sum.splits, auto simp: map_sum_def split: sum.splits)
  assume d: "Discover openDb query src w = Inr sis" and s: "si \<in> set sis"
  then obtain db ss where "discoverSchemas db w = Inr ss" "discover_tables query ss = Inr sis"
    by (auto simp: Discover_def split: sum.splits)
  moreover from this s names [of ss sis] have "si_Name si \<in> set ss" by auto
  ultimately show ?thesis by (cases "listed (sd_Databases db w)") (auto simp: discoverSchemas_def)
qed

end
