(* ===== verification/PgCopy.thy ===== *)
theory PgCopy
  imports PgCapture Seed
begin

text \<open>
  \<open>internal/pg/copy.go\<close> and the rest of \<open>internal/pg/pg.go\<close>: copying schemas between PostgreSQL
  databases (schemas, enum types, sequences, tables, keys, rows), the copy marker, discovery and the
  health check.  As in the MySQL seeder, statements are executed by a function of the world and the
  source is read in the current world; \<open>pgx.Identifier.Sanitize\<close> is modelled (quotes doubled, NUL
  dropped).
\<close>

section \<open>Identifiers\<close>

definition dq :: char where
  "dq = CHR 0x22"

definition double_quote :: "string \<Rightarrow> string" where
  "double_quote s = concat (map (\<lambda>c. if c = dq then [dq, dq] else [c]) (filter (\<lambda>c. c \<noteq> CHR 0x00) s))"

definition Sanitize :: "string list \<Rightarrow> string" where
  "Sanitize parts = join_with ''.'' (map (\<lambda>s. [dq] @ double_quote s @ [dq]) parts)"

section \<open>The source\<close>

record columnDef =
  cd_name :: string
  cd_typ :: string
  cd_notNull :: bool
  cd_deflt :: "string option"

record 'w PgSource =
  ps_Schemas :: "'w \<Rightarrow> string + string list"
  ps_Enums :: "string \<Rightarrow> 'w \<Rightarrow> string + (string \<times> string list) list"
  ps_Tables :: "string \<Rightarrow> 'w \<Rightarrow> string + string list"
  ps_Columns :: "string \<Rightarrow> string \<Rightarrow> 'w \<Rightarrow> string + columnDef list"
  ps_PrimaryKey :: "string \<Rightarrow> string \<Rightarrow> 'w \<Rightarrow> string + string list"

text \<open>\<open>streamCopy\<close>: both ends of the pipe in the library; the rows copied or the errors of the two
  ends, and the world after it.\<close>

type_synonym 'w pipe = "string \<Rightarrow> 'w \<Rightarrow> (string option \<times> string option \<times> nat) \<times> 'w"

definition streamCopy :: "'w pipe \<Rightarrow> string \<Rightarrow> 'w \<Rightarrow> (string + nat) \<times> 'w" where
  "streamCopy pipe qtable w =
     (case pipe qtable w of
        ((srcErr, err, n), w) \<Rightarrow>
          (case srcErr of
             Some e \<Rightarrow> (Inl (''read source: '' @ e), w)
           | None \<Rightarrow> (case err of Some e \<Rightarrow> (Inl (''write target: '' @ e), w) | None \<Rightarrow> (Inr n, w))))"

text \<open>Executing a statement whose error is ignored.\<close>

definition attempt :: "'w exec \<Rightarrow> string \<Rightarrow> 'w \<Rightarrow> 'w" where
  "attempt exec stmt w = snd (exec stmt [] w)"

section \<open>One table\<close>

definition nextval_marker :: string where
  "nextval_marker = ''nextval('' @ [sq]"

definition sequenceName :: "string \<Rightarrow> string" where
  "sequenceName deflt =
     (case after_first nextval_marker deflt of
        None \<Rightarrow> ''''
      | Some rest \<Rightarrow> (case cut_at sq rest of None \<Rightarrow> '''' | Some (seq, _) \<Rightarrow> seq))"

definition create_sequences :: "'w exec \<Rightarrow> columnDef list \<Rightarrow> 'w \<Rightarrow> 'w" where
  "create_sequences exec cols w =
     foldl (\<lambda>w c.
       (case cd_deflt c of
          None \<Rightarrow> w
        | Some d \<Rightarrow>
            if sequenceName d = '''' then w
            else attempt exec (''CREATE SEQUENCE IF NOT EXISTS '' @ sequenceName d) w)) w cols"

definition column_def :: "columnDef \<Rightarrow> string" where
  "column_def c =
     Sanitize [cd_name c] @ '' '' @ cd_typ c @
     (case cd_deflt c of None \<Rightarrow> '''' | Some d \<Rightarrow> '' DEFAULT '' @ d) @
     (if cd_notNull c then '' NOT NULL'' else '''')"

definition create_table :: "string \<Rightarrow> columnDef list \<Rightarrow> string" where
  "create_table qtable cols =
     ''CREATE TABLE '' @ qtable @ '' ('' @ join_with '', '' (map column_def cols) @ '')''"

definition add_primary_key :: "'w exec \<Rightarrow> string \<Rightarrow> string + string list \<Rightarrow> 'w \<Rightarrow> 'w" where
  "add_primary_key exec qtable pk w =
     (case pk of
        Inl _ \<Rightarrow> w
      | Inr cols \<Rightarrow>
          if cols = [] then w
          else attempt exec
            (''ALTER TABLE '' @ qtable @ '' ADD PRIMARY KEY ('' @
             join_with '', '' (map (\<lambda>c. Sanitize [c]) cols) @ '')'') w)"

definition setval_stmt :: "string \<Rightarrow> string \<Rightarrow> string \<Rightarrow> string" where
  "setval_stmt schema table col =
     ''SELECT setval(pg_get_serial_sequence('' @ [sq] @ schema @ ''.'' @ table @ [sq] @ '', '' @
     [sq] @ col @ [sq] @ ''), COALESCE((SELECT MAX('' @ Sanitize [col] @ '') FROM '' @
     Sanitize [schema, table] @ ''), 1))''"

definition resetSequences :: "'w exec \<Rightarrow> string \<Rightarrow> string \<Rightarrow> columnDef list \<Rightarrow> 'w \<Rightarrow> 'w" where
  "resetSequences exec schema table cols w =
     foldl (\<lambda>w c.
       (case cd_deflt c of
          None \<Rightarrow> w
        | Some d \<Rightarrow>
            if str_contains d ''nextval('' then attempt exec (setval_stmt schema table (cd_name c)) w
            else w)) w cols"

definition copyTable_pg ::
  "'w exec \<Rightarrow> 'w pipe \<Rightarrow> 'w PgSource \<Rightarrow> string \<Rightarrow> string \<Rightarrow> 'w \<Rightarrow> (string + nat) \<times> 'w" where
  "copyTable_pg exec pipe src schema table w =
     (case ps_Columns src schema table w of
        Inl e \<Rightarrow> (Inl e, w)
      | Inr cols \<Rightarrow>
          if cols = [] then (Inr 0, w)
          else
            (let w = create_sequences exec cols w;
                 qtable = Sanitize [schema, table]
             in case exec (create_table qtable cols) [] w of
                  (Some e, w) \<Rightarrow> (Inl e, w)
                | (None, w) \<Rightarrow>
                    (let w = add_primary_key exec qtable (ps_PrimaryKey src schema table w) w
                     in case streamCopy pipe qtable w of
                          (Inl e, w) \<Rightarrow> (Inl e, w)
                        | (Inr n, w) \<Rightarrow> (Inr n, resetSequences exec schema table cols w))))"

section \<open>Schemas\<close>

definition create_enum :: "string \<Rightarrow> string \<times> string list \<Rightarrow> string" where
  "create_enum schema e =
     ''CREATE TYPE '' @ Sanitize [schema, fst e] @ '' AS ENUM ('' @
     join_with '', '' (map quoteLiteral (snd e)) @ '')''"

fun create_enums :: "'w exec \<Rightarrow> string \<Rightarrow> (string \<times> string list) list \<Rightarrow> 'w \<Rightarrow> string option \<times> 'w" where
  "create_enums exec schema [] w = (None, w)"
| "create_enums exec schema (e # es) w =
     (case exec (create_enum schema e) [] w of
        (Some err, w) \<Rightarrow> (Some err, w)
      | (None, w) \<Rightarrow> create_enums exec schema es w)"

definition copyEnums :: "'w exec \<Rightarrow> 'w PgSource \<Rightarrow> string \<Rightarrow> 'w \<Rightarrow> string option \<times> 'w" where
  "copyEnums exec src schema w =
     (case ps_Enums src schema w of
        Inl e \<Rightarrow> (Some e, w)
      | Inr es \<Rightarrow> create_enums exec schema es w)"

fun copy_tables_pg ::
  "'w exec \<Rightarrow> 'w pipe \<Rightarrow> 'w PgSource \<Rightarrow> string \<Rightarrow> string set \<Rightarrow> string list \<Rightarrow> Seed_Stats \<Rightarrow> 'w \<Rightarrow>
   (string option \<times> Seed_Stats) \<times> 'w" where
  "copy_tables_pg exec pipe src schema exclude [] stats w = ((None, stats), w)"
| "copy_tables_pg exec pipe src schema exclude (table # tables) stats w =
     (if excluded exclude schema table then copy_tables_pg exec pipe src schema exclude tables stats w
      else
        (case copyTable_pg exec pipe src schema table w of
           (Inl e, w) \<Rightarrow> ((Some (''table '' @ table @ '': '' @ e), stats), w)
         | (Inr n, w) \<Rightarrow>
             copy_tables_pg exec pipe src schema exclude tables
               (stats\<lparr>ss_Tables := ss_Tables stats + 1, ss_Rows := ss_Rows stats + n\<rparr>) w))"

text \<open>A table without columns is not created on the target, but counted as a copied one.\<close>

lemma columnless_counted:
  assumes "ps_Columns src schema table w = Inr []" "\<not> excluded exclude schema table"
  shows "copy_tables_pg exec pipe src schema exclude [table] stats w = ((None, stats\<lparr>ss_Tables := ss_Tables stats + 1\<rparr>), w)"
  using assms by (simp add: copyTable_pg_def)

definition copySchema_pg ::
  "'w exec \<Rightarrow> 'w pipe \<Rightarrow> 'w PgSource \<Rightarrow> string \<Rightarrow> string set \<Rightarrow> Seed_Stats \<Rightarrow> 'w \<Rightarrow>
   (string option \<times> Seed_Stats) \<times> 'w" where
  "copySchema_pg exec pipe src schema exclude stats w =
     (case exec (''DROP SCHEMA IF EXISTS '' @ Sanitize [schema] @ '' CASCADE'') [] w of
        (Some e, w) \<Rightarrow> ((Some e, stats), w)
      | (None, w) \<Rightarrow>
          (case exec (''CREATE SCHEMA '' @ Sanitize [schema]) [] w of
             (Some e, w) \<Rightarrow> ((Some e, stats), w)
           | (None, w) \<Rightarrow>
               (case copyEnums exec src schema w of
                  (Some e, w) \<Rightarrow> ((Some (''enum types: '' @ e), stats), w)
                | (None, w) \<Rightarrow>
                    (case ps_Tables src schema w of
                       Inl e \<Rightarrow> ((Some e, stats), w)
                     | Inr tables \<Rightarrow> copy_tables_pg exec pipe src schema exclude tables stats w))))"

fun copy_schemas_pg ::
  "'w exec \<Rightarrow> 'w pipe \<Rightarrow> 'w PgSource \<Rightarrow> string set \<Rightarrow> string list \<Rightarrow> Seed_Stats \<Rightarrow> 'w \<Rightarrow>
   (string option \<times> Seed_Stats) \<times> 'w" where
  "copy_schemas_pg exec pipe src exclude [] stats w = ((None, stats), w)"
| "copy_schemas_pg exec pipe src exclude (schema # schemas) stats w =
     (case copySchema_pg exec pipe src schema exclude stats w of
        ((Some e, stats), w) \<Rightarrow> ((Some (''schema '' @ schema @ '': '' @ e), stats), w)
      | ((None, stats), w) \<Rightarrow> copy_schemas_pg exec pipe src exclude schemas stats w)"

section \<open>Copy\<close>

definition systemSchemas_pg :: "string list" where
  "systemSchemas_pg = [''pg_catalog'', ''information_schema'', ''pg_toast'']"

definition listSchemas :: "'w PgSource \<Rightarrow> 'w \<Rightarrow> string + string list" where
  "listSchemas src w = map_sum id (filter (\<lambda>s. s \<notin> set systemSchemas_pg)) (ps_Schemas src w)"

definition create_copy_info :: string where
  "create_copy_info =
     ''CREATE TABLE IF NOT EXISTS '' @ markerSchema @ ''.copy_info ('' @ [CHR 0x0A, CHR 0x09, CHR 0x09] @
     ''id SERIAL PRIMARY KEY, copied_at TIMESTAMP NOT NULL DEFAULT now(),'' @
     [CHR 0x0A, CHR 0x09, CHR 0x09] @
     ''source TEXT NOT NULL, schemas TEXT NOT NULL, tables_copied INT NOT NULL, rows_copied BIGINT NOT NULL)''"

definition writeMarker_pg ::
  "'w exec \<Rightarrow> string \<Rightarrow> string list \<Rightarrow> Seed_Stats \<Rightarrow> 'w \<Rightarrow> string option \<times> 'w" where
  "writeMarker_pg exec source schemas stats w =
     (case exec (''CREATE SCHEMA IF NOT EXISTS '' @ markerSchema) [] w of
        (Some e, w) \<Rightarrow> (Some e, w)
      | (None, w) \<Rightarrow>
          (case exec create_copy_info [] w of
             (Some e, w) \<Rightarrow> (Some e, w)
           | (None, w) \<Rightarrow>
               exec (''INSERT INTO '' @ markerSchema @
                     ''.copy_info (source, schemas, tables_copied, rows_copied) VALUES ($1,$2,$3,$4)'')
                 [GStr source, GStr (join_with '','' schemas), GInt (of_nat (ss_Tables stats)),
                  GI64 (of_nat (ss_Rows stats))] w))"

text \<open>Connecting to a datastore answers with the operations of its database or the error; a connection
  to the target also carries the pipe from the source.\<close>

definition Copy ::
  "(Datastore \<Rightarrow> string + 'w PgSource) \<Rightarrow> (Datastore \<Rightarrow> string + 'w exec \<times> 'w pipe) \<Rightarrow>
   Datastore \<Rightarrow> Datastore \<Rightarrow> string list \<Rightarrow> string set \<Rightarrow> 'w \<Rightarrow> (string + Seed_Stats) \<times> 'w" where
  "Copy connectSrc connectDst src dst schemas exclude w =
     (case connectSrc src of
        Inl e \<Rightarrow> (Inl (''source: '' @ e), w)
      | Inr sconn \<Rightarrow>
          (case connectDst dst of
             Inl e \<Rightarrow> (Inl (''target: '' @ e), w)
           | Inr (exec, pipe) \<Rightarrow>
               (case (if schemas = [] then listSchemas sconn w else Inr schemas) of
                  Inl e \<Rightarrow> (Inl e, w)
                | Inr schemas \<Rightarrow>
                    (case copy_schemas_pg exec pipe sconn exclude schemas
                            \<lparr>ss_SchemaNames = schemas, ss_Tables = 0, ss_Rows = 0\<rparr> w of
                       ((Some e, stats), w) \<Rightarrow> (Inl e, w)
                     | ((None, stats), w) \<Rightarrow>
                         (case writeMarker_pg exec (Datastore_Addr src) schemas stats w of
                            (Some e, w) \<Rightarrow> (Inl (''copy marker: '' @ e), w)
                          | (None, w) \<Rightarrow> (Inr stats, w))))))"

section \<open>Discovery and health\<close>

text \<open>Grouping the rows by schema, in the order the schemas first appear.\<close>

fun add_table :: "string \<Rightarrow> TableInfo \<Rightarrow> SchemaInfo list \<Rightarrow> SchemaInfo list" where
  "add_table schema ti [] = [\<lparr>si_Name = schema, si_Tables = [ti]\<rparr>]"
| "add_table schema ti (si # sis) =
     (if si_Name si = schema then si\<lparr>si_Tables := si_Tables si @ [ti]\<rparr> # sis
      else si # add_table schema ti sis)"

definition group_tables :: "(string \<times> TableInfo) list \<Rightarrow> SchemaInfo list" where
  "group_tables rows =
     foldl (\<lambda>sis (schema, ti). if schema \<in> set systemSchemas_pg then sis else add_table schema ti sis) [] rows"

definition Discover_pg ::
  "(Datastore \<Rightarrow> string + 'c) \<Rightarrow> ('c \<Rightarrow> string + (string \<times> TableInfo) list) \<Rightarrow> Datastore \<Rightarrow>
   string + SchemaInfo list" where
  "Discover_pg connectDb query d =
     (case connectDb d of
        Inl e \<Rightarrow> Inl e
      | Inr conn \<Rightarrow> map_sum id group_tables (query conn))"

lemma filter_name_none: "s \<notin> si_Name ` set sis \<Longrightarrow> filter (\<lambda>si. si_Name si = s) sis = []"
  by (auto simp: filter_empty_conv)

lemma add_table_tables:
  "concat (map si_Tables (filter (\<lambda>si. si_Name si = s) (add_table schema ti sis))) =
   concat (map si_Tables (filter (\<lambda>si. si_Name si = s) sis)) @ (if s = schema then [ti] else [])"
  if "distinct (map si_Name sis)"
  using that
  by (induction sis) (auto simp: filter_name_none)

lemma add_table_names:
  "set (map si_Name (add_table schema ti sis)) = insert schema (set (map si_Name sis))"
  "distinct (map si_Name sis) \<Longrightarrow> distinct (map si_Name (add_table schema ti sis))"
proof -
  show names: "set (map si_Name (add_table schema ti sis)) = insert schema (set (map si_Name sis))" for sis
    by (induction sis) auto
  show "distinct (map si_Name sis) \<Longrightarrow> distinct (map si_Name (add_table schema ti sis))"
    by (induction sis) (use names in auto)
qed

text \<open>Health: the level of the WAL, or the error of connecting or of asking.\<close>

text \<open>The bytes of the messages.\<close>

definition wal_query_failed :: string where
  "wal_query_failed =
     ''wal_level '' @ [CHR 0xEC, CHR 0xA1, CHR 0xB0, CHR 0xED, CHR 0x9A, CHR 0x8C] @ '' '' @ [CHR
     0xEC, CHR 0x8B, CHR 0xA4, CHR 0xED, CHR 0x8C, CHR 0xA8] @ '': ''"

definition wal_needed :: string where
  "wal_needed =
     '' (logical '' @ [CHR 0xED, CHR 0x95, CHR 0x84, CHR 0xEC, CHR 0x9A, CHR 0x94] @ '' '' @ [CHR
     0xE2, CHR 0x80, CHR 0x94] @ '' write-set '' @ [CHR 0xEC, CHR 0xBA, CHR 0xA1, CHR 0xEC, CHR
     0xB2, CHR 0x98] @ '' '' @ [CHR 0xEB, CHR 0xB6, CHR 0x88, CHR 0xEA, CHR 0xB0, CHR 0x80] @
     '')''"

definition middle_dot :: string where
  "middle_dot =
     [CHR 0xC2, CHR 0xB7]"

definition Health ::
  "(Datastore \<Rightarrow> string + 'c) \<Rightarrow> ('c \<Rightarrow> string + string) \<Rightarrow> Datastore \<Rightarrow> bool \<times> string" where
  "Health connectDb walLevel d =
     (case connectDb d of
        Inl e \<Rightarrow> (False, e)
      | Inr conn \<Rightarrow>
          (case walLevel conn of
             Inl e \<Rightarrow> (False, wal_query_failed @ e)
           | Inr level \<Rightarrow>
               if level \<noteq> ''logical'' then (False, ''wal_level='' @ level @ wal_needed)
               else (True, ''connected '' @ middle_dot @ '' wal_level=logical'')))"

text \<open>The discovered schemas: each once, with exactly the tables of its rows, in order; no system schema.\<close>

lemma group_tables_spec:
  "distinct (map si_Name (group_tables rows)) \<and>
   concat (map si_Tables (filter (\<lambda>si. si_Name si = s) (group_tables rows))) =
     (if s \<in> set systemSchemas_pg then [] else map snd (filter (\<lambda>r. fst r = s) rows))"
proof (induction rows rule: rev_induct)
  case (snoc r rows)
  obtain schema ti where r: "r = (schema, ti)" by fastforce
  let ?g = "group_tables rows"
  have step: "group_tables (rows @ [r]) =
      (if schema \<in> set systemSchemas_pg then ?g else add_table schema ti ?g)"
    by (simp add: group_tables_def r)
  show ?case
    using snoc add_table_tables [of ?g s schema ti] add_table_names(2) [of ?g schema ti]
    unfolding step by (auto simp: r)
qed (simp add: group_tables_def)

text \<open>The name of the sequence is read back from the default PostgreSQL shows, when it has no quote.\<close>

lemma after_first_start: "p \<noteq> [] \<Longrightarrow> after_first p (p @ s) = Some s"
  by (cases p) (simp_all add: after_first.simps)

lemma sequenceName_nextval:
  "sq \<notin> set seq \<Longrightarrow> sequenceName (nextval_marker @ seq @ sq # ''::regclass)'') = seq"
proof -
  assume s: "sq \<notin> set seq"
  have "nextval_marker \<noteq> []" by (simp add: nextval_marker_def)
  from after_first_start [OF this] s show ?thesis by (simp add: sequenceName_def cut_at_append)
qed

end
