(* ===== verification/Pairs.thy ===== *)
theory Pairs
  imports PgCopy
begin

text \<open>
  \<open>RunPairs\<close> of \<open>internal/seed/seed.go\<close>: every datastore of the new stack is copied from the datastore
  of the same name of the old one, by the MySQL or the PostgreSQL copier.  A nil pointer (a MySQL copy
  from a datastore that is not MySQL) is the outcome \<open>Panics\<close>.
\<close>


definition exclude_set :: "Datastore \<Rightarrow> string set" where
  "exclude_set d = {t \<in> set (ds_Exclude d). t \<noteq> ''''}"

definition add_stats :: "Seed_Stats \<Rightarrow> Seed_Stats \<Rightarrow> Seed_Stats" where
  "add_stats a b =
     \<lparr>ss_SchemaNames = ss_SchemaNames a @ ss_SchemaNames b, ss_Tables = ss_Tables a + ss_Tables b,
      ss_Rows = ss_Rows a + ss_Rows b\<rparr>"

text \<open>The two copiers with their connections: from the old datastore, to the new one.\<close>

record 'w Copiers =
  cp_mysql :: "MySQL \<Rightarrow> MySQL \<Rightarrow> Seed_Options \<Rightarrow> 'w \<Rightarrow> (string + Seed_Stats) \<times> 'w"
  cp_pg :: "Datastore \<Rightarrow> Datastore \<Rightarrow> string list \<Rightarrow> string set \<Rightarrow> 'w \<Rightarrow> (string + Seed_Stats) \<times> 'w"

definition copy_pair ::
  "'w Copiers \<Rightarrow> string \<Rightarrow> Datastore \<Rightarrow> Datastore \<Rightarrow> 'w \<Rightarrow> ((string + Seed_Stats) \<times> 'w) outcome" where
  "copy_pair cp goldenName od nd w =
     (if ds_Type nd = ''postgres'' then
        Returns (cp_pg cp od nd (ds_Schemas od) (exclude_set od) w)
      else
        (case (Datastore_MySQL od, Datastore_MySQL nd) of
           (Some src, Some dst) \<Rightarrow>
             Returns (cp_mysql cp src dst
               \<lparr>so_Schemas = ds_Schemas od, so_ExcludeTables = exclude_set od, so_GoldenName = goldenName\<rparr> w)
         | _ \<Rightarrow> Panics))"

definition pair_error :: "Datastore \<Rightarrow> string \<Rightarrow> string" where
  "pair_error nd e = ''datastore '' @ [dq] @ ds_Name nd @ [dq] @ '': '' @ e"

text \<open>The bytes of the messages.\<close>

definition no_pair_msg :: string where
  "no_pair_msg =
     ''no matching reference (old) DB '' @ [CHR 0xE2, CHR 0x80, CHR 0x94] @ '' '' @ [CHR 0xEC,
     CHR 0x84, CHR 0xA4, CHR 0xEC, CHR 0xA0, CHR 0x95, CHR 0xEC, CHR 0x97, CHR 0x90, CHR 0xEC,
     CHR 0x84, CHR 0x9C] @ '' '' @ [CHR 0xEC, CHR 0xA7, CHR 0x9D, CHR 0xEC, CHR 0x9D, CHR 0x84] @
     '' '' @ [CHR 0xEB, CHR 0xA7, CHR 0x9E, CHR 0xEC, CHR 0xB6, CHR 0x94, CHR 0xEC, CHR 0x84, CHR
     0xB8, CHR 0xEC, CHR 0x9A, CHR 0x94]"

definition no_target_msg :: string where
  "no_target_msg =
     [CHR 0xEA, CHR 0xB2, CHR 0x80, CHR 0xEC, CHR 0xA6, CHR 0x9D] @ '' '' @ [CHR 0xEB, CHR 0x8C,
     CHR 0x80, CHR 0xEC, CHR 0x83, CHR 0x81] @ ''('' @ [CHR 0xEC, CHR 0x8B, CHR 0xA0] @ '') DB''
     @ [CHR 0xEA, CHR 0xB0, CHR 0x80] @ '' '' @ [CHR 0xEC, CHR 0x97, CHR 0x86, CHR 0xEC, CHR
     0x8A, CHR 0xB5, CHR 0xEB, CHR 0x8B, CHR 0x88, CHR 0xEB, CHR 0x8B, CHR 0xA4] @ '' '' @ [CHR
     0xE2, CHR 0x80, CHR 0x94] @ '' '' @ [CHR 0xEC, CHR 0x84, CHR 0xA4, CHR 0xEC, CHR 0xA0, CHR
     0x95, CHR 0xEC, CHR 0x97, CHR 0x90, CHR 0xEC, CHR 0x84, CHR 0x9C] @ '' '' @ [CHR 0xEC, CHR
     0xB6, CHR 0x94, CHR 0xEA, CHR 0xB0, CHR 0x80, CHR 0xED, CHR 0x95, CHR 0x98, CHR 0xEC, CHR
     0x84, CHR 0xB8, CHR 0xEC, CHR 0x9A, CHR 0x94]"

fun run_pairs ::
  "'w Copiers \<Rightarrow> Stack \<Rightarrow> string \<Rightarrow> Datastore list \<Rightarrow> Seed_Stats \<Rightarrow> nat \<Rightarrow> 'w \<Rightarrow>
   ((Seed_Stats \<times> string option) \<times> 'w) outcome" where
  "run_pairs cp old goldenName [] stats seeded w =
     Returns ((stats, if seeded = 0 then Some no_target_msg else None), w)"
| "run_pairs cp old goldenName (nd # nds) stats seeded w =
     (case DatastoreByName old (ds_Name nd) of
        None \<Rightarrow> Returns ((stats, Some (pair_error nd no_pair_msg)), w)
      | Some od \<Rightarrow>
          if ds_Host od = '''' then
            Returns ((stats, Some (pair_error nd ''reference (old) connection is empty'')), w)
          else
            (case copy_pair cp goldenName od nd w of
               Panics \<Rightarrow> Panics
             | Returns (Inl e, w) \<Rightarrow> Returns ((stats, Some (pair_error nd e)), w)
             | Returns (Inr st, w) \<Rightarrow>
                 run_pairs cp old goldenName nds (add_stats stats st) (seeded + 1) w))"

definition RunPairs ::
  "'w Copiers \<Rightarrow> Stack \<Rightarrow> Stack \<Rightarrow> string \<Rightarrow> 'w \<Rightarrow> ((Seed_Stats \<times> string option) \<times> 'w) outcome" where
  "RunPairs cp old new goldenName w =
     run_pairs cp old goldenName (Datastores new) \<lparr>ss_SchemaNames = [], ss_Tables = 0, ss_Rows = 0\<rparr> 0 w"

section \<open>Which pairs are copied\<close>

text \<open>Copiers that record the pairs they are called with, and succeed.\<close>

definition log_copiers :: "(MySQL \<times> MySQL + Datastore \<times> Datastore) list Copiers" where
  "log_copiers =
     \<lparr>cp_mysql = (\<lambda>src dst opts w. (Inr \<lparr>ss_SchemaNames = so_Schemas opts, ss_Tables = 0, ss_Rows = 0\<rparr>,
        w @ [Inl (src, dst)])),
      cp_pg = (\<lambda>od nd schemas exclude w. (Inr \<lparr>ss_SchemaNames = schemas, ss_Tables = 0, ss_Rows = 0\<rparr>,
        w @ [Inr (od, nd)]))\<rparr>"

definition the_mysql :: "Datastore \<Rightarrow> MySQL" where
  "the_mysql d = \<lparr>my_Host = ds_Host d, my_Port = ds_Port d, my_User = ds_User d, my_Password = ds_Password d\<rparr>"

definition pair_call :: "Stack \<Rightarrow> Datastore \<Rightarrow> MySQL \<times> MySQL + Datastore \<times> Datastore" where
  "pair_call old nd =
     (case DatastoreByName old (ds_Name nd) of
        Some od \<Rightarrow> if ds_Type nd = ''postgres'' then Inr (od, nd) else Inl (the_mysql od, the_mysql nd)
      | None \<Rightarrow> Inr (nd, nd))"

definition paired :: "Stack \<Rightarrow> Datastore \<Rightarrow> bool" where
  "paired old nd \<longleftrightarrow>
     (case DatastoreByName old (ds_Name nd) of
        None \<Rightarrow> False
      | Some od \<Rightarrow> ds_Host od \<noteq> '''' \<and>
          (ds_Type nd = ''postgres'' \<or> ds_Type nd \<in> {'''', ''mysql''} \<and> ds_Type od \<in> {'''', ''mysql''}))"

text \<open>Where the loop stops: the pairs before are copied.\<close>

definition no_reference :: "Stack \<Rightarrow> Datastore \<Rightarrow> bool" where
  "no_reference old nd \<longleftrightarrow>
     (case DatastoreByName old (ds_Name nd) of None \<Rightarrow> True | Some od \<Rightarrow> ds_Host od = '''')"

lemma copy_pair_paired:
  assumes "paired old nd"
  obtains od st where "DatastoreByName old (ds_Name nd) = Some od" "ds_Host od \<noteq> ''''"
    "copy_pair log_copiers goldenName od nd w = Returns (Inr st, w @ [pair_call old nd])"
proof -
  obtain od where od: "DatastoreByName old (ds_Name nd) = Some od" "ds_Host od \<noteq> ''''"
    "ds_Type nd = ''postgres'' \<or> ds_Type nd \<in> {'''', ''mysql''} \<and> ds_Type od \<in> {'''', ''mysql''}"
    using assms by (auto simp: paired_def split: option.splits)
  moreover obtain st where "copy_pair log_copiers goldenName od nd w = Returns (Inr st, w @ [pair_call old nd])"
    using od by (cases "ds_Type nd = ''postgres''")
      (auto simp: copy_pair_def log_copiers_def pair_call_def Datastore_MySQL_def the_mysql_def)
  ultimately show thesis using that by blast
qed

lemma copy_pair_panics:
  assumes "\<not> paired old nd" "DatastoreByName old (ds_Name nd) = Some od" "ds_Host od \<noteq> ''''"
  shows "copy_pair cp goldenName od nd w = Panics"
  using assms by (auto simp: paired_def copy_pair_def Datastore_MySQL_def split: if_splits option.splits)

lemma run_pairs_until:
  "case dropWhile (paired old) nds of
     [] \<Rightarrow> \<exists>stats'. run_pairs log_copiers old goldenName nds stats seeded w =
       Returns ((stats', if seeded + length nds = 0 then Some no_target_msg else None), w @ map (pair_call old) nds)
   | nd # _ \<Rightarrow>
       if no_reference old nd
       then \<exists>stats' e. run_pairs log_copiers old goldenName nds stats seeded w =
         Returns ((stats', Some (pair_error nd e)), w @ map (pair_call old) (takeWhile (paired old) nds))
       else run_pairs log_copiers old goldenName nds stats seeded w = Panics"
proof (induction nds arbitrary: stats seeded w)
  case (Cons nd nds)
  show ?case
  proof (cases "paired old nd")
    case True
    from copy_pair_paired [OF this, of goldenName w] obtain od st where
      "DatastoreByName old (ds_Name nd) = Some od" "ds_Host od \<noteq> ''''"
      "copy_pair log_copiers goldenName od nd w = Returns (Inr st, w @ [pair_call old nd])" by blast
    with Cons.IH [of "add_stats stats st" "seeded + 1" "w @ [pair_call old nd]"] True show ?thesis
      by (cases "dropWhile (paired old) nds") (auto simp del: dropWhile_eq_Nil_conv split: if_splits)
  next
    case False
    then show ?thesis
      by (cases "DatastoreByName old (ds_Name nd)") (auto simp: no_reference_def copy_pair_panics)
  qed
qed simp

text \<open>
  C34.  Seeding goes through the datastores of the new stack in the order of the configuration and pairs
  each with its namesake on the old side.  With copiers that succeed, \<open>RunPairs\<close> copies them up to the
  first that has no partner (a namesake with a host, and both MySQL or the new one PostgreSQL), each once,
  with the connection of the old one as the source and that of the new one as the target.  If there is no
  such datastore it returns without an error, unless the new stack lists none at all; if its namesake or
  that one's host is missing it returns an error that names the datastore, with the copies before it made;
  and a namesake of the wrong type makes it panic.
\<close>

theorem RunPairs_copies_pairs:
  "case dropWhile (paired old) (Datastores new) of
     [] \<Rightarrow> \<exists>stats. RunPairs log_copiers old new goldenName w =
       Returns ((stats, if Datastores new = [] then Some no_target_msg else None),
         w @ map (pair_call old) (Datastores new))
   | nd # _ \<Rightarrow>
       if no_reference old nd
       then \<exists>stats e. RunPairs log_copiers old new goldenName w =
         Returns ((stats, Some (pair_error nd e)), w @ map (pair_call old) (takeWhile (paired old) (Datastores new)))
       else RunPairs log_copiers old new goldenName w = Panics"
  using run_pairs_until [where old = old and nds = "Datastores new" and goldenName = goldenName and w = w
      and stats = "\<lparr>ss_SchemaNames = [], ss_Tables = 0, ss_Rows = 0\<rparr>" and seeded = 0]
  by (simp only: RunPairs_def add_0 length_0_conv)

definition demo_ds :: "string \<Rightarrow> string \<Rightarrow> Datastore" where
  "demo_ds host typ = \<lparr>ds_Name = ''main'', ds_Type = typ, ds_Host = host, ds_Port = 3306, ds_User = ''u'',
     ds_Password = ''p'', ds_Database = '''', ds_Schemas = [''shop''], ds_Exclude = [], ds_SeedFrom = None\<rparr>"

definition demo_side :: "string \<Rightarrow> string \<Rightarrow> Stack" where
  "demo_side host typ =
     \<lparr>st_Name = '''', BaseURL = ''http://h'', st_MySQL = None, Datastores = [demo_ds host typ]\<rparr>"

theorem RunPairs_copies_pairs_witness:
  "\<exists>stats. RunPairs log_copiers (demo_side ''old'' ''mysql'') (demo_side ''new'' ''mysql'') '''' [] =
     Returns ((stats, None), [Inl (the_mysql (demo_ds ''old'' ''mysql''), the_mysql (demo_ds ''new'' ''mysql''))])"
proof -
  let ?o = "demo_side ''old'' ''mysql''" and ?n = "demo_side ''new'' ''mysql''"
  have p: "dropWhile (paired ?o) (Datastores ?n) = []" "Datastores ?n \<noteq> []"
    by (simp_all add: demo_side_def demo_ds_def paired_def DatastoreByName_def)
  have m: "map (pair_call ?o) (Datastores ?n) =
      [Inl (the_mysql (demo_ds ''old'' ''mysql''), the_mysql (demo_ds ''new'' ''mysql''))]"
    by (simp add: demo_side_def demo_ds_def pair_call_def DatastoreByName_def)
  show ?thesis using RunPairs_copies_pairs [of ?o ?n "''''" "[]"] p(2) unfolding p(1) m by simp
qed

text \<open>A MySQL datastore whose namesake is PostgreSQL is not refused but dereferences a nil pointer.\<close>

lemma mixed_types_panic:
  "RunPairs cp (demo_side ''old'' ''postgres'') (demo_side ''new'' ''mysql'') goldenName w = Panics"
  by (simp add: RunPairs_def demo_side_def demo_ds_def DatastoreByName_def copy_pair_def Datastore_MySQL_def)

end
