(* ===== verification/Replay.thy ===== *)
theory Replay
  imports Golden Wscapture
begin

text \<open>
  \<open>internal/replay\<close>: firing a request at a stack, live comparison of two stacks (\<open>Runner\<close>) and
  verification of one stack against a golden file (\<open>Verifier\<close>).  The outside is a state \<open>'w\<close> with
  the operations of \<open>Env\<close>: \<open>http.NewRequest\<close>, \<open>client.Do\<close> and the clock; a stack's write-set
  source is a pair of operations on the same state, or absent.
\<close>

section \<open>The outside\<close>

record HttpReq =
  hr_Method :: string
  hr_URL :: string
  hr_Host :: "string option"
  hr_Header :: "(string \<times> string) list"
  hr_Body :: "string option"

record HttpResp =
  hp_Status :: "64 word"
  hp_Header :: "(string \<times> string list) list"
  hp_Body :: "string + string"

record 'w Env =
  newRequest :: "string \<Rightarrow> string \<Rightarrow> string option"
  client_Do :: "HttpReq \<Rightarrow> 'w \<Rightarrow> (string + HttpResp) \<times> 'w"

record 'w SourceOps =
  src_BeginWindow :: "'w \<Rightarrow> 'w"
  src_TakeWindow :: "Attribution \<Rightarrow> 'w \<Rightarrow> (string + RowChange list) \<times> 'w"

section \<open>fireStack\<close>

definition maxBodyBytes :: nat where
  "maxBodyBytes = 1048576"

text \<open>\<open>http.CanonicalHeaderKey\<close> on header names: upper case after the start and each hyphen.\<close>

fun canon_header :: "bool \<Rightarrow> string \<Rightarrow> string" where
  "canon_header up [] = []"
| "canon_header up (c # s) = (if up then upper_char c else lower_char c) # canon_header (c = CHR ''-'') s"

definition set_header :: "string \<Rightarrow> string \<Rightarrow> HttpReq \<Rightarrow> HttpReq" where
  "set_header k v req = req\<lparr>hr_Header := map_set (canon_header True k) v (hr_Header req)\<rparr>"

definition get_header :: "HttpReq \<Rightarrow> string \<Rightarrow> string" where
  "get_header req k = (case map_of (hr_Header req) (canon_header True k) of None \<Rightarrow> '''' | Some v \<Rightarrow> v)"

definition add_header :: "HttpReq \<Rightarrow> string \<times> string \<Rightarrow> HttpReq" where
  "add_header req kv =
     (if to_lower (fst kv) = ''host'' then req\<lparr>hr_Host := Some (snd kv)\<rparr>
      else set_header (fst kv) (snd kv) req)"

definition build_request :: "string \<Rightarrow> RequestSpec \<Rightarrow> string option \<Rightarrow> bool \<Rightarrow> HttpReq" where
  "build_request baseURL spec body isJSON =
     (let req = foldl add_header
            \<lparr>hr_Method = spec_Method spec, hr_URL = baseURL @ spec_Path spec, hr_Host = None,
             hr_Header = [], hr_Body = body\<rparr> (spec_Headers spec)
      in if isJSON \<and> get_header req ''content-type'' = ''''
         then set_header ''content-type'' ''application/json'' req else req)"

record fired =
  f_status :: "64 word"
  f_body :: string
  f_headers :: "(string \<times> string) list"
  f_changes :: "RowChange list"

definition resp_headers :: "(string \<times> string list) list \<Rightarrow> (string \<times> string) list" where
  "resp_headers h =
     go_map (map (\<lambda>kv. (to_lower (fst kv), case snd kv of [] \<Rightarrow> '''' | v # _ \<Rightarrow> v)) h)"

definition begin_opt :: "'w SourceOps option \<Rightarrow> 'w \<Rightarrow> 'w" where
  "begin_opt src w = (case src of None \<Rightarrow> w | Some s \<Rightarrow> src_BeginWindow s w)"

definition take_opt ::
  "'w SourceOps option \<Rightarrow> Attribution \<Rightarrow> 'w \<Rightarrow> (string + RowChange list) \<times> 'w" where
  "take_opt src attr w = (case src of None \<Rightarrow> (Inr [], w) | Some s \<Rightarrow> src_TakeWindow s attr w)"

definition fireStack ::
  "'w Env \<Rightarrow> string \<Rightarrow> 'w SourceOps option \<Rightarrow> Attribution \<Rightarrow> RequestSpec \<Rightarrow> 'w \<Rightarrow> (string + fired) \<times> 'w" where
  "fireStack env baseURL src attr spec w =
     (let w = begin_opt src w
      in case BodyBytes_of spec of
           BodyError e \<Rightarrow> (Inl (marshal_err_text e), w)
         | BodyBytes body isJSON \<Rightarrow>
             (case newRequest env (spec_Method spec) (baseURL @ spec_Path spec) of
                Some err \<Rightarrow> (Inl err, w)
              | None \<Rightarrow>
                  (case client_Do env (build_request baseURL spec body isJSON) w of
                     (Inl err, w) \<Rightarrow> (Inl err, w)
                   | (Inr resp, w) \<Rightarrow>
                       (case hp_Body resp of
                          Inl err \<Rightarrow> (Inl err, w)
                        | Inr b \<Rightarrow>
                            (case take_opt src attr w of
                               (Inl err, w) \<Rightarrow> (Inl err, w)
                             | (Inr chs, w) \<Rightarrow>
                                 (Inr \<lparr>f_status = hp_Status resp, f_body = take maxBodyBytes b,
                                       f_headers = resp_headers (hp_Header resp), f_changes = chs\<rparr>, w))))))"

section \<open>Results\<close>

record Result =
  r_Name :: string
  r_Request :: string
  r_Verdict :: string
  r_Differences :: "Difference list"
  r_OldStatus :: "64 word"
  r_NewStatus :: "64 word"
  r_OldBody :: string
  r_NewBody :: string
  r_OldWriteset :: "WriteEntry list"
  r_NewWriteset :: "WriteEntry list"
  r_Error :: string
  r_DurationMs :: int

definition error_result :: "string \<Rightarrow> string \<Rightarrow> Result" where
  "error_result name request =
     \<lparr>r_Name = name, r_Request = request, r_Verdict = Error, r_Differences = [], r_OldStatus = 0,
      r_NewStatus = 0, r_OldBody = '''', r_NewBody = '''', r_OldWriteset = [], r_NewWriteset = [],
      r_Error = '''', r_DurationMs = 0\<rparr>"

definition sort_rules :: "Config_rec \<Rightarrow> SortRule list" where
  "sort_rules cfg = map (\<lambda>sr. \<lparr>rule_Path = sr_Path sr, rule_By = sr_By sr\<rparr>) (Compare_SortArrays cfg)"

definition normal_ws :: "Config_rec \<Rightarrow> RowChange list \<Rightarrow> WriteEntry list" where
  "normal_ws cfg chs = NormalizeWriteset chs (Columns (cfg_Noise cfg)) (TablesIgnore (cfg_Noise cfg))"

section \<open>Runner\<close>

text \<open>\<open>runOne\<close> and \<open>verifyOne\<close> set \<open>DurationMs\<close> in a deferred function.  Their result has no name, so it was
  copied by then: what they return has the duration 0 (\<open>duration_never_set\<close>).\<close>

definition run_opts :: "Config_rec \<Rightarrow> Options" where
  "run_opts cfg =
     \<lparr>NoisePaths = ResponsePaths (cfg_Noise cfg), CompareHeaders = cfg_CompareHeaders cfg,
      opt_SortArrays = sort_rules cfg\<rparr>"

definition compare_fired :: "Config_rec \<Rightarrow> Result \<Rightarrow> fired \<Rightarrow> fired \<Rightarrow> Result" where
  "compare_fired cfg result oldRes newRes =
     (let responseDiffs = DiffResponses (f_status oldRes) (f_body oldRes) (f_status newRes) (f_body newRes)
            (f_headers oldRes) (f_headers newRes) (run_opts cfg);
          oldWS = normal_ws cfg (f_changes oldRes);
          newWS = normal_ws cfg (f_changes newRes);
          writesetDiffs = DiffWritesets oldWS newWS
      in result\<lparr>r_OldStatus := f_status oldRes, r_NewStatus := f_status newRes,
                r_OldBody := f_body oldRes, r_NewBody := f_body newRes,
                r_OldWriteset := oldWS, r_NewWriteset := newWS,
                r_Differences := responseDiffs @ writesetDiffs,
                r_Verdict := VerdictOf responseDiffs writesetDiffs\<rparr>)"

definition runOne ::
  "'w Env \<Rightarrow> Config_rec \<Rightarrow> 'w SourceOps option \<Rightarrow> 'w SourceOps option \<Rightarrow> RequestSpec \<Rightarrow> 'w \<Rightarrow> Result \<times> 'w" where
  "runOne env cfg oldSrc newSrc spec w =
     (let result = error_result (spec_Name spec) (Describe spec)
      in case fireStack env (BaseURL (Old_stack cfg)) oldSrc (cfg_Attribution cfg) spec w of
           (Inl err, w) \<Rightarrow> (result\<lparr>r_Error := ''old: '' @ err\<rparr>, w)
         | (Inr oldRes, w) \<Rightarrow>
             (case fireStack env (BaseURL (New_stack cfg)) newSrc (cfg_Attribution cfg) spec w of
                (Inl err, w) \<Rightarrow> (result\<lparr>r_Error := ''new: '' @ err\<rparr>, w)
              | (Inr newRes, w) \<Rightarrow> (compare_fired cfg result oldRes newRes, w)))"

text \<open>\<open>Run\<close>, with the calls of \<open>OnProgress\<close>.\<close>

fun run_specs ::
  "(RequestSpec \<Rightarrow> 'w \<Rightarrow> Result \<times> 'w) \<Rightarrow> nat \<Rightarrow> nat \<Rightarrow> RequestSpec list \<Rightarrow> 'w \<Rightarrow>
   Result list \<times> (nat \<times> nat \<times> string) list \<times> 'w" where
  "run_specs one i tot [] w = ([], [(tot, tot, '''')], w)"
| "run_specs one i tot (spec # specs) w =
     (let (r, w) = one spec w; (rs, ps, w) = run_specs one (i + 1) tot specs w
      in (r # rs, (i, tot, spec_Name spec) # ps, w))"

definition Run ::
  "'w Env \<Rightarrow> Config_rec \<Rightarrow> 'w SourceOps option \<Rightarrow> 'w SourceOps option \<Rightarrow> RequestSpec list \<Rightarrow> 'w \<Rightarrow>
   Result list \<times> (nat \<times> nat \<times> string) list \<times> 'w" where
  "Run env cfg oldSrc newSrc specs w =
     run_specs (runOne env cfg oldSrc newSrc) 0 (length specs) specs w"

section \<open>Verifier\<close>

definition verify_opts :: "Config_rec \<Rightarrow> Options" where
  "verify_opts cfg =
     \<lparr>NoisePaths = ResponsePaths (cfg_Noise cfg), CompareHeaders = [], opt_SortArrays = sort_rules cfg\<rparr>"

definition compare_expected :: "Config_rec \<Rightarrow> Result \<Rightarrow> Expected \<Rightarrow> fired \<Rightarrow> Result" where
  "compare_expected cfg result expected res =
     (let responseDiffs = DiffResponses (Status expected) (exp_Body expected) (f_status res) (f_body res)
            [] (f_headers res) (verify_opts cfg);
          newWS = normal_ws cfg (f_changes res);
          oldWS = (case exp_Writeset expected of None \<Rightarrow> [] | Some ws \<Rightarrow> ws);
          writesetDiffs = (case exp_Writeset expected of None \<Rightarrow> [] | Some ws \<Rightarrow> DiffWritesets ws newWS)
      in result\<lparr>r_OldStatus := Status expected, r_OldBody := exp_Body expected,
                r_NewStatus := f_status res, r_NewBody := f_body res,
                r_OldWriteset := oldWS, r_NewWriteset := newWS,
                r_Differences := responseDiffs @ writesetDiffs,
                r_Verdict := VerdictOf responseDiffs writesetDiffs\<rparr>)"

definition verifyOne ::
  "'w Env \<Rightarrow> Config_rec \<Rightarrow> 'w SourceOps option \<Rightarrow> Entry \<Rightarrow> 'w \<Rightarrow> Result \<times> 'w" where
  "verifyOne env cfg src entry w =
     (let spec = Entry_RequestSpec entry;
          result = error_result (en_Name entry) (Describe spec)
      in case fireStack env (BaseURL (New_stack cfg)) src (cfg_Attribution cfg) spec w of
           (Inl err, w) \<Rightarrow> (result\<lparr>r_Error := ''new: '' @ err\<rparr>, w)
         | (Inr res, w) \<Rightarrow> (compare_expected cfg result (en_Expected entry) res, w))"

fun verify_entries ::
  "(Entry \<Rightarrow> 'w \<Rightarrow> Result \<times> 'w) \<Rightarrow> nat \<Rightarrow> nat \<Rightarrow> Entry list \<Rightarrow> 'w \<Rightarrow>
   Result list \<times> (nat \<times> nat \<times> string) list \<times> 'w" where
  "verify_entries one i tot [] w = ([], [(tot, tot, '''')], w)"
| "verify_entries one i tot (e # es) w =
     (let (r, w) = one e w; (rs, ps, w) = verify_entries one (i + 1) tot es w
      in (r # rs, (i, tot, en_Name e) # ps, w))"

definition Verify_Run ::
  "'w Env \<Rightarrow> Config_rec \<Rightarrow> 'w SourceOps option \<Rightarrow> Entry list \<Rightarrow> 'w \<Rightarrow>
   Result list \<times> (nat \<times> nat \<times> string) list \<times> 'w" where
  "Verify_Run env cfg src entries w = verify_entries (verifyOne env cfg src) 0 (length entries) entries w"

section \<open>Verdicts\<close>

text \<open>A result is consistent: \<open>ERROR\<close> with a text and no differences, or a verdict that says what
  the differences are.\<close>

definition consistent :: "Result \<Rightarrow> bool" where
  "consistent r \<longleftrightarrow>
     (r_Verdict r = Error \<and> r_Error r \<noteq> '''' \<and> r_Differences r = []) \<or>
     (r_Verdict r \<noteq> Error \<and> r_Error r = '''' \<and> (r_Verdict r = Match \<longleftrightarrow> r_Differences r = []))"

lemma VerdictOf_not_Error: "VerdictOf a b \<noteq> Error"
  by (simp add: VerdictOf_def verdict_defs)

lemma consistent_compare:
  "r_Error res = '''' \<Longrightarrow> consistent (compare_fired cfg res a b)"
  "r_Error res = '''' \<Longrightarrow> consistent (compare_expected cfg res x b)"
  by (auto simp: consistent_def compare_fired_def compare_expected_def Let_def VerdictOf_not_Error
      VerdictOf_Match)


lemma error_result_simps [simp]:
  "r_Error (error_result n q) = ''''" "r_Verdict (error_result n q) = Error"
  "r_Differences (error_result n q) = []" "r_Name (error_result n q) = n"
  by (simp_all add: error_result_def)

lemma consistent_error [simp]: "consistent (error_result n q\<lparr>r_Error := c # e\<rparr>)"
  by (simp add: consistent_def)

lemma runOne_consistent: "consistent (fst (runOne env cfg a b spec w))"
  by (auto simp: runOne_def Let_def consistent_compare split: prod.splits sum.splits)

lemma compare_Name [simp]:
  "r_Name (compare_fired cfg res a b) = r_Name res" "r_Name (compare_expected cfg res x b) = r_Name res"
  by (simp_all add: compare_fired_def compare_expected_def Let_def)

lemma compare_Duration [simp]:
  "r_DurationMs (compare_fired cfg res a b) = r_DurationMs res"
  "r_DurationMs (compare_expected cfg res x b) = r_DurationMs res"
  by (simp_all add: compare_fired_def compare_expected_def Let_def)

lemma duration_never_set:
  "r_DurationMs (fst (runOne env cfg a b spec w)) = 0" "r_DurationMs (fst (verifyOne env cfg src e w)) = 0"
  by (auto simp: runOne_def verifyOne_def error_result_def Let_def split: prod.split sum.split)

lemma runOne_Name: "r_Name (fst (runOne env cfg a b spec w)) = spec_Name spec"
  by (auto simp: runOne_def Let_def split: prod.splits sum.splits)

lemma verifyOne_consistent: "consistent (fst (verifyOne env cfg a e w))"
  by (auto simp: verifyOne_def Let_def consistent_compare split: prod.splits sum.splits)

lemma verifyOne_Name: "r_Name (fst (verifyOne env cfg a e w)) = en_Name e"
  by (auto simp: verifyOne_def Let_def split: prod.splits sum.splits)

lemma run_specs_all:
  assumes "\<And>spec w. P (fst (one spec w))" and "\<And>spec w. r_Name (fst (one spec w)) = spec_Name spec"
  shows "list_all P (fst (run_specs one i n specs w)) \<and>
    map r_Name (fst (run_specs one i n specs w)) = map spec_Name specs"
proof (induction specs arbitrary: i w)
  case (Cons spec specs)
  obtain r w1 where o: "one spec w = (r, w1)" by fastforce
  obtain rs ps w2 where t: "run_specs one (i + 1) n specs w1 = (rs, ps, w2)" by (metis prod_cases3)
  have "P r" "r_Name r = spec_Name spec" using assms [of spec w] o by simp_all
  with Cons [of "i + 1" w1] o t show ?case by simp
qed simp

lemma run_specs_progress:
  "fst (snd (run_specs one i (i + length specs) specs w)) =
     map (\<lambda>(j, s). (j, i + length specs, spec_Name s)) (enumerate i specs) @
     [(i + length specs, i + length specs, '''')]"
proof (induction specs arbitrary: i w)
  case (Cons spec specs)
  obtain r w1 where o: "one spec w = (r, w1)" by fastforce
  obtain rs ps w2 where t: "run_specs one (i + 1) (i + 1 + length specs) specs w1 = (rs, ps, w2)"
    by (metis prod_cases3)
  from Cons [of "i + 1" w1] o t show ?case by simp
qed simp

lemma verify_entries_all:
  assumes "\<And>e w. P (fst (one e w))" and "\<And>e w. r_Name (fst (one e w)) = en_Name e"
  shows "list_all P (fst (verify_entries one i n es w)) \<and>
    map r_Name (fst (verify_entries one i n es w)) = map en_Name es"
proof (induction es arbitrary: i w)
  case (Cons e es)
  obtain r w1 where o: "one e w = (r, w1)" by fastforce
  obtain rs ps w2 where t: "verify_entries one (i + 1) n es w1 = (rs, ps, w2)" by (metis prod_cases3)
  have "P r" "r_Name r = en_Name e" using assms [of e w] o by simp_all
  with Cons [of "i + 1" w1] o t show ?case by simp
qed simp

text \<open>
  A live replay reports every request once, in order, whatever the stacks answer: each result is
  \<open>ERROR\<close> with the reason and no differences, or carries a verdict, and then it is \<open>MATCH\<close> exactly
  when the result lists no difference.  Progress is called before each request with its index and
  name, and once more at the end with the total.
\<close>

theorem Run_reports_all:
  "list_all consistent (fst (Run env cfg a b specs w)) \<and>
   map r_Name (fst (Run env cfg a b specs w)) = map spec_Name specs \<and>
   fst (snd (Run env cfg a b specs w)) =
     map (\<lambda>(i, s). (i, length specs, spec_Name s)) (enumerate 0 specs) @ [(length specs, length specs, '''')]"
  unfolding Run_def
  using run_specs_all [where P = consistent and one = "runOne env cfg a b", OF runOne_consistent runOne_Name]
    run_specs_progress [of "runOne env cfg a b" 0 specs w]
  by simp

text \<open>
  Verification of a golden file reports every entry once, in order, with the same consistency of
  verdict, error and differences.
\<close>

theorem Verify_reports_all:
  "list_all consistent (fst (Verify_Run env cfg a es w)) \<and>
   map r_Name (fst (Verify_Run env cfg a es w)) = map en_Name es"
  unfolding Verify_Run_def
  by (rule verify_entries_all [where P = consistent, OF verifyOne_consistent verifyOne_Name])

section \<open>Requests\<close>

lemma hr_parts_add_header [simp]:
  "hr_Method (add_header r kv) = hr_Method r" "hr_URL (add_header r kv) = hr_URL r"
  "hr_Body (add_header r kv) = hr_Body r"
  by (simp_all add: add_header_def set_header_def)

lemma hr_parts_foldl [simp]:
  "hr_Method (foldl add_header r hs) = hr_Method r" "hr_URL (foldl add_header r hs) = hr_URL r"
  "hr_Body (foldl add_header r hs) = hr_Body r"
  by (induction hs arbitrary: r) simp_all

lemma build_request_parts:
  "hr_Method (build_request base spec body j) = spec_Method spec"
  "hr_URL (build_request base spec body j) = base @ spec_Path spec"
  "hr_Body (build_request base spec body j) = body"
  by (simp_all add: build_request_def Let_def set_header_def)

lemma host_foldl:
  "hr_Host (foldl add_header r hs) =
     (case filter (\<lambda>kv. to_lower (fst kv) = ''host'') hs of
        [] \<Rightarrow> hr_Host r | kvs \<Rightarrow> Some (snd (last kvs)))"
  by (induction hs arbitrary: r)
    (auto simp: add_header_def set_header_def split: list.splits)


end
