(* ===== verification/Recorder.thy ===== *)
theory Recorder
  imports Traffic Replay
begin

text \<open>
  \<open>internal/capture/capture.go\<close>: the recording reverse proxy.  The state is the part of \<open>Recorder\<close>
  the handler changes, with the content of the output file; proxying a request to the upstream, and
  the upstream database's source, are operations on the outside state \<open>'w\<close>.
\<close>

section \<open>State\<close>

record RecOptions =
  Golden_mode :: bool
  Serialize :: bool
  rec_Attribution :: Attribution
  NoiseColumns :: "string list"
  rec_TablesIgnore :: "string list"

record Recorder =
  Listen :: string
  rec_Upstream :: string
  CorpusPath :: string
  rec_opts :: RecOptions
  rec_seq :: nat
  rec_count :: nat
  lastErr :: string
  rawFile :: "string option"
  goldenW :: "string option"

record exchange =
  ex_status :: "64 word"
  ex_body :: string

text \<open>The outcome of proxying: the upstream cannot be reached (or its body cannot be read), or it
  answered.\<close>

datatype proxied = Unreachable string | Answered "64 word" string

section \<open>Start\<close>

text \<open>\<open>url.Parse\<close> as far as it is used: the scheme and the host, or an error.  The write-set source is
  present or absent (\<open>hasSource\<close>), its \<open>Start\<close> and the listener answer with an error or not.\<close>

definition serve_outcome :: "string option \<Rightarrow> Recorder \<Rightarrow> string + Recorder" where
  "serve_outcome listenErr r = (case listenErr of Some e \<Rightarrow> Inl e | None \<Rightarrow> Inr r)"

definition Start_capture ::
  "(string \<Rightarrow> (string \<times> string) option) \<Rightarrow> string \<Rightarrow> string \<Rightarrow> string \<Rightarrow> string \<Rightarrow> RecOptions \<Rightarrow> bool \<Rightarrow>
   string \<Rightarrow> string option \<Rightarrow> string option \<Rightarrow> string + Recorder" where
  "Start_capture urlParse now listen upstream corpusPath opts hasSource file srcStart listenErr =
     (case urlParse upstream of
        None \<Rightarrow> Inl (''invalid upstream URL '' @ upstream)
      | Some (scheme, host) \<Rightarrow>
          if scheme = '''' \<or> host = '''' then Inl (''invalid upstream URL '' @ upstream)
          else
            (let opts = (if hasSource then opts\<lparr>Serialize := True\<rparr> else opts);
                 r = \<lparr>Listen = listen, rec_Upstream = upstream, CorpusPath = corpusPath, rec_opts = opts,
                      rec_seq = 0, rec_count = 0, lastErr = '''', rawFile = None, goldenW = None\<rparr>;
                 opened =
                   (if Golden_mode opts then
                      (case NewWriter now (zero_meta\<lparr>Upstream := upstream,
                              Serialized := Serialize opts \<and> hasSource\<rparr>) file of
                         Inl e \<Rightarrow> Inl (marshal_err_text e)
                       | Inr f \<Rightarrow> Inr (r\<lparr>goldenW := Some f\<rparr>))
                    else Inr (r\<lparr>rawFile := Some file\<rparr>))
             in case opened of
                  Inl e \<Rightarrow> Inl e
                | Inr r \<Rightarrow>
                    (case (if hasSource then srcStart else None) of
                       Some e \<Rightarrow> Inl (''write-set source: '' @ e)
                     | None \<Rightarrow> serve_outcome listenErr r)))"

section \<open>The handler\<close>

definition setLastErr :: "string \<Rightarrow> Recorder \<Rightarrow> Recorder" where
  "setLastErr msg r = r\<lparr>lastErr := msg\<rparr>"

definition nextName :: "InReq \<Rightarrow> Recorder \<Rightarrow> string \<times> Recorder" where
  "nextName req r =
     (let r = r\<lparr>rec_seq := rec_seq r + 1\<rparr>
      in (''cap-'' @ nat_str (rec_seq r) @ ''-'' @ iq_Method req @ ''-'' @ iq_Path req, r))"

text \<open>\<open>wr\<close> is the error of writing the file, if any.  A request that arrives when the file is closed
  already is not recorded: writing to a nil file is an error, and a nil golden writer panics once the
  entry is marshalled, which \<open>net/http\<close> recovers.\<close>

definition recordRequest :: "string option \<Rightarrow> InReq \<Rightarrow> string \<Rightarrow> Recorder \<Rightarrow> Recorder" where
  "recordRequest wr req bodyBytes r =
     (let (path, headers, body) = requestParts req bodyBytes;
          (name, r) = nextName req r
      in case request_line name None (iq_Method req) path headers body of
           Inl _ \<Rightarrow> r
         | Inr line \<Rightarrow>
             (case rawFile r of
                None \<Rightarrow> r\<lparr>lastErr := ''invalid argument''\<rparr>
              | Some f \<Rightarrow>
                  (case wr of
                     Some e \<Rightarrow> r\<lparr>lastErr := e\<rparr>
                   | None \<Rightarrow> r\<lparr>rawFile := Some (f @ print_json line @ [CHR 0x0A]), rec_count := rec_count r + 1\<rparr>)))"

definition golden_entry_of :: "string \<Rightarrow> InReq \<Rightarrow> string \<Rightarrow> exchange \<Rightarrow> WriteEntry list option \<Rightarrow> Entry" where
  "golden_entry_of name req bodyBytes ex ws =
     (let (path, headers, body) = requestParts req bodyBytes
      in \<lparr>en_Type = '''', en_Name = name, en_Ts = '''', en_Method = iq_Method req, en_Path = path,
          en_Headers = headers, en_Body = body,
          en_Expected = \<lparr>Status = ex_status ex, exp_Body = ex_body ex, exp_Writeset = ws\<rparr>\<rparr>)"

definition recordGolden ::
  "string option \<Rightarrow> InReq \<Rightarrow> string \<Rightarrow> exchange \<Rightarrow> WriteEntry list option \<Rightarrow> Recorder \<Rightarrow> Recorder" where
  "recordGolden wr req bodyBytes ex ws r =
     (let (name, r) = nextName req r
      in case goldenW r of
           None \<Rightarrow>
             (case Append (golden_entry_of name req bodyBytes ex ws) '''' of
                Inl e \<Rightarrow> r\<lparr>lastErr := marshal_err_text e\<rparr> | Inr _ \<Rightarrow> r)
         | Some f \<Rightarrow>
             (case Append (golden_entry_of name req bodyBytes ex ws) f of
                Inl e \<Rightarrow> r\<lparr>lastErr := marshal_err_text e\<rparr>
              | Inr f' \<Rightarrow>
                  (case wr of
                     Some e \<Rightarrow> r\<lparr>lastErr := e\<rparr>
                   | None \<Rightarrow> r\<lparr>goldenW := Some f', rec_count := rec_count r + 1\<rparr>)))"

text \<open>What the reverse proxy leaves in the exchange and in the last error.\<close>

definition proxy_effect :: "proxied \<Rightarrow> Recorder \<Rightarrow> exchange \<times> Recorder" where
  "proxy_effect p r =
     (case p of
        Unreachable e \<Rightarrow>
          (\<lparr>ex_status = 0, ex_body = ''''\<rparr>, setLastErr (''upstream '' @ rec_Upstream r @ '': '' @ e) r)
      | Answered status body \<Rightarrow> (\<lparr>ex_status = status, ex_body = take maxBodyBytes body\<rparr>, r))"

definition take_writeset ::
  "'w SourceOps option \<Rightarrow> Recorder \<Rightarrow> 'w \<Rightarrow> WriteEntry list option \<times> Recorder \<times> 'w" where
  "take_writeset src r w =
     (case src of
        None \<Rightarrow> (None, r, w)
      | Some s \<Rightarrow>
          (case src_TakeWindow s (rec_Attribution (rec_opts r)) w of
             (Inl e, w) \<Rightarrow> (None, setLastErr e r, w)
           | (Inr chs, w) \<Rightarrow>
               (Some (NormalizeWriteset chs (NoiseColumns (rec_opts r)) (rec_TablesIgnore (rec_opts r))), r, w)))"

definition handle_request ::
  "('w \<Rightarrow> InReq \<Rightarrow> string \<Rightarrow> proxied \<times> 'w) \<Rightarrow> 'w SourceOps option \<Rightarrow> string option \<Rightarrow> InReq \<Rightarrow> string \<Rightarrow>
   Recorder \<times> 'w \<Rightarrow> Recorder \<times> 'w" where
  "handle_request proxy src wr req bodyBytes rw =
     (let (r, w) = rw
      in if \<not> Golden_mode (rec_opts r) then
           (let r = recordRequest wr req bodyBytes r;
                (p, w) = proxy w req bodyBytes
            in (snd (proxy_effect p r), w))
         else
           (let w = begin_opt src w;
                (p, w) = proxy w req bodyBytes;
                (ex, r) = proxy_effect p r;
                (ws, r, w) = take_writeset src r w
            in (recordGolden wr req bodyBytes ex ws r, w)))"

section \<open>Stop and Status\<close>

definition closeOutputs :: "Recorder \<Rightarrow> Recorder" where
  "closeOutputs r = r\<lparr>rawFile := None, goldenW := None\<rparr>"

definition Stop_capture :: "Recorder \<Rightarrow> Recorder" where
  "Stop_capture r = closeOutputs r"

record CapStatus =
  cs_Running :: bool
  cs_Listen :: string
  cs_Upstream :: string
  cs_CorpusPath :: string
  cs_Golden :: bool
  cs_Count :: nat
  cs_StartedAt :: string
  cs_LastError :: string

definition Status_of :: "string \<Rightarrow> Recorder \<Rightarrow> CapStatus" where
  "Status_of startedAt r =
     \<lparr>cs_Running = (rawFile r \<noteq> None \<or> goldenW r \<noteq> None), cs_Listen = Listen r,
      cs_Upstream = rec_Upstream r, cs_CorpusPath = CorpusPath r, cs_Golden = Golden_mode (rec_opts r),
      cs_Count = rec_count r, cs_StartedAt = startedAt, cs_LastError = lastErr r\<rparr>"

section \<open>A requests-only recording is a corpus\<close>

definition log_of :: "nat \<Rightarrow> InReq \<times> string \<Rightarrow> ReqLog" where
  "log_of i rb =
     \<lparr>lg_Name = ''cap-'' @ nat_str i @ ''-'' @ iq_Method (fst rb) @ ''-'' @ iq_Path (fst rb), lg_Ts = None,
      lg_Method = iq_Method (fst rb), lg_Path = kept_path (fst rb),
      lg_Headers = kept_headers (iq_Header (fst rb)), lg_Body = kept_body (snd rb)\<rparr>"

definition logs_of :: "nat \<Rightarrow> (InReq \<times> string) list \<Rightarrow> ReqLog list" where
  "logs_of i rbs = map (\<lambda>(j, rb). log_of j rb) (enumerate i rbs)"

definition record_all :: "(InReq \<times> string) list \<Rightarrow> Recorder \<Rightarrow> Recorder" where
  "record_all rbs r = foldl (\<lambda>r rb. recordRequest None (fst rb) (snd rb) r) r rbs"

lemma recordRequest_ok:
  assumes "log_ok (log_of (Suc (rec_seq r)) rb)" and "rawFile r = Some f"
  shows "recordRequest None (fst rb) (snd rb) r =
    r\<lparr>rawFile := Some (f @ print_json (JObj (log_jobj (log_of (Suc (rec_seq r)) rb))) @ [CHR 0x0A]),
      rec_seq := Suc (rec_seq r), rec_count := Suc (rec_count r)\<rparr>"
  using log_line_jobj [OF assms(1)] assms(2)
  by (simp add: recordRequest_def requestParts_def nextName_def log_line_def log_of_def Let_def
      del: print_json.simps)

lemma record_all_ok:
  assumes "list_all log_ok (logs_of (Suc (rec_seq r)) rbs)" and "rawFile r = Some f"
  shows "rawFile (record_all rbs r) = Some (f @ file_of (map log_jobj (logs_of (Suc (rec_seq r)) rbs))) \<and>
    rec_count (record_all rbs r) = rec_count r + length rbs"
  using assms
proof (induction rbs arbitrary: r f)
  case (Cons rb rbs)
  let ?r = "recordRequest None (fst rb) (snd rb) r"
  have ok: "log_ok (log_of (Suc (rec_seq r)) rb)" using Cons.prems(1) by (simp add: logs_of_def)
  note step = recordRequest_ok [OF ok Cons.prems(2)]
  have "list_all log_ok (logs_of (Suc (rec_seq ?r)) rbs)"
    using Cons.prems(1) by (simp add: step logs_of_def)
  from Cons.IH [OF this, of "f @ print_json (JObj (log_jobj (log_of (Suc (rec_seq r)) rb))) @ [CHR 0x0A]"]
  show ?case
    by (simp add: record_all_def step logs_of_def file_of_def del: print_json.simps)
qed (simp add: record_all_def logs_of_def file_of_def)

text \<open>
  C27.  A requests-only recording is a corpus: recording a sequence of requests into an empty file and
  loading it yields the same requests in the same order, numbered \<open>cap-1\<close>, \<open>cap-2\<close>, with the
  method in upper case, the path with its query, the headers that are kept, and the body as decoded
  (maps in key order); the counter is the number of lines.  Texts are well-formed UTF-8 and each line
  is shorter than 1 MiB.
\<close>

theorem recording_is_corpus:
  assumes "list_all log_ok (logs_of 1 rbs)" and "lines_fit corpus_limit (map log_jobj (logs_of 1 rbs))"
    and "rawFile r = Some ''''" and "rec_seq r = 0" and "rec_count r = 0"
  shows "loadJSONL (rawFile (record_all rbs r)) = Inr (finish_all 1 (logs_of 1 rbs)) \<and>
    rec_count (record_all rbs r) = length rbs"
  using record_all_ok [of r rbs "''''"] loadJSONL_logs [OF assms(1,2)] assms by simp

definition demo_recorder :: Recorder where
  "demo_recorder = \<lparr>Listen = '':9090'', rec_Upstream = ''http://h'', CorpusPath = ''c.jsonl'',
     rec_opts = \<lparr>Golden_mode = False, Serialize = False,
       rec_Attribution = \<lparr>QuietMs = 300, TimeoutMs = 5000, CheckInnodbTrx = None\<rparr>,
       NoiseColumns = [], rec_TablesIgnore = []\<rparr>,
     rec_seq = 0, rec_count = 0, lastErr = '''', rawFile = Some '''', goldenW = None\<rparr>"

definition demo_req :: InReq where
  "demo_req = \<lparr>iq_Method = ''GET'', iq_Path = ''/a'', iq_RawQuery = ''x=1'', iq_Header = []\<rparr>"

theorem recording_is_corpus_witness:
  "loadJSONL (rawFile (record_all [(demo_req, '''')] demo_recorder))
     = Inr (finish_all 1 (logs_of 1 [(demo_req, '''')]))"
proof -
  have "lines_fit corpus_limit (map log_jobj (logs_of 1 [(demo_req, '''')]))" by code_simp
  moreover have "list_all valid_utf8 [''cap-1-GET-/a'', ''GET'', ''/a?x=1'']" by (simp add: utf8_lit del: valid_utf8.simps)
  then have "list_all log_ok (logs_of 1 [(demo_req, '''')])"
  proof -
    assume u: "list_all valid_utf8 [''cap-1-GET-/a'', ''GET'', ''/a?x=1'']"
    have l: "log_of (Suc 0) (demo_req, '''') = \<lparr>lg_Name = ''cap-1-GET-/a'', lg_Ts = None, lg_Method = ''GET'',
        lg_Path = ''/a?x=1'', lg_Headers = [], lg_Body = GNil\<rparr>" by code_simp
    show ?thesis using u by (simp add: logs_of_def l log_ok_def keys_def)
  qed
  ultimately show ?thesis
    using recording_is_corpus [of "[(demo_req, '''')]" demo_recorder] by (simp add: demo_recorder_def)
qed

section \<open>Names and counters\<close>

text \<open>Every handled request takes the next number, whether or not its line could be written.\<close>

lemma nextName_seq: "rec_seq (snd (nextName req r)) = Suc (rec_seq r)"
  by (simp add: nextName_def)

lemma recordGolden_seq: "rec_seq (recordGolden wr req b ex ws r) = Suc (rec_seq r)"
  by (auto simp: recordGolden_def nextName_def Let_def split: option.splits sum.splits)

lemma recordRequest_seq: "rec_seq (recordRequest wr req b r) = Suc (rec_seq r)"
  by (auto simp: recordRequest_def nextName_def Let_def split: option.splits sum.splits prod.splits)

lemma recordGolden_count: "rec_count (recordGolden wr req b ex ws r) \<le> Suc (rec_count r)"
  by (auto simp: recordGolden_def nextName_def Let_def split: option.splits sum.splits)

lemma recordRequest_count: "rec_count (recordRequest wr req b r) \<le> Suc (rec_count r)"
  by (auto simp: recordRequest_def nextName_def Let_def split: option.splits sum.splits prod.splits)

lemma proxy_effect_counts [simp]:
  "rec_seq (snd (proxy_effect p r)) = rec_seq r" "rec_count (snd (proxy_effect p r)) = rec_count r"
  by (simp_all add: proxy_effect_def setLastErr_def split: proxied.splits)

lemma take_writeset_counts:
  "take_writeset src r w = (ws, r', w') \<Longrightarrow> rec_seq r' = rec_seq r \<and> rec_count r' = rec_count r"
  by (auto simp: take_writeset_def setLastErr_def split: option.splits prod.splits sum.splits)

definition count_ok :: "Recorder \<Rightarrow> bool" where
  "count_ok r \<longleftrightarrow> rec_count r \<le> rec_seq r"

lemma handle_request_counts:
  "rec_seq (fst (handle_request proxy src wr req b (r, w))) = Suc (rec_seq r) \<and>
   rec_count (fst (handle_request proxy src wr req b (r, w))) \<le> Suc (rec_count r)"
proof (cases "Golden_mode (rec_opts r)")
  case False
  then show ?thesis
    by (simp add: handle_request_def Let_def recordRequest_seq recordRequest_count split: prod.splits)
next
  case True
  obtain p w1 where p: "proxy (begin_opt src w) req b = (p, w1)" by fastforce
  obtain ex r1 where x: "proxy_effect p r = (ex, r1)" by fastforce
  obtain ws r2 w2 where t: "take_writeset src r1 w1 = (ws, r2, w2)" by (metis prod_cases3)
  have c: "rec_seq r1 = rec_seq r" "rec_count r1 = rec_count r"
    using proxy_effect_counts [of p r] by (simp_all add: x)
  with take_writeset_counts [OF t] True p x t recordGolden_count [of wr req b ex ws r2]
  show ?thesis by (simp add: handle_request_def Let_def recordGolden_seq)
qed

text \<open>An upstream that cannot be reached is recorded all the same: the golden entry then expects
  status 0 and an empty body, which no stack can answer.\<close>

lemma unreachable_recorded:
  assumes "Golden_mode (rec_opts r)" and "proxy w req b = (Unreachable e, w')"
  shows "fst (handle_request proxy None None req b (r, w)) =
    recordGolden None req b \<lparr>ex_status = 0, ex_body = ''''\<rparr> None
      (setLastErr (''upstream '' @ rec_Upstream r @ '': '' @ e) r)"
  using assms by (simp add: handle_request_def Let_def begin_opt_def proxy_effect_def take_writeset_def)

text \<open>A body that is a JSON string is replayed without its quotes, a body \<open>null\<close> not at all.\<close>

definition as_spec :: "gval \<Rightarrow> RequestSpec" where
  "as_spec b = \<lparr>spec_Name = '''', spec_Ts = '''', spec_Method = ''POST'', spec_Path = ''/'',
     spec_Headers = [], spec_Body = b\<rparr>"

lemma json_string_body_changed:
  "BodyBytes_of (as_spec (kept_body (jsonq ''abc''))) = BodyBytes (Some ''abc'') False"
  by code_simp

lemma null_body_dropped: "BodyBytes_of (as_spec (kept_body ''null'')) = BodyBytes None False"
  by code_simp

text \<open>An integer beyond \<open>2 ^ 53\<close> in a body is replayed as its neighbour.\<close>

lemma big_int_body_changed:
  "BodyBytes_of (as_spec (kept_body ''[9007199254740993]'')) = BodyBytes (Some ''[9007199254740992]'') True"
  by code_simp

end
