(* ===== verification/Jobs.thy ===== *)
theory Jobs
  imports Prelude
begin

text \<open>
  The contract of a background job guarded by a status: starting is refused while a job runs, a job
  reports progress and finishes once.  Its goroutine outlives that: what it deferred (releasing what it
  holds) comes after it has finished.  The dashboard's replay and its seeding implement it.
\<close>

datatype ('a, 'p, 'r) job_event = JStart 'a | JProgress 'p | JFinish 'r | JGone

locale single_job =
  fixes running :: "'s \<Rightarrow> bool"
    and start :: "'a \<Rightarrow> 's \<Rightarrow> bool \<times> 's"
    and progress :: "'p \<Rightarrow> 's \<Rightarrow> 's"
    and finish :: "'r \<Rightarrow> 's \<Rightarrow> 's"
  assumes start_iff_idle: "fst (start a s) \<longleftrightarrow> \<not> running s"
    and refused_keeps: "running s \<Longrightarrow> snd (start a s) = s"
    and started_runs: "\<not> running s \<Longrightarrow> running (snd (start a s))"
    and progress_runs: "running (progress p s) \<longleftrightarrow> running s"
    and finish_idle: "\<not> running (finish r s)"
begin

text \<open>The status, the number of goroutines that have not finished, and of those that have but are still
  there.  Progress and the end come from one of the first, the going from one of the second.\<close>

fun job_step :: "('a, 'p, 'r) job_event \<Rightarrow> 's \<times> nat \<times> nat \<Rightarrow> 's \<times> nat \<times> nat" where
  "job_step (JStart a) (s, n, m) = (case start a s of (ok, s') \<Rightarrow> (s', if ok then n + 1 else n, m))"
| "job_step (JProgress p) (s, n, m) = (if 0 < n then (progress p s, n, m) else (s, n, m))"
| "job_step (JFinish r) (s, n, m) = (if 0 < n then (finish r s, n - 1, m + 1) else (s, n, m))"
| "job_step JGone (s, n, m) = (s, n, m - 1)"

definition job_run :: "('a, 'p, 'r) job_event list \<Rightarrow> 's \<times> nat \<times> nat \<Rightarrow> 's \<times> nat \<times> nat" where
  "job_run evs x = foldl (\<lambda>x ev. job_step ev x) x evs"

definition told :: "'s \<times> nat \<times> nat \<Rightarrow> bool" where
  "told x \<longleftrightarrow> fst (snd x) = (if running (fst x) then 1 else 0)"

lemma told_step: "told x \<Longrightarrow> told (job_step ev x)"
proof -
  assume t: "told x"
  obtain s n m where x: "x = (s, n, m)" by (rule prod_cases3)
  show ?thesis
  proof (cases ev)
    case (JStart a)
    obtain ok s' where st: "start a s = (ok, s')" by fastforce
    with t x JStart start_iff_idle [of a s] refused_keeps [of s a] started_runs [of s a]
    show ?thesis by (cases "running s") (simp_all add: told_def)
  qed (use t x in \<open>auto simp: told_def progress_runs finish_idle split: if_splits\<close>)
qed

lemma told_run: "told x \<Longrightarrow> told (job_run evs x)"
  unfolding job_run_def by (induction evs arbitrary: x) (simp_all add: told_step)

lemma one_job:
  assumes "\<not> running s" "job_run evs (s, 0, 0) = (s', n, m)"
  shows "n = (if running s' then 1 else 0)"
  using told_run [of "(s, 0, 0)" evs] assms by (simp add: told_def)

lemma refused_step: "running s \<Longrightarrow> job_step (JStart a) (s, n, m) = (s, n, m)"
  using start_iff_idle [of a s] refused_keeps [of s a] by (cases "start a s") simp

text \<open>The next job may start while what the last one deferred is still to come.\<close>

lemma next_before_gone:
  "\<not> running s \<Longrightarrow> \<exists>s'. job_run [JStart a, JFinish r, JStart b] (s, 0, 0) = (s', 1, 1) \<and> running s'"
  using start_iff_idle started_runs finish_idle
  by (auto simp: job_run_def split: prod.splits) (metis fst_conv snd_conv)+

end

end
