(* ===== verification/Control.thy ===== *)
theory Control
  imports Agent Pairs Recorder Jobs Wscapture Show
begin

text \<open>
  \<open>internal/ui\<close> without the registry: the status of replays and of seeding with the background jobs
  behind them, the capture session, the configuration and its JSON form, the lists of recordings and
  runs, seeding.  A handler maps the decoded request to its answer and the new state;
  loading the configuration, the file system and the databases answer as parameters.  Where loading the
  configuration panics (\<open>null_datastore_panics\<close>) the handlers here end without an answer before they have
  changed anything; only \<open>putConfig\<close>, which loads later, has that as an outcome.
\<close>

section \<open>The replay status\<close>

record replayStatus =
  rs_Running :: bool
  rs_Corpus :: string
  rs_Done :: nat
  rs_Total :: nat
  rs_Current :: string
  rs_LastReport :: string
  rs_LastError :: string

definition idle_replay :: replayStatus where
  "idle_replay = \<lparr>rs_Running = False, rs_Corpus = '''', rs_Done = 0, rs_Total = 0, rs_Current = '''',
     rs_LastReport = '''', rs_LastError = ''''\<rparr>"

definition startReplayState :: "string \<times> nat \<Rightarrow> replayStatus \<Rightarrow> bool \<times> replayStatus" where
  "startReplayState req st =
     (if rs_Running st then (False, st)
      else (True, idle_replay\<lparr>rs_Running := True, rs_Corpus := fst req, rs_Total := snd req\<rparr>))"

definition replay_progress :: "nat \<times> nat \<times> string \<Rightarrow> replayStatus \<Rightarrow> replayStatus" where
  "replay_progress p st = st\<lparr>rs_Done := fst p, rs_Total := fst (snd p), rs_Current := snd (snd p)\<rparr>"

definition finish_replay :: "string \<times> string \<Rightarrow> replayStatus \<Rightarrow> replayStatus" where
  "finish_replay r st =
     (let st = st\<lparr>rs_Running := False, rs_Current := ''''\<rparr>;
          st = (if fst r \<noteq> '''' then st\<lparr>rs_LastReport := path_base (fst r)\<rparr> else st)
      in st\<lparr>rs_LastError := snd r\<rparr>)"

interpretation replay_jobs: single_job rs_Running startReplayState replay_progress finish_replay
  by unfold_locales (simp_all add: startReplayState_def replay_progress_def finish_replay_def Let_def)

text \<open>The status is written with the empty texts left out.\<close>

definition opt_text :: "string \<Rightarrow> string \<Rightarrow> row" where
  "opt_text k s = (if s = '''' then [] else [(k, GStr s)])"

definition replayStatusHandler :: "replayStatus \<Rightarrow> reply" where
  "replayStatusHandler st =
     writeJSON (GMap ([(''running'', GBool (rs_Running st))] @ opt_text ''corpus'' (rs_Corpus st) @
       [(''done'', GInt (of_nat (rs_Done st))), (''total'', GInt (of_nat (rs_Total st)))] @
       opt_text ''current'' (rs_Current st) @ opt_text ''last_report'' (rs_LastReport st) @
       opt_text ''last_error'' (rs_LastError st)))"

section \<open>Starting and running a replay\<close>

text \<open>What \<open>replayStart\<close> starts: a verification of a golden, or a live replay of a corpus.\<close>

datatype replay_job = VerifyJob Meta "Entry list" | LiveJob "RequestSpec list"

text \<open>The text of an error of \<open>config.Load(path)\<close>.\<close>

definition unsupported_msg :: string where
  "unsupported_msg =
     [CHR 0xEB, CHR 0x8A, CHR 0x94] @ '' '' @ [CHR 0xEC, CHR 0xA7, CHR 0x80, CHR 0xEC, CHR 0x9B,
     CHR 0x90, CHR 0xEB, CHR 0x90, CHR 0x98, CHR 0xEC, CHR 0xA7, CHR 0x80] @ '' '' @ [CHR 0xEC,
     CHR 0x95, CHR 0x8A, CHR 0xEC, CHR 0x8A, CHR 0xB5, CHR 0xEB, CHR 0x8B, CHR 0x88, CHR 0xEB,
     CHR 0x8B, CHR 0xA4] @ '' (mysql | postgres)''"

fun cfg_error_text :: "string \<Rightarrow> cfg_error \<Rightarrow> string" where
  "cfg_error_text path (ReadError e) = e"
| "cfg_error_text path (ParseError e) = ''parse '' @ path @ '': '' @ e"
| "cfg_error_text path NewBaseURLRequired = ''new.base_url is required (the stack under test)''"
| "cfg_error_text path (UnsupportedDatastore n t) =
     ''datastore '' @ go_quote n @ '': type '' @ go_quote t @ unsupported_msg"

definition started_reply :: "nat \<Rightarrow> string \<Rightarrow> reply" where
  "started_reply n mode =
     writeJSON (GMap [(''started'', GBool True), (''total'', GInt (of_nat n)), (''mode'', GStr mode)])"

text \<open>\<open>readGolden\<close> and \<open>loadCorpus\<close> read the recording of that name in the corpus directory.\<close>

definition replayStart ::
  "string \<Rightarrow> string + string \<Rightarrow> cfg_error + Config_rec \<Rightarrow> (string \<Rightarrow> string \<Rightarrow> string + Meta \<times> Entry list) \<Rightarrow>
   (string \<Rightarrow> string \<Rightarrow> string + RequestSpec list) \<Rightarrow> replayStatus \<Rightarrow>
   reply \<times> replay_job option \<times> replayStatus" where
  "replayStart path decoded cfg readGolden loadCorpus st =
     (case decoded of
        Inl e \<Rightarrow> (jsonError 400 e, None, st)
      | Inr name \<Rightarrow>
          if \<not> corpusNamePattern name then (jsonError 400 ''invalid corpus name'', None, st)
          else
            (case cfg of
               Inl e \<Rightarrow> (jsonError 500 (''config: '' @ cfg_error_text path e), None, st)
             | Inr cfg \<Rightarrow>
                 if IsGoldenFile name then
                   (case readGolden (Corpus_Dir cfg) name of
                      Inl e \<Rightarrow> (jsonError 400 (''golden: '' @ e), None, st)
                    | Inr (meta, entries) \<Rightarrow>
                        if entries = [] then (jsonError 400 ''golden is empty'', None, st)
                        else
                          (case startReplayState (name, length entries) st of
                             (False, st) \<Rightarrow> (jsonError 409 ''replay already running'', None, st)
                           | (True, st) \<Rightarrow>
                               (started_reply (length entries) ''verify'', Some (VerifyJob meta entries), st)))
                 else
                   (case loadCorpus (Corpus_Dir cfg) name of
                      Inl e \<Rightarrow> (jsonError 400 (''corpus: '' @ e), None, st)
                    | Inr specs \<Rightarrow>
                        if specs = [] then (jsonError 400 ''corpus is empty'', None, st)
                        else
                          (case startReplayState (name, length specs) st of
                             (False, st) \<Rightarrow> (jsonError 409 ''replay already running'', None, st)
                           | (True, st) \<Rightarrow>
                               (started_reply (length specs) ''live'', Some (LiveJob specs), st)))))"

text \<open>A live replay is started even when no old service is configured: only the command line asks for
  its base URL.\<close>

lemma replay_without_old:
  assumes "corpusNamePattern name" and "\<not> IsGoldenFile name" and "\<not> rs_Running st"
    and "loadCorpus (Corpus_Dir cfg) name = Inr (spec # specs)" and "BaseURL (Old_stack cfg) = ''''"
  shows "fst (snd (replayStart path (Inr name) (Inr cfg) readGolden loadCorpus st)) = Some (LiveJob (spec # specs))"
  using assms by (simp add: replayStart_def startReplayState_def)

text \<open>The events of a job: its start may fail, otherwise the progress of the run and then the report,
  which is written or not.\<close>

definition job_end :: "string + string \<Rightarrow> string \<times> string" where
  "job_end report = (case report of Inl e \<Rightarrow> ('''', e) | Inr path \<Rightarrow> (path, ''''))"

definition runJob ::
  "string option \<Rightarrow> (nat \<times> nat \<times> string) list \<Rightarrow> string + string \<Rightarrow> replayStatus \<Rightarrow> replayStatus" where
  "runJob startErr calls report st =
     (case startErr of
        Some e \<Rightarrow> finish_replay ('''', e) st
      | None \<Rightarrow> finish_replay (job_end report) (foldl (\<lambda>st p. replay_progress p st) st calls))"

definition runReplay ::
  "'w Env \<Rightarrow> Config_rec \<Rightarrow> 'w SourceOps option \<Rightarrow> 'w SourceOps option \<Rightarrow> string option \<Rightarrow>
   (Result list \<Rightarrow> string + string) \<Rightarrow> RequestSpec list \<Rightarrow> 'w \<Rightarrow> replayStatus \<Rightarrow> replayStatus \<times> 'w" where
  "runReplay env cfg old new startErr writeReport specs w st =
     (case startErr of
        Some e \<Rightarrow> (runJob startErr [] (Inl e) st, w)
      | None \<Rightarrow>
          (case Run env cfg old new specs w of
             (results, calls, w) \<Rightarrow> (runJob None calls (writeReport results) st, w)))"

definition runVerify ::
  "'w Env \<Rightarrow> Config_rec \<Rightarrow> 'w SourceOps option \<Rightarrow> string option \<Rightarrow>
   (Result list \<Rightarrow> string + string) \<Rightarrow> Entry list \<Rightarrow> 'w \<Rightarrow> replayStatus \<Rightarrow> replayStatus \<times> 'w" where
  "runVerify env cfg new startErr writeReport entries w st =
     (case startErr of
        Some e \<Rightarrow> (runJob startErr [] (Inl e) st, w)
      | None \<Rightarrow>
          (case Verify_Run env cfg new entries w of
             (results, calls, w) \<Rightarrow> (runJob None calls (writeReport results) st, w)))"

section \<open>The capture session\<close>

record CaptureReq =
  cr_Listen :: string
  cr_Upstream :: string
  cr_Corpus :: string
  cr_Golden :: bool

definition capture_file :: "bool \<Rightarrow> string \<Rightarrow> string" where
  "capture_file gold name =
     (let base = trim_suffix (trim_suffix name ''.jsonl'') ''.golden''
      in if gold then base @ Ext else base @ ''.jsonl'')"

definition capture_listen :: "string \<Rightarrow> string" where
  "capture_listen listen = (if CHR '':'' \<in> set listen then listen else '':'' @ listen)"

definition capture_opts :: "bool \<Rightarrow> Config_rec \<Rightarrow> RecOptions" where
  "capture_opts gold cfg =
     (if gold then
        \<lparr>Golden_mode = True, Serialize = False, rec_Attribution = cfg_Attribution cfg,
         NoiseColumns = Columns (cfg_Noise cfg), rec_TablesIgnore = TablesIgnore (cfg_Noise cfg)\<rparr>
      else
        \<lparr>Golden_mode = False, Serialize = False,
         rec_Attribution = \<lparr>QuietMs = 0, TimeoutMs = 0, CheckInnodbTrx = None\<rparr>,
         NoiseColumns = [], rec_TablesIgnore = []\<rparr>)"

text \<open>The write-set source of a golden capture: the one \<open>For\<close> chooses for the old stack, none on an
  error.\<close>

definition capture_source :: "bool \<Rightarrow> Config_rec \<Rightarrow> source option" where
  "capture_source gold cfg =
     (if gold then (case For ''capture'' (Old_stack cfg) 5599 of Inl _ \<Rightarrow> None | Inr src \<Rightarrow> src) else None)"

definition cap_status_json :: "CapStatus \<Rightarrow> gval" where
  "cap_status_json c =
     GMap ([(''running'', GBool (cs_Running c))] @ opt_text ''listen'' (cs_Listen c) @
       opt_text ''upstream'' (cs_Upstream c) @ opt_text ''corpus_path'' (cs_CorpusPath c) @
       [(''golden'', GBool (cs_Golden c)), (''count'', GInt (of_nat (cs_Count c)))] @
       opt_text ''started_at'' (cs_StartedAt c) @ opt_text ''last_error'' (cs_LastError c))"

definition no_capture :: CapStatus where
  "no_capture = \<lparr>cs_Running = False, cs_Listen = '''', cs_Upstream = '''', cs_CorpusPath = '''',
     cs_Golden = False, cs_Count = 0, cs_StartedAt = '''', cs_LastError = ''''\<rparr>"

definition captureStatus :: "string \<Rightarrow> Recorder option \<Rightarrow> reply" where
  "captureStatus startedAt rec =
     writeJSON (cap_status_json (case rec of None \<Rightarrow> no_capture | Some r \<Rightarrow> Status_of startedAt r))"

text \<open>\<open>start\<close> is \<open>capture.Start\<close> with the parameters of its environment: the listener, the upstream, the
  path, the options and the source.\<close>

definition captureStart ::
  "string \<Rightarrow> string + CaptureReq \<Rightarrow> cfg_error + Config_rec \<Rightarrow> string option \<Rightarrow> string \<Rightarrow>
   (string \<Rightarrow> string \<Rightarrow> string \<Rightarrow> RecOptions \<Rightarrow> source option \<Rightarrow> string + Recorder) \<Rightarrow>
   Recorder option \<Rightarrow> reply \<times> Recorder option" where
  "captureStart path decoded cfg mkdirErr startedAt start rec =
     (case decoded of
        Inl e \<Rightarrow> (jsonError 400 e, rec)
      | Inr req \<Rightarrow>
          if cr_Listen req = '''' \<or> cr_Upstream req = '''' \<or> cr_Corpus req = ''''
          then (jsonError 400 ''listen, upstream, corpus are required'', rec)
          else
            (let name = capture_file (cr_Golden req) (cr_Corpus req)
             in if \<not> corpusNamePattern name then (jsonError 400 ''invalid corpus name'', rec)
                else
                  (case cfg of
                     Inl e \<Rightarrow> (jsonError 500 (''config: '' @ cfg_error_text path e), rec)
                   | Inr cfg \<Rightarrow>
                       if (case rec of None \<Rightarrow> False | Some r \<Rightarrow> cs_Running (Status_of startedAt r))
                       then (jsonError 409 ''capture already running'', rec)
                       else
                         (case mkdirErr of
                            Some e \<Rightarrow> (jsonError 500 e, rec)
                          | None \<Rightarrow>
                              (case start (capture_listen (cr_Listen req)) (cr_Upstream req)
                                      (path_join (Corpus_Dir cfg) name) (capture_opts (cr_Golden req) cfg)
                                      (capture_source (cr_Golden req) cfg) of
                                 Inl e \<Rightarrow> (jsonError 400 e, rec)
                               | Inr r \<Rightarrow>
                                   (writeJSON (cap_status_json (Status_of startedAt r)), Some r))))))"

definition captureStop :: "string \<Rightarrow> Recorder option \<Rightarrow> reply \<times> Recorder option" where
  "captureStop startedAt rec =
     (case rec of
        None \<Rightarrow> (jsonError 409 ''no capture running'', None)
      | Some r \<Rightarrow> (writeJSON (cap_status_json (Status_of startedAt (Stop_capture r))), None))"

text \<open>A running capture is never replaced, and a stopped one reports that it is not running.\<close>

lemma running_capture_kept:
  "rec = Some r \<Longrightarrow> cs_Running (Status_of startedAt r) \<Longrightarrow>
   snd (captureStart path decoded cfg mkdirErr startedAt start rec) = rec \<and>
   400 \<le> fst (fst (captureStart path decoded cfg mkdirErr startedAt start rec))"
  by (auto simp: captureStart_def jsonError_def Let_def split: sum.split)

lemma stopped_not_running: "\<not> cs_Running (Status_of startedAt (Stop_capture r))"
  by (simp add: Status_of_def Stop_capture_def closeOutputs_def)

text \<open>Recordings of the two modes cannot be confused: the file of a golden capture is a golden, that of
  a requests-only capture is not, whatever suffix was typed.\<close>

lemma capture_file_golden: "IsGoldenFile (capture_file True name)"
  by (simp add: capture_file_def IsGoldenFile_def Let_def)

section \<open>Configuration\<close>

definition gstrs :: "string list \<Rightarrow> gval" where
  "gstrs ss = GArr (map GStr ss)"

definition gint :: "int \<Rightarrow> gval" where
  "gint i = GInt (word_of_int i)"

definition datastoreJSON :: "Datastore \<Rightarrow> row" where
  "datastoreJSON d =
     [(''name'', GStr (ds_Name d)), (''type'', GStr (ds_Type d)), (''host'', GStr (ds_Host d)),
      (''port'', gint (ds_Port d)), (''user'', GStr (ds_User d)), (''password'', GStr (ds_Password d)),
      (''schemas'', gstrs (ds_Schemas d)), (''exclude_tables'', gstrs (ds_Exclude d))] @
     (case ds_SeedFrom d of
        None \<Rightarrow> []
      | Some m \<Rightarrow>
          [(''seed_from'', GMap [(''host'', GStr (my_Host m)), (''port'', gint (my_Port m)),
             (''user'', GStr (my_User m)), (''password'', GStr (my_Password m))])])"

definition stackJSON :: "Stack \<Rightarrow> gval" where
  "stackJSON st =
     GMap [(''base_url'', GStr (BaseURL st)), (''datastores'', GArr (map (GMap \<circ> datastoreJSON) (Datastores st)))]"

definition configToJSON :: "Config_rec \<Rightarrow> gval" where
  "configToJSON cfg =
     GMap
       [(''old'', stackJSON (Old_stack cfg)), (''new'', stackJSON (New_stack cfg)),
        (''attribution'', GMap [(''quiet_ms'', gint (QuietMs (cfg_Attribution cfg))),
           (''timeout_ms'', gint (TimeoutMs (cfg_Attribution cfg))),
           (''check_innodb_trx'', GBool (TrxCheck (cfg_Attribution cfg)))]),
        (''noise'', GMap [(''response_paths'', gstrs (ResponsePaths (cfg_Noise cfg))),
           (''columns'', gstrs (Columns (cfg_Noise cfg))),
           (''tables_ignore'', gstrs (TablesIgnore (cfg_Noise cfg)))]),
        (''compare'', GMap [(''sort_arrays'', GArr (map (\<lambda>sr. GMap [(''path'', GStr (sr_Path sr)),
           (''by'', GStr (sr_By sr))]) (Compare_SortArrays cfg)))]),
        (''http_timeout_s'', GF64 (HTTPTimeoutS cfg)),
        (''compare_headers'', gstrs (cfg_CompareHeaders cfg)),
        (''report'', GMap [(''dir'', GStr (Report_Dir cfg))]),
        (''corpus'', GMap [(''dir'', GStr (Corpus_Dir cfg))])]"

definition getConfig :: "string \<Rightarrow> cfg_error + Config_rec \<Rightarrow> reply" where
  "getConfig path cfg =
     (case cfg of Inl e \<Rightarrow> jsonError 500 (cfg_error_text path e) | Inr cfg \<Rightarrow> writeJSON (configToJSON cfg))"

text \<open>What the dashboard shows of a datastore, and saves again, does not hold the name of a PostgreSQL
  database: configurations that differ in it are shown alike.\<close>

lemma database_not_shown: "datastoreJSON (d\<lparr>ds_Database := db\<rparr>) = datastoreJSON d"
  by (simp add: datastoreJSON_def)

text \<open>\<open>putConfig\<close>: the YAML of the request is written beside the configuration, loaded, and moved over
  it; \<open>files\<close> maps a path to the contents, \<open>load\<close> reads a file of that state.  The handler takes no lock,
  so it is a sequence of steps: write the temporary file (an error may leave a part of it), load it
  (remove it when it is refused), move it over the configuration, answer with what is loaded from there.
  It dies without an answer when the loading panics, and when the configuration it answers with does not
  load.\<close>

datatype put_pc = PutWrite string | PutLoad | PutMove | PutAnswer | PutDone "reply option"

record put_env =
  pe_path :: string
  pe_load :: "(string \<Rightarrow> string option) \<Rightarrow> string \<Rightarrow> (cfg_error + Config_rec) outcome"
  pe_writeErr :: "(string \<times> nat option) option"
  pe_removeErr :: bool
  pe_renameErr :: "string option"

definition pe_tmp :: "put_env \<Rightarrow> string" where
  "pe_tmp e = pe_path e @ ''.tmp''"

definition no_such_file :: string where
  "no_such_file = ''no such file or directory''"

fun put_step :: "put_env \<Rightarrow> put_pc \<times> (string \<Rightarrow> string option) \<Rightarrow> put_pc \<times> (string \<Rightarrow> string option)" where
  "put_step e (PutWrite y, files) =
     (case pe_writeErr e of
        None \<Rightarrow> (PutLoad, files(pe_tmp e \<mapsto> y))
      | Some (msg, None) \<Rightarrow> (PutDone (Some (jsonError 500 msg)), files)
      | Some (msg, Some n) \<Rightarrow> (PutDone (Some (jsonError 500 msg)), files(pe_tmp e \<mapsto> take n y)))"
| "put_step e (PutLoad, files) =
     (case pe_load e files (pe_tmp e) of
        Panics \<Rightarrow> (PutDone None, files)
      | Returns (Inl err) \<Rightarrow>
          (PutDone (Some (jsonError 400 (''invalid config: '' @ cfg_error_text (pe_tmp e) err))),
           if pe_removeErr e then files else files(pe_tmp e := None))
      | Returns (Inr _) \<Rightarrow> (PutMove, files))"
| "put_step e (PutMove, files) =
     (case (pe_renameErr e, files (pe_tmp e)) of
        (Some msg, _) \<Rightarrow> (PutDone (Some (jsonError 500 msg)), files)
      | (None, None) \<Rightarrow> (PutDone (Some (jsonError 500 no_such_file)), files)
      | (None, Some y) \<Rightarrow> (PutAnswer, files(pe_tmp e := None, pe_path e \<mapsto> y)))"
| "put_step e (PutAnswer, files) =
     (case pe_load e files (pe_path e) of
        Returns (Inr cfg) \<Rightarrow> (PutDone (Some (writeJSON (configToJSON cfg))), files)
      | _ \<Rightarrow> (PutDone None, files))"
| "put_step e (PutDone r, files) = (PutDone r, files)"

definition put_begin :: "(gval \<Rightarrow> string + string) \<Rightarrow> string + gval \<Rightarrow> put_pc" where
  "put_begin yamlMarshal decoded =
     (case decoded of
        Inl e \<Rightarrow> PutDone (Some (jsonError 400 e))
      | Inr incoming \<Rightarrow>
          (case yamlMarshal incoming of Inl e \<Rightarrow> PutDone (Some (jsonError 400 e)) | Inr y \<Rightarrow> PutWrite y))"

text \<open>The handler alone: its four steps one after the other.\<close>

definition putConfig ::
  "put_env \<Rightarrow> (gval \<Rightarrow> string + string) \<Rightarrow> string + gval \<Rightarrow> (string \<Rightarrow> string option) \<Rightarrow>
   put_pc \<times> (string \<Rightarrow> string option)" where
  "putConfig e yamlMarshal decoded files =
     put_step e (put_step e (put_step e (put_step e (put_begin yamlMarshal decoded, files))))"

text \<open>Two requests at a time: at each turn one of them takes its next step.\<close>

fun put_both ::
  "put_env \<Rightarrow> bool list \<Rightarrow> (put_pc \<times> put_pc) \<times> (string \<Rightarrow> string option) \<Rightarrow>
   (put_pc \<times> put_pc) \<times> (string \<Rightarrow> string option)" where
  "put_both e [] x = x"
| "put_both e (first # turns) ((p, q), files) =
     (if first then (case put_step e (p, files) of (p, files) \<Rightarrow> put_both e turns ((p, q), files))
      else (case put_step e (q, files) of (q, files) \<Rightarrow> put_both e turns ((p, q), files)))"

text \<open>Then the file that is moved need not be the one that was loaded.\<close>

lemma put_race:
  assumes "pe_writeErr e = None" "pe_renameErr e = None" "\<And>files p. pe_load e files p = parse (files p)"
    and "parse (Some good) = Returns (Inr cfg)"
  shows "snd (put_both e [True, True, False, True] ((PutWrite good, PutWrite bad), files)) (pe_path e) = Some bad"
  using assms by (simp add: pe_tmp_def)

text \<open>
  C37.  A request to save the configuration that is handled alone (no other one at the same time, see
  \<open>put_race\<close>) cannot break it: the handler comes to its end, and the configuration file either keeps its
  contents or holds the YAML of the request, and that loads.  In the second case the answer is 200 and the
  temporary file is gone.  In the first it is an error, or none when loading the YAML panicked.  Then the
  temporary file is untouched when the request was refused before the writing (or the file could not be
  opened), a part of the YAML when the writing failed, gone when the YAML was refused and could be
  removed, and the YAML when moving or removing it failed or loading it panicked.  No other file is
  touched.
\<close>

theorem putConfig_never_breaks:
  assumes "\<And>files p. pe_load e files p = parse (files p)"
    and "putConfig e yamlMarshal decoded files = (pc, files')"
  shows "\<exists>r. pc = PutDone r \<and> (\<forall>p. p \<noteq> pe_path e \<and> p \<noteq> pe_tmp e \<longrightarrow> files' p = files p) \<and>
    (case r of
       None \<Rightarrow> files' (pe_path e) = files (pe_path e) \<and>
         (\<exists>incoming y. decoded = Inr incoming \<and> yamlMarshal incoming = Inr y \<and> parse (Some y) = Panics \<and>
            files' (pe_tmp e) = Some y)
     | Some (code, body) \<Rightarrow>
         if code = 200
         then (\<exists>incoming y cfg. decoded = Inr incoming \<and> yamlMarshal incoming = Inr y \<and>
           files' (pe_path e) = Some y \<and> parse (Some y) = Returns (Inr cfg) \<and> files' (pe_tmp e) = None \<and>
           (code, body) = writeJSON (configToJSON cfg))
         else code \<in> {400, 500} \<and> files' (pe_path e) = files (pe_path e) \<and>
           (files' = files \<and> (isl decoded \<or> (\<exists>incoming. decoded = Inr incoming \<and> isl (yamlMarshal incoming)) \<or>
              (\<exists>msg. pe_writeErr e = Some (msg, None))) \<or>
            (\<exists>incoming y. decoded = Inr incoming \<and> yamlMarshal incoming = Inr y \<and>
              (case pe_writeErr e of
                 Some (msg, n) \<Rightarrow> n \<noteq> None \<and> files' (pe_tmp e) = Some (take (the n) y)
               | None \<Rightarrow>
                   (case parse (Some y) of
                      Returns (Inl err) \<Rightarrow> code = 400 \<and> files' (pe_tmp e) = (if pe_removeErr e then Some y else None)
                    | Returns (Inr cfg) \<Rightarrow> code = 500 \<and> pe_renameErr e \<noteq> None \<and> files' (pe_tmp e) = Some y
                    | Panics \<Rightarrow> False)))))"
proof (cases "\<exists>incoming y. decoded = Inr incoming \<and> yamlMarshal incoming = Inr y")
  case False
  with assms(2) show ?thesis
    by (auto simp: putConfig_def put_begin_def jsonError_def split: sum.splits)
next
  case True
  then obtain incoming y where d: "decoded = Inr incoming" "yamlMarshal incoming = Inr y" by blast
  have ne: "pe_tmp e \<noteq> pe_path e" by (simp add: pe_tmp_def)
  note run = assms(2) [unfolded putConfig_def put_begin_def d sum.case]
  show ?thesis
  proof (cases "pe_writeErr e")
    case (Some err)
    with run d show ?thesis
      by (cases err; cases "snd err") (auto simp: jsonError_def pe_tmp_def)
  next
    case None
    note written = this
    show ?thesis
    proof (cases "parse (Some y)")
      case Panics
      with run d written ne show ?thesis by (auto simp: assms(1))
    next
      case (Returns x)
      show ?thesis
      proof (cases x)
        case (Inl err)
        with run d written Returns ne show ?thesis by (auto simp: assms(1) jsonError_def)
      next
        case (Inr cfg)
        have "\<exists>incominga ya. decoded = Inr incominga \<and> yamlMarshal incominga = Inr ya \<and>
            parse (Some ya) = Returns (Inr cfg) \<and> Some y = Some ya" using d Returns Inr by blast
        with run d written Returns Inr ne show ?thesis
          by (cases "pe_renameErr e") (auto simp: assms(1) jsonError_def writeJSON_def intro!: exI [of _ incoming] exI [of _ y])
      qed
    qed
  qed
qed

theorem putConfig_never_breaks_witness:
  "snd (putConfig
     \<lparr>pe_path = ''c.yaml'',
      pe_load = (\<lambda>files p. Returns (case files p of None \<Rightarrow> Inl (ReadError '''') | Some s \<Rightarrow> Inl (ParseError s))),
      pe_writeErr = None, pe_removeErr = False, pe_renameErr = None\<rparr>
     (\<lambda>_. Inr ''null'') (Inr GNil) [''c.yaml'' \<mapsto> ''old'']) ''c.yaml'' = Some ''old''"
proof -
  let ?parse = "\<lambda>c. Returns (case c of None \<Rightarrow> Inl (ReadError '''') | Some s \<Rightarrow> Inl (ParseError s))"
  let ?e = "\<lparr>pe_path = ''c.yaml'', pe_load = (\<lambda>files p. ?parse (files p)), pe_writeErr = None, pe_removeErr = False,
    pe_renameErr = None\<rparr>"
  obtain pc files' where r: "putConfig ?e (\<lambda>_. Inr ''null'') (Inr GNil) [''c.yaml'' \<mapsto> ''old''] = (pc, files')"
    by fastforce
  have "pe_load ?e files p = ?parse (files p)" for files p by simp
  from putConfig_never_breaks [where parse = ?parse, OF this r]
  have "files' ''c.yaml'' = Some ''old''"
    by (auto split: option.splits if_splits)
  with r show ?thesis by simp
qed

section \<open>Recordings and runs\<close>

definition corpus_ext :: "string \<Rightarrow> bool" where
  "corpus_ext name \<longleftrightarrow> to_lower (file_ext name) \<in> {''.jsonl'', ''.har''}"

record corpus_entry =
  ce_Name :: string
  ce_IsDir :: bool
  ce_Info :: "(64 word \<times> string) option"

definition corpus_item ::
  "(string \<Rightarrow> string + Meta \<times> Entry list) \<Rightarrow> (string \<Rightarrow> string + RequestSpec list) \<Rightarrow> corpus_entry \<Rightarrow> row" where
  "corpus_item readGolden loadCorpus e =
     (let gold = IsGoldenFile (ce_Name e);
          n = (if gold then (case readGolden (ce_Name e) of Inl _ \<Rightarrow> 0 | Inr (_, es) \<Rightarrow> length es)
               else (case loadCorpus (ce_Name e) of Inl _ \<Rightarrow> 0 | Inr specs \<Rightarrow> length specs))
      in [(''name'', GStr (ce_Name e)), (''count'', GInt (of_nat n)), (''golden'', GBool gold)] @
         (case ce_Info e of
            None \<Rightarrow> []
          | Some (sz, modified) \<Rightarrow> [(''size'', GI64 sz), (''modified_at'', GStr modified)]))"

text \<open>Reading a directory: its entries, or an error, which may say that it does not exist.\<close>

definition dir_entries :: "bool \<times> string + 'a list \<Rightarrow> string + 'a list" where
  "dir_entries r =
     (case r of Inr es \<Rightarrow> Inr es | Inl (notExist, e) \<Rightarrow> if notExist then Inr [] else Inl e)"

definition listCorpora ::
  "bool \<times> string + corpus_entry list \<Rightarrow> (string \<Rightarrow> string + Meta \<times> Entry list) \<Rightarrow>
   (string \<Rightarrow> string + RequestSpec list) \<Rightarrow> reply" where
  "listCorpora dir readGolden loadCorpus =
     (case dir_entries dir of
        Inl e \<Rightarrow> jsonError 500 e
      | Inr es \<Rightarrow>
          writeJSON (GArr (map (GMap \<circ> corpus_item readGolden loadCorpus)
            (sort_key ce_Name (filter (\<lambda>e. \<not> ce_IsDir e \<and> corpus_ext (ce_Name e)) es)))))"

definition spec_json :: "RequestSpec \<Rightarrow> gval" where
  "spec_json r =
     GMap ([(''name'', GStr (spec_Name r))] @ opt_text ''ts'' (spec_Ts r) @
       [(''method'', GStr (spec_Method r)), (''path'', GStr (spec_Path r)),
        (''headers'', GMap (map (\<lambda>kv. (fst kv, GStr (snd kv))) (spec_Headers r))), (''body'', spec_Body r)])"

definition getCorpus :: "(string \<Rightarrow> string + RequestSpec list) \<Rightarrow> string \<Rightarrow> reply" where
  "getCorpus loadCorpus name =
     (if \<not> corpusNamePattern name then jsonError 400 ''invalid corpus name''
      else
        (case loadCorpus name of
           Inl e \<Rightarrow> jsonError 404 e
         | Inr specs \<Rightarrow> writeJSON (GArr (map spec_json specs))))"

definition reportDir :: "cfg_error + Config_rec \<Rightarrow> string" where
  "reportDir cfg = (case cfg of Inl _ \<Rightarrow> ''./report'' | Inr cfg \<Rightarrow> Report_Dir cfg)"

definition corpusDir :: "cfg_error + Config_rec \<Rightarrow> string" where
  "corpusDir cfg = (case cfg of Inl _ \<Rightarrow> ''./corpus'' | Inr cfg \<Rightarrow> Corpus_Dir cfg)"

text \<open>The fields read of a run's report; \<open>readRun\<close> reads and decodes a file, or fails.\<close>

record RunMeta =
  rm_GeneratedAt :: string
  rm_Corpus :: string
  rm_OldBaseURL :: string
  rm_NewBaseURL :: string
  rm_Summary :: "(string \<times> 64 word) list option"
  rm_Results :: nat

definition run_row :: "string \<times> RunMeta \<Rightarrow> row" where
  "run_row r =
     [(''file'', GStr (fst r)), (''generated_at'', GStr (rm_GeneratedAt (snd r))),
      (''corpus'', GStr (rm_Corpus (snd r))), (''old_base_url'', GStr (rm_OldBaseURL (snd r))),
      (''new_base_url'', GStr (rm_NewBaseURL (snd r))),
      (''summary'', case rm_Summary (snd r) of None \<Rightarrow> GNil
         | Some kvs \<Rightarrow> GMap (map (\<lambda>kv. (fst kv, GInt (snd kv))) kvs)),
      (''total'', GInt (of_nat (rm_Results (snd r))))]"

definition listRuns :: "bool \<times> string + (string \<times> bool) list \<Rightarrow> (string \<Rightarrow> RunMeta option) \<Rightarrow> reply" where
  "listRuns dir readRun =
     (case dir_entries dir of
        Inl e \<Rightarrow> jsonError 500 e
      | Inr es \<Rightarrow>
          (let names = map fst (filter (\<lambda>e. \<not> snd e \<and> runFilePattern (fst e)) es);
               runs = List.map_filter (\<lambda>n. map_option (Pair n) (readRun n)) names
           in writeJSON (GArr (map (GMap \<circ> run_row) (rev (sort_key fst runs))))))"

definition getRun :: "(string \<Rightarrow> string + string) \<Rightarrow> string \<Rightarrow> (nat \<times> string) + (nat \<times> string)" where
  "getRun readFile name =
     (if \<not> runFilePattern name then Inl (400, ''invalid file name'')
      else (case readFile name of Inl e \<Rightarrow> Inl (404, e) | Inr raw \<Rightarrow> Inr (200, raw)))"

text \<open>A run is only ever read from the report directory: its name has no slash.\<close>

lemma getRun_inside: "getRun readFile name = Inr (code, raw) \<Longrightarrow> runFilePattern name \<and> readFile name = Inr raw"
  by (auto simp: getRun_def split: if_splits sum.splits)

section \<open>Seeding\<close>

record seedStatus =
  sst_Running :: bool
  sst_Done :: bool
  sst_Log :: string
  sst_Error :: string
  sst_Tables :: nat
  sst_Rows :: nat
text \<open>The bytes of the messages.\<close>

definition no_target_datastore_msg :: string where
  "no_target_datastore_msg =
     [CHR 0xEA, CHR 0xB2, CHR 0x80, CHR 0xEC, CHR 0xA6, CHR 0x9D] @ '' '' @ [CHR 0xEB, CHR 0x8C,
     CHR 0x80, CHR 0xEC, CHR 0x83, CHR 0x81] @ '' datastore'' @ [CHR 0xEA, CHR 0xB0, CHR 0x80] @
     '' '' @ [CHR 0xEC, CHR 0x97, CHR 0x86, CHR 0xEC, CHR 0x8A, CHR 0xB5, CHR 0xEB, CHR 0x8B, CHR
     0x88, CHR 0xEB, CHR 0x8B, CHR 0xA4] @ '' '' @ [CHR 0xE2, CHR 0x80, CHR 0x94] @ '' '' @ [CHR
     0xEC, CHR 0x84, CHR 0xA4, CHR 0xEC, CHR 0xA0, CHR 0x95, CHR 0xEC, CHR 0x97, CHR 0x90, CHR
     0xEC, CHR 0x84, CHR 0x9C] @ '' '' @ [CHR 0xEC, CHR 0xB6, CHR 0x94, CHR 0xEA, CHR 0xB0, CHR
     0x80, CHR 0xED, CHR 0x95, CHR 0x98, CHR 0xEC, CHR 0x84, CHR 0xB8, CHR 0xEC, CHR 0x9A, CHR
     0x94]"

definition already_seeding_msg :: string where
  "already_seeding_msg =
     [CHR 0xEC, CHR 0x9D, CHR 0xB4, CHR 0xEB, CHR 0xAF, CHR 0xB8] @ '' '' @ [CHR 0xEC, CHR 0x8B,
     CHR 0x9C, CHR 0xEB, CHR 0x94, CHR 0xA9] @ '' '' @ [CHR 0xEC, CHR 0xA4, CHR 0x91, CHR 0xEC,
     CHR 0x9E, CHR 0x85, CHR 0xEB, CHR 0x8B, CHR 0x88, CHR 0xEB, CHR 0x8B, CHR 0xA4]"

definition seed_starting_msg :: string where
  "seed_starting_msg =
     [CHR 0xEC, CHR 0x8B, CHR 0x9C, CHR 0xEB, CHR 0x94, CHR 0xA9] @ '' '' @ [CHR 0xEC, CHR 0x8B,
     CHR 0x9C, CHR 0xEC, CHR 0x9E, CHR 0x91, CHR 0xE2, CHR 0x80, CHR 0xA6]"

definition seed_failed_msg :: string where
  "seed_failed_msg =
     [CHR 0xEC, CHR 0x8B, CHR 0x9C, CHR 0xEB, CHR 0x94, CHR 0xA9] @ '' '' @ [CHR 0xEC, CHR 0x8B,
     CHR 0xA4, CHR 0xED, CHR 0x8C, CHR 0xA8]"

definition seed_done_msg :: string where
  "seed_done_msg =
     [CHR 0xEC, CHR 0x8B, CHR 0x9C, CHR 0xEB, CHR 0x94, CHR 0xA9] @ '' '' @ [CHR 0xEC, CHR 0x99,
     CHR 0x84, CHR 0xEB, CHR 0xA3, CHR 0x8C]"

definition idle_seed :: seedStatus where
  "idle_seed = \<lparr>sst_Running = False, sst_Done = False, sst_Log = '''', sst_Error = '''', sst_Tables = 0,
     sst_Rows = 0\<rparr>"

definition start_seed :: "unit \<Rightarrow> seedStatus \<Rightarrow> bool \<times> seedStatus" where
  "start_seed u st =
     (if sst_Running st then (False, st)
      else (True, idle_seed\<lparr>sst_Running := True, sst_Log := seed_starting_msg\<rparr>))"

definition finish_seed :: "Seed_Stats \<times> string option \<Rightarrow> seedStatus \<Rightarrow> seedStatus" where
  "finish_seed r st =
     (let st = st\<lparr>sst_Running := False\<rparr>
      in case snd r of
           Some e \<Rightarrow> st\<lparr>sst_Error := e, sst_Log := seed_failed_msg\<rparr>
         | None \<Rightarrow>
             st\<lparr>sst_Done := True, sst_Tables := ss_Tables (fst r), sst_Rows := ss_Rows (fst r),
               sst_Log := seed_done_msg\<rparr>)"

interpretation seed_jobs: single_job sst_Running start_seed "\<lambda>_::unit. id" finish_seed
  by unfold_locales (simp_all add: start_seed_def finish_seed_def Let_def split: option.split)

definition seedStatusHandler :: "seedStatus \<Rightarrow> reply" where
  "seedStatusHandler st =
     writeJSON (GMap ([(''running'', GBool (sst_Running st)), (''done'', GBool (sst_Done st)),
       (''log'', GStr (sst_Log st))] @ opt_text ''error'' (sst_Error st) @
       [(''tables'', GInt (of_nat (sst_Tables st))), (''rows'', GI64 (of_nat (sst_Rows st)))]))"

definition seedStart ::
  "string \<Rightarrow> cfg_error + Config_rec \<Rightarrow> seedStatus \<Rightarrow> reply \<times> Config_rec option \<times> seedStatus" where
  "seedStart path cfg st =
     (case cfg of
        Inl e \<Rightarrow> (jsonError 500 (''config: '' @ cfg_error_text path e), None, st)
      | Inr cfg \<Rightarrow>
          if Datastores (New_stack cfg) = [] then (jsonError 400 no_target_datastore_msg, None, st)
          else
            (case start_seed () st of
               (False, st) \<Rightarrow> (jsonError 409 already_seeding_msg, None, st)
             | (True, st) \<Rightarrow> (writeJSON (GMap [(''started'', GBool True)]), Some cfg, st)))"

definition runSeed ::
  "'w Copiers \<Rightarrow> Config_rec \<Rightarrow> 'w \<Rightarrow> seedStatus \<Rightarrow> (seedStatus \<times> 'w) outcome" where
  "runSeed cp cfg w st =
     (case RunPairs cp (Old_stack cfg) (New_stack cfg) '''' w of
        Panics \<Rightarrow> Panics
      | Returns (r, w) \<Rightarrow> Returns (finish_seed r st, w))"

text \<open>A replay is started exactly when the answer is 200, and only while none runs.\<close>

lemma replayStart_job:
  "replayStart path decoded cfg readGolden loadCorpus st = (r, job, st') \<Longrightarrow>
   (job \<noteq> None \<longleftrightarrow> fst r = 200) \<and> (job \<noteq> None \<longrightarrow> \<not> rs_Running st \<and> rs_Running st') \<and>
   (job = None \<longrightarrow> st' = st)"
  by (auto simp: replayStart_def jsonError_def started_reply_def writeJSON_def startReplayState_def
      split: sum.splits if_splits prod.splits)

lemma seedStart_job:
  "seedStart path cfg st = (r, job, st') \<Longrightarrow>
   (job \<noteq> None \<longleftrightarrow> fst r = 200) \<and> (job \<noteq> None \<longrightarrow> \<not> sst_Running st \<and> sst_Running st') \<and>
   (job = None \<longrightarrow> st' = st)"
  by (auto simp: seedStart_def jsonError_def writeJSON_def start_seed_def split: sum.splits if_splits prod.splits)

text \<open>
  C36.  The dashboard has one replay and one seeding at a time that has not finished, and says so.  From
  the idle states, after any sequence of starts, progress, ends and goings of the goroutines, the number of
  goroutines that replay (that seed) and have not finished is one when the status says running, and zero
  otherwise.  While there is one, a request to start another is refused, whatever it asks for: no job is
  started, the answer is not 200, and the status is unchanged.  (A goroutine that has finished may still be
  stopping its write-set sources when the next one starts, see \<open>next_before_gone\<close>.)
\<close>

theorem one_replay_one_seeding:
  assumes "replay_jobs.job_run evs (idle_replay, 0, 0) = (st, replaying, stopping)"
    and "seed_jobs.job_run sevs (idle_seed, 0, 0) = (sst, seeding, gone)"
  shows "replaying = (if rs_Running st then 1 else 0) \<and> seeding = (if sst_Running sst then 1 else 0) \<and>
    (replaying = 1 \<longrightarrow>
      (\<exists>r. replayStart path decoded cfg readGolden loadCorpus st = (r, None, st) \<and> fst r \<noteq> 200) \<and>
      replay_jobs.job_step (JStart req) (st, replaying, stopping) = (st, replaying, stopping)) \<and>
    (seeding = 1 \<longrightarrow> (\<exists>r. seedStart path cfg sst = (r, None, sst) \<and> fst r \<noteq> 200) \<and>
      seed_jobs.job_step (JStart ()) (sst, seeding, gone) = (sst, seeding, gone))"
proof -
  have n: "replaying = (if rs_Running st then 1 else 0)" "seeding = (if sst_Running sst then 1 else 0)"
    using replay_jobs.one_job [OF _ assms(1)] seed_jobs.one_job [OF _ assms(2)]
    by (simp_all add: idle_replay_def idle_seed_def)
  obtain r job st' where r: "replayStart path decoded cfg readGolden loadCorpus st = (r, job, st')"
    by (rule prod_cases3)
  obtain q task sst' where q: "seedStart path cfg sst = (q, task, sst')" by (rule prod_cases3)
  have R: "\<exists>r. replayStart path decoded cfg readGolden loadCorpus st = (r, None, st) \<and> fst r \<noteq> 200" if "rs_Running st"
    using that r replayStart_job [OF r] by auto
  have S: "\<exists>r. seedStart path cfg sst = (r, None, sst) \<and> fst r \<noteq> 200" if "sst_Running sst"
    using that q seedStart_job [OF q] by auto
  show ?thesis
    using n R S replay_jobs.refused_step [of st] seed_jobs.refused_step [of sst]
    by (simp del: replay_jobs.job_step.simps seed_jobs.job_step.simps)
qed

text \<open>A replay runs and a seeding has finished.\<close>

theorem one_replay_one_seeding_witness:
  "(let st = fst (replay_jobs.job_run [JStart (''a.jsonl'', 2), JProgress (1, 2, ''GET /'')] (idle_replay, 0, 0))
    in \<exists>r. replayStart ''c.yaml'' (Inr ''b.jsonl'') (Inl (ReadError ''e'')) (\<lambda>_ _. Inl ''e'') (\<lambda>_ _. Inl ''e'') st =
      (r, None, st) \<and> rs_Running st)"
proof -
  obtain st n m where r: "replay_jobs.job_run [JStart (''a.jsonl'', 2), JProgress (1, 2, ''GET /'')]
      (idle_replay, 0, 0) = (st, n, m)" by (rule prod_cases3)
  obtain sst k g where s: "seed_jobs.job_run [JStart (), JFinish (\<lparr>ss_SchemaNames = [], ss_Tables = 0, ss_Rows = 0\<rparr>, None)] (idle_seed, 0, 0) = (sst, k, g)"
    by (rule prod_cases3)
  have "rs_Running st" "n = 1"
    using r by (auto simp: replay_jobs.job_run_def startReplayState_def replay_progress_def idle_replay_def)
  moreover note one_replay_one_seeding [OF r s, of "''c.yaml''" "Inr ''b.jsonl''" "Inl (ReadError ''e'')"
      "\<lambda>_ _. Inl ''e''" "\<lambda>_ _. Inl ''e''"]
  ultimately have "\<exists>r. replayStart ''c.yaml'' (Inr ''b.jsonl'') (Inl (ReadError ''e'')) (\<lambda>_ _. Inl ''e'')
      (\<lambda>_ _. Inl ''e'') st = (r, None, st)" by blast
  then show ?thesis unfolding r fst_conv Let_def using \<open>rs_Running st\<close> by blast
qed

end
