(* ===== verification/Checks.thy ===== *)
theory Checks
  imports Control
begin

text \<open>
  The connection checks of the dashboard (\<open>internal/ui/seed_api.go\<close>, \<open>testconn.go\<close>, the health part
  of \<open>agents.go\<close>) and its routes (\<open>Serve\<close> of \<open>ui.go\<close>).  The drivers answer as parameters: what opening,
  pinging and asking a database returns.
\<close>

section \<open>Messages\<close>

definition binlog_query_failed :: string where
  "binlog_query_failed =
     ''binlog_format '' @ [CHR 0xEC, CHR 0xA1, CHR 0xB0, CHR 0xED, CHR 0x9A, CHR 0x8C] @ '' '' @
     [CHR 0xEC, CHR 0x8B, CHR 0xA4, CHR 0xED, CHR 0x8C, CHR 0xA8] @ '': ''"

definition binlog_needed :: string where
  "binlog_needed =
     '' (ROW '' @ [CHR 0xED, CHR 0x95, CHR 0x84, CHR 0xEC, CHR 0x9A, CHR 0x94] @ '' '' @ [CHR
     0xE2, CHR 0x80, CHR 0x94] @ '' write-set '' @ [CHR 0xEC, CHR 0xBA, CHR 0xA1, CHR 0xEC, CHR
     0xB2, CHR 0x98] @ '' '' @ [CHR 0xEB, CHR 0xB6, CHR 0x88, CHR 0xEA, CHR 0xB0, CHR 0x80] @
     '')''"

section \<open>Checking one connection\<close>

type_synonym healthItem = "bool \<times> string"

text \<open>\<open>http\<close> is the client: the status code, or the error text.\<close>

definition checkHTTP :: "(string \<Rightarrow> string + int) \<Rightarrow> string \<Rightarrow> healthItem" where
  "checkHTTP http baseURL =
     (case http (baseURL @ ''/'') of
        Inl e \<Rightarrow> (False, e)
      | Inr code \<Rightarrow> (True, ''HTTP '' @ int_str code))"

record 'c mysql_client =
  mc_open :: "string \<Rightarrow> string + 'c"
  mc_ping :: "'c \<Rightarrow> string option"
  mc_binlog_format :: "'c \<Rightarrow> string + string"

definition checkMySQL :: "'c mysql_client \<Rightarrow> MySQL \<Rightarrow> healthItem" where
  "checkMySQL my m =
     (case mc_open my (MySQL_DSN m @ ''?timeout=3s'') of
        Inl e \<Rightarrow> (False, e)
      | Inr db \<Rightarrow>
          (case mc_ping my db of
             Some e \<Rightarrow> (False, ''connect: '' @ e)
           | None \<Rightarrow>
               (case mc_binlog_format my db of
                  Inl e \<Rightarrow> (False, binlog_query_failed @ e)
                | Inr format \<Rightarrow>
                    if format \<noteq> ''ROW'' then (False, ''binlog_format='' @ format @ binlog_needed)
                    else (True, ''connected '' @ middle_dot @ '' binlog_format=ROW''))))"

text \<open>\<open>d.MySQL()\<close> is nil for a datastore that is not a MySQL one, and its DSN panics.\<close>

definition checkDatastore ::
  "'c mysql_client \<Rightarrow> (Datastore \<Rightarrow> bool \<times> string) \<Rightarrow> Datastore \<Rightarrow> healthItem outcome" where
  "checkDatastore my pgHealth d =
     (if ds_Type d = ''postgres'' then Returns (pgHealth d)
      else (case Datastore_MySQL d of None \<Rightarrow> Panics | Some m \<Rightarrow> Returns (checkMySQL my m)))"

definition item_json :: "healthItem \<Rightarrow> gval" where
  "item_json i = GMap [(''ok'', GBool (fst i)), (''detail'', GStr (snd i))]"

section \<open>The health page\<close>

text \<open>The checks run concurrently, and each stores its item under its key: the items are stored in any
  order, a parameter of the handler; two datastores of one name share a key.\<close>

definition health_checks ::
  "(string \<Rightarrow> string + int) \<Rightarrow> 'c mysql_client \<Rightarrow> (Datastore \<Rightarrow> bool \<times> string) \<Rightarrow> Config_rec \<Rightarrow>
   (string \<times> healthItem outcome) list" where
  "health_checks http my pgHealth cfg =
     (if BaseURL (Old_stack cfg) \<noteq> '''' then [(''old_api'', Returns (checkHTTP http (BaseURL (Old_stack cfg))))]
      else []) @
     [(''new_api'', Returns (checkHTTP http (BaseURL (New_stack cfg))))] @
     map (\<lambda>d. (''db:'' @ ds_Name d, checkDatastore my pgHealth d)) (Datastores (New_stack cfg))"

fun collect_items :: "(string \<times> healthItem outcome) list \<Rightarrow> row \<Rightarrow> row outcome" where
  "collect_items [] out = Returns out"
| "collect_items ((key, item) # items) out =
     (case item of Panics \<Rightarrow> Panics | Returns i \<Rightarrow> collect_items items (map_set key (item_json i) out))"

definition healthCheck ::
  "string \<Rightarrow> cfg_error + Config_rec \<Rightarrow> (string \<Rightarrow> string + int) \<Rightarrow> 'c mysql_client \<Rightarrow>
   (Datastore \<Rightarrow> bool \<times> string) \<Rightarrow>
   ((string \<times> healthItem outcome) list \<Rightarrow> (string \<times> healthItem outcome) list) \<Rightarrow> reply outcome" where
  "healthCheck path cfg http my pgHealth schedule =
     (case cfg of
        Inl e \<Rightarrow> Returns (jsonError 500 (''config: '' @ cfg_error_text path e))
      | Inr cfg \<Rightarrow>
          (case collect_items (schedule (health_checks http my pgHealth cfg)) [] of
             Panics \<Rightarrow> Panics
           | Returns out \<Rightarrow> Returns (writeJSON (GMap out))))"

section \<open>Discovery and the connection test\<close>

record ConnReq =
  cn_Type :: string
  cn_Host :: string
  cn_User :: string
  cn_Password :: string
  cn_Database :: string
  cn_Port :: int

definition port_or :: "int \<Rightarrow> int \<Rightarrow> int" where
  "port_or dflt port = (if port = 0 then dflt else port)"

definition conn_postgres :: "ConnReq \<Rightarrow> Datastore" where
  "conn_postgres req =
     \<lparr>ds_Name = '''', ds_Type = ''postgres'', ds_Host = cn_Host req, ds_Port = port_or 5432 (cn_Port req),
      ds_User = cn_User req, ds_Password = cn_Password req, ds_Database = cn_Database req,
      ds_Schemas = [], ds_Exclude = [], ds_SeedFrom = None\<rparr>"

definition conn_mysql :: "ConnReq \<Rightarrow> MySQL" where
  "conn_mysql req =
     \<lparr>my_Host = cn_Host req, my_Port = port_or 3306 (cn_Port req), my_User = cn_User req,
      my_Password = cn_Password req\<rparr>"

text \<open>A schema without tables has a nil list of them in the MySQL discovery, which is written as null.\<close>

definition table_json :: "TableInfo \<Rightarrow> gval" where
  "table_json ti =
     GMap [(''name'', GStr (ti_Name ti)), (''rows'', GI64 (ti_Rows ti)), (''size_mb'', GI64 (ti_SizeMB ti))]"

definition schema_json :: "SchemaInfo \<Rightarrow> gval" where
  "schema_json si =
     GMap [(''name'', GStr (si_Name si)),
       (''tables'', if si_Tables si = [] then GNil else GArr (map table_json (si_Tables si)))]"

definition discovered :: "string + SchemaInfo list \<Rightarrow> reply" where
  "discovered r =
     (case r of Inl e \<Rightarrow> jsonError 502 e | Inr sis \<Rightarrow> writeJSON (GArr (map schema_json sis)))"

definition seedDiscover ::
  "string + ConnReq \<Rightarrow> (Datastore \<Rightarrow> string + SchemaInfo list) \<Rightarrow> (MySQL \<Rightarrow> string + SchemaInfo list) \<Rightarrow> reply" where
  "seedDiscover decoded pgDiscover myDiscover =
     (case decoded of
        Inl e \<Rightarrow> jsonError 400 e
      | Inr req \<Rightarrow>
          if cn_Host req = '''' then jsonError 400 ''host is required''
          else if cn_Type req = ''postgres'' then discovered (pgDiscover (conn_postgres req))
          else discovered (myDiscover (conn_mysql req)))"

definition testConnection ::
  "string + ConnReq \<Rightarrow> (Datastore \<Rightarrow> bool \<times> string) \<Rightarrow> 'c mysql_client \<Rightarrow> reply" where
  "testConnection decoded pgHealth my =
     (case decoded of
        Inl e \<Rightarrow> jsonError 400 e
      | Inr req \<Rightarrow>
          if cn_Host req = '''' then jsonError 400 ''host required''
          else if cn_Type req = ''postgres'' then writeJSON (item_json (pgHealth (conn_postgres req)))
          else writeJSON (item_json (checkMySQL my (conn_mysql req))))"


section \<open>What the health page shows\<close>

lemma collect_items_spec:
  assumes "\<forall>ki \<in> set items. snd ki \<noteq> Panics" and "distinct (map fst items)"
  shows "\<exists>out'. collect_items items out = Returns out' \<and>
    (\<forall>k. map_of out' k =
      (case map_of items k of Some (Returns i) \<Rightarrow> Some (item_json i) | _ \<Rightarrow> map_of out k))"
  using assms
proof (induction items arbitrary: out)
  case (Cons ki items)
  obtain k i where ki: "ki = (k, Returns i)" using Cons.prems(1) by (cases ki; cases "snd ki") auto
  from Cons obtain out' where c: "collect_items items (map_set k (item_json i) out) = Returns out'"
    and m: "\<forall>k'. map_of out' k' = (case map_of items k' of Some (Returns i) \<Rightarrow> Some (item_json i)
      | _ \<Rightarrow> map_of (map_set k (item_json i) out) k')" by force
  have "map_of items k = None" using Cons.prems(2) ki by (simp add: map_of_eq_None_iff)
  with c m show ?case by (auto simp: ki split: option.split outcome.split)
qed simp

lemma check_keys_distinct:
  "distinct (map ds_Name (Datastores (New_stack cfg))) \<Longrightarrow>
   distinct (map fst (health_checks http my pgHealth cfg))"
  by (auto simp: health_checks_def comp_def distinct_map inj_on_def)

lemma supported_check:
  assumes "wf_datastore d"
  shows "checkDatastore my pgHealth d = Returns (if ds_Type d = ''postgres'' then pgHealth d
    else checkMySQL my \<lparr>my_Host = ds_Host d, my_Port = ds_Port d, my_User = ds_User d,
      my_Password = ds_Password d\<rparr>)"
  using assms by (cases "ds_Type d = ''postgres''") (simp_all add: checkDatastore_def wf_datastore_def Datastore_MySQL_def)

lemma health_items:
  assumes "\<forall>d \<in> set (Datastores (New_stack cfg)). wf_datastore d"
    and "distinct (map ds_Name (Datastores (New_stack cfg)))"
    and "\<And>items. mset (schedule items) = mset items" and "cs = health_checks http my pgHealth cfg"
  shows "\<exists>out. collect_items (schedule cs) [] = Returns out \<and>
    (\<forall>k i. (k, Returns i) \<in> set cs \<longrightarrow> map_of out k = Some (item_json i)) \<and>
    dom (map_of out) \<subseteq> fst ` set cs"
proof -
  let ?s = "schedule cs"
  have ms: "mset ?s = mset cs" by (rule assms(3))
  then have st: "set ?s = set cs" by (rule mset_eq_setD)
  have "mset (map fst ?s) = mset (map fst cs)" using ms by simp
  then have dist: "distinct (map fst ?s)"
    using check_keys_distinct [OF assms(2)] assms(4) mset_eq_imp_distinct_iff by blast
  have look: "map_of ?s k = Some v \<longleftrightarrow> (k, v) \<in> set cs" for k v
    using dist st by simp
  have ret: "\<forall>ki \<in> set ?s. snd ki \<noteq> Panics"
    unfolding st using assms(1,4) by (auto simp: health_checks_def supported_check)
  obtain out where c: "collect_items ?s [] = Returns out"
    and m: "\<And>k. map_of out k = (case map_of ?s k of Some (Returns i) \<Rightarrow> Some (item_json i) | _ \<Rightarrow> map_of [] k)"
    using collect_items_spec [OF ret dist, of "[]"] by blast
  have hit: "map_of out k = Some (item_json i)" if "(k, Returns i) \<in> set cs" for k i
    using m [of k] iffD2 [OF look that] by simp
  have sub: "k \<in> fst ` set cs" if "map_of out k = Some v" for k v
  proof (cases "map_of ?s k")
    case None
    with that m [of k] show ?thesis by simp
  next
    case (Some x)
    then have "(k, x) \<in> set cs" using look by blast
    then show ?thesis by (rule image_eqI [rotated]) simp
  qed
  then have "dom (map_of out) \<subseteq> fst ` set cs" by (auto simp: dom_def)
  with c hit show ?thesis by blast
qed

lemma health_db:
  assumes "d \<in> set (Datastores (New_stack cfg))" and "wf_datastore d"
  shows "(''db:'' @ ds_Name d, Returns (if ds_Type d = ''postgres'' then pgHealth d
    else checkMySQL my \<lparr>my_Host = ds_Host d, my_Port = ds_Port d, my_User = ds_User d,
      my_Password = ds_Password d\<rparr>)) \<in> set (health_checks http my pgHealth cfg)"
  using assms(1) supported_check [OF assms(2), of my pgHealth]
  unfolding health_checks_def by (auto intro!: image_eqI [of _ _ d])

lemma health_old:
  "BaseURL (Old_stack cfg) = '''' \<Longrightarrow> ''old_api'' \<notin> fst ` set (health_checks http my pgHealth cfg)"
  "BaseURL (Old_stack cfg) \<noteq> '''' \<Longrightarrow> (''old_api'', Returns (checkHTTP http (BaseURL (Old_stack cfg))))
    \<in> set (health_checks http my pgHealth cfg)"
  by (auto simp: health_checks_def)

lemma health_keys:
  "fst ` set (health_checks http my pgHealth cfg) \<subseteq> {''old_api'', ''new_api''} \<union>
    (\<lambda>d. ''db:'' @ ds_Name d) ` set (Datastores (New_stack cfg))"
  by (auto simp: health_checks_def)

text \<open>
  The health page of a configuration in normal form whose datastores have different names is
  complete and does not depend on the order in which the concurrent checks end: the handler never
  panics, the new service and every datastore of the new stack have the item of their own check under
  their own key (the old service exactly when it is configured), and no other key is present.
\<close>

theorem healthCheck_complete:
  assumes "wf_config cfg" and "distinct (map ds_Name (Datastores (New_stack cfg)))"
    and "\<And>items. mset (schedule items) = mset items"
  shows "\<exists>out. healthCheck path (Inr cfg) http my pgHealth schedule = Returns (writeJSON (GMap out)) \<and>
    map_of out ''new_api'' = Some (item_json (checkHTTP http (BaseURL (New_stack cfg)))) \<and>
    map_of out ''old_api'' =
      (if BaseURL (Old_stack cfg) = '''' then None
       else Some (item_json (checkHTTP http (BaseURL (Old_stack cfg))))) \<and>
    (\<forall>d \<in> set (Datastores (New_stack cfg)). map_of out (''db:'' @ ds_Name d) =
      Some (item_json (if ds_Type d = ''postgres'' then pgHealth d
        else checkMySQL my \<lparr>my_Host = ds_Host d, my_Port = ds_Port d, my_User = ds_User d,
          my_Password = ds_Password d\<rparr>))) \<and>
    dom (map_of out) \<subseteq> {''old_api'', ''new_api''} \<union>
      (\<lambda>d. ''db:'' @ ds_Name d) ` set (Datastores (New_stack cfg))"
proof -
  let ?cs = "health_checks http my pgHealth cfg"
  have wf: "\<forall>d \<in> set (Datastores (New_stack cfg)). wf_datastore d"
    using assms(1) by (simp add: wf_config_def wf_stack_def)
  obtain out where c: "collect_items (schedule ?cs) [] = Returns out"
    and hit: "\<And>k i. (k, Returns i) \<in> set ?cs \<Longrightarrow> map_of out k = Some (item_json i)"
    and sub: "dom (map_of out) \<subseteq> fst ` set ?cs"
    using health_items [OF wf assms(2,3) refl] by blast
  have "map_of out ''old_api'' = (if BaseURL (Old_stack cfg) = '''' then None
       else Some (item_json (checkHTTP http (BaseURL (Old_stack cfg)))))"
  proof (cases "BaseURL (Old_stack cfg) = ''''")
    case True
    then have "''old_api'' \<notin> dom (map_of out)" using sub health_old [of cfg http my pgHealth] by blast
    with True show ?thesis by (simp add: domIff)
  qed (use hit health_old [of cfg http my pgHealth] in simp)
  moreover have "map_of out ''new_api'' = Some (item_json (checkHTTP http (BaseURL (New_stack cfg))))"
    by (rule hit) (simp add: health_checks_def)
  moreover have "\<forall>d \<in> set (Datastores (New_stack cfg)). map_of out (''db:'' @ ds_Name d) =
      Some (item_json (if ds_Type d = ''postgres'' then pgHealth d
        else checkMySQL my \<lparr>my_Host = ds_Host d, my_Port = ds_Port d, my_User = ds_User d,
          my_Password = ds_Password d\<rparr>))"
    using wf hit health_db by blast
  moreover have "healthCheck path (Inr cfg) http my pgHealth schedule = Returns (writeJSON (GMap out))"
    using c by (simp add: healthCheck_def)
  moreover have "dom (map_of out) \<subseteq> {''old_api'', ''new_api''} \<union>
      (\<lambda>d. ''db:'' @ ds_Name d) ` set (Datastores (New_stack cfg))"
    using sub health_keys by (rule subset_trans)
  ultimately show ?thesis by (intro exI [of _ out] conjI)
qed

definition demo_loaded :: Config_rec where
  "demo_loaded = (case finish_config (as_decoded demo_config) of Returns (Inr cfg) \<Rightarrow> cfg | _ \<Rightarrow> demo_config)"

definition demo_mysql :: "unit mysql_client" where
  "demo_mysql = \<lparr>mc_open = \<lambda>_. Inr (), mc_ping = \<lambda>_. None, mc_binlog_format = \<lambda>_. Inr ''MIXED''\<rparr>"

theorem healthCheck_complete_witness:
  "\<exists>out. healthCheck '''' (Inr demo_loaded) (\<lambda>_. Inr 200) demo_mysql (\<lambda>_. (True, '''')) rev =
     Returns (writeJSON (GMap out)) \<and>
   map_of out ''new_api'' = Some (item_json (True, ''HTTP 200''))"
proof -
  have "wf_config demo_loaded \<and> distinct (map ds_Name (Datastores (New_stack demo_loaded))) \<and>
      checkHTTP (\<lambda>_. Inr 200) (BaseURL (New_stack demo_loaded)) = (True, ''HTTP 200'')" by code_simp
  then have wf: "wf_config demo_loaded" and d: "distinct (map ds_Name (Datastores (New_stack demo_loaded)))"
    and h: "checkHTTP (\<lambda>_. Inr 200) (BaseURL (New_stack demo_loaded)) = (True, ''HTTP 200'')" by blast+
  from healthCheck_complete [OF wf d, of rev "''''" "\<lambda>_. Inr 200" demo_mysql "\<lambda>_. (True, '''')"]
  show ?thesis by (auto simp: h)
qed

section \<open>Routes\<close>

text \<open>The patterns \<open>Serve\<close> registers besides the page, each with the handler of its name.  A request is
  served by the route of its method and its path; GET patterns also serve HEAD.\<close>

definition routes :: "((string \<times> string) \<times> string) list" where
  "routes =
     [((''GET'', ''/api/runs''), ''listRuns''), ((''GET'', ''/api/run''), ''getRun''),
      ((''GET'', ''/api/config''), ''getConfig''), ((''PUT'', ''/api/config''), ''putConfig''),
      ((''GET'', ''/api/corpora''), ''listCorpora''), ((''GET'', ''/api/corpus''), ''getCorpus''),
      ((''GET'', ''/api/capture/status''), ''captureStatus''),
      ((''POST'', ''/api/capture/start''), ''captureStart''),
      ((''POST'', ''/api/capture/stop''), ''captureStop''),
      ((''GET'', ''/api/replay/status''), ''replayStatusHandler''),
      ((''POST'', ''/api/replay/start''), ''replayStart''),
      ((''POST'', ''/api/agents/register''), ''agentRegister''),
      ((''POST'', ''/api/agents/heartbeat''), ''agentHeartbeat''),
      ((''GET'', ''/api/agents''), ''agentList''), ((''POST'', ''/api/agents/upload''), ''agentUpload''),
      ((''POST'', ''/api/agents/command''), ''agentCommand''),
      ((''POST'', ''/api/corpora/upload''), ''corpusUpload''), ((''GET'', ''/api/health''), ''healthCheck''),
      ((''GET'', ''/api/seed/status''), ''seedStatusHandler''),
      ((''POST'', ''/api/seed/start''), ''seedStart''),
      ((''POST'', ''/api/seed/discover''), ''seedDiscover''),
      ((''POST'', ''/api/test-connection''), ''testConnection'')]"

definition serve_route :: "string \<Rightarrow> string \<Rightarrow> string option" where
  "serve_route meth path = map_of routes (if meth = ''HEAD'' then ''GET'' else meth, path)"

lemma routes_distinct: "distinct (map fst routes)"
  by code_simp

end
