(* ===== verification/Console.thy ===== *)
theory Console
  imports Mcp Checks
begin

text \<open>
  The programs that talk to the dashboard over HTTP (the MCP server, the collectors) against the routes
  it registers (\<open>Serve\<close> of \<open>internal/ui/ui.go\<close>): what they send is served, and by which handler.
\<close>

text \<open>The handler of a request to the dashboard at \<open>dashboard\<close>, by its method and the path of its URL.\<close>

definition served_by :: "string \<Rightarrow> HttpCall \<Rightarrow> string \<Rightarrow> bool" where
  "served_by dashboard r h \<longleftrightarrow>
     (\<exists>t. hc_URL r = dashboard @ t \<and> serve_route (hc_Method r) (target_path t) = Some h)"

lemma served_goes:
  "goes_to dashboard meth t r \<Longrightarrow> served_by dashboard r h \<longleftrightarrow> serve_route meth (target_path t) = Some h"
  by (auto simp: served_by_def goes_to_def)

text \<open>The handlers that only read, and those that a call has to ask for.\<close>

definition reading_handlers :: "string list" where
  "reading_handlers =
     [''getConfig'', ''healthCheck'', ''listCorpora'', ''listRuns'', ''getRun'', ''seedStatusHandler'',
      ''replayStatusHandler'', ''testConnection'', ''seedDiscover'']"

lemma read_path_served:
  "read_path t \<Longrightarrow> \<exists>h \<in> set reading_handlers. serve_route ''GET'' (target_path t) = Some h"
  unfolding read_path_def
  by (elim insertE emptyE) (simp_all add: reading_handlers_def serve_route_def routes_def)

lemma write_routes:
  "serve_route ''PUT'' ''/api/config'' = Some ''putConfig''"
  "serve_route ''POST'' ''/api/seed/start'' = Some ''seedStart''"
  "serve_route ''POST'' ''/api/replay/start'' = Some ''replayStart''"
  "serve_route ''POST'' ''/api/test-connection'' = Some ''testConnection''"
  "serve_route ''POST'' ''/api/seed/discover'' = Some ''seedDiscover''"
  by (simp_all add: serve_route_def routes_def)

lemma plain_targets:
  "target_path ''/api/config'' = ''/api/config''" "target_path ''/api/seed/start'' = ''/api/seed/start''"
  "target_path ''/api/replay/start'' = ''/api/replay/start''"
  "target_path ''/api/test-connection'' = ''/api/test-connection''"
  "target_path ''/api/seed/discover'' = ''/api/seed/discover''"
  by (simp_all add: target_path_def)

lemma writes_served:
  "goes_to dashboard ''PUT'' ''/api/config'' r \<Longrightarrow> served_by dashboard r ''putConfig''"
  "goes_to dashboard ''POST'' ''/api/seed/start'' r \<Longrightarrow> served_by dashboard r ''seedStart''"
  "goes_to dashboard ''POST'' ''/api/replay/start'' r \<Longrightarrow> served_by dashboard r ''replayStart''"
  by (simp_all only: served_goes plain_targets write_routes)

lemma reads_only_served:
  assumes "reads_only dashboard r"
  shows "\<exists>h \<in> set reading_handlers. served_by dashboard r h"
proof -
  consider t where "read_path t" "goes_to dashboard ''GET'' t r"
    | "goes_to dashboard ''POST'' ''/api/test-connection'' r" | "goes_to dashboard ''POST'' ''/api/seed/discover'' r"
    using assms by (auto simp: reads_only_def)
  then show ?thesis
  proof cases
    case (1 t)
    then show ?thesis using read_path_served [of t] by (simp add: served_goes)
  qed (simp_all add: served_goes plain_targets write_routes reading_handlers_def del: append_Cons)
qed

text \<open>
  C16.  Every request of the MCP server is one the dashboard serves: whatever the input and however the
  dashboard answers, each request it makes goes to a registered route; the handler only reads, or it
  saves the configuration, starts a copy or starts a run, and then some line of the input is a call of
  the tool for it, confirmed for a copy and for a run.
\<close>

theorem mcp_requests_served:
  assumes "Run_mcp (logged_server dashboard token client) input ([], w) = (res, (made, w'))"
  shows "\<forall>r \<in> set made. \<exists>h. served_by dashboard r h \<and>
    (h \<in> set reading_handlers \<or>
     (\<exists>line \<in> set (fst (scan_lines mcp_limit input)). \<exists>args.
        (h, called line) = (''putConfig'', Some (''set_config'', args)) \<or>
        (h, called line) = (''seedStart'', Some (''copy_db'', args)) \<and> arg_true ''confirm'' args \<or>
        (h, called line) = (''replayStart'', Some (''verify'', args)) \<and> arg_true ''confirm'' args))"
proof
  fix r
  assume "r \<in> set made"
  with run_allows [OF assms] obtain line name args where line: "line \<in> set (fst (scan_lines mcp_limit input))"
    and c: "called line = Some (name, args)" and "allowed dashboard name args r"
    by (auto simp: line_allows_def split: option.splits)
  then consider "reads_only dashboard r"
    | "name = ''set_config''" "served_by dashboard r ''putConfig''"
    | "name = ''copy_db''" "arg_true ''confirm'' args" "served_by dashboard r ''seedStart''"
    | "name = ''verify''" "arg_true ''confirm'' args" "served_by dashboard r ''replayStart''"
    unfolding allowed_def using writes_served by blast
  then show "\<exists>h. served_by dashboard r h \<and>
    (h \<in> set reading_handlers \<or>
     (\<exists>line \<in> set (fst (scan_lines mcp_limit input)). \<exists>args.
        (h, called line) = (''putConfig'', Some (''set_config'', args)) \<or>
        (h, called line) = (''seedStart'', Some (''copy_db'', args)) \<and> arg_true ''confirm'' args \<or>
        (h, called line) = (''replayStart'', Some (''verify'', args)) \<and> arg_true ''confirm'' args))"
  proof cases
    case 1
    then show ?thesis using reads_only_served by blast
  next
    case 2
    then show ?thesis using line c by (intro exI [of _ "''putConfig''"]) auto
  next
    case 3
    then show ?thesis using line c by (intro exI [of _ "''seedStart''"]) auto
  next
    case 4
    then show ?thesis using line c by (intro exI [of _ "''replayStart''"]) auto
  qed
qed

text \<open>A call that asks for the configuration, to a dashboard that is down.\<close>

definition demo_get :: string where
  "demo_get = ''{'' @ [CHR 0x22] @ ''method'' @ [CHR 0x22] @ '':'' @ [CHR 0x22] @ ''tools/call'' @ [CHR 0x22] @
     '','' @ [CHR 0x22] @ ''params'' @ [CHR 0x22] @ '':{'' @ [CHR 0x22] @ ''name'' @ [CHR 0x22] @ '':'' @
     [CHR 0x22] @ ''get_config'' @ [CHR 0x22] @ ''}}''"

theorem mcp_requests_served_witness:
  "\<exists>r h. fst (snd (Run_mcp (logged_server ''http://d'' '''' (\<lambda>_ w. (http_answer.Unreachable ''down'', w))) demo_get ([], ()))) = [r] \<and>
     served_by ''http://d'' r h \<and> h \<in> set reading_handlers"
proof -
  let ?run = "Run_mcp (logged_server ''http://d'' '''' (\<lambda>_ w. (http_answer.Unreachable ''down'', w))) demo_get ([], ())"
  obtain res made where run: "?run = (res, (made, ()))" by (cases ?run) (metis old.unit.exhaust surj_pair)
  have "length (fst (snd ?run)) = 1 \<and> fst (scan_lines mcp_limit demo_get) = [demo_get] \<and>
      called demo_get = Some (''get_config'', Some [])" by code_simp
  then have ls: "fst (scan_lines mcp_limit demo_get) = [demo_get]" and c: "called demo_get = Some (''get_config'', Some [])"
    and "length made = 1" by (simp_all add: run)
  then obtain r where made: "made = [r]" by (auto simp: length_Suc_conv)
  from mcp_requests_served [OF run] obtain h where "served_by ''http://d'' r h" "h \<in> set reading_handlers"
    unfolding ls made by (auto simp: c)
  then show ?thesis by (auto simp: run made)
qed

section \<open>Collectors\<close>

text \<open>What the reporter and the daemon post.\<close>

lemma collector_requests_served:
  "serve_route ''POST'' ''/api/agents/register'' = Some ''agentRegister''"
  "serve_route ''POST'' ''/api/agents/heartbeat'' = Some ''agentHeartbeat''"
  "serve_route ''POST'' (target_path (upload_path k name)) = Some ''agentUpload''"
proof -
  show "serve_route ''POST'' ''/api/agents/register'' = Some ''agentRegister''"
    "serve_route ''POST'' ''/api/agents/heartbeat'' = Some ''agentHeartbeat''" by (simp_all add: serve_route_def routes_def)
  have "target_path (upload_path k name) = ''/api/agents/upload''"
    by (simp add: target_path_def upload_path_def)
  moreover have "serve_route ''POST'' ''/api/agents/upload'' = Some ''agentUpload''" by code_simp
  ultimately show "serve_route ''POST'' (target_path (upload_path k name)) = Some ''agentUpload''" by simp
qed

end
