(* ===== verification/DaemonLoop.thy ===== *)
theory DaemonLoop
  imports Agent
begin

text \<open>
  The loops of \<open>internal/agent\<close>: \<open>heartbeatLoop\<close> of a one-shot collector and \<open>RunDaemon\<close> of the daemon,
  from the registration to the return.  A loop runs over the list of what happens until it is told to
  end: ticks, and for the daemon also what its goroutines and timers do, between ticks and between the
  commands of one answer.
\<close>

section \<open>The collector\<close>

text \<open>Before each tick the counters may have been refreshed.\<close>

definition heartbeatLoop :: "'w send \<Rightarrow> (64 word \<times> string) list \<Rightarrow> Reporter \<Rightarrow> 'w \<Rightarrow> Reporter \<times> 'w" where
  "heartbeatLoop send ticks r w =
     foldl (\<lambda>(r, w) (cnt, lastErr).
         (let r = r\<lparr>rp_count := cnt, rp_lastErr := lastErr\<rparr> in (r, reporter_beat send r w)))
       (r, reporter_beat send r w) ticks"

text \<open>A collector from \<open>Connect\<close> to \<open>Finish\<close>.\<close>

definition collector_session ::
  "'w send \<Rightarrow> (string \<Rightarrow> string option) \<Rightarrow> (string \<Rightarrow> string option) \<Rightarrow> string \<Rightarrow> string \<Rightarrow> string \<Rightarrow> string \<Rightarrow>
   string \<Rightarrow> string \<Rightarrow> string \<Rightarrow> (64 word \<times> string) list \<Rightarrow> 'w \<Rightarrow> Reporter option \<times> 'w" where
  "collector_session send decodeId readFile hostname dashboardURL token name mode out version ticks w =
     (case Connect send decodeId hostname dashboardURL token name mode out version w of
        (None, w) \<Rightarrow> Finish send readFile out None w
      | (Some r, w) \<Rightarrow> (case heartbeatLoop send ticks r w of (r, w) \<Rightarrow> Finish send readFile out (Some r) w))"

lemma heartbeatLoop_fields:
  "rp_id (fst (heartbeatLoop send ticks r w)) = rp_id r"
  "rp_stopped (fst (heartbeatLoop send ticks r w)) = rp_stopped r"
  "rp_dashboard (fst (heartbeatLoop send ticks r w)) = rp_dashboard r"
proof -
  let ?step = "\<lambda>(r, w) (cnt, lastErr).
      (let r = r\<lparr>rp_count := cnt, rp_lastErr := lastErr\<rparr> in (r, reporter_beat send r w))"
  have "rp_id (fst (foldl ?step (r, w) ticks)) = rp_id r \<and>
      rp_stopped (fst (foldl ?step (r, w) ticks)) = rp_stopped r \<and>
      rp_dashboard (fst (foldl ?step (r, w) ticks)) = rp_dashboard r" for r w
    by (induction ticks arbitrary: r w) (auto simp: Let_def split: prod.splits)
  then show "rp_id (fst (heartbeatLoop send ticks r w)) = rp_id r"
    "rp_stopped (fst (heartbeatLoop send ticks r w)) = rp_stopped r"
    "rp_dashboard (fst (heartbeatLoop send ticks r w)) = rp_dashboard r"
    by (simp_all add: heartbeatLoop_def)
qed

text \<open>A collector that could register ends stopped and \<open>done\<close>; one that could not records standalone and
  tells the dashboard nothing more.\<close>

lemma collector_session_ends:
  assumes "collector_session send decodeId readFile hostname url token name mode out version ticks w = (Some r, w')"
  shows "rp_stopped r \<and> rp_state r = ''done'' \<and> rp_id r \<noteq> '''' \<and> rp_dashboard r = url"
proof -
  obtain r0 w0 where c: "Connect send decodeId hostname url token name mode out version w = (Some r0, w0)"
    using assms by (auto simp: collector_session_def Finish_def split: prod.splits option.splits)
  then have r0: "rp_id r0 \<noteq> ''''" "rp_dashboard r0 = url"
    by (auto simp: Connect_def Let_def split: prod.splits option.splits sum.splits if_splits)
  obtain r1 w1 where l: "heartbeatLoop send ticks r0 w0 = (r1, w1)" by fastforce
  then have "rp_id r1 = rp_id r0" "rp_dashboard r1 = rp_dashboard r0"
    using heartbeatLoop_fields [of send ticks r0 w0] by simp_all
  with r0 assms c l show ?thesis
    by (auto simp: collector_session_def Finish_def Let_def split: option.splits)
qed

lemma standalone_silent:
  "collector_session send decodeId readFile hostname '''' token name mode out version ticks w = (None, w)"
  by (simp add: collector_session_def Connect_def Finish_def)

section \<open>The daemon\<close>

text \<open>What happens while \<open>RunDaemon\<close> waits: a capture writes or ends, with an error or without, a timer fires
  or calls.  Commands come in answers only, and a capture ends once; an event that cannot happen does
  nothing.\<close>

definition can_happen :: "daemon_event \<Rightarrow> Daemon \<Rightarrow> bool" where
  "can_happen ev d \<longleftrightarrow>
     (case ev of
        ExecEv _ _ _ \<Rightarrow> False
      | EndEv i _ \<Rightarrow> \<exists>s \<in> set (dm_sessions d). se_id s = i \<and> \<not> se_ended s
      | _ \<Rightarrow> True)"

definition background_step :: "daemon_event \<Rightarrow> Daemon \<Rightarrow> Daemon" where
  "background_step ev d = (if can_happen ev d then daemon_step ev d else d)"

definition run_steps :: "daemon_event list \<Rightarrow> Daemon \<Rightarrow> Daemon" where
  "run_steps evs d = foldl (\<lambda>d ev. background_step ev d) d evs"

text \<open>A tick: the clock, the answers for opening a recording, the recordings' contents, the directory
  listing, and before each command of the answer what happened meanwhile.\<close>

record tick =
  tk_clock :: clock
  tk_open :: "string \<Rightarrow> string + string"
  tk_read :: "string \<Rightarrow> string option"
  tk_entries :: "dir_entry list"
  tk_gaps :: "daemon_event list list"

datatype loop_event = Ticked tick | Meanwhile daemon_event

record 'w link =
  lk_send :: "'w send"
  lk_dashboard :: string
  lk_token :: string
  lk_id :: string
  lk_decode :: "string \<Rightarrow> Command list"

definition serve_command :: "'w link \<Rightarrow> tick \<Rightarrow> Command \<Rightarrow> Daemon \<times> 'w \<Rightarrow> Daemon \<times> 'w" where
  "serve_command lk tk cmd dw =
     (case dw of (d, w) \<Rightarrow>
        (exec_command (tk_clock tk) (tk_open tk) cmd d,
         if cm_Action cmd = ''upload''
         then upload (lk_send lk) (lk_dashboard lk) (lk_token lk) (lk_id lk) (tk_read tk) (dm_dir d) (cm_Name cmd) w
         else w))"

fun serve_commands ::
  "'w link \<Rightarrow> tick \<Rightarrow> daemon_event list list \<Rightarrow> Command list \<Rightarrow> Daemon \<times> 'w \<Rightarrow> Daemon \<times> 'w" where
  "serve_commands lk tk gaps [] dw = dw"
| "serve_commands lk tk gaps (cmd # cmds) (d, w) =
     (let d = run_steps (case gaps of [] \<Rightarrow> [] | g # _ \<Rightarrow> g) d
      in serve_commands lk tk (tl gaps) cmds (serve_command lk tk cmd (d, w)))"

definition beat_turn :: "'w link \<Rightarrow> tick \<Rightarrow> Daemon \<times> 'w \<Rightarrow> Daemon \<times> 'w" where
  "beat_turn lk tk dw =
     (case dw of (d, w) \<Rightarrow>
        (case post (lk_send lk) (lk_dashboard lk) (lk_token lk) ''/api/agents/heartbeat'' json_type
               (payload_text (daemon_payload (lk_id lk) (ck_now (tk_clock tk)) (tk_entries tk) d)) w of
           (answer, w) \<Rightarrow> serve_commands lk tk (tk_gaps tk) (beat_commands (lk_decode lk) answer) (d, w)))"

definition loop_turn :: "'w link \<Rightarrow> loop_event \<Rightarrow> Daemon \<times> 'w \<Rightarrow> Daemon \<times> 'w" where
  "loop_turn lk ev dw =
     (case ev of Ticked tk \<Rightarrow> beat_turn lk tk dw | Meanwhile e \<Rightarrow> (background_step e (fst dw), snd dw))"

text \<open>\<open>RunDaemon\<close>: after the registration the turns until the context is done, and then the running
  capture is stopped.  (The command line passes a context that is never done; its process is ended by a
  signal.)\<close>

definition RunDaemon ::
  "'w send \<Rightarrow> (string \<Rightarrow> Command list) \<Rightarrow> (string \<Rightarrow> string option) \<Rightarrow> string \<Rightarrow> string option \<Rightarrow>
   (string \<Rightarrow> bool \<times> string) \<Rightarrow> string \<Rightarrow> string \<Rightarrow> string \<Rightarrow> string \<Rightarrow> string \<Rightarrow> loop_event list \<Rightarrow> 'w \<Rightarrow>
   (string + Daemon) \<times> 'w" where
  "RunDaemon send decode decodeId hostname mkdirErr canCapture dashboardURL token name dir iface evs w =
     (case RunDaemon_start send decodeId hostname mkdirErr canCapture dashboardURL token name dir iface w of
        (Inl e, w) \<Rightarrow> (Inl e, w)
      | (Inr (d, k), w) \<Rightarrow>
          (let lk = \<lparr>lk_send = send, lk_dashboard = dashboardURL, lk_token = token, lk_id = k, lk_decode = decode\<rparr>;
               (d, w) = foldl (\<lambda>dw ev. loop_turn lk ev dw) (d, w) evs
           in (Inr (stopCapture d), w)))"

text \<open>A run in which no capture that was cancelled ends with an error (\<open>clean_event\<close>), between the ticks or
  between the commands of an answer.\<close>

fun clean_steps :: "daemon_event list \<Rightarrow> Daemon \<Rightarrow> bool" where
  "clean_steps [] d = True"
| "clean_steps (ev # evs) d = ((clean_event ev d \<or> \<not> can_happen ev d) \<and> clean_steps evs (background_step ev d))"

fun clean_serve ::
  "'w link \<Rightarrow> tick \<Rightarrow> daemon_event list list \<Rightarrow> Command list \<Rightarrow> Daemon \<times> 'w \<Rightarrow> bool" where
  "clean_serve lk tk gaps [] dw = True"
| "clean_serve lk tk gaps (cmd # cmds) (d, w) =
     (let gap = (case gaps of [] \<Rightarrow> [] | g # _ \<Rightarrow> g)
      in clean_steps gap d \<and> clean_serve lk tk (tl gaps) cmds (serve_command lk tk cmd (run_steps gap d, w)))"

definition clean_turn :: "'w link \<Rightarrow> loop_event \<Rightarrow> Daemon \<times> 'w \<Rightarrow> bool" where
  "clean_turn lk ev dw =
     (case (ev, dw) of
        (Meanwhile e, (d, w)) \<Rightarrow> clean_steps [e] d
      | (Ticked tk, (d, w)) \<Rightarrow>
          (case post (lk_send lk) (lk_dashboard lk) (lk_token lk) ''/api/agents/heartbeat'' json_type
                 (payload_text (daemon_payload (lk_id lk) (ck_now (tk_clock tk)) (tk_entries tk) d)) w of
             (answer, w) \<Rightarrow> clean_serve lk tk (tk_gaps tk) (beat_commands (lk_decode lk) answer) (d, w)))"

fun clean_turns :: "'w link \<Rightarrow> loop_event list \<Rightarrow> Daemon \<times> 'w \<Rightarrow> bool" where
  "clean_turns lk [] dw = True"
| "clean_turns lk (ev # evs) dw = (clean_turn lk ev dw \<and> clean_turns lk evs (loop_turn lk ev dw))"

text \<open>The same of \<open>RunDaemon\<close>, from its arguments.\<close>

definition no_stale_error ::
  "'w send \<Rightarrow> (string \<Rightarrow> Command list) \<Rightarrow> (string \<Rightarrow> string option) \<Rightarrow> string \<Rightarrow> string option \<Rightarrow>
   (string \<Rightarrow> bool \<times> string) \<Rightarrow> string \<Rightarrow> string \<Rightarrow> string \<Rightarrow> string \<Rightarrow> string \<Rightarrow> loop_event list \<Rightarrow> 'w \<Rightarrow> bool" where
  "no_stale_error send decode decodeId hostname mkdirErr canCapture dashboardURL token name dir iface evs w =
     (case RunDaemon_start send decodeId hostname mkdirErr canCapture dashboardURL token name dir iface w of
        (Inl e, w) \<Rightarrow> True
      | (Inr (d, k), w) \<Rightarrow>
          clean_turns \<lparr>lk_send = send, lk_dashboard = dashboardURL, lk_token = token, lk_id = k, lk_decode = decode\<rparr>
            evs (d, w))"

text \<open>Without gaps a turn is the heartbeat of \<open>Agent\<close>.\<close>

lemma beat_turn_daemon_beat:
  assumes "tk_gaps tk = []"
  shows "beat_turn lk tk dw =
    daemon_beat (lk_send lk) (lk_dashboard lk) (lk_token lk) (lk_id lk) (lk_decode lk) (tk_clock tk)
      (tk_open tk) (tk_read tk) (tk_entries tk) dw"
proof -
  have "serve_commands lk tk [] cmds dw = foldl (\<lambda>dw cmd. serve_command lk tk cmd dw) dw cmds" for cmds dw
  proof (induction cmds arbitrary: dw)
    case (Cons cmd cmds)
    then show ?case by (cases dw) (simp add: run_steps_def)
  qed simp
  then show ?thesis
    using assms
    by (auto simp: beat_turn_def daemon_beat_def serve_command_def case_prod_beta' split: prod.splits)
qed


section \<open>What the daemon leaves behind\<close>

lemma run_steps_ok: "daemon_ok d \<Longrightarrow> clean_steps evs d \<Longrightarrow> daemon_ok (run_steps evs d)"
  unfolding run_steps_def
  by (induction evs arbitrary: d) (auto simp: background_step_def daemon_step_ok)

lemma exec_command_ok: "daemon_ok d \<Longrightarrow> daemon_ok (exec_command ck f cmd d)"
  using daemon_step_ok [of d "ExecEv ck f cmd"] by (simp add: daemon_step_def clean_event_def)

lemma serve_commands_ok:
  "daemon_ok (fst dw) \<Longrightarrow> clean_serve lk tk gaps cmds dw \<Longrightarrow> daemon_ok (fst (serve_commands lk tk gaps cmds dw))"
proof (induction lk tk gaps cmds dw rule: serve_commands.induct)
  case (2 lk tk gaps cmd cmds d w)
  then show ?case
    by (simp add: serve_command_def exec_command_ok run_steps_ok Let_def split: list.split)
qed simp

lemma loop_turn_ok:
  assumes "daemon_ok (fst dw)" "clean_turn lk ev dw"
  shows "daemon_ok (fst (loop_turn lk ev dw))"
proof (cases ev)
  case (Ticked tk)
  with assms show ?thesis
    by (auto simp: loop_turn_def beat_turn_def clean_turn_def serve_commands_ok split: prod.splits)
next
  case (Meanwhile e)
  with assms run_steps_ok [of "fst dw" "[e]"] show ?thesis
    by (cases dw) (simp add: loop_turn_def clean_turn_def run_steps_def)
qed

lemma loop_ok:
  "daemon_ok (fst dw) \<Longrightarrow> clean_turns lk evs dw \<Longrightarrow> daemon_ok (fst (foldl (\<lambda>dw ev. loop_turn lk ev dw) dw evs))"
  by (induction evs arbitrary: dw) (simp_all add: loop_turn_ok)

text \<open>
  C26.  The daemon leaves nothing behind, as long as no capture that was cancelled ends with an error:
  whatever commands the dashboard hands out, in whatever answers, and whatever else captures and timers do
  between the ticks and between two commands of an answer, when its context is done and \<open>RunDaemon\<close>
  returns, every capture it started was cancelled or has ended, it shows itself idle, and no scheduled
  stop is set.  It returns an error only when it was given no dashboard, could not make its directory or
  could not register.
\<close>

theorem daemon_returns_idle:
  assumes "RunDaemon send decode decodeId hostname mkdirErr canCapture url token name dir iface evs w = (r, w')"
    and "no_stale_error send decode decodeId hostname mkdirErr canCapture url token name dir iface evs w"
  shows "(case r of
      Inr d \<Rightarrow> list_all (\<lambda>s. se_cancelled s \<or> se_ended s) (dm_sessions d) \<and> \<not> dm_running d \<and> dm_stopAt d = None
    | Inl e \<Rightarrow> url = '''' \<or> mkdirErr \<noteq> None \<or>
        (\<exists>err. fst (post send url token ''/api/agents/register'' json_type
           (register_body (if name = '''' then hostname else name) ''agent'' ''daemon'' dir) w) = Inl err))"
proof (cases "RunDaemon_start send decodeId hostname mkdirErr canCapture url token name dir iface w")
  case (Pair x w1)
  show ?thesis
  proof (cases x)
    case (Inl e)
    with assms Pair show ?thesis
      by (auto simp: RunDaemon_def RunDaemon_start_def Let_def split: if_splits option.splits prod.splits sum.splits)
  next
    case (Inr dk)
    obtain d k where dk: "dk = (d, k)" by fastforce
    from Pair Inr dk have d: "d = new_daemon dir iface (canCapture iface)"
      by (auto simp: RunDaemon_start_def Let_def split: if_splits option.splits prod.splits sum.splits)
    let ?lk = "\<lparr>lk_send = send, lk_dashboard = url, lk_token = token, lk_id = k, lk_decode = decode\<rparr>"
    obtain d2 w2 where l: "foldl (\<lambda>dw ev. loop_turn ?lk ev dw) (d, w1) evs = (d2, w2)" by fastforce
    have "clean_turns ?lk evs (d, w1)" using assms(2) Pair Inr dk by (simp add: no_stale_error_def)
    then have "daemon_ok d2" using loop_ok [of "(d, w1)" ?lk evs] l by (simp add: d daemon_ok_boot)
    then have ok: "daemon_ok (stopCapture d2)" using daemon_ok_current stopCapture_ok by blast
    have nr: "\<not> dm_running (stopCapture d2)" by (simp add: stopCapture_def)
    then have "\<not> recording s" if "s \<in> set (dm_sessions (stopCapture d2))" for s
      using not_running_none [OF ok] that by blast
    moreover have "dm_stopAt (stopCapture d2) = None" using ok nr by (simp add: daemon_ok_def)
    moreover have "r = Inr (stopCapture d2)" using assms Pair Inr dk l by (simp add: RunDaemon_def)
    ultimately show ?thesis using nr by (auto simp: list_all_iff recording_def)
  qed
qed

text \<open>Without that a capture is left behind: its end with an error, after it was cancelled and another one
  was started, makes the daemon idle, and the stop on the way out does nothing.\<close>

lemma stale_error_left_behind:
  "let d = run_steps [EndEv 0 (Some ''no permission'')]
         (demo_daemon [demo_exec ''start'', demo_exec ''stop'', demo_exec ''start''])
   in filter recording (dm_sessions (stopCapture d)) \<noteq> []"
  by code_simp

text \<open>A start and, before the context ends, no stop.\<close>

definition demo_tick :: tick where
  "demo_tick = \<lparr>tk_clock = \<lparr>ck_now = 0, ck_created = '''', ck_stamp = ''''\<rparr>, tk_open = (\<lambda>_. Inr ''''),
     tk_read = (\<lambda>_. None), tk_entries = [], tk_gaps = []\<rparr>"

definition demo_send :: "unit send" where
  "demo_send = (\<lambda>_ _ _ w. (Inr (200, ''200 OK'', ''{}''), w))"

definition demo_daemon_run :: "(string + Daemon) \<times> unit" where
  "demo_daemon_run = RunDaemon demo_send (\<lambda>_. [demo_cmd ''start'']) (\<lambda>_. Some ''ag-1'') ''h'' None (\<lambda>_. (True, ''ok''))
     ''http://d'' '''' ''box'' ''/rec'' ''eth0'' [Ticked demo_tick] ()"

theorem daemon_returns_idle_witness:
  "case fst demo_daemon_run of
     Inr d \<Rightarrow> length (dm_sessions d) = 1 \<and>
       list_all (\<lambda>s. se_cancelled s \<or> se_ended s) (dm_sessions d) \<and> \<not> dm_running d
   | Inl e \<Rightarrow> False"
proof -
  have l: "case fst demo_daemon_run of Inr d \<Rightarrow> length (dm_sessions d) = 1 | Inl e \<Rightarrow> False" by code_simp
  obtain r w' where r: "demo_daemon_run = (r, w')" by (cases demo_daemon_run)
  from l [unfolded r fst_conv] obtain d where d: "r = Inr d" "length (dm_sessions d) = 1" by (cases r) auto
  have "no_stale_error demo_send (\<lambda>_. [demo_cmd ''start'']) (\<lambda>_. Some ''ag-1'') ''h'' None (\<lambda>_. (True, ''ok''))
     ''http://d'' '''' ''box'' ''/rec'' ''eth0'' [Ticked demo_tick] ()"
    by code_simp
  from daemon_returns_idle [OF r [unfolded demo_daemon_run_def] this] d(2) show ?thesis
    unfolding r d(1) fst_conv by simp
qed

end
