(* ===== verification/PgQueries.thy ===== *)
theory PgQueries
  imports PgCopy
begin

text \<open>
  The catalog queries of \<open>internal/pg/copy.go\<close> and of \<open>Discover\<close> in \<open>internal/pg/pg.go\<close>: their texts, and
  how the rows of an answer become the schemas, tables, columns, keys and enum types the copy works on.
  The server's answer to a query is a parameter.
\<close>

section \<open>Answers\<close>

text \<open>A cell as the driver decodes it; an answer is its rows, and the error that ended it early, if any.\<close>

datatype cell = CNull | CText string | CBool bool | CInt "64 word" | CTexts "string list"

record answer =
  an_rows :: "cell list list"
  an_err :: "string option"

type_synonym 'w pg_conn = "string \<Rightarrow> string list \<Rightarrow> 'w \<Rightarrow> string + answer"

text \<open>\<open>rows.Scan\<close> into variables of fixed types fits a row or fails, with the driver's text.\<close>

type_synonym 'a scanner = "cell list \<Rightarrow> 'a option"

fun scan_rows :: "'a scanner \<Rightarrow> (cell list \<Rightarrow> string) \<Rightarrow> cell list list \<Rightarrow> string + 'a list" where
  "scan_rows scan misfit [] = Inr []"
| "scan_rows scan misfit (r # rs) =
     (case scan r of
        None \<Rightarrow> Inl (misfit r)
      | Some x \<Rightarrow> (case scan_rows scan misfit rs of Inl e \<Rightarrow> Inl e | Inr xs \<Rightarrow> Inr (x # xs)))"

text \<open>The loop the queries share: every row is scanned, then the error of the answer counts.\<close>

definition collect :: "'a scanner \<Rightarrow> (cell list \<Rightarrow> string) \<Rightarrow> string + answer \<Rightarrow> string + 'a list" where
  "collect scan misfit a =
     (case a of
        Inl e \<Rightarrow> Inl e
      | Inr an \<Rightarrow>
          (case scan_rows scan misfit (an_rows an) of
             Inl e \<Rightarrow> Inl e
           | Inr xs \<Rightarrow> (case an_err an of Some e \<Rightarrow> Inl e | None \<Rightarrow> Inr xs)))"

fun scan_text :: "string scanner" where
  "scan_text [CText s] = Some s"
| "scan_text _ = None"

fun scan_enum :: "(string \<times> string list) scanner" where
  "scan_enum [CText n, CTexts ls] = Some (n, ls)"
| "scan_enum _ = None"

fun nullable_text :: "cell \<Rightarrow> string option option" where
  "nullable_text CNull = Some None"
| "nullable_text (CText s) = Some (Some s)"
| "nullable_text _ = None"

fun scan_column :: "columnDef scanner" where
  "scan_column [CText n, CText t, CBool nn, d] =
     map_option (\<lambda>d. \<lparr>cd_name = n, cd_typ = t, cd_notNull = nn, cd_deflt = d\<rparr>) (nullable_text d)"
| "scan_column _ = None"

fun scan_table :: "(string \<times> TableInfo) scanner" where
  "scan_table [CText s, CText t, CInt n, CInt mb] = Some (s, \<lparr>ti_Name = t, ti_Rows = n, ti_SizeMB = mb\<rparr>)"
| "scan_table _ = None"

section \<open>Queries\<close>

text \<open>The raw strings of the source, line by line.\<close>

definition sql_line :: "string \<Rightarrow> string" where
  "sql_line s = [CHR 0x0A, CHR 0x09, CHR 0x09] @ s"

definition not_pg :: string where
  "not_pg = ''n.nspname NOT LIKE 'pg'' @ [CHR 0x5C] @ ''_%' ''"

definition schemas_sql :: string where
  "schemas_sql =
     ''SELECT nspname FROM pg_namespace WHERE nspname NOT LIKE 'pg'' @ [CHR 0x5C] @
     ''_%' AND nspname <> 'information_schema' ORDER BY nspname''"

definition enums_sql :: string where
  "enums_sql = concat (map sql_line
     [''SELECT t.typname, array_agg(e.enumlabel ORDER BY e.enumsortorder)'',
      ''FROM pg_type t'',
      ''JOIN pg_enum e ON e.enumtypid = t.oid'',
      ''JOIN pg_namespace n ON n.oid = t.typnamespace'',
      ''WHERE n.nspname = $1'',
      ''GROUP BY t.typname''])"

definition tables_sql :: string where
  "tables_sql =
     ''SELECT c.relname FROM pg_class c JOIN pg_namespace n ON n.oid = c.relnamespace'' @
     [CHR 0x0A, CHR 0x09, CHR 0x09] @ '' WHERE n.nspname = $1 AND c.relkind = 'r' ORDER BY c.relname''"

definition columns_sql :: string where
  "columns_sql = concat (map sql_line
     [''SELECT a.attname,'',
      ''       pg_catalog.format_type(a.atttypid, a.atttypmod),'',
      ''       a.attnotnull,'',
      ''       pg_catalog.pg_get_expr(d.adbin, d.adrelid)'',
      ''FROM pg_attribute a'',
      ''JOIN pg_class c ON c.oid = a.attrelid'',
      ''JOIN pg_namespace n ON n.oid = c.relnamespace'',
      ''LEFT JOIN pg_attrdef d ON d.adrelid = a.attrelid AND d.adnum = a.attnum'',
      ''WHERE n.nspname = $1 AND c.relname = $2 AND a.attnum > 0 AND NOT a.attisdropped'',
      ''ORDER BY a.attnum''])"

definition primary_key_sql :: string where
  "primary_key_sql = concat (map sql_line
     [''SELECT a.attname FROM pg_index i'',
      ''JOIN pg_attribute a ON a.attrelid = i.indrelid AND a.attnum = ANY(i.indkey)'',
      ''WHERE i.indrelid = ($1 || '.' || $2)::regclass AND i.indisprimary'',
      ''ORDER BY array_position(i.indkey, a.attnum)''])"

definition discover_sql :: string where
  "discover_sql = concat (map sql_line
     [''SELECT n.nspname, c.relname,'',
      ''       GREATEST(COALESCE(c.reltuples, 0), 0)::bigint,'',
      ''       COALESCE(pg_total_relation_size(c.oid) / 1048576, 0)::bigint'',
      ''FROM pg_class c JOIN pg_namespace n ON n.oid = c.relnamespace'',
      ''WHERE c.relkind = 'r' AND '' @ not_pg @ ''AND n.nspname <> 'information_schema'' @ [sq],
      ''ORDER BY pg_total_relation_size(c.oid) DESC''])"

text \<open>The source of a copy on a connection.\<close>

definition query_schemas :: "(cell list \<Rightarrow> string) \<Rightarrow> 'w pg_conn \<Rightarrow> 'w \<Rightarrow> string + string list" where
  "query_schemas misfit conn w = collect scan_text misfit (conn schemas_sql [] w)"

definition query_enums ::
  "(cell list \<Rightarrow> string) \<Rightarrow> 'w pg_conn \<Rightarrow> string \<Rightarrow> 'w \<Rightarrow> string + (string \<times> string list) list" where
  "query_enums misfit conn schema w = collect scan_enum misfit (conn enums_sql [schema] w)"

definition listTables :: "(cell list \<Rightarrow> string) \<Rightarrow> 'w pg_conn \<Rightarrow> string \<Rightarrow> 'w \<Rightarrow> string + string list" where
  "listTables misfit conn schema w = collect scan_text misfit (conn tables_sql [schema] w)"

definition tableColumns ::
  "(cell list \<Rightarrow> string) \<Rightarrow> 'w pg_conn \<Rightarrow> string \<Rightarrow> string \<Rightarrow> 'w \<Rightarrow> string + columnDef list" where
  "tableColumns misfit conn schema table w = collect scan_column misfit (conn columns_sql [schema, table] w)"

definition primaryKey ::
  "(cell list \<Rightarrow> string) \<Rightarrow> 'w pg_conn \<Rightarrow> string \<Rightarrow> string \<Rightarrow> 'w \<Rightarrow> string + string list" where
  "primaryKey misfit conn schema table w =
     collect scan_text misfit (conn primary_key_sql [Sanitize [schema], Sanitize [table]] w)"

definition conn_source :: "(cell list \<Rightarrow> string) \<Rightarrow> 'w pg_conn \<Rightarrow> 'w PgSource" where
  "conn_source misfit conn =
     \<lparr>ps_Schemas = query_schemas misfit conn, ps_Enums = query_enums misfit conn,
      ps_Tables = listTables misfit conn, ps_Columns = tableColumns misfit conn,
      ps_PrimaryKey = primaryKey misfit conn\<rparr>"

definition Discover_query ::
  "(cell list \<Rightarrow> string) \<Rightarrow> (Datastore \<Rightarrow> string + 'w pg_conn) \<Rightarrow> Datastore \<Rightarrow> 'w \<Rightarrow> string + SchemaInfo list" where
  "Discover_query misfit connectDb d w =
     Discover_pg connectDb (\<lambda>conn. collect scan_table misfit (conn discover_sql [] w)) d"

section \<open>All rows or an error\<close>

lemma scan_rows_Inr: "scan_rows scan misfit rs = Inr xs \<longleftrightarrow> map scan rs = map Some xs"
proof (induction rs arbitrary: xs)
  case (Cons r rs)
  show ?case
    by (cases xs) (auto simp: Cons.IH [symmetric] split: option.splits sum.splits)
qed auto

text \<open>A query yields exactly the rows of an answer that came to its end, in order, or an error: a
  connection that breaks off never passes for a shorter list.\<close>

lemma collect_complete:
  "collect scan misfit a = Inr xs \<longleftrightarrow>
     (\<exists>an. a = Inr an \<and> an_err an = None \<and> map scan (an_rows an) = map Some xs)"
proof (cases a)
  case (Inr an)
  show ?thesis
  proof (cases "scan_rows scan misfit (an_rows an)")
    case (Inl e)
    then have "map scan (an_rows an) \<noteq> map Some xs" using scan_rows_Inr [of scan misfit "an_rows an" xs] by simp
    with Inl Inr show ?thesis by (simp add: collect_def)
  next
    case (Inr ys)
    then have "map scan (an_rows an) = map Some ys" by (simp add: scan_rows_Inr)
    with Inr \<open>a = Inr an\<close> show ?thesis
      by (auto simp: collect_def inj_map_eq_map split: option.splits)
  qed
qed (simp add: collect_def)

section \<open>A database behind the connection\<close>

text \<open>A server that answers the copy's queries from its catalog, whatever they are asked for; rows are as
  PostgreSQL sends them.\<close>

record 'w catalog =
  ct_schemas :: "'w \<Rightarrow> string list"
  ct_enums :: "string \<Rightarrow> 'w \<Rightarrow> (string \<times> string list) list"
  ct_tables :: "string \<Rightarrow> 'w \<Rightarrow> string list"
  ct_columns :: "string \<Rightarrow> string \<Rightarrow> 'w \<Rightarrow> columnDef list"
  ct_keys :: "string \<Rightarrow> string \<Rightarrow> 'w \<Rightarrow> string list"

definition column_cells :: "columnDef \<Rightarrow> cell list" where
  "column_cells c = [CText (cd_name c), CText (cd_typ c), CBool (cd_notNull c),
     (case cd_deflt c of None \<Rightarrow> CNull | Some d \<Rightarrow> CText d)]"

definition full :: "('a \<Rightarrow> cell list) \<Rightarrow> 'a list \<Rightarrow> string + answer" where
  "full cells xs = Inr \<lparr>an_rows = map cells xs, an_err = None\<rparr>"

definition answers_from :: "'w catalog \<Rightarrow> 'w pg_conn \<Rightarrow> bool" where
  "answers_from cat conn \<longleftrightarrow>
     (\<forall>w. conn schemas_sql [] w = full (\<lambda>s. [CText s]) (ct_schemas cat w) \<and>
       (\<forall>s. conn enums_sql [s] w = full (\<lambda>e. [CText (fst e), CTexts (snd e)]) (ct_enums cat s w) \<and>
         conn tables_sql [s] w = full (\<lambda>t. [CText t]) (ct_tables cat s w) \<and>
         (\<forall>t. conn columns_sql [s, t] w = full column_cells (ct_columns cat s t w) \<and>
           conn primary_key_sql [Sanitize [s], Sanitize [t]] w = full (\<lambda>k. [CText k]) (ct_keys cat s t w))))"

lemma collect_full: "(\<And>x. scan (cells x) = Some x) \<Longrightarrow> collect scan misfit (full cells xs) = Inr xs"
  by (simp add: collect_complete full_def)

lemma scan_column_cells: "scan_column (column_cells c) = Some c"
  by (cases "cd_deflt c") (simp_all add: column_cells_def)

text \<open>The source the copy reads is the catalog.\<close>

lemma conn_source_catalog:
  assumes "answers_from cat conn"
  shows "ps_Schemas (conn_source misfit conn) w = Inr (ct_schemas cat w)"
    and "ps_Enums (conn_source misfit conn) s w = Inr (ct_enums cat s w)"
    and "ps_Tables (conn_source misfit conn) s w = Inr (ct_tables cat s w)"
    and "ps_Columns (conn_source misfit conn) s t w = Inr (ct_columns cat s t w)"
    and "ps_PrimaryKey (conn_source misfit conn) s t w = Inr (ct_keys cat s t w)"
  using assms
  by (simp_all add: conn_source_def query_schemas_def query_enums_def listTables_def tableColumns_def
      primaryKey_def answers_from_def collect_full scan_column_cells)


section \<open>What a copy executes\<close>

text \<open>A target that executes every statement and logs it, with a line for every table whose rows were
  piped; \<open>sizes\<close> is the number of rows of a table.\<close>

definition log_exec :: "string list exec" where
  "log_exec stmt args w = (None, w @ [stmt])"

definition log_pipe :: "(string \<Rightarrow> nat) \<Rightarrow> string list pipe" where
  "log_pipe sizes qtable w = ((None, None, sizes qtable), w @ [''COPY '' @ qtable])"

definition sequence_stmts :: "columnDef list \<Rightarrow> string list" where
  "sequence_stmts cols = concat (map (\<lambda>c.
     (case cd_deflt c of
        None \<Rightarrow> []
      | Some d \<Rightarrow>
          if sequenceName d = '''' then [] else [''CREATE SEQUENCE IF NOT EXISTS '' @ sequenceName d])) cols)"

definition setval_stmts :: "string \<Rightarrow> string \<Rightarrow> columnDef list \<Rightarrow> string list" where
  "setval_stmts schema table cols = concat (map (\<lambda>c.
     (case cd_deflt c of
        None \<Rightarrow> []
      | Some d \<Rightarrow> if str_contains d ''nextval('' then [setval_stmt schema table (cd_name c)] else [])) cols)"

definition key_stmts :: "string \<Rightarrow> string list \<Rightarrow> string list" where
  "key_stmts qtable cols =
     (if cols = [] then []
      else [''ALTER TABLE '' @ qtable @ '' ADD PRIMARY KEY ('' @
            join_with '', '' (map (\<lambda>c. Sanitize [c]) cols) @ '')''])"

text \<open>A table: its sequences, itself, its key, its rows, and the sequences set past the rows; a table
  without columns is skipped.\<close>

definition table_stmts :: "string list catalog \<Rightarrow> string \<Rightarrow> string \<Rightarrow> string list" where
  "table_stmts cat schema table =
     (let cols = ct_columns cat schema table []; qtable = Sanitize [schema, table]
      in if cols = [] then []
         else sequence_stmts cols @ [create_table qtable cols] @ key_stmts qtable (ct_keys cat schema table []) @
              [''COPY '' @ qtable] @ setval_stmts schema table cols)"

definition copied_tables :: "string list catalog \<Rightarrow> string set \<Rightarrow> string \<Rightarrow> string list" where
  "copied_tables cat exclude schema = filter (\<lambda>t. \<not> excluded exclude schema t) (ct_tables cat schema [])"

definition schema_stmts :: "string list catalog \<Rightarrow> string set \<Rightarrow> string \<Rightarrow> string list" where
  "schema_stmts cat exclude schema =
     [''DROP SCHEMA IF EXISTS '' @ Sanitize [schema] @ '' CASCADE'', ''CREATE SCHEMA '' @ Sanitize [schema]] @
     map (create_enum schema) (ct_enums cat schema []) @
     concat (map (table_stmts cat schema) (copied_tables cat exclude schema))"

definition marker_stmts :: "string list" where
  "marker_stmts = [''CREATE SCHEMA IF NOT EXISTS '' @ markerSchema, create_copy_info,
     ''INSERT INTO '' @ markerSchema @ ''.copy_info (source, schemas, tables_copied, rows_copied) VALUES ($1,$2,$3,$4)'']"

definition table_rows :: "string list catalog \<Rightarrow> (string \<Rightarrow> nat) \<Rightarrow> string \<Rightarrow> string \<Rightarrow> nat" where
  "table_rows cat sizes schema table =
     (if ct_columns cat schema table [] = [] then 0 else sizes (Sanitize [schema, table]))"

text \<open>The catalog of the source does not depend on what was done to the target.\<close>

definition steady :: "'w catalog \<Rightarrow> bool" where
  "steady cat \<longleftrightarrow>
     (\<forall>w w'. ct_schemas cat w = ct_schemas cat w' \<and>
       (\<forall>s. ct_enums cat s w = ct_enums cat s w' \<and> ct_tables cat s w = ct_tables cat s w' \<and>
         (\<forall>t. ct_columns cat s t w = ct_columns cat s t w' \<and> ct_keys cat s t w = ct_keys cat s t w')))"

lemma attempt_log [simp]: "attempt log_exec stmt w = w @ [stmt]"
  by (simp add: attempt_def log_exec_def)

lemma create_sequences_log: "create_sequences log_exec cols w = w @ sequence_stmts cols"
  unfolding create_sequences_def sequence_stmts_def
  by (induction cols arbitrary: w) (auto split: option.split)

lemma resetSequences_log: "resetSequences log_exec schema table cols w = w @ setval_stmts schema table cols"
  unfolding resetSequences_def setval_stmts_def
  by (induction cols arbitrary: w) (auto split: option.split)

lemma add_primary_key_log: "add_primary_key log_exec qtable (Inr cols) w = w @ key_stmts qtable cols"
  by (simp add: add_primary_key_def key_stmts_def)

lemma create_enums_log: "create_enums log_exec schema es w = (None, w @ map (create_enum schema) es)"
  by (induction es arbitrary: w) (simp_all add: log_exec_def)

lemma steady_at:
  assumes "steady cat"
  shows "ct_schemas cat w = ct_schemas cat []" "ct_enums cat s w = ct_enums cat s []"
    "ct_tables cat s w = ct_tables cat s []" "ct_columns cat s t w = ct_columns cat s t []"
    "ct_keys cat s t w = ct_keys cat s t []"
  using assms unfolding steady_def by blast+

lemma pg_copyTable_log:
  assumes "answers_from cat conn" and "steady cat"
  shows "copyTable_pg log_exec (log_pipe sizes) (conn_source misfit conn) schema table w =
    (Inr (table_rows cat sizes schema table), w @ table_stmts cat schema table)"
proof -
  have "ps_Columns (conn_source misfit conn) schema table w = Inr (ct_columns cat schema table [])"
    "ps_PrimaryKey (conn_source misfit conn) schema table w' = Inr (ct_keys cat schema table [])" for w'
    using conn_source_catalog [OF assms(1)] steady_at [OF assms(2)] by metis+
  then show ?thesis
    by (simp add: copyTable_pg_def table_stmts_def table_rows_def create_sequences_log add_primary_key_log
        resetSequences_log streamCopy_def log_pipe_def log_exec_def Let_def)
qed

lemma pg_copy_tables_log:
  assumes "answers_from cat conn" and "steady cat"
  shows "copy_tables_pg log_exec (log_pipe sizes) (conn_source misfit conn) schema exclude tables stats w =
    ((None, stats\<lparr>
        ss_Tables := ss_Tables stats + length (filter (\<lambda>t. \<not> excluded exclude schema t) tables),
        ss_Rows := ss_Rows stats +
          sum_list (map (table_rows cat sizes schema) (filter (\<lambda>t. \<not> excluded exclude schema t) tables))\<rparr>),
     w @ concat (map (table_stmts cat schema) (filter (\<lambda>t. \<not> excluded exclude schema t) tables)))"
  by (induction tables arbitrary: stats w) (simp_all add: pg_copyTable_log [OF assms])

definition tables_to_copy :: "string list catalog \<Rightarrow> string set \<Rightarrow> string list \<Rightarrow> (string \<times> string) list" where
  "tables_to_copy cat exclude schemas =
     concat (map (\<lambda>s. map (Pair s) (copied_tables cat exclude s)) schemas)"

lemma pg_copySchema_log:
  assumes "answers_from cat conn" and "steady cat"
  shows "copySchema_pg log_exec (log_pipe sizes) (conn_source misfit conn) schema exclude stats w =
    ((None, stats\<lparr>
        ss_Tables := ss_Tables stats + length (copied_tables cat exclude schema),
        ss_Rows := ss_Rows stats + sum_list (map (table_rows cat sizes schema) (copied_tables cat exclude schema))\<rparr>),
     w @ schema_stmts cat exclude schema)"
proof -
  have "ps_Enums (conn_source misfit conn) schema w' = Inr (ct_enums cat schema [])"
    "ps_Tables (conn_source misfit conn) schema w' = Inr (ct_tables cat schema [])" for w'
    using conn_source_catalog [OF assms(1)] steady_at [OF assms(2)] by metis+
  then show ?thesis
    by (simp add: copySchema_pg_def log_exec_def copyEnums_def schema_stmts_def copied_tables_def)
      (simp add: create_enums_log pg_copy_tables_log [OF assms] flip: log_exec_def)
qed


lemma pg_copy_schemas_log:
  assumes "answers_from cat conn" and "steady cat"
  shows "copy_schemas_pg log_exec (log_pipe sizes) (conn_source misfit conn) exclude schemas stats w =
    ((None, stats\<lparr>
        ss_Tables := ss_Tables stats + length (tables_to_copy cat exclude schemas),
        ss_Rows := ss_Rows stats +
          sum_list (map (\<lambda>st. table_rows cat sizes (fst st) (snd st)) (tables_to_copy cat exclude schemas))\<rparr>),
     w @ concat (map (schema_stmts cat exclude) schemas))"
  by (induction schemas arbitrary: stats w)
    (simp_all add: pg_copySchema_log [OF assms] tables_to_copy_def comp_def)

definition chosen_schemas :: "string list catalog \<Rightarrow> string list \<Rightarrow> string list" where
  "chosen_schemas cat schemas =
     (if schemas = [] then filter (\<lambda>s. s \<notin> set systemSchemas_pg) (ct_schemas cat []) else schemas)"

text \<open>
  C38.  A PostgreSQL copy does what the source's catalog says, and nothing else: when the source, whose
  catalog does not change meanwhile (it is not the target), answers
  its catalog queries and the target executes what it is told, the copy succeeds, and the target was told
  exactly, in this order: for every schema asked for (without a choice every schema that is not the
  system's) to drop and create it and its enum types; for every table that is not excluded to create its
  sequences, the table with its columns, its primary key, to take over its rows and to set its sequences;
  and at last the marker.  The tables and rows reported are those copied, except that a table without
  columns is skipped but still counted as a table.
\<close>

theorem pg_copy_statements:
  assumes "connectSrc src = Inr (conn_source misfit conn)" and "connectDst dst = Inr (log_exec, log_pipe sizes)"
    and "answers_from cat conn" and "steady cat"
  shows "Copy connectSrc connectDst src dst schemas exclude log =
    (Inr \<lparr>ss_SchemaNames = chosen_schemas cat schemas,
          ss_Tables = length (tables_to_copy cat exclude (chosen_schemas cat schemas)),
          ss_Rows = sum_list (map (\<lambda>st. table_rows cat sizes (fst st) (snd st))
            (tables_to_copy cat exclude (chosen_schemas cat schemas)))\<rparr>,
     log @ concat (map (schema_stmts cat exclude) (chosen_schemas cat schemas)) @ marker_stmts)"
proof -
  have "(if schemas = [] then listSchemas (conn_source misfit conn) log else Inr schemas)
      = Inr (chosen_schemas cat schemas)"
    using conn_source_catalog(1) [OF assms(3), of misfit log] steady_at(1) [OF assms(4), of log]
    by (simp add: listSchemas_def chosen_schemas_def)
  then show ?thesis
    by (simp add: Copy_def assms(1,2) pg_copy_schemas_log [OF assms(3,4)] writeMarker_pg_def marker_stmts_def)
      (simp add: log_exec_def)
qed

definition demo_catalog :: "string list catalog" where
  "demo_catalog = \<lparr>ct_schemas = (\<lambda>_. [''app'', ''pg_toast'']),
     ct_enums = (\<lambda>s w. [(''mood'', [''ok'', ''bad''])]),
     ct_tables = (\<lambda>s w. [''log'', ''t'']),
     ct_columns = (\<lambda>s t w. [\<lparr>cd_name = ''id'', cd_typ = ''bigint'', cd_notNull = True,
        cd_deflt = Some (nextval_marker @ ''app.s'' @ [sq] @ ''::regclass)'')\<rparr>]),
     ct_keys = (\<lambda>s t w. [''id''])\<rparr>"

text \<open>A server for this catalog: every query is recognised by its text.\<close>

definition demo_conn :: "string list pg_conn" where
  "demo_conn sql args w =
     (if sql = schemas_sql then full (\<lambda>s. [CText s]) (ct_schemas demo_catalog w)
      else if sql = enums_sql then full (\<lambda>e. [CText (fst e), CTexts (snd e)]) (ct_enums demo_catalog (hd args) w)
      else if sql = tables_sql then full (\<lambda>t. [CText t]) (ct_tables demo_catalog (hd args) w)
      else if sql = columns_sql then full column_cells (ct_columns demo_catalog (hd args) (hd (tl args)) w)
      else full (\<lambda>k. [CText k]) (ct_keys demo_catalog (hd args) (hd (tl args)) w))"

lemma demo_conn_answers: "answers_from demo_catalog demo_conn"
proof -
  have "distinct [schemas_sql, enums_sql, tables_sql, columns_sql, primary_key_sql]" by code_simp
  then have "schemas_sql \<noteq> enums_sql" "schemas_sql \<noteq> tables_sql" "schemas_sql \<noteq> columns_sql"
    "schemas_sql \<noteq> primary_key_sql" "enums_sql \<noteq> tables_sql" "enums_sql \<noteq> columns_sql"
    "enums_sql \<noteq> primary_key_sql" "tables_sql \<noteq> columns_sql" "tables_sql \<noteq> primary_key_sql"
    "columns_sql \<noteq> primary_key_sql"
    by auto
  then show ?thesis
    by (simp add: answers_from_def demo_conn_def) (simp add: demo_catalog_def)
qed

definition demo_pg :: Datastore where
  "demo_pg = \<lparr>ds_Name = ''main'', ds_Type = ''postgres'', ds_Host = ''h'', ds_Port = 5432, ds_User = ''u'',
     ds_Password = ''p'', ds_Database = '''', ds_Schemas = [], ds_Exclude = [], ds_SeedFrom = None\<rparr>"

theorem pg_copy_statements_witness:
  "\<exists>log. Copy (\<lambda>_. Inr (conn_source (\<lambda>_. ''misfit'') demo_conn)) (\<lambda>_. Inr (log_exec, log_pipe (\<lambda>_. 7)))
     demo_pg demo_pg [] {''app.log''} [] = (Inr \<lparr>ss_SchemaNames = [''app''], ss_Tables = 1, ss_Rows = 7\<rparr>, log) \<and> length log = 11"
proof -
  have s: "steady demo_catalog" by (simp add: steady_def demo_catalog_def)
  have c: "chosen_schemas demo_catalog [] = [''app'']"
    "tables_to_copy demo_catalog {''app.log''} [''app''] = [(''app'', ''t'')]"
    by code_simp+
  have l: "length (concat (map (schema_stmts demo_catalog {''app.log''}) [''app'']) @ marker_stmts) = 11" by code_simp
  show ?thesis
    using pg_copy_statements [where connectSrc = "\<lambda>_. Inr (conn_source (\<lambda>_. ''misfit'') demo_conn)"
        and connectDst = "\<lambda>_. Inr (log_exec, log_pipe (\<lambda>_. 7))" and src = demo_pg and dst = demo_pg and schemas = "[]"
        and exclude = "{''app.log''}" and log = "[]", OF refl refl demo_conn_answers s] l
    by (simp add: c) (simp add: table_rows_def demo_catalog_def)
qed

end
