(* ===== verification/Cli.thy ===== *)
theory Cli
  imports Control Mcp Atoi
begin

text \<open>
  \<open>cmd/mockingbox/main.go\<close>: which command runs, what each command does with its flags before and after
  it calls the packages, and the exit code.  The flags of a command are a record of the values that the
  \<open>flag\<close> package parsed; calls of other packages and of the operating system are parameters.  Ending
  with \<open>log.Fatalf\<close> is the outcome \<open>Fatal\<close> (exit code 1).
\<close>

section \<open>Commands\<close>

datatype collect_mode = AgentMode | SniffMode | PcapMode | MirrorMode | ProxyMode

datatype command =
    RunCmd | VerifyCmd | DashboardCmd | McpCmd | CollectCmd collect_mode | SeedCmd | HelpCmd
  | UnknownCmd string | NoCmd

text \<open>\<open>cmdCollect\<close>: the mode and the arguments left for it.\<close>

definition cmdCollect :: "string list \<Rightarrow> collect_mode \<times> string list" where
  "cmdCollect args =
     (case args of
        [] \<Rightarrow> (SniffMode, args)
      | a # rest \<Rightarrow>
          if has_prefix a ''-'' then (SniffMode, args)
          else if a = ''agent'' then (AgentMode, rest)
          else if a = ''sniff'' then (SniffMode, rest)
          else if a = ''pcap'' then (PcapMode, rest)
          else if a = ''mirror'' then (MirrorMode, rest)
          else if a = ''proxy'' then (ProxyMode, rest)
          else (SniffMode, args))"

definition main_dispatch :: "string list \<Rightarrow> command \<times> string list" where
  "main_dispatch args =
     (case args of
        [] \<Rightarrow> (NoCmd, [])
      | c # rest \<Rightarrow>
          if c = ''run'' then (RunCmd, rest)
          else if c = ''verify'' then (VerifyCmd, rest)
          else if c = ''dashboard'' \<or> c = ''ui'' then (DashboardCmd, rest)
          else if c = ''mcp'' then (McpCmd, rest)
          else if c = ''collector'' \<or> c = ''collect''
          then (case cmdCollect rest of (m, rest) \<Rightarrow> (CollectCmd m, rest))
          else if c = ''seed'' then (SeedCmd, rest)
          else if c = ''sniff'' then (CollectCmd SniffMode, rest)
          else if c = ''convert'' then (CollectCmd PcapMode, rest)
          else if c = ''mirror'' then (CollectCmd MirrorMode, rest)
          else if c = ''-h'' \<or> c = ''--help'' \<or> c = ''help'' then (HelpCmd, rest)
          else (UnknownCmd c, rest))"

text \<open>What a command that does not get to run exits with.\<close>

definition usage_exit :: "command \<Rightarrow> int option" where
  "usage_exit c = (case c of NoCmd \<Rightarrow> Some 2 | UnknownCmd _ \<Rightarrow> Some 2 | HelpCmd \<Rightarrow> Some 0 | _ \<Rightarrow> None)"

lemma deprecated_aliases:
  "main_dispatch (''sniff'' # rest) = main_dispatch (''collect'' # ''sniff'' # rest)"
  "main_dispatch (''convert'' # rest) = main_dispatch (''collect'' # ''pcap'' # rest)"
  "main_dispatch (''mirror'' # rest) = main_dispatch (''collect'' # ''mirror'' # rest)"
  by (simp_all add: main_dispatch_def cmdCollect_def has_prefix_def)

section \<open>Outcomes\<close>

datatype fatal =
    ConfigFatal cfg_error | NoOldURL | CorpusFatal corpus_error | GoldenFatal corpus_error
  | StartFatal string | BaselineFatal string | ReportFatal string | SeedTargetFatal | SeedFatal string
  | InterfaceFatal string | OutputFatal string | SourceFatal string | UpstreamFatal | ProxyFatal string
  | AgentFatal string | ServeFatal string

datatype 'a outcome_of = Exit int 'a | Fatal fatal

definition exit_code :: "'a outcome_of \<Rightarrow> int" where
  "exit_code r = (case r of Exit n _ \<Rightarrow> n | Fatal _ \<Rightarrow> 1)"

section \<open>run and verify\<close>

record RunFlags =
  rf_Config :: string
  rf_Corpus :: string

text \<open>The runner and the report are parameters: starting the sources may fail, and the report is written
  or not.\<close>

definition run_exit :: "Result list \<Rightarrow> int" where
  "run_exit results = (if list_all (\<lambda>r. r_Verdict r = Match) results then 0 else 1)"

definition cmdRun ::
  "(string \<Rightarrow> cfg_error + Config_rec) \<Rightarrow> (string \<Rightarrow> corpus_error + RequestSpec list) \<Rightarrow>
   (Config_rec \<Rightarrow> string option) \<Rightarrow> (Config_rec \<Rightarrow> RequestSpec list \<Rightarrow> Result list) \<Rightarrow>
   (Result list \<Rightarrow> string + string) \<Rightarrow> RunFlags \<Rightarrow> Result list outcome_of" where
  "cmdRun loadConfig loadCorpus start run writeReport fl =
     (if rf_Config fl = '''' \<or> rf_Corpus fl = '''' then Exit 2 []
      else
        (case loadConfig (rf_Config fl) of
           Inl e \<Rightarrow> Fatal (ConfigFatal e)
         | Inr cfg \<Rightarrow>
             if BaseURL (Old_stack cfg) = '''' then Fatal NoOldURL
             else
               (case loadCorpus (rf_Corpus fl) of
                  Inl e \<Rightarrow> Fatal (CorpusFatal e)
                | Inr specs \<Rightarrow>
                    (case start cfg of
                       Some e \<Rightarrow> Fatal (StartFatal e)
                     | None \<Rightarrow>
                         (let results = run cfg specs
                          in case writeReport results of
                               Inl e \<Rightarrow> Fatal (ReportFatal e)
                             | Inr _ \<Rightarrow> Exit (run_exit results) results)))))"

record VerifyFlags =
  vf_Config :: string
  vf_Golden :: string
  vf_Baseline :: string

text \<open>The preflight only logs: whether a MySQL target was never seeded.\<close>

definition seed_warning :: "(MySQL \<Rightarrow> string + Marker option) \<Rightarrow> Config_rec \<Rightarrow> bool" where
  "seed_warning readMarker cfg \<longleftrightarrow>
     (case PrimaryMySQL (New_stack cfg) of
        None \<Rightarrow> False
      | Some m \<Rightarrow> (case readMarker m of Inr (Some _) \<Rightarrow> False | _ \<Rightarrow> True))"

definition verify_exit :: "Result list \<Rightarrow> int" where
  "verify_exit results =
     (if list_all (\<lambda>r. r_Verdict r = Match \<or> r_Verdict r = Noise) results then 0 else 1)"

text \<open>\<open>loadRun\<close> and \<open>applyBaseline\<close> are those of the report package.\<close>

definition cmdVerify ::
  "(string \<Rightarrow> cfg_error + Config_rec) \<Rightarrow> (string \<Rightarrow> corpus_error + Meta \<times> Entry list) \<Rightarrow>
   (Config_rec \<Rightarrow> string option) \<Rightarrow> (Config_rec \<Rightarrow> Entry list \<Rightarrow> Result list) \<Rightarrow> (string \<Rightarrow> string + 'b) \<Rightarrow>
   (Result list \<Rightarrow> 'b \<Rightarrow> Result list) \<Rightarrow> (Result list \<Rightarrow> string + string) \<Rightarrow> VerifyFlags \<Rightarrow>
   Result list outcome_of" where
  "cmdVerify loadConfig readGolden start run loadRun applyBaseline writeReport fl =
     (if vf_Config fl = '''' \<or> vf_Golden fl = '''' then Exit 2 []
      else
        (case loadConfig (vf_Config fl) of
           Inl e \<Rightarrow> Fatal (ConfigFatal e)
         | Inr cfg \<Rightarrow>
             (case readGolden (vf_Golden fl) of
                Inl e \<Rightarrow> Fatal (GoldenFatal e)
              | Inr (meta, entries) \<Rightarrow>
                  (case start cfg of
                     Some e \<Rightarrow> Fatal (StartFatal e)
                   | None \<Rightarrow>
                       (let results = run cfg entries
                        in case (if vf_Baseline fl = '''' then Inr results
                                 else map_sum id (applyBaseline results) (loadRun (vf_Baseline fl))) of
                             Inl e \<Rightarrow> Fatal (BaselineFatal e)
                           | Inr results \<Rightarrow>
                               (case writeReport results of
                                  Inl e \<Rightarrow> Fatal (ReportFatal e)
                                | Inr _ \<Rightarrow> Exit (verify_exit results) results))))))"

text \<open>\<open>run\<close> exits with 0 exactly when everything worked and every result is a match.\<close>

lemma cmdRun_zero_iff:
  "exit_code (cmdRun loadConfig loadCorpus start run writeReport fl) = 0 \<longleftrightarrow>
     rf_Config fl \<noteq> '''' \<and> rf_Corpus fl \<noteq> '''' \<and>
     (\<exists>cfg specs path. loadConfig (rf_Config fl) = Inr cfg \<and> BaseURL (Old_stack cfg) \<noteq> '''' \<and>
       loadCorpus (rf_Corpus fl) = Inr specs \<and> start cfg = None \<and> writeReport (run cfg specs) = Inr path \<and>
       (\<forall>r \<in> set (run cfg specs). r_Verdict r = Match))"
  by (auto simp: cmdRun_def exit_code_def run_exit_def Let_def list_all_iff
      split: sum.split option.split if_splits)


text \<open>\<open>verify\<close> exits with 0 exactly when everything worked and every result, after the baseline, is a
  match or noise.\<close>

definition baseline_results ::
  "(string \<Rightarrow> string + 'b) \<Rightarrow> (Result list \<Rightarrow> 'b \<Rightarrow> Result list) \<Rightarrow> string \<Rightarrow> Result list \<Rightarrow> Result list option" where
  "baseline_results loadRun applyBaseline path results =
     (if path = '''' then Some results
      else (case loadRun path of Inl _ \<Rightarrow> None | Inr b \<Rightarrow> Some (applyBaseline results b)))"

lemma cmdVerify_zero_iff:
  "exit_code (cmdVerify loadConfig readGolden start run loadRun applyBaseline writeReport fl) = 0 \<longleftrightarrow>
     vf_Config fl \<noteq> '''' \<and> vf_Golden fl \<noteq> '''' \<and>
     (\<exists>cfg meta entries results path. loadConfig (vf_Config fl) = Inr cfg \<and>
       readGolden (vf_Golden fl) = Inr (meta, entries) \<and> start cfg = None \<and>
       baseline_results loadRun applyBaseline (vf_Baseline fl) (run cfg entries) = Some results \<and>
       writeReport results = Inr path \<and>
       (\<forall>r \<in> set results. r_Verdict r = Match \<or> r_Verdict r = Noise))"
proof (cases "vf_Config fl = '''' \<or> vf_Golden fl = ''''")
  case True
  then show ?thesis by (auto simp: cmdVerify_def exit_code_def)
next
  case flags: False
  show ?thesis
  proof (cases "loadConfig (vf_Config fl)")
    case (Inl e)
    with flags show ?thesis by (simp add: cmdVerify_def exit_code_def)
  next
    case cfg: (Inr cfg)
    show ?thesis
    proof (cases "readGolden (vf_Golden fl)")
      case (Inl e)
      with flags cfg show ?thesis by (simp add: cmdVerify_def exit_code_def)
    next
      case (Inr me)
      moreover obtain meta entries where "me = (meta, entries)" by (cases me) blast
      ultimately have gold: "readGolden (vf_Golden fl) = Inr (meta, entries)" by simp
      have written: "exit_code (case writeReport results of Inl e \<Rightarrow> Fatal (ReportFatal e)
            | Inr _ \<Rightarrow> Exit (verify_exit results) results) = 0 \<longleftrightarrow>
          (\<exists>path. writeReport results = Inr path) \<and>
          (\<forall>r \<in> set results. r_Verdict r = Match \<or> r_Verdict r = Noise)" for results
        by (cases "writeReport results") (simp_all add: exit_code_def verify_exit_def list_all_iff)
      show ?thesis
      proof (cases "start cfg")
        case None
        show ?thesis
        proof (cases "vf_Baseline fl = ''''")
          case True
          with flags cfg gold None written [of "run cfg entries"] show ?thesis
            by (simp add: cmdVerify_def baseline_results_def Let_def)
        next
          case False
          then show ?thesis
          proof (cases "loadRun (vf_Baseline fl)")
            case (Inl e)
            with flags cfg gold None False show ?thesis
              by (simp add: cmdVerify_def baseline_results_def Let_def exit_code_def)
          next
            case (Inr b)
            with flags cfg gold None False written [of "applyBaseline (run cfg entries) b"] show ?thesis
              by (simp add: cmdVerify_def baseline_results_def Let_def)
          qed
        qed
      qed (use flags cfg gold in \<open>simp add: cmdVerify_def exit_code_def\<close>)
    qed
  qed
qed

section \<open>seed\<close>

record SeedFlags =
  sf_Config :: string
  sf_From :: string
  sf_FromUser :: string
  sf_FromPassword :: string
  sf_Schemas :: string
  sf_Exclude :: string
  sf_Golden :: string

definition seed_source :: "SeedFlags \<Rightarrow> MySQL" where
  "seed_source fl =
     (let (host, port) =
            (case cut_at (CHR '':'') (sf_From fl) of
               None \<Rightarrow> (sf_From fl, 3306)
             | Some (h, p) \<Rightarrow> (h, case atoi p of (v, ok) \<Rightarrow> if ok then v else 3306))
      in \<lparr>my_Host = host, my_Port = port, my_User = sf_FromUser fl, my_Password = sf_FromPassword fl\<rparr>)"

definition seed_options :: "SeedFlags \<Rightarrow> Seed_Options" where
  "seed_options fl =
     \<lparr>so_Schemas = (if sf_Schemas fl = '''' then [] else split_on (CHR '','') (sf_Schemas fl)),
      so_ExcludeTables = set (filter (\<lambda>t. t \<noteq> '''') (map trim_space (split_on (CHR '','') (sf_Exclude fl)))),
      so_GoldenName = sf_Golden fl\<rparr>"

definition cmdSeed ::
  "(string \<Rightarrow> cfg_error + Config_rec) \<Rightarrow>
   (MySQL \<Rightarrow> MySQL \<Rightarrow> Seed_Options \<Rightarrow> 'w \<Rightarrow> (string + Seed_Stats) \<times> 'w) \<Rightarrow> SeedFlags \<Rightarrow> 'w \<Rightarrow>
   Seed_Stats option outcome_of \<times> 'w" where
  "cmdSeed loadConfig seed fl w =
     (if sf_Config fl = '''' \<or> sf_From fl = '''' then (Exit 2 None, w)
      else
        (case loadConfig (sf_Config fl) of
           Inl e \<Rightarrow> (Fatal (ConfigFatal e), w)
         | Inr cfg \<Rightarrow>
             (case PrimaryMySQL (New_stack cfg) of
                None \<Rightarrow> (Fatal SeedTargetFatal, w)
              | Some dst \<Rightarrow>
                  (case seed (seed_source fl) dst (seed_options fl) w of
                     (Inl e, w) \<Rightarrow> (Fatal (SeedFatal e), w)
                   | (Inr stats, w) \<Rightarrow> (Exit 0 (Some stats), w)))))"

text \<open>A port that is not a number is silently 3306, and the schemas, unlike the tables, are not trimmed.\<close>

lemma bad_port_ignored:
  "my_Port (seed_source \<lparr>sf_Config = ''c'', sf_From = ''db:33o7'', sf_FromUser = '''', sf_FromPassword = '''',
     sf_Schemas = ''a, b'', sf_Exclude = ''t, u'', sf_Golden = ''''\<rparr>) = 3306"
  by code_simp

lemma schemas_not_trimmed:
  "let opts = seed_options \<lparr>sf_Config = ''c'', sf_From = ''db'', sf_FromUser = '''', sf_FromPassword = '''',
       sf_Schemas = ''a, b'', sf_Exclude = ''t, u'', sf_Golden = ''''\<rparr>
   in so_Schemas opts = [''a'', '' b''] \<and> so_ExcludeTables opts = {''t'', ''u''}"
  by code_simp

section \<open>Collecting\<close>

record CollectFlags =
  cf_Iface :: string
  cf_Port :: int
  cf_Out :: string
  cf_Sample :: f64
  cf_SampleWrites :: bool
  cf_Pcap :: string
  cf_Listen :: string

definition set_sampling :: "CollectFlags \<Rightarrow> Output \<Rightarrow> Output" where
  "set_sampling fl out = out\<lparr>SampleRate := cf_Sample fl, SampleAllWrites := \<not> cf_SampleWrites fl\<rparr>"

text \<open>\<open>file\<close> opens the output; a source yields the exchanges it paired, each with the number drawn for
  the sampling, and the error it ended with.\<close>

definition collect_into ::
  "string \<Rightarrow> (string \<Rightarrow> string + string) \<Rightarrow> string \<Rightarrow> CollectFlags \<Rightarrow>
   (f64 \<times> Exchange) list \<times> string option \<Rightarrow> Output option outcome_of" where
  "collect_into now open_file label fl source =
     (case NewOutput now (cf_Out fl) label (open_file (cf_Out fl)) of
        Inl e \<Rightarrow> Fatal (OutputFatal e)
      | Inr out \<Rightarrow>
          (case snd source of
             Some e \<Rightarrow> Fatal (SourceFatal e)
           | None \<Rightarrow> Exit 0 (Some (Sink_all (fst source) (set_sampling fl out)))))"

definition cmdSniff ::
  "string \<Rightarrow> (string \<Rightarrow> string + string) \<Rightarrow> string + iface list \<Rightarrow>
   (string \<Rightarrow> int \<Rightarrow> (f64 \<times> Exchange) list \<times> string option) \<Rightarrow> CollectFlags \<Rightarrow> Output option outcome_of" where
  "cmdSniff now open_file ifaces live fl =
     (if cf_Port fl = 0 \<or> cf_Out fl = '''' then Exit 2 None
      else
        (case (if cf_Iface fl = '''' then DefaultInterface ifaces else Inr (cf_Iface fl)) of
           Inl e \<Rightarrow> Fatal (InterfaceFatal e)
         | Inr iface \<Rightarrow> collect_into now open_file (''sniff://'' @ iface) fl (live iface (cf_Port fl))))"

definition cmdConvert ::
  "string \<Rightarrow> (string \<Rightarrow> string + string) \<Rightarrow>
   (string \<Rightarrow> int \<Rightarrow> (f64 \<times> Exchange) list \<times> string option) \<Rightarrow> CollectFlags \<Rightarrow> Output option outcome_of" where
  "cmdConvert now open_file pcap fl =
     (if cf_Pcap fl = '''' \<or> cf_Port fl = 0 \<or> cf_Out fl = '''' then Exit 2 None
      else collect_into now open_file (''pcap://'' @ cf_Pcap fl) fl (pcap (cf_Pcap fl) (cf_Port fl)))"

definition cmdMirror ::
  "string \<Rightarrow> (string \<Rightarrow> string + string) \<Rightarrow>
   (string \<Rightarrow> int \<Rightarrow> (f64 \<times> Exchange) list \<times> string option) \<Rightarrow> CollectFlags \<Rightarrow> Output option outcome_of" where
  "cmdMirror now open_file mirror fl =
     (if cf_Port fl = 0 \<or> cf_Out fl = '''' then Exit 2 None
      else collect_into now open_file (''mirror://'' @ cf_Listen fl) fl (mirror (cf_Listen fl) (cf_Port fl)))"

text \<open>\<open>linkAgent\<close>: the reporter, which is told the counter every three seconds.\<close>

definition version :: string where
  "version = ''0.4.0-dev''"

definition linkAgent ::
  "'w send \<Rightarrow> (string \<Rightarrow> string option) \<Rightarrow> string \<Rightarrow> string \<Rightarrow> string \<Rightarrow> string \<Rightarrow> string \<Rightarrow> string \<Rightarrow> 'w \<Rightarrow>
   Reporter option \<times> 'w" where
  "linkAgent send decodeId hostname dashboard token name mode out w =
     Connect send decodeId hostname dashboard token name mode out version w"

definition link_tick :: "Output \<Rightarrow> Reporter option \<Rightarrow> Reporter option" where
  "link_tick out r = Update (of_nat (fst (Stats out))) '''' r"

text \<open>\<open>stopChannel\<close>: when the channel is closed, given the time of the first signal, if one comes.\<close>

definition stopChannel :: "int \<Rightarrow> int option \<Rightarrow> int option" where
  "stopChannel after sig =
     (if 0 < after then Some (case sig of None \<Rightarrow> after | Some t \<Rightarrow> min t after) else sig)"

text \<open>The recording proxy without the dashboard.\<close>

record ProxyFlags =
  pf_Config :: string
  pf_Listen :: string
  pf_Upstream :: string
  pf_Out :: string

definition plain_opts :: "bool \<Rightarrow> RecOptions" where
  "plain_opts gold =
     \<lparr>Golden_mode = gold, Serialize = False, rec_Attribution = \<lparr>QuietMs = 0, TimeoutMs = 0, CheckInnodbTrx = None\<rparr>,
      NoiseColumns = [], rec_TablesIgnore = []\<rparr>"

definition cmdCollectProxy ::
  "(string \<Rightarrow> cfg_error + Config_rec) \<Rightarrow>
   (string \<Rightarrow> string \<Rightarrow> string \<Rightarrow> RecOptions \<Rightarrow> source option \<Rightarrow> string + Recorder) \<Rightarrow>
   (Recorder \<Rightarrow> Recorder) \<Rightarrow> ProxyFlags \<Rightarrow> Recorder option outcome_of" where
  "cmdCollectProxy loadConfig start record_until_stop fl =
     (if pf_Out fl = '''' then Exit 2 None
      else
        (let gold = IsGoldenFile (pf_Out fl)
         in case (if pf_Config fl = '''' then Inr (pf_Upstream fl, plain_opts gold, None)
                  else
                    (case loadConfig (pf_Config fl) of
                       Inl e \<Rightarrow> Inl (ConfigFatal e)
                     | Inr cfg \<Rightarrow>
                         Inr (if pf_Upstream fl = '''' then BaseURL (Old_stack cfg) else pf_Upstream fl,
                              capture_opts gold cfg, capture_source gold cfg))) of
              Inl e \<Rightarrow> Fatal e
            | Inr (upstream, opts, src) \<Rightarrow>
                if upstream = '''' then Fatal UpstreamFatal
                else
                  (case start (pf_Listen fl) upstream (pf_Out fl) opts src of
                     Inl e \<Rightarrow> Fatal (ProxyFatal e)
                   | Inr r \<Rightarrow> Exit 0 (Some (Stop_capture (record_until_stop r))))))"

record AgentFlags =
  af_Dashboard :: string
  af_Token :: string
  af_Name :: string
  af_Dir :: string
  af_Iface :: string

definition agent_iface :: "string + iface list \<Rightarrow> AgentFlags \<Rightarrow> string" where
  "agent_iface ifaces fl =
     (if af_Iface fl = '''' then (case DefaultInterface ifaces of Inl _ \<Rightarrow> '''' | Inr d \<Rightarrow> d) else af_Iface fl)"

text \<open>\<open>runDaemon\<close> returns an error or, when its context ends, none.\<close>

definition cmdCollectAgent ::
  "string + iface list \<Rightarrow> (string \<Rightarrow> string \<Rightarrow> string \<Rightarrow> string \<Rightarrow> string \<Rightarrow> string option) \<Rightarrow> AgentFlags \<Rightarrow>
   unit outcome_of" where
  "cmdCollectAgent ifaces runDaemon fl =
     (if af_Dashboard fl = '''' then Exit 2 ()
      else
        (case runDaemon (af_Dashboard fl) (af_Token fl) (af_Name fl) (af_Dir fl) (agent_iface ifaces fl) of
           Some e \<Rightarrow> Fatal (AgentFatal e)
         | None \<Rightarrow> Exit 0 ()))"

section \<open>mcp and dashboard\<close>

definition cmdMCP :: "'w client \<Rightarrow> string \<Rightarrow> string \<Rightarrow> string \<Rightarrow> 'w \<Rightarrow> string outcome_of \<times> 'w" where
  "cmdMCP client dashboard token input w =
     (case Run_mcp \<lparr>ms_dashboard = dashboard, ms_token = token, ms_client = client\<rparr> input w of
        ((out, complete), w) \<Rightarrow> (if complete then Exit 0 out else Fatal (ServeFatal ''token too long''), w))"

text \<open>The dashboard is only served with a configuration that loads; serving ends with an error.\<close>

definition cmdUI ::
  "(string \<Rightarrow> cfg_error + Config_rec) \<Rightarrow> (string \<Rightarrow> string \<Rightarrow> string \<Rightarrow> string option) \<Rightarrow> string \<Rightarrow> string \<Rightarrow> string \<Rightarrow>
   unit outcome_of" where
  "cmdUI loadConfig serve config addr token =
     (case loadConfig config of
        Inl e \<Rightarrow> Fatal (ConfigFatal e)
      | Inr _ \<Rightarrow> (case serve addr config token of Some e \<Rightarrow> Fatal (ServeFatal e) | None \<Rightarrow> Exit 0 ()))"

text \<open>A usage error of a command is the exit code 2 and nothing else.\<close>

lemma usage_errors:
  "cf_Out fl = '''' \<Longrightarrow> exit_code (cmdSniff now open_file ifaces live fl) = 2"
  "cf_Out fl = '''' \<Longrightarrow> exit_code (cmdConvert now open_file pcap fl) = 2"
  "cf_Out fl = '''' \<Longrightarrow> exit_code (cmdMirror now open_file mirror fl) = 2"
  by (simp_all add: cmdSniff_def cmdConvert_def cmdMirror_def exit_code_def)

end
