(* ===== verification/Remote.thy ===== *)
theory Remote
  imports Control "HOL-Library.Sublist"
begin

text \<open>
  The dashboard's registry (\<open>internal/ui/agents.go\<close>) and a collector daemon (\<open>internal/agent/daemon.go\<close>) as
  one system, joined by the heartbeat: the daemon posts, the dashboard answers with the queued
  commands as JSON, the daemon decodes and executes them.  A heartbeat may be lost on the way, or its
  answer may.  The theorem is what a user of the dashboard relies on: the daemon executes the commands
  in the order in which they were given, none twice, and all of them when no answer is lost.
\<close>

section \<open>Commands on the wire\<close>

fun dec_f64 :: "jval option \<Rightarrow> f64 option" where
  "dec_f64 None = Some (FFin 0 0)"
| "dec_f64 (Some JNull) = Some (FFin 0 0)"
| "dec_f64 (Some (JNum s)) = num_f64 s"
| "dec_f64 (Some _) = None"

text \<open>The decoder goes on after a field of the wrong type, which keeps its zero value.\<close>

definition or_zero :: "'a \<Rightarrow> 'a option \<Rightarrow> 'a" where
  "or_zero z v = (case v of None \<Rightarrow> z | Some x \<Rightarrow> x)"

definition dec_command :: "jval \<Rightarrow> Command" where
  "dec_command j =
     (let kvs = or_zero [] (dec_struct (Some j)) in
      \<lparr>cm_Action = or_zero '''' (dec_string (field ''action'' kvs)),
       cm_Mode = or_zero '''' (dec_string (field ''mode'' kvs)),
       cm_Iface = or_zero '''' (dec_string (field ''iface'' kvs)),
       cm_Port = sint (or_zero 0 (dec_int (field ''port'' kvs))),
       cm_Listen = or_zero '''' (dec_string (field ''listen'' kvs)),
       cm_Upstream = or_zero '''' (dec_string (field ''upstream'' kvs)),
       cm_Golden = or_zero False (dec_bool (field ''golden'' kvs)),
       cm_Sample = or_zero (FFin 0 0) (dec_f64 (field ''sample'' kvs)),
       cm_Name = or_zero '''' (dec_string (field ''name'' kvs)),
       cm_DurationMin = sint (or_zero 0 (dec_int (field ''duration_min'' kvs)))\<rparr>)"

text \<open>The body \<open>writeJSON\<close> sends, with the encoder's newline, and what the daemon reads of it.\<close>

definition reply_body :: "reply \<Rightarrow> string" where
  "reply_body r = (case marshal (snd r) of Inl _ \<Rightarrow> '''' | Inr j \<Rightarrow> print_json j @ [CHR 0x0A])"

definition decode_reply :: "string \<Rightarrow> Command list" where
  "decode_reply body =
     (case json_object body of
        None \<Rightarrow> []
      | Some kvs \<Rightarrow> map dec_command (or_zero [] (dec_array (field ''commands'' kvs))))"

text \<open>The command a queued row stands for.\<close>

definition command_of :: "row \<Rightarrow> Command" where
  "command_of r = dec_command (jtree (GMap r))"

lemma parse_print_newline: "valid_j j \<Longrightarrow> parse_json (print_json j @ [CHR 0x0A]) = Some j"
proof -
  assume v: "valid_j j"
  have w: "\<forall>c \<in> set [CHR 0x0A]. json_ws c" by (simp add: json_ws_def byte_def)
  have "lex (print_json j @ [CHR 0x0A]) = Some (toks j)" "lex (print_json j) = Some (toks j)"
    using lexesD [OF lexes_after [OF w lexes_print [OF v]], of "[]"] lexesD [OF lexes_print [OF v], of "[]"]
    by (simp_all add: no_num_def)
  with parse_print [OF v] show ?thesis by (simp add: parse_json_def)
qed

lemma beat_reply_json:
  assumes "\<forall>r \<in> set rows. json_val (GMap r)"
  shows "json_val (GMap [(''commands'', GArr (map GMap rows)), (''ok'', GBool True)])"
proof -
  have "json_val (GArr (map GMap rows))" using assms by (simp del: json_val.simps(5))
  moreover have "valid_utf8 ''commands''" "valid_utf8 ''ok''" by (rule utf8_lit, simp)+
  ultimately show ?thesis
    unfolding json_val.simps(5) [of "[(''commands'', GArr (map GMap rows)), (''ok'', GBool True)]"]
    by (simp add: keys_def del: json_val.simps(5,6))
qed

lemma sorted_reply_keys: "sort_key fst [(''commands'', a), (''ok'', b)] = [(''commands'', a), (''ok'', b)]"
proof -
  have "''commands'' \<le> ''ok''" by simp
  then show ?thesis by simp
qed

text \<open>What the daemon decodes are the commands that were queued.\<close>

lemma decode_beat_reply:
  assumes "\<forall>r \<in> set rows. json_val (GMap r)"
  shows "decode_reply (reply_body (beat_reply rows)) = map command_of rows"
proof -
  let ?v = "GMap [(''commands'', GArr (map GMap rows)), (''ok'', GBool True)]"
  let ?o = "[(''commands'', JArr (map (\<lambda>r. jtree (GMap r)) rows)), (''ok'', JBool True)]"
  have t: "jtree ?v = JObj ?o" by (simp add: sorted_reply_keys comp_def del: sort_key_simps)
  have "json_object (print_json (JObj ?o) @ [CHR 0x0A]) = Some ?o"
    using parse_print_newline [OF valid_j_json_val [OF beat_reply_json [OF assms]]]
    by (simp only: t json_object_def option.case dec_struct.simps)
  moreover have "reply_body (beat_reply rows) = print_json (JObj ?o) @ [CHR 0x0A]"
    using marshal_json_val [OF beat_reply_json [OF assms]]
    by (simp add: reply_body_def beat_reply_def writeJSON_def t del: jtree.simps print_json.simps marshal.simps)
  moreover have "field ''commands'' ?o = Some (JArr (map (\<lambda>r. jtree (GMap r)) rows))"
    by (simp add: field_def to_lower_def lower_char_def byte_def)
  ultimately show ?thesis by (simp add: decode_reply_def or_zero_def command_of_def comp_def del: jtree.simps)
qed


section \<open>The joint system\<close>

text \<open>The registry, the daemon, and the commands the daemon has executed so far.\<close>

record System =
  sy_reg :: Registry
  sy_daemon :: Daemon
  sy_done :: "Command list"

text \<open>A step: a request of somebody else to the registry, something that happens to the daemon, a
  heartbeat that does not arrive, or one that does, whose answer comes back or not.\<close>

datatype system_event =
    AtDashboard reg_event
  | AtDaemon daemon_event
  | BeatLost
  | Beat string HeartbeatReq clock "string \<Rightarrow> string + string" bool

definition beat_answer :: "bool \<Rightarrow> reply \<Rightarrow> string + string" where
  "beat_answer answered r =
     (if \<not> answered then Inl ''timeout''
      else if 400 \<le> fst r then Inl ''dashboard returned an error''
      else Inr (reply_body r))"

definition execute :: "clock \<Rightarrow> (string \<Rightarrow> string + string) \<Rightarrow> Command list \<Rightarrow> System \<Rightarrow> System" where
  "execute ck file cmds S =
     S\<lparr>sy_daemon := foldl (\<lambda>d cmd. exec_command ck file cmd d) (sy_daemon S) cmds,
       sy_done := sy_done S @ cmds\<rparr>"

definition sys_step :: "string \<Rightarrow> system_event \<Rightarrow> System \<Rightarrow> System" where
  "sys_step token ev S =
     (case ev of
        AtDashboard e \<Rightarrow> S\<lparr>sy_reg := snd (reg_step token e (sy_reg S))\<rparr>
      | AtDaemon e \<Rightarrow> S\<lparr>sy_daemon := daemon_step e (sy_daemon S)\<rparr>
      | BeatLost \<Rightarrow> S
      | Beat hdr req ck file answered \<Rightarrow>
          (case agentHeartbeat token hdr (Inr req) (ck_now ck) (sy_reg S) of
             (r, reg) \<Rightarrow>
               execute ck file (beat_commands decode_reply (beat_answer answered r)) (S\<lparr>sy_reg := reg\<rparr>)))"

definition sys_run :: "string \<Rightarrow> system_event list \<Rightarrow> System \<Rightarrow> System" where
  "sys_run token evs S = foldl (\<lambda>S ev. sys_step token ev S) S evs"

lemma sys_run_simps [simp]:
  "sys_run token [] S = S" "sys_run token (ev # evs) S = sys_run token evs (sys_step token ev S)"
  "sys_run token (evs @ evs') S = sys_run token evs' (sys_run token evs S)"
  by (simp_all add: sys_run_def)

text \<open>The steps of a system whose daemon is \<open>k\<close> and has the token: only it sends heartbeats as \<open>k\<close>, and
  it executes commands only when a heartbeat brings them.\<close>

definition step_of :: "string \<Rightarrow> string \<Rightarrow> system_event \<Rightarrow> bool" where
  "step_of token k ev \<longleftrightarrow>
     (case ev of
        AtDashboard (HeartbeatEv hdr (Inr req) _) \<Rightarrow> \<not> (checkToken token hdr \<and> hb_ID req = k)
      | AtDaemon (ExecEv _ _ _) \<Rightarrow> False
      | Beat hdr req _ _ _ \<Rightarrow> checkToken token hdr \<and> hb_ID req = k
      | _ \<Rightarrow> True)"

text \<open>The commands given to \<open>k\<close>, and whether an answer that carries commands is lost.\<close>

definition given :: "string \<Rightarrow> system_event list \<Rightarrow> row list" where
  "given k evs = concat (map (\<lambda>ev. case ev of AtDashboard e \<Rightarrow> accepted k e | _ \<Rightarrow> []) evs)"

definition answer_kept :: "system_event \<Rightarrow> bool" where
  "answer_kept ev \<longleftrightarrow> (case ev of Beat _ _ _ _ answered \<Rightarrow> answered | _ \<Rightarrow> True)"

lemma given_Nil [simp]: "given k [] = []"
  by (simp add: given_def)

lemma given_Cons: "given k (ev # evs) = given k [ev] @ given k evs"
  by (simp add: given_def)

text \<open>A request to the registry appends what it gives.\<close>

lemma queued_dashboard:
  assumes "known_agent k reg" and "step_of token k (AtDashboard e)"
  shows "queued k (snd (reg_step token e reg)) = queued k reg @ accepted k e"
proof -
  have "handed token k e r = []" for r
    using assms(2) by (auto simp: handed_def step_of_def split: reg_event.splits sum.splits)
  moreover have "commands.quiet_mail token k (mail_of token k e)"
    using quiet_mail_of [of token k "[e]"] by simp
  ultimately show ?thesis
    using commands.mail_step_fifo [OF assms(1), of token "mail_of token k e"] mail_of_step [OF assms(1), of token e]
      posted_mail_of [of token k "[e]"]
    by simp
qed

text \<open>A heartbeat takes everything that is queued; its answer carries it.\<close>

lemma heartbeat_takes:
  assumes "known_agent k reg" and "checkToken token hdr" and "hb_ID req = k"
    and "agentHeartbeat token hdr (Inr req) now reg = (r, reg')"
  shows "r = beat_reply (queued k reg)" and "queued k reg' = []" and "known_agent k reg'"
proof -
  obtain cmds reg1 where b: "beat_agent k (req, now) reg = (cmds, reg1)"
    by (cases "beat_agent k (req, now) reg") blast
  with assms(2-4) have "r = beat_reply cmds" "reg' = reg1"
    by (auto simp: agentHeartbeat_def Let_def)
  with b commands.fetch_takes [OF assms(1), of "(req, now)"] commands.fetch_empties [OF assms(1), of "(req, now)"]
    known_beat [OF assms(1), of k "(req, now)"]
  show "r = beat_reply (queued k reg)" "queued k reg' = []" "known_agent k reg'" by auto
qed

lemma beat_reply_ok [simp]: "fst (beat_reply rows) = 200"
  by (simp add: beat_reply_def writeJSON_def)

definition pending :: "string \<Rightarrow> System \<Rightarrow> row list" where
  "pending k S = queued k (sy_reg S)"

text \<open>One step: what is executed and what is still queued grow by what is given; a lost answer loses
  what was queued.\<close>

lemma sys_step_commands:
  assumes "known_agent k (sy_reg S)" and "step_of token k ev"
    and "\<forall>r \<in> set (pending k S). json_val (GMap r)"
    and "S' = sys_step token ev S"
  shows "known_agent k (sy_reg S') \<and> set (pending k S') \<subseteq> set (pending k S) \<union> set (given k [ev]) \<and>
    (if answer_kept ev
     then sy_done S' @ map command_of (pending k S') = sy_done S @ map command_of (pending k S @ given k [ev])
     else sy_done S' = sy_done S \<and> pending k S' = [])"
proof (cases ev)
  case (AtDashboard e)
  then show ?thesis
    using assms queued_dashboard [OF assms(1), of token e] known_step [OF assms(1), of token e]
    by (simp add: sys_step_def pending_def given_def answer_kept_def)
next
  case (Beat hdr req ck fl answered)
  obtain r reg where h: "agentHeartbeat token hdr (Inr req) (ck_now ck) (sy_reg S) = (r, reg)"
    by (cases "agentHeartbeat token hdr (Inr req) (ck_now ck) (sy_reg S)") blast
  have own: "checkToken token hdr" "hb_ID req = k" using assms(2) Beat by (simp_all add: step_of_def)
  note taken = heartbeat_takes [OF assms(1) own h]
  show ?thesis
    using taken assms(3)
    by (simp add: assms(4) Beat sys_step_def h execute_def pending_def given_def answer_kept_def
        beat_answer_def beat_commands_def decode_beat_reply)
qed (simp_all add: assms(1,4) sys_step_def pending_def given_def answer_kept_def)

text \<open>A run: nothing is executed twice or out of order, and nothing is lost but with an answer.\<close>

lemma sys_run_commands:
  assumes "known_agent k (sy_reg S)" and "list_all (step_of token k) evs"
    and "\<forall>r \<in> set (pending k S) \<union> set (given k evs). json_val (GMap r)"
  shows "subseq (sy_done (sys_run token evs S) @ map command_of (pending k (sys_run token evs S)))
      (sy_done S @ map command_of (pending k S @ given k evs)) \<and>
    known_agent k (sy_reg (sys_run token evs S)) \<and>
    (list_all answer_kept evs \<longrightarrow>
      sy_done (sys_run token evs S) @ map command_of (pending k (sys_run token evs S)) =
      sy_done S @ map command_of (pending k S @ given k evs))"
  using assms
proof (induction evs arbitrary: S)
  case (Cons ev evs)
  let ?S = "sys_step token ev S"
  have ev: "step_of token k ev" and evs: "list_all (step_of token k) evs" using Cons.prems(2) by simp_all
  have val: "\<forall>r \<in> set (pending k S). json_val (GMap r)" using Cons.prems(3) by blast
  note one = sys_step_commands [OF Cons.prems(1) ev val refl]
  have "\<forall>r \<in> set (pending k ?S) \<union> set (given k evs). json_val (GMap r)"
    using one Cons.prems(3) by (auto simp: given_Cons [of k ev evs])
  note rest = Cons.IH [OF conjunct1 [OF one] evs this]
  have sub: "subseq (sy_done ?S @ map command_of (pending k ?S @ given k evs))
      (sy_done S @ map command_of (pending k S @ given k (ev # evs)))"
  proof (cases "answer_kept ev")
    case True
    then have "sy_done ?S @ map command_of (pending k ?S @ given k evs) =
        sy_done S @ map command_of (pending k S @ given k (ev # evs))"
      using one given_Cons [of k ev evs] by simp
    then show ?thesis by simp
  next
    case False
    have "subseq (sy_done S @ map command_of (given k evs))
        (sy_done S @ (map command_of (pending k S @ given k [ev]) @ map command_of (given k evs)))"
      unfolding subseq_append' by (rule list_emb_append2) simp
    then show ?thesis using False one given_Cons [of k ev evs] by simp
  qed
  have "list_all answer_kept (ev # evs) \<longrightarrow>
      sy_done (sys_run token evs ?S) @ map command_of (pending k (sys_run token evs ?S)) =
      sy_done S @ map command_of (pending k S @ given k (ev # evs))"
    using one rest given_Cons [of k ev evs] by simp
  with rest sub show ?case by (auto intro: subseq_order.order_trans)
qed simp


text \<open>A heartbeat that gets through leaves nothing queued.\<close>

lemma beat_empties:
  assumes "known_agent k (sy_reg S)" and "checkToken token hdr" and "hb_ID req = k"
  shows "pending k (sys_step token (Beat hdr req ck fl answered) S) = []"
proof -
  obtain r reg where h: "agentHeartbeat token hdr (Inr req) (ck_now ck) (sy_reg S) = (r, reg)"
    by (cases "agentHeartbeat token hdr (Inr req) (ck_now ck) (sy_reg S)") blast
  from heartbeat_takes [OF assms h] show ?thesis by (simp add: pending_def sys_step_def h execute_def)
qed

text \<open>
  C10.  The console commands the collector.  Take a registered collector with nothing queued for it, and a
  dashboard that is not restarted and that gets heartbeats under this collector's id (with an accepted
  token) from its daemon only; the daemon executes what the answers tell it and nothing else
  (\<open>step_of\<close>), and the commands are given as JSON.  Whatever else happens at the dashboard and at the
  daemon, and whichever heartbeats or answers are lost on the way, the daemon executes a subsequence of
  the commands given to it, decoded from the JSON of the answers, so none out of order, twice or made up;
  and as long as no answer is lost it has executed a prefix of them, and its next heartbeat that gets
  through executes all of them.  (Ids repeat after a restart of the dashboard: then another collector's
  heartbeat may come under the same id, and takes the commands.)
\<close>

theorem commands_executed:
  assumes "reg_reach token (sy_reg S)" and "agent (sy_reg S) k \<noteq> None"
    and "sy_done S = []" and "queued k (sy_reg S) = []"
    and "list_all (step_of token k) evs" and "\<forall>r \<in> set (given k evs). json_val (GMap r)"
    and "S' = sys_run token evs S"
  shows "subseq (sy_done S') (map command_of (given k evs)) \<and>
    (list_all answer_kept evs \<longrightarrow>
      prefix (sy_done S') (map command_of (given k evs)) \<and>
      (checkToken token hdr \<and> hb_ID req = k \<longrightarrow>
        sy_done (sys_step token (Beat hdr req ck fl True) S') = map command_of (given k evs)))"
proof -
  let ?beat = "Beat hdr req ck fl True"
  have known: "known_agent k (sy_reg S)" using assms(1,2) registry_ok_reach by (simp add: known_agent_def)
  have none: "pending k S = []" using assms(4) by (simp add: pending_def)
  have run: "subseq (sy_done S' @ map command_of (pending k S')) (map command_of (given k evs))"
    "known_agent k (sy_reg S')"
    "list_all answer_kept evs \<Longrightarrow> sy_done S' @ map command_of (pending k S') = map command_of (given k evs)"
    using sys_run_commands [OF known assms(5)] none assms(3,6) by (simp_all add: assms(7))
  have "sy_done (sys_step token ?beat S') = map command_of (given k evs)"
    if "list_all answer_kept evs" and own: "checkToken token hdr \<and> hb_ID req = k"
  proof -
    have "given k (evs @ [?beat]) = given k evs" by (simp add: given_def)
    then show ?thesis
      using sys_run_commands [OF known, of token "evs @ [?beat]"] none assms(3,5,6) that
        beat_empties [OF run(2), of token hdr req ck fl True]
      by (simp add: step_of_def answer_kept_def assms(7))
  qed
  moreover have "subseq (sy_done S') (map command_of (given k evs))"
    using run(1) by (rule subseq_order.order_trans [rotated]) (simp add: prefix_imp_subseq)
  moreover have "prefix (sy_done S') (map command_of (given k evs))" if "list_all answer_kept evs"
    using run(3) [OF that] by (metis prefixI)
  ultimately show ?thesis by blast
qed

definition demo_system :: System where
  "demo_system =
     \<lparr>sy_reg = snd (reg_step ''t'' (RegisterEv ''t'' (Inr \<lparr>rq_Name = ''host'', rq_Mode = ''agent'', rq_Version = ''daemon'',
        rq_Out = ''/rec''\<rparr>) ''10.0.0.1:9'' 0) newAgentRegistry),
      sy_daemon = new_daemon ''/rec'' ''eth0'' (True, ''ok''), sy_done = []\<rparr>"

definition demo_hb :: HeartbeatReq where
  "demo_hb = \<lparr>hb_ID = ''agent-1'', hb_State = ''idle'', hb_Count = 0, hb_Current = '''', hb_RemainSec = 0,
     hb_Recordings = Some [], hb_CaptureOK = True, hb_CaptureDetail = ''ok'', hb_Iface = ''eth0'',
     hb_LastError = ''''\<rparr>"

definition demo_steps :: "system_event list" where
  "demo_steps =
     [AtDashboard (CommandEv (Inr [(''id'', GStr ''agent-1''), (''action'', GStr ''start''), (''port'', GF64 (FFin 5 4))])),
      BeatLost,
      AtDashboard (CommandEv (Inr [(''id'', GStr ''agent-1''), (''action'', GStr ''stop'')]))]"

lemma demo_commands:
  "cm_Action (command_of [(''action'', GStr ''start''), (''port'', GF64 (FFin 5 4))]) = ''start''"
  "cm_Port (command_of [(''action'', GStr ''start''), (''port'', GF64 (FFin 5 4))]) = 80"
  "cm_Action (command_of [(''action'', GStr ''stop'')]) = ''stop''"
  "cm_Port (command_of [(''action'', GStr ''stop'')]) = 0"
proof -
  have "map (\<lambda>r. (cm_Action (command_of r), cm_Port (command_of r)))
      [[(''action'', GStr ''start''), (''port'', GF64 (FFin 5 4))], [(''action'', GStr ''stop'')]] =
      [(''start'', 80), (''stop'', 0)]" by code_simp
  then show "cm_Action (command_of [(''action'', GStr ''start''), (''port'', GF64 (FFin 5 4))]) = ''start''"
    "cm_Port (command_of [(''action'', GStr ''start''), (''port'', GF64 (FFin 5 4))]) = 80"
    "cm_Action (command_of [(''action'', GStr ''stop'')]) = ''stop''"
    "cm_Port (command_of [(''action'', GStr ''stop'')]) = 0" by simp_all
qed

theorem commands_executed_witness:
  "map (\<lambda>c. (cm_Action c, cm_Port c)) (sy_done (sys_step ''t''
     (Beat ''t'' demo_hb \<lparr>ck_now = 0, ck_created = '''', ck_stamp = ''''\<rparr> (\<lambda>_. Inr '''') True)
     (sys_run ''t'' demo_steps demo_system))) = [(''start'', 80), (''stop'', 0)]"
proof -
  have g: "given ''agent-1'' demo_steps =
      [[(''action'', GStr ''start''), (''port'', GF64 (FFin 5 4))], [(''action'', GStr ''stop'')]]" by code_simp
  have names: "list_all valid_utf8 [''action'', ''port'', ''start'', ''stop'']" by (simp add: utf8_lit del: valid_utf8.simps)
  have num: "num_f64 (fmt_f64 (FFin 5 4)) = Some (FFin 5 4) \<and> valid_num (fmt_f64 (FFin 5 4))" by code_simp
  have reach: "reg_reach ''t'' (sy_reg demo_system)"
    unfolding demo_system_def System.simps by (intro reg_reach.intros)
  have start: "agent (sy_reg demo_system) ''agent-1'' \<noteq> None" "queued ''agent-1'' (sy_reg demo_system) = []"
    by code_simp+
  have steps: "list_all (step_of ''t'' ''agent-1'') demo_steps" "list_all answer_kept demo_steps"
    by (simp_all add: demo_steps_def step_of_def answer_kept_def)
  have vals: "\<forall>r \<in> set (given ''agent-1'' demo_steps). json_val (GMap r)"
    using names num by (simp add: g keys_def del: fmt_f64.simps valid_utf8.simps)
  have cmds: "map (\<lambda>c. (cm_Action c, cm_Port c)) (map command_of (given ''agent-1'' demo_steps)) =
      [(''start'', 80), (''stop'', 0)]" unfolding g by (simp add: demo_commands)
  have fresh: "sy_done demo_system = []" by (simp add: demo_system_def)
  have own: "checkToken ''t'' ''t'' \<and> hb_ID demo_hb = ''agent-1''" by (simp add: checkToken_def demo_hb_def)
  have "sy_done (sys_step ''t''
      (Beat ''t'' demo_hb \<lparr>ck_now = 0, ck_created = '''', ck_stamp = ''''\<rparr> (\<lambda>_. Inr '''') True)
      (sys_run ''t'' demo_steps demo_system)) = map command_of (given ''agent-1'' demo_steps)"
    using commands_executed [OF reach start(1) fresh start(2) steps(1) vals refl] steps(2) own by blast
  then show ?thesis by (simp only: cmds)
qed

end
