(* ===== verification/OneShot.thy ===== *)
theory OneShot
  imports Cli Remote Checks
begin

text \<open>
  A one-shot collector (\<open>collect\<close>, \<open>collect mirror\<close> of \<open>cmd/mockingbox/main.go\<close>) that is linked to a
  dashboard: registration, the counter it tells every three seconds, heartbeats, and at the end the
  upload of the recording (\<open>internal/agent/agent.go\<close>); joined with the dashboard's HTTP side, from the
  bytes of the request to its handlers (\<open>internal/ui/agents.go\<close>).  The theorem follows a recording from
  the exchanges that were captured to the file a replay on the dashboard loads.
\<close>

section \<open>Requests to the dashboard\<close>

text \<open>The registry, the recordings, the time, the way to the dashboard, and what its disk answers to the
  creation of the directory and to the writing of a file.\<close>

datatype network = Up | AnswersLost | Down

record Dashboard =
  da_reg :: Registry
  da_files :: file_store
  da_now :: int
  da_net :: network
  da_mkdir :: "string option"
  da_write :: "write_error option"

record site =
  si_url :: string
  si_token :: string
  si_dir :: string
  si_remote :: string

text \<open>\<open>url.ParseQuery\<close> and \<open>Get\<close>: a part with a semicolon or a malformed escape does not count.\<close>

fun unescape_query :: "string \<Rightarrow> string option" where
  "unescape_query [] = Some []"
| "unescape_query (c # cs) =
     (if c = CHR 0x25 then
        (case cs of
           a # b # cs \<Rightarrow>
             (case (hex_val a, hex_val b) of
                (Some x, Some y) \<Rightarrow> map_option ((#) (chr (16 * x + y))) (unescape_query cs)
              | _ \<Rightarrow> None)
         | _ \<Rightarrow> None)
      else map_option ((#) (if c = CHR ''+'' then CHR '' '' else c)) (unescape_query cs))"

definition query_part :: "string \<Rightarrow> (string \<times> string) option" where
  "query_part s =
     (if s = '''' \<or> CHR '';'' \<in> set s then None
      else
        (case (case cut_at (CHR ''='') s of None \<Rightarrow> (s, '''') | Some kv \<Rightarrow> kv) of
           (k, v) \<Rightarrow>
             (case (unescape_query k, unescape_query v) of (Some k, Some v) \<Rightarrow> Some (k, v) | _ \<Rightarrow> None)))"

definition query_get :: "string \<Rightarrow> string \<Rightarrow> string" where
  "query_get name q =
     (case map_of (List.map_filter query_part (split_on (CHR ''&'') q)) name of
        None \<Rightarrow> '''' | Some v \<Rightarrow> v)"

text \<open>The bodies of the collectors' requests; a field of the wrong kind fails the request.\<close>

definition decode_register :: "string \<Rightarrow> string + RegisterReq" where
  "decode_register body =
     (case json_object body of
        None \<Rightarrow> Inl ''invalid JSON''
      | Some kvs \<Rightarrow>
          (case (dec_string (field ''Name'' kvs), dec_string (field ''Mode'' kvs),
                 dec_string (field ''Version'' kvs), dec_string (field ''Out'' kvs)) of
             (Some n, Some m, Some v, Some out) \<Rightarrow>
               Inr \<lparr>rq_Name = n, rq_Mode = m, rq_Version = v, rq_Out = out\<rparr>
           | _ \<Rightarrow> Inl ''wrong type''))"

text \<open>A null in the list of recordings is taken for an empty entry.\<close>

fun dec_recordings :: "jval option \<Rightarrow> row list option option" where
  "dec_recordings None = Some None"
| "dec_recordings (Some JNull) = Some None"
| "dec_recordings (Some (JArr js)) =
     map_option (\<lambda>rs. Some (map (or_zero []) rs)) (those (map (\<lambda>j. dec_row (Some j)) js))"
| "dec_recordings (Some _) = None"

definition decode_heartbeat :: "string \<Rightarrow> string + HeartbeatReq" where
  "decode_heartbeat body =
     (case json_object body of
        None \<Rightarrow> Inl ''invalid JSON''
      | Some kvs \<Rightarrow>
          (case (dec_string (field ''id'' kvs), dec_string (field ''state'' kvs), dec_int (field ''count'' kvs),
                 dec_string (field ''current'' kvs), dec_int (field ''remain_sec'' kvs)) of
             (Some k, Some st, Some n, Some cur, Some rem) \<Rightarrow>
               (case (dec_recordings (field ''recordings'' kvs), dec_bool (field ''capture_ok'' kvs),
                      dec_string (field ''capture_detail'' kvs), dec_string (field ''iface'' kvs),
                      dec_string (field ''last_error'' kvs)) of
                  (Some recs, Some ok, Some det, Some ifc, Some err) \<Rightarrow>
                    Inr \<lparr>hb_ID = k, hb_State = st, hb_Count = n, hb_Current = cur, hb_RemainSec = rem,
                      hb_Recordings = recs, hb_CaptureOK = ok, hb_CaptureDetail = det, hb_Iface = ifc,
                      hb_LastError = err\<rparr>
                | _ \<Rightarrow> Inl ''wrong type'')
           | _ \<Rightarrow> Inl ''wrong type''))"

definition header :: "string \<Rightarrow> (string \<times> string) list \<Rightarrow> string" where
  "header name hs = (case map_of hs name of None \<Rightarrow> '''' | Some v \<Rightarrow> v)"

text \<open>A POST, by the target of its request line; other handlers are not reached by collectors.\<close>

definition dash_handle ::
  "site \<Rightarrow> string \<Rightarrow> (string \<times> string) list \<Rightarrow> string \<Rightarrow> Dashboard \<Rightarrow> reply \<times> Dashboard" where
  "dash_handle si target hs body D =
     (let (path, query) = (case cut_at (CHR ''?'') target of None \<Rightarrow> (target, '''') | Some pq \<Rightarrow> pq);
          hdr = header ''X-MB-Token'' hs;
          h = serve_route ''POST'' path
      in if h = Some ''agentRegister'' then
           (case agentRegister (si_token si) hdr (decode_register body) (si_remote si) (da_now D) (da_reg D) of
              (r, reg) \<Rightarrow> (r, D\<lparr>da_reg := reg\<rparr>))
         else if h = Some ''agentHeartbeat'' then
           (case agentHeartbeat (si_token si) hdr (decode_heartbeat body) (da_now D) (da_reg D) of
              (r, reg) \<Rightarrow> (r, D\<lparr>da_reg := reg\<rparr>))
         else if h = Some ''agentUpload'' then
           (case agentUpload (si_token si) hdr (si_dir si) (query_get ''name'' query) (Inr body)
                   (da_mkdir D) (da_write D) (da_files D) of
              (r, fs) \<Rightarrow> (r, D\<lparr>da_files := fs\<rparr>))
         else ((404, GNil), D))"

text \<open>The HTTP client and the server's reading of the request line: a control byte in the URL is
  refused by the client, a fragment is not sent, and a blank breaks the request line.  A request may not
  reach the dashboard, or its answer may be lost.\<close>

definition dash_send :: "site \<Rightarrow> Dashboard send" where
  "dash_send si url hs body D =
     (if list_ex (\<lambda>c. byte c < 32 \<or> byte c = 127) url then (Inl ''invalid control character in URL'', D)
      else if \<not> has_prefix url (si_url si) then (Inl ''no such host'', D)
      else if da_net D = Down then (Inl ''connection refused'', D)
      else
        (let target = takeWhile (\<lambda>c. c \<noteq> CHR ''#'') (drop (length (si_url si)) url)
         in if CHR '' '' \<in> set target then (Inr (400, ''400 Bad Request'', ''''), D)
            else
              (case dash_handle si target hs body D of
                 (r, D') \<Rightarrow>
                   (if da_net D = AnswersLost then Inl ''timeout''
                    else Inr (fst r, nat_str (fst r), reply_body r), D'))))"

definition decode_id :: "string \<Rightarrow> string option" where
  "decode_id body =
     (case json_object body of None \<Rightarrow> None | Some kvs \<Rightarrow> dec_string (field ''id'' kvs))"

section \<open>The collector\<close>

record LinkFlags =
  lf_Dashboard :: string
  lf_Token :: string
  lf_Name :: string

text \<open>What happens while a source runs: an exchange is captured (and the collector's own disk takes it),
  the counter is told, the reporter's heartbeat is due (the first at once, the others every ten seconds),
  or something happens at the dashboard or on the way to it that this collector has no part in.\<close>

datatype collect_event =
    Captured f64 Exchange | CountTick | BeatDue | RegistryStep reg_event | FilesChange file_store | TimeIs int
  | NetworkIs network | DiskIs "string option" "write_error option"

definition collect_step ::
  "site \<Rightarrow> collect_event \<Rightarrow> Output \<times> Reporter option \<times> Dashboard \<Rightarrow> Output \<times> Reporter option \<times> Dashboard" where
  "collect_step si ev S =
     (case S of (out, r, D) \<Rightarrow>
       case ev of
         Captured draw ex \<Rightarrow> (Sink draw True ex out, r, D)
       | CountTick \<Rightarrow> (out, link_tick out r, D)
       | BeatDue \<Rightarrow> (out, r, case r of None \<Rightarrow> D | Some rp \<Rightarrow> reporter_beat (dash_send si) rp D)
       | RegistryStep e \<Rightarrow> (out, r, D\<lparr>da_reg := snd (reg_step (si_token si) e (da_reg D))\<rparr>)
       | FilesChange fs \<Rightarrow> (out, r, D\<lparr>da_files := fs\<rparr>)
       | TimeIs t \<Rightarrow> (out, r, D\<lparr>da_now := t\<rparr>)
       | NetworkIs net \<Rightarrow> (out, r, D\<lparr>da_net := net\<rparr>)
       | DiskIs mkdirErr writeErr \<Rightarrow> (out, r, D\<lparr>da_mkdir := mkdirErr, da_write := writeErr\<rparr>))"

definition output_file :: "Output \<Rightarrow> string option" where
  "output_file out = (case out_golden out of Some f \<Rightarrow> Some f | None \<Rightarrow> out_rawFile out)"

text \<open>The body of \<open>cmdSniff\<close> and \<open>cmdMirror\<close> after their guards: open the output, set the sampling, link,
  run the source, which ends with an error or none; then close the output and upload what it holds.\<close>

definition linked_collect ::
  "site \<Rightarrow> string \<Rightarrow> string \<Rightarrow> (string \<Rightarrow> string + string) \<Rightarrow> string \<Rightarrow> string \<Rightarrow> CollectFlags \<Rightarrow> LinkFlags \<Rightarrow>
   collect_event list \<Rightarrow> string option \<Rightarrow> Dashboard \<Rightarrow> Output option outcome_of \<times> Reporter option \<times> Dashboard" where
  "linked_collect si hostname now open_file mode label fl link evs srcErr D =
     (case NewOutput now (cf_Out fl) label (open_file (cf_Out fl)) of
        Inl e \<Rightarrow> (Fatal (OutputFatal e), None, D)
      | Inr out \<Rightarrow>
          (case linkAgent (dash_send si) decode_id hostname (lf_Dashboard link) (lf_Token link) (lf_Name link)
                  mode (cf_Out fl) D of
             (r, D) \<Rightarrow>
               (case foldl (\<lambda>S ev. collect_step si ev S) (set_sampling fl out, r, D) evs of
                  (out, r, D) \<Rightarrow>
                    (case srcErr of
                       Some e \<Rightarrow> (Fatal (SourceFatal e), r, D)
                     | None \<Rightarrow>
                         (case Finish (dash_send si) (\<lambda>p. if p = cf_Out fl then output_file out else None)
                                 (cf_Out fl) r D of
                            (r, D) \<Rightarrow> (Exit 0 (Some out), r, D))))))"

definition linked_sniff ::
  "site \<Rightarrow> string \<Rightarrow> string \<Rightarrow> (string \<Rightarrow> string + string) \<Rightarrow> string + iface list \<Rightarrow> CollectFlags \<Rightarrow> LinkFlags \<Rightarrow>
   (string \<Rightarrow> collect_event list \<times> string option) \<Rightarrow> Dashboard \<Rightarrow> Output option outcome_of \<times> Reporter option \<times> Dashboard" where
  "linked_sniff si hostname now open_file ifaces fl link live D =
     (if cf_Port fl = 0 \<or> cf_Out fl = '''' then (Exit 2 None, None, D)
      else
        (case (if cf_Iface fl = '''' then DefaultInterface ifaces else Inr (cf_Iface fl)) of
           Inl e \<Rightarrow> (Fatal (InterfaceFatal e), None, D)
         | Inr iface \<Rightarrow>
             linked_collect si hostname now open_file ''sniff'' (''sniff://'' @ iface) fl link
               (fst (live iface)) (snd (live iface)) D))"

definition linked_mirror ::
  "site \<Rightarrow> string \<Rightarrow> string \<Rightarrow> (string \<Rightarrow> string + string) \<Rightarrow> CollectFlags \<Rightarrow> LinkFlags \<Rightarrow>
   collect_event list \<times> string option \<Rightarrow> Dashboard \<Rightarrow> Output option outcome_of \<times> Reporter option \<times> Dashboard" where
  "linked_mirror si hostname now open_file fl link mirror D =
     (if cf_Port fl = 0 \<or> cf_Out fl = '''' then (Exit 2 None, None, D)
      else linked_collect si hostname now open_file ''mirror'' (''mirror://'' @ cf_Listen fl) fl link
             (fst mirror) (snd mirror) D)"

text \<open>What was captured, and the output's counter when it was told last.\<close>

fun captures :: "collect_event list \<Rightarrow> (f64 \<times> Exchange) list" where
  "captures [] = []"
| "captures (Captured draw ex # evs) = (draw, ex) # captures evs"
| "captures (_ # evs) = captures evs"

fun told :: "collect_event list \<Rightarrow> Output \<Rightarrow> nat \<Rightarrow> nat" where
  "told [] out n = n"
| "told (Captured draw ex # evs) out n = told evs (Sink draw True ex out) n"
| "told (CountTick # evs) out n = told evs out (fst (Stats out))"
| "told (_ # evs) out n = told evs out n"

text \<open>Without a dashboard nothing but the output is left: the command is the one of \<open>Cli\<close>.\<close>

lemma foldl_unlinked:
  "\<exists>D'. foldl (\<lambda>S ev. collect_step si ev S) (out, None, D) evs = (Sink_all (captures evs) out, None, D')"
  by (induction evs arbitrary: out D rule: captures.induct)
    (auto simp: collect_step_def Sink_all_def link_tick_def Update_def)

lemma linked_sniff_alone:
  assumes "lf_Dashboard link = ''''"
  shows "fst (linked_sniff si hostname now open_file ifaces fl link live D) =
    cmdSniff now open_file ifaces (\<lambda>iface port. (captures (fst (live iface)), snd (live iface))) fl"
proof -
  have "fst (linked_collect si hostname now open_file mode label fl link evs srcErr D) =
      collect_into now open_file label fl (captures evs, srcErr)" for mode label evs srcErr
  proof (cases "NewOutput now (cf_Out fl) label (open_file (cf_Out fl))")
    case (Inr out)
    obtain D' where "foldl (\<lambda>S ev. collect_step si ev S) (set_sampling fl out, None, D) evs =
        (Sink_all (captures evs) (set_sampling fl out), None, D')" using foldl_unlinked by blast
    with assms Inr show ?thesis
      by (auto simp: linked_collect_def collect_into_def linkAgent_def Connect_def Finish_def split: option.splits)
  qed (simp add: linked_collect_def collect_into_def)
  then show ?thesis by (auto simp: linked_sniff_def cmdSniff_def split: sum.splits)
qed

section \<open>The wire\<close>


lemma digits_plain: "list_all (\<lambda>c. is_digit c) (nat_str n)"
  by (auto simp: nat_str_def list_all_iff dest: dec_str_digits)

lemma agent_id_plain: "list_all (\<lambda>c. name_char c \<and> byte c < 128) (agent_id n)"
proof -
  have "list_all (\<lambda>c. name_char c \<and> byte c < 128) ''agent-''" by (simp add: name_char_def byte_def)
  moreover have "list_all (\<lambda>c. name_char c \<and> byte c < 128) (nat_str n)"
    using digits_plain [of n] by (auto simp: list_all_iff name_char_def is_digit_def)
  ultimately show ?thesis by (simp add: agent_id_def del: append_Cons)
qed

lemma name_char_plain:
  assumes "name_char c"
  shows "32 < byte c" "byte c < 127" "c \<noteq> CHR ''#''" "c \<noteq> CHR ''&''" "c \<noteq> CHR '';''" "c \<noteq> CHR ''=''"
    "c \<noteq> CHR 0x25" "c \<noteq> CHR ''+''" "c \<noteq> CHR ''?''"
  using assms by (auto simp: name_char_def is_digit_def byte_def)

definition url_char :: "char \<Rightarrow> bool" where
  "url_char c \<longleftrightarrow> 32 < byte c \<and> byte c < 127 \<and> c \<noteq> CHR ''#''"

lemma name_char_url: "name_char c \<Longrightarrow> url_char c"
  using name_char_plain [of c] by (simp add: url_char_def)

text \<open>A site whose address can be the front of a URL.\<close>

definition site_ok :: "site \<Rightarrow> bool" where
  "site_ok si \<longleftrightarrow> si_url si \<noteq> '''' \<and> list_all url_char (si_url si)"

definition token_header :: "string \<Rightarrow> string \<Rightarrow> (string \<times> string) list" where
  "token_header ct token = (''Content-Type'', ct) # (if token \<noteq> '''' then [(''X-MB-Token'', token)] else [])"

lemma header_token [simp]: "header ''X-MB-Token'' (token_header ct token) = token"
  by (simp add: header_def token_header_def)

lemma post_dash:
  assumes "site_ok si" "list_all url_char path"
  shows "post (dash_send si) (si_url si) token path ct body D =
    (if da_net D = Down then (Inl ''connection refused'', D)
     else
       (case dash_handle si path (token_header ct token) body D of
          (r, D') \<Rightarrow>
            (if da_net D = AnswersLost then Inl ''timeout''
             else if 400 \<le> fst r then Inl (''dashboard returned '' @ nat_str (fst r)) else Inr (reply_body r), D')))"
proof -
  have u: "list_all url_char (si_url si @ path)" using assms by (simp add: site_ok_def)
  have n: "(byte x < 32 \<or> byte x = 127) = False" if "url_char x" for x using that by (simp add: url_char_def)
  have c: "list_ex (\<lambda>c. byte c < 32 \<or> byte c = 127) (si_url si @ path) = False"
    using u n unfolding list_ex_iff list_all_iff by blast
  have h: "x \<noteq> CHR ''#''" if "url_char x" for x using that by (simp add: url_char_def)
  have t: "takeWhile (\<lambda>c. c \<noteq> CHR ''#'') path = path"
    using assms(2) h by (simp add: takeWhile_eq_all_conv list_all_iff)
  have "\<not> url_char (CHR '' '')" by (simp add: url_char_def byte_def)
  then have b: "(CHR '' '' \<in> set path) = False" using assms(2) unfolding list_all_iff by blast
  have p: "has_prefix (si_url si @ path) (si_url si) = True" by (simp add: has_prefix_def)
  have d: "drop (length (si_url si)) (si_url si @ path) = path" by simp
  have s: "dash_send si (si_url si @ path) hs body D =
      (if da_net D = Down then (Inl ''connection refused'', D)
       else
         (case dash_handle si path hs body D of (r, D') \<Rightarrow>
            (if da_net D = AnswersLost then Inl ''timeout'' else Inr (fst r, nat_str (fst r), reply_body r), D')))" for hs
    by (simp only: dash_send_def c p d t b Let_def if_False not_True_eq_False)
  obtain r D' where h: "dash_handle si path (token_header ct token) body D = (r, D')"
    by (cases "dash_handle si path (token_header ct token) body D") blast
  have "post (dash_send si) (si_url si) token path ct body D =
      (case dash_send si (si_url si @ path) (token_header ct token) body D of
         (Inl e, w) \<Rightarrow> (Inl e, w)
       | (Inr (code, status, rbody), w) \<Rightarrow>
           if 400 \<le> code then (Inl (''dashboard returned '' @ status), w) else (Inr rbody, w))"
    by (simp only: post_def token_header_def Let_def)
  then show ?thesis
    unfolding s h by (cases "400 \<le> fst r"; cases "da_net D")
      (simp_all only: prod.case sum.case if_True if_False network.distinct simp_thms)
qed

lemma post_dash_world:
  assumes "site_ok si" "list_all url_char path"
  shows "snd (post (dash_send si) (si_url si) token path ct body D) =
    (if da_net D = Down then D else snd (dash_handle si path (token_header ct token) body D))"
  unfolding post_dash [OF assms] by (cases "dash_handle si path (token_header ct token) body D") simp

text \<open>Registration: the dashboard gives the next id, and the collector reads it.\<close>

lemma field_lits:
  "field ''Name'' [(''name'', a), (''mode'', b), (''version'', c), (''out'', d)] = Some a"
  "field ''Mode'' [(''name'', a), (''mode'', b), (''version'', c), (''out'', d)] = Some b"
  "field ''Version'' [(''name'', a), (''mode'', b), (''version'', c), (''out'', d)] = Some c"
  "field ''Out'' [(''name'', a), (''mode'', b), (''version'', c), (''out'', d)] = Some d"
  "field ''id'' [(''id'', a)] = Some a"
proof -
  have capitals: "map lower_char ''NMVO'' = ''nmvo''" by code_simp
  have "to_lower ''Name'' = ''name''" "to_lower ''Mode'' = ''mode''" "to_lower ''Version'' = ''version''"
    "to_lower ''Out'' = ''out''" "to_lower ''name'' = ''name''" "to_lower ''mode'' = ''mode''"
    "to_lower ''version'' = ''version''" "to_lower ''out'' = ''out''" "to_lower ''id'' = ''id''"
    using capitals by (simp_all add: to_lower_def lower_char_def byte_def)
  note l = this
  show "field ''Name'' [(''name'', a), (''mode'', b), (''version'', c), (''out'', d)] = Some a"
    "field ''Mode'' [(''name'', a), (''mode'', b), (''version'', c), (''out'', d)] = Some b"
    "field ''Version'' [(''name'', a), (''mode'', b), (''version'', c), (''out'', d)] = Some c"
    "field ''Out'' [(''name'', a), (''mode'', b), (''version'', c), (''out'', d)] = Some d"
    "field ''id'' [(''id'', a)] = Some a"
    by (simp_all add: field_def l)
qed

lemma decode_register_body:
  assumes "valid_utf8 n" "valid_utf8 m" "valid_utf8 v" "valid_utf8 out"
  shows "decode_register (register_body n m v out) = Inr \<lparr>rq_Name = n, rq_Mode = m, rq_Version = v, rq_Out = out\<rparr>"
proof -
  have "valid_utf8 ''mode''" "valid_utf8 ''out''" by (rule utf8_lit, simp)+
  then have "valid_j (JObj [(''name'', JStr n), (''mode'', JStr m), (''version'', JStr v), (''out'', JStr out)])"
    using assms valid_names by simp
  from json_object_print [OF this] show ?thesis
    by (simp add: decode_register_def register_body_def field_lits del: print_json.simps)
qed

lemma decode_id_reply:
  assumes "valid_utf8 k"
  shows "decode_id (reply_body (writeJSON (GMap [(''id'', GStr k)]))) = Some k"
proof -
  have i: "valid_utf8 ''id''" by (rule utf8_lit) simp
  have j: "json_val (GMap [(''id'', GStr k)])" using assms i by (simp add: keys_def)
  have t: "jtree (GMap [(''id'', GStr k)]) = JObj [(''id'', JStr k)]" by simp
  have "parse_json (print_json (JObj [(''id'', JStr k)]) @ [CHR 0x0A]) = Some (JObj [(''id'', JStr k)])"
    using parse_print_newline [OF valid_j_json_val [OF j]] by (simp only: t)
  moreover have "reply_body (writeJSON (GMap [(''id'', GStr k)])) = print_json (JObj [(''id'', JStr k)]) @ [CHR 0x0A]"
    using marshal_json_val [OF j] by (simp add: reply_body_def writeJSON_def t del: print_json.simps marshal.simps jtree.simps)
  ultimately show ?thesis by (simp add: decode_id_def json_object_def field_lits del: print_json.simps)
qed


text \<open>A heartbeat: the dashboard reads the reporter's fields; what it does not send is zero there.\<close>

definition reporter_req :: "Reporter \<Rightarrow> HeartbeatReq" where
  "reporter_req r =
     \<lparr>hb_ID = rp_id r, hb_State = rp_state r, hb_Count = rp_count r, hb_Current = '''', hb_RemainSec = 0,
      hb_Recordings = None, hb_CaptureOK = False, hb_CaptureDetail = '''', hb_Iface = '''',
      hb_LastError = rp_lastErr r\<rparr>"

definition beat_obj :: "Reporter \<Rightarrow> jobj" where
  "beat_obj r =
     [(''count'', JNum (int_str (sint (rp_count r)))), (''id'', JStr (rp_id r)),
      (''last_error'', JStr (rp_lastErr r)), (''state'', JStr (rp_state r))]"

definition reporter_ok :: "Reporter \<Rightarrow> bool" where
  "reporter_ok r \<longleftrightarrow> valid_utf8 (rp_id r) \<and> valid_utf8 (rp_state r) \<and> valid_utf8 (rp_lastErr r)"

lemma payload_obj: "payload_text (beat_payload r) = print_json (JObj (beat_obj r))"
proof -
  have "''count'' \<le> ''id''" "''id'' \<le> ''last_error''" "''last_error'' \<le> ''state''" by simp_all
  then show ?thesis
    by (simp add: payload_text_def beat_payload_def beat_obj_def del: print_json.simps)
qed

lemma field_beat:
  "field ''id'' (beat_obj r) = Some (JStr (rp_id r))"
  "field ''state'' (beat_obj r) = Some (JStr (rp_state r))"
  "field ''count'' (beat_obj r) = Some (JNum (int_str (sint (rp_count r))))"
  "field ''last_error'' (beat_obj r) = Some (JStr (rp_lastErr r))"
  "field ''current'' (beat_obj r) = None" "field ''remain_sec'' (beat_obj r) = None"
  "field ''recordings'' (beat_obj r) = None" "field ''capture_ok'' (beat_obj r) = None"
  "field ''capture_detail'' (beat_obj r) = None" "field ''iface'' (beat_obj r) = None"
proof -
  have "to_lower ''id'' = ''id''" "to_lower ''state'' = ''state''" "to_lower ''count'' = ''count''"
    "to_lower ''last_error'' = ''last_error''" "to_lower ''current'' = ''current''"
    "to_lower ''remain_sec'' = ''remain_sec''" "to_lower ''recordings'' = ''recordings''"
    "to_lower ''capture_ok'' = ''capture_ok''" "to_lower ''capture_detail'' = ''capture_detail''"
    "to_lower ''iface'' = ''iface''" by (simp_all add: to_lower_def lower_char_def byte_def)
  note l = this
  show "field ''id'' (beat_obj r) = Some (JStr (rp_id r))"
    "field ''state'' (beat_obj r) = Some (JStr (rp_state r))"
    "field ''count'' (beat_obj r) = Some (JNum (int_str (sint (rp_count r))))"
    "field ''last_error'' (beat_obj r) = Some (JStr (rp_lastErr r))"
    "field ''current'' (beat_obj r) = None" "field ''remain_sec'' (beat_obj r) = None"
    "field ''recordings'' (beat_obj r) = None" "field ''capture_ok'' (beat_obj r) = None"
    "field ''capture_detail'' (beat_obj r) = None" "field ''iface'' (beat_obj r) = None"
    by (simp_all add: field_def beat_obj_def l)
qed

lemma decode_beat_payload:
  assumes "reporter_ok r"
  shows "decode_heartbeat (payload_text (beat_payload r)) = Inr (reporter_req r)"
proof -
  have "valid_utf8 ''count''" "valid_utf8 ''id''" "valid_utf8 ''last_error''" "valid_utf8 ''state''" by (rule utf8_lit, simp)+
  then have "valid_j (JObj (beat_obj r))" using assms by (simp add: beat_obj_def reporter_ok_def)
  from json_object_print [OF this] show ?thesis
    by (simp add: decode_heartbeat_def payload_obj field_beat reporter_req_def dec_int_print
        del: print_json.simps dec_int.simps(3))
qed

lemma url_paths:
  "list_all url_char ''/api/agents/register''" "list_all url_char ''/api/agents/heartbeat''"
  "list_all url_char ''/api/agents/upload?id=''" "list_all url_char ''&name=''"
  by (simp_all add: url_char_def byte_def)

lemma agent_paths:
  "cut_at (CHR ''?'') ''/api/agents/register'' = None" "cut_at (CHR ''?'') ''/api/agents/heartbeat'' = None"
  "serve_route ''POST'' ''/api/agents/register'' = Some ''agentRegister''"
  "serve_route ''POST'' ''/api/agents/heartbeat'' = Some ''agentHeartbeat''"
  "serve_route ''POST'' ''/api/agents/upload'' = Some ''agentUpload''"
  by (simp_all add: serve_route_def routes_def)

lemma dash_register:
  "dash_handle si ''/api/agents/register'' hs body D =
     (case agentRegister (si_token si) (header ''X-MB-Token'' hs) (decode_register body) (si_remote si)
             (da_now D) (da_reg D) of (r, reg) \<Rightarrow> (r, D\<lparr>da_reg := reg\<rparr>))"
  unfolding dash_handle_def agent_paths option.case prod.case Let_def by simp

lemma dash_heartbeat:
  "dash_handle si ''/api/agents/heartbeat'' hs body D =
     (case agentHeartbeat (si_token si) (header ''X-MB-Token'' hs) (decode_heartbeat body) (da_now D) (da_reg D) of
        (r, reg) \<Rightarrow> (r, D\<lparr>da_reg := reg\<rparr>))"
  unfolding dash_handle_def agent_paths option.case prod.case Let_def by simp

lemma dash_upload:
  "dash_handle si (''/api/agents/upload'' @ CHR ''?'' # query) hs body D =
     (case agentUpload (si_token si) (header ''X-MB-Token'' hs) (si_dir si) (query_get ''name'' query) (Inr body)
             (da_mkdir D) (da_write D) (da_files D) of (r, fs) \<Rightarrow> (r, D\<lparr>da_files := fs\<rparr>))"
proof -
  have "CHR ''?'' \<notin> set ''/api/agents/upload''" by simp
  note c = cut_at_append [OF this, of query]
  show ?thesis
    unfolding dash_handle_def c agent_paths option.case prod.case Let_def by simp
qed

text \<open>A reporter that is linked to the site with an accepted token.\<close>

definition linked_to :: "site \<Rightarrow> Reporter \<Rightarrow> bool" where
  "linked_to si r \<longleftrightarrow> rp_dashboard r = si_url si \<and> checkToken (si_token si) (rp_token r) \<and> reporter_ok r"

lemma beat_arrives:
  assumes "site_ok si" "linked_to si r"
  shows "reporter_beat (dash_send si) r D =
    (if da_net D = Down then D
     else D\<lparr>da_reg := snd (beat_agent (rp_id r) (reporter_req r, da_now D) (da_reg D))\<rparr>)"
proof -
  have d: "decode_heartbeat (payload_text (beat_payload r)) = Inr (reporter_req r)"
    using decode_beat_payload assms(2) by (simp add: linked_to_def)
  have u: "rp_dashboard r = si_url si" and t: "checkToken (si_token si) (rp_token r)"
    using assms(2) by (simp_all add: linked_to_def)
  have k: "hb_ID (reporter_req r) = rp_id r" by (simp add: reporter_req_def)
  have "snd (dash_handle si ''/api/agents/heartbeat'' (token_header ct (rp_token r)) (payload_text (beat_payload r)) D)
      = D\<lparr>da_reg := snd (beat_agent (rp_id r) (reporter_req r, da_now D) (da_reg D))\<rparr>" for ct
    by (simp add: dash_heartbeat d agentHeartbeat_def t k Let_def split: prod.splits)
  note h = this
  show ?thesis
    unfolding reporter_beat_def u post_dash_world [OF assms(1) url_paths(2)] h by (rule refl)
qed


lemma linked:
  assumes "site_ok si" "checkToken (si_token si) token"
    and "valid_utf8 name" "valid_utf8 hostname" "valid_utf8 mode" "valid_utf8 out"
    and "registry_ok (da_reg D)" "da_net D = Up"
  obtains r reg where "linkAgent (dash_send si) decode_id hostname (si_url si) token name mode out D =
      (Some r, D\<lparr>da_reg := reg\<rparr>)"
    and "linked_to si r" "rp_count r = of_nat 0" "list_all name_char (rp_id r)" "known_agent (rp_id r) reg"
proof -
  let ?n = "if name = '''' then hostname else name"
  let ?q = "\<lparr>rq_Name = ?n, rq_Mode = mode, rq_Version = version, rq_Out = out\<rparr>"
  let ?k = "agent_id (rg_seq (da_reg D) + 1)"
  let ?reg = "snd (agentRegister (si_token si) token (Inr ?q) (si_remote si) (da_now D) (da_reg D))"
  let ?r = "\<lparr>rp_dashboard = si_url si, rp_token = token, rp_id = ?k, rp_state = ''capturing'', rp_count = 0,
    rp_lastErr = '''', rp_stopped = False\<rparr>"
  have v: "valid_utf8 version" "valid_utf8 ''capturing''" unfolding version_def by (rule utf8_lit, simp)+
  have n: "valid_utf8 ?n" using assms(3,4) by simp
  have k: "list_all name_char ?k" "valid_utf8 ?k" "?k \<noteq> ''''"
    using agent_id_plain [of "rg_seq (da_reg D) + 1"]
    by (auto simp: list_all_iff agent_id_def del: append_Cons intro!: valid_utf8_plain)
  have reply: "fst (agentRegister (si_token si) token (Inr ?q) (si_remote si) (da_now D) (da_reg D)) =
      writeJSON (GMap [(''id'', GStr ?k)])"
    using assms(2) by (simp add: agentRegister_def Let_def)
  have h: "dash_handle si ''/api/agents/register'' (token_header ct token) (register_body ?n mode version out) D =
      (writeJSON (GMap [(''id'', GStr ?k)]), D\<lparr>da_reg := ?reg\<rparr>)" for ct
    unfolding dash_register header_token decode_register_body [OF n assms(5) v(1) assms(6)]
    by (simp only: case_prod_beta reply)
  have code: "\<not> 400 \<le> fst (writeJSON (GMap [(''id'', GStr ?k)]))" by (simp add: writeJSON_def)
  have up: "(Up = Down) = False" "(Up = AnswersLost) = False" by simp_all
  have url: "si_url si \<noteq> ''''" using assms(1) by (simp add: site_ok_def)
  have "linkAgent (dash_send si) decode_id hostname (si_url si) token name mode out D =
      (Some ?r, D\<lparr>da_reg := ?reg\<rparr>)"
    unfolding linkAgent_def Connect_def Let_def post_dash [OF assms(1) url_paths(1)] h prod.case if_not_P [OF code]
      assms(8) up if_False sum.case decode_id_reply [OF k(2)] option.case
    using url k(3) by simp
  moreover have "linked_to si ?r" using assms(2) k(2) v(2) by (simp add: linked_to_def reporter_ok_def)
  moreover have "known_agent ?k ?reg"
    using agentRegister_ok [OF assms(7)] assms(2)
    by (simp add: known_agent_def) (simp add: agentRegister_def Let_def agent_def)
  ultimately show thesis using that [of ?r ?reg] k(1) by simp
qed

text \<open>The upload: the name of the recording goes through the query unchanged when it is one the
  dashboard takes.\<close>

lemma unescape_plain: "list_all (\<lambda>c. c \<noteq> CHR 0x25 \<and> c \<noteq> CHR ''+'') s \<Longrightarrow> unescape_query s = Some s"
  by (induction s) auto

lemma query_part_plain:
  assumes "list_all name_char k" "list_all name_char v" "k \<noteq> ''''"
  shows "query_part (k @ CHR ''='' # v) = Some (k, v)"
proof -
  have e: "CHR ''='' \<notin> set k" and s: "CHR '';'' \<notin> set (k @ CHR ''='' # v)"
    using assms(1,2) name_char_plain(5,6) by (auto simp: list_all_iff)
  have "unescape_query k = Some k" "unescape_query v = Some v"
    using assms(1,2) name_char_plain(7,8) by (intro unescape_plain; auto simp: list_all_iff)+
  with s show ?thesis by (simp add: query_part_def cut_at_append [OF e])
qed

lemma upload_name:
  assumes "list_all name_char k" "list_all name_char nm"
  shows "query_get ''name'' (''id='' @ k @ ''&name='' @ nm) = nm"
proof -
  have i: "list_all name_char ''id''" "list_all name_char ''name''" by (simp_all add: name_char_def byte_def)
  have a: "CHR ''&'' \<notin> set (''id='' @ k)" "CHR ''&'' \<notin> set (''name='' @ nm)"
    using assms name_char_plain(4) by (auto simp: list_all_iff)
  have "''id='' @ k @ ''&name='' @ nm = (''id='' @ k) @ CHR ''&'' # (''name='' @ nm)" by simp
  then have "split_on (CHR ''&'') (''id='' @ k @ ''&name='' @ nm) = [''id='' @ k, ''name='' @ nm]"
    by (simp only: split_on_append [OF a(1)] split_on_no_sep [OF a(2)])
  moreover have "query_part (''id='' @ k) = Some (''id'', k)" "query_part (''name='' @ nm) = Some (''name'', nm)"
    using query_part_plain [OF i(1) assms(1)] query_part_plain [OF i(2) assms(2)] by simp_all
  ultimately show ?thesis by (simp add: query_get_def List.map_filter_simps)
qed


section \<open>A run\<close>

lemma told_Sink: "captures (ev # evs) = captures [ev] @ captures evs"
  by (cases ev) simp_all

lemma collect_run:
  assumes "site_ok si" "linked_to si r" "known_agent (rp_id r) (da_reg D)" "rp_count r = of_nat n"
  shows "\<exists>r' D'. foldl (\<lambda>S ev. collect_step si ev S) (out, Some r, D) evs = (Sink_all (captures evs) out, Some r', D') \<and>
    linked_to si r' \<and> rp_id r' = rp_id r \<and> rp_count r' = of_nat (told evs out n) \<and>
    known_agent (rp_id r) (da_reg D')"
  using assms(2-)
proof (induction evs arbitrary: out r D n)
  case Nil
  then show ?case by (simp add: Sink_all_def)
next
  case (Cons ev evs)
  show ?case
  proof (cases ev)
    case (Captured draw ex)
    with Cons.IH [of r D n "Sink draw True ex out"] Cons.prems show ?thesis
      by (simp add: collect_step_def Sink_all_def)
  next
    case CountTick
    let ?r = "r\<lparr>rp_count := of_nat (fst (Stats out)), rp_lastErr := ''''\<rparr>"
    have "linked_to si ?r" using Cons.prems(1) by (simp add: linked_to_def reporter_ok_def)
    with Cons.IH [of ?r D "fst (Stats out)" out] Cons.prems(2) CountTick show ?thesis
      by (simp add: collect_step_def link_tick_def Update_def)
  next
    case BeatDue
    let ?reg = "snd (beat_agent (rp_id r) (reporter_req r, da_now D) (da_reg D))"
    have "known_agent (rp_id r) ?reg" by (rule known_beat [OF Cons.prems(2)])
    with Cons.IH [of r "D\<lparr>da_reg := ?reg\<rparr>" n out] Cons.IH [of r D n out] Cons.prems BeatDue
      beat_arrives [OF assms(1) Cons.prems(1)]
    show ?thesis by (simp add: collect_step_def split: if_splits)
  next
    case (RegistryStep e)
    let ?reg = "snd (reg_step (si_token si) e (da_reg D))"
    have "known_agent (rp_id r) ?reg" by (rule known_step [OF Cons.prems(2)])
    with Cons.IH [of r "D\<lparr>da_reg := ?reg\<rparr>" n out] Cons.prems RegistryStep show ?thesis
      by (simp add: collect_step_def)
  next
    case (FilesChange fs)
    with Cons.IH [of r "D\<lparr>da_files := fs\<rparr>" n out] Cons.prems show ?thesis by (simp add: collect_step_def)
  next
    case (TimeIs t)
    with Cons.IH [of r "D\<lparr>da_now := t\<rparr>" n out] Cons.prems show ?thesis by (simp add: collect_step_def)
  next
    case (NetworkIs net)
    with Cons.IH [of r "D\<lparr>da_net := net\<rparr>" n out] Cons.prems show ?thesis by (simp add: collect_step_def)
  next
    case (DiskIs m e)
    with Cons.IH [of r "D\<lparr>da_mkdir := m, da_write := e\<rparr>" n out] Cons.prems show ?thesis by (simp add: collect_step_def)
  qed
qed

text \<open>A name the dashboard stores a recording under.\<close>

definition recording_name :: "string \<Rightarrow> bool" where
  "recording_name nm \<longleftrightarrow> corpusNamePattern nm \<and> (has_suffix nm ''.jsonl'' \<or> has_suffix nm ''.har'')"

lemma recording_name_base: "recording_name nm \<Longrightarrow> path_base (trim_space nm) = nm"
proof -
  assume a: "recording_name nm"
  then have n: "nm \<noteq> ''''" "list_all name_char nm" by (simp_all add: recording_name_def corpusNamePattern_def)
  have "\<not> is_space c" if "c \<in> set nm" for c
    using n(2) that name_char_plain(1) [of c] by (auto simp: list_all_iff is_space_def byte_def)
  then have "trim_space nm = nm" using n(1) by (intro trim_space_id) auto
  with a n(1) show ?thesis by (simp add: path_base_name corpusNamePattern_no_slash recording_name_def)
qed

lemma saved:
  assumes "checkToken token hdr" "recording_name nm" "raw \<noteq> ''''"
  shows "snd (agentUpload token hdr dir nm (Inr raw) None None fs) = fs((dir, nm) \<mapsto> take upload_limit raw)"
proof -
  have "upload_limit \<noteq> 0" by (simp add: upload_limit_def)
  then have "take upload_limit raw \<noteq> ''''" using assms(3) by simp
  with assms recording_name_base [OF assms(2)] show ?thesis
    by (auto simp: agentUpload_def saveRecording_def recording_name_def Let_def)
qed

lemma finished:
  assumes "site_ok si" "linked_to si r" "known_agent (rp_id r) (da_reg D)" "list_all name_char (rp_id r)"
    and "recording_name (path_base p)" "readFile p = Some raw" "raw \<noteq> ''''"
    and "da_net D = Up" "da_mkdir D = None" "da_write D = None"
  shows "\<exists>r' D'. Finish (dash_send si) readFile p (Some r) D = (Some r', D') \<and> rp_stopped r' \<and> rp_id r' = rp_id r \<and>
    da_files D' = (da_files D)((si_dir si, path_base p) \<mapsto> take upload_limit raw) \<and>
    (\<exists>a. agent (da_reg D') (rp_id r) = Some a \<and> ar_State a = ''done'' \<and> ar_Count a = rp_count r)"
proof -
  let ?r = "r\<lparr>rp_state := ''done''\<rparr>"
  let ?reg = "snd (beat_agent (rp_id r) (reporter_req ?r, da_now D) (da_reg D))"
  have d: "valid_utf8 ''done''" by (rule utf8_lit) simp
  have l: "linked_to si ?r" using assms(2) d by (simp add: linked_to_def reporter_ok_def)
  from beat_arrives [OF assms(1) l] assms(8) have b: "reporter_beat (dash_send si) ?r D = D\<lparr>da_reg := ?reg\<rparr>" by simp
  obtain a where "agent (da_reg D) (rp_id r) = Some a" using assms(3) by (auto simp: known_agent_def)
  then have fin: "\<exists>a. agent ?reg (rp_id r) = Some a \<and> ar_State a = ''done'' \<and> ar_Count a = rp_count r"
    by (simp add: beat_agent_def beat_record_def reporter_req_def)
  have nm: "list_all name_char (path_base p)"
    using assms(5) by (simp add: recording_name_def corpusNamePattern_def)
  have "list_all url_char (upload_path (rp_id r) (path_base p))"
    using url_paths(3,4) assms(4) nm name_char_url
    by (auto simp: upload_path_def list_all_iff del: append_Cons)
  note post = post_dash_world [OF assms(1) this]
  have u: "upload_path (rp_id r) (path_base p) =
      ''/api/agents/upload'' @ CHR ''?'' # (''id='' @ rp_id r @ ''&name='' @ path_base p)"
    by (simp add: upload_path_def)
  have "snd (dash_handle si (upload_path (rp_id r) (path_base p)) (token_header ct (rp_token r)) raw (D\<lparr>da_reg := ?reg\<rparr>))
      = D\<lparr>da_reg := ?reg, da_files := (da_files D)((si_dir si, path_base p) \<mapsto> take upload_limit raw)\<rparr>" for ct
    unfolding u dash_upload header_token upload_name [OF assms(4) nm]
    using saved [of "si_token si" "rp_token r", OF _ assms(5,7)] assms(2,9,10)
    by (simp add: case_prod_beta linked_to_def)
  then show ?thesis
    using assms(2,6,8) fin post by (simp add: Finish_def b Let_def linked_to_def)
qed

text \<open>The requests of a collector do not change the way to the dashboard nor its disk.\<close>

definition same_way :: "Dashboard \<Rightarrow> Dashboard \<Rightarrow> bool" where
  "same_way D E \<longleftrightarrow> da_net E = da_net D \<and> da_mkdir E = da_mkdir D \<and> da_write E = da_write D"

lemma same_way_trans: "same_way D E \<Longrightarrow> same_way E F \<Longrightarrow> same_way D F"
  by (simp add: same_way_def)

lemma same_way_handle: "same_way D (snd (dash_handle si t hs b D))"
  by (simp add: same_way_def dash_handle_def Let_def split: prod.split)

lemma same_way_send: "same_way D (snd (dash_send si u hs b D))"
  using same_way_handle by (simp add: same_way_def dash_send_def Let_def case_prod_beta)

lemma same_way_post: "same_way D (snd (post (dash_send si) d tk u ct b D))"
  using same_way_send by (simp add: same_way_def post_def Let_def case_prod_beta split: sum.split)

lemma same_way_beat: "same_way D (reporter_beat (dash_send si) r D)"
  using same_way_post by (simp add: reporter_beat_def)

lemma same_way_Finish: "same_way D (snd (Finish (dash_send si) readFile p r D))"
  using same_way_trans [OF same_way_beat same_way_post] same_way_beat
  by (auto simp: Finish_def Let_def same_way_def split: option.split)

lemma same_way_link: "same_way D (snd (linkAgent (dash_send si) dec hostname url token name mode out D))"
  using same_way_post by (simp add: same_way_def linkAgent_def Connect_def Let_def case_prod_beta split: sum.split option.split)

definition way_kept :: "collect_event \<Rightarrow> bool" where
  "way_kept ev \<longleftrightarrow> (case ev of NetworkIs _ \<Rightarrow> False | DiskIs _ _ \<Rightarrow> False | _ \<Rightarrow> True)"

lemma same_way_run:
  "list_all way_kept evs \<Longrightarrow> foldl (\<lambda>S ev. collect_step si ev S) (out, r, D) evs = (out', r', D') \<Longrightarrow> same_way D D'"
proof (induction evs arbitrary: out r D)
  case (Cons ev evs)
  obtain o1 r1 D1 where s: "collect_step si ev (out, r, D) = (o1, r1, D1)" by (rule prod_cases3)
  then have "same_way D D1"
    using Cons.prems(1) same_way_beat
    by (auto simp: collect_step_def way_kept_def same_way_def split: collect_event.splits option.splits)
  with Cons s show ?case using same_way_trans by auto
qed (simp add: same_way_def)

lemma same_way_collect:
  assumes "list_all way_kept evs" "linked_collect si hostname now open_file mode label fl link evs srcErr D = (res, r, D')"
  shows "same_way D D'"
proof (cases "NewOutput now (cf_Out fl) label (open_file (cf_Out fl))")
  case (Inr out)
  obtain r1 D1 where l: "linkAgent (dash_send si) decode_id hostname (lf_Dashboard link) (lf_Token link) (lf_Name link)
      mode (cf_Out fl) D = (r1, D1)" by fastforce
  obtain o2 r2 D2 where s: "foldl (\<lambda>S ev. collect_step si ev S) (set_sampling fl out, r1, D1) evs = (o2, r2, D2)"
    by (rule prod_cases3)
  have "same_way D D2" using same_way_trans same_way_link same_way_run [OF assms(1) s] l by (metis snd_conv)
  moreover have "D' = D2 \<or> (\<exists>rd p r0. D' = snd (Finish (dash_send si) rd p r0 D2))"
    using assms(2) l s Inr by (auto simp: linked_collect_def case_prod_beta split: option.splits) (metis snd_conv)
  ultimately show ?thesis using same_way_trans same_way_Finish by metis
qed (use assms(2) in \<open>simp add: linked_collect_def same_way_def\<close>)


section \<open>What the link does not carry\<close>

text \<open>The count of the last tick is the final one: \<open>Finish\<close> does not tell the output's counter again, so a
  capture of less than three seconds is listed with none.\<close>

lemma untold: "CountTick \<notin> set evs \<Longrightarrow> told evs out n = n"
  by (induction evs out n rule: told.induct) auto

text \<open>A heartbeat of a one-shot collector takes the commands that are queued for it, and drops them with
  the answer; it never says that it can capture, so the dashboard shows it as blocked.\<close>

lemma reporter_takes_commands:
  assumes "site_ok si" "linked_to si r" "agent (da_reg D) (rp_id r) = Some a" "da_net D = Up"
  shows "\<exists>a'. agent (da_reg (reporter_beat (dash_send si) r D)) (rp_id r) = Some a' \<and> ar_commands a' = [] \<and>
    \<not> ar_CaptureOK a'"
  using assms(3,4)
  by (simp add: beat_arrives [OF assms(1,2)] beat_agent_def beat_record_def reporter_req_def)

text \<open>The name goes into the query as it is: an escape in it is decoded, an ampersand cuts it.\<close>

lemma upload_names_changed:
  "query_get ''name'' (''id=agent-1&name='' @ ''run%31.jsonl'') = ''run1.jsonl''"
  "query_get ''name'' (''id=agent-1&name='' @ ''a.jsonl&b.jsonl'') = ''a.jsonl''"
  by code_simp+

section \<open>From the wire to the replay\<close>

text \<open>The output of a requests-only collector before the first exchange.\<close>

definition requests_output :: "CollectFlags \<Rightarrow> Output" where
  "requests_output fl =
     \<lparr>out_golden = None, out_rawPath = cf_Out fl, out_rawFile = Some '''', out_seq = 0, Count = 0, Skipped = 0,
      SampleRate = cf_Sample fl, SampleAllWrites = (\<not> cf_SampleWrites fl)\<rparr>"

lemma opened:
  assumes "\<not> IsGoldenFile (cf_Out fl)" "before = Inr ''''"
  shows "\<exists>out. NewOutput now (cf_Out fl) label before = Inr out \<and> set_sampling fl out = requests_output fl"
  using assms by (simp add: NewOutput_def set_sampling_def requests_output_def Let_def)

lemma jsonl_ext:
  assumes "has_suffix nm ''.jsonl''" "CHR ''/'' \<notin> set nm"
  shows "to_lower (file_ext nm) \<noteq> ''.har''"
proof -
  have u: "nm = take (length nm - length ''.jsonl'') nm @ CHR ''.'' # ''jsonl''" (is "_ = ?u @ _")
    using assms(1) unfolding has_suffix_def by (metis append_take_drop_id)
  have "CHR ''.'' \<notin> set ''jsonl''" by simp
  from after_last_append [OF this, of ?u] have "after_last (CHR ''.'') nm = ''jsonl''" using u by metis
  moreover have "CHR ''.'' \<in> set nm" by (subst u) simp
  ultimately have "file_ext nm = ''.jsonl''" by (simp add: file_ext_def after_last_no [OF assms(2)])
  moreover have "to_lower ''.jsonl'' \<noteq> ''.har''" by (simp add: to_lower_def lower_char_def byte_def)
  ultimately show ?thesis by simp
qed



definition demo_site :: site where
  "demo_site = \<lparr>si_url = ''http://d:8642'', si_token = ''t'', si_dir = ''corpus'', si_remote = ''10.0.0.7''\<rparr>"

definition demo_flags :: CollectFlags where
  "demo_flags = \<lparr>cf_Iface = '''', cf_Port = 80, cf_Out = ''/tmp/s.jsonl'', cf_Sample = FFin 1 0,
     cf_SampleWrites = False, cf_Pcap = '''', cf_Listen = ''''\<rparr>"

definition demo_link :: LinkFlags where
  "demo_link = \<lparr>lf_Dashboard = ''http://d:8642'', lf_Token = ''t'', lf_Name = ''''\<rparr>"

definition demo_dashboard_start :: Dashboard where
  "demo_dashboard_start = \<lparr>da_reg = newAgentRegistry, da_files = (\<lambda>_. None), da_now = 5, da_net = Up,
     da_mkdir = None, da_write = None\<rparr>"

definition demo_run_events :: "collect_event list" where
  "demo_run_events =
     [BeatDue, Captured (FFin 0 0) (demo_exchange ''GET''), CountTick,
      RegistryStep (CommandEv (Inr [(''id'', GStr ''agent-1'')])), Captured (FFin 0 0) (demo_exchange ''POST'')]"


definition demo_exs :: "Exchange list" where
  "demo_exs = [demo_exchange ''GET'', demo_exchange ''POST'']"

lemma demo_output: "requests_output demo_flags = \<lparr>out_golden = None, out_rawPath = ''/tmp/s.jsonl'',
    out_rawFile = Some '''', out_seq = 0, Count = 0, Skipped = 0, SampleRate = FFin 1 0, SampleAllWrites = True\<rparr>"
  by (simp add: requests_output_def demo_flags_def)

lemma demo_kept: "kept (requests_output demo_flags) (captures demo_run_events) = demo_exs"
  by (subst kept_all) (simp_all add: demo_output fin_le_def demo_run_events_def demo_exs_def)

lemma demo_logs: "sniff_logs 1 demo_exs =
    [\<lparr>lg_Name = ''sniff-1-GET-/a'', lg_Ts = Some ''1970-01-01T00:00:00Z'', lg_Method = ''GET'', lg_Path = ''/a'',
       lg_Headers = [], lg_Body = GNil\<rparr>,
     \<lparr>lg_Name = ''sniff-2-POST-/a'', lg_Ts = Some ''1970-01-01T00:00:00Z'', lg_Method = ''POST'', lg_Path = ''/a'',
       lg_Headers = [], lg_Body = GNil\<rparr>]"
  by code_simp

lemma demo_logs_ok: "list_all log_ok (sniff_logs 1 demo_exs)"
proof -
  have "list_all valid_utf8 [''sniff-1-GET-/a'', ''sniff-2-POST-/a'', ''1970-01-01T00:00:00Z'', ''GET'', ''POST'', ''/a'']"
    by (simp add: utf8_lit del: valid_utf8.simps)
  then show ?thesis unfolding demo_logs by (simp add: log_ok_def keys_def del: valid_utf8.simps)
qed

lemma demo_file:
  "let js = map log_jobj (sniff_logs 1 demo_exs) in lines_fit corpus_limit js \<and> length (file_of js) \<le> 1000"
  by code_simp

lemma demo_lines_fit: "lines_fit corpus_limit (map log_jobj (sniff_logs 1 demo_exs))"
  using demo_file by (simp add: Let_def)

lemma demo_length: "length (file_of (map log_jobj (sniff_logs 1 demo_exs))) \<le> upload_limit"
proof -
  have "length (file_of (map log_jobj (sniff_logs 1 demo_exs))) \<le> 1000" using demo_file by (simp add: Let_def)
  also have "1000 \<le> upload_limit" by (simp add: upload_limit_def)
  finally show ?thesis .
qed

lemma demo_told: "told demo_run_events (requests_output demo_flags) 0 = 1"
proof -
  have g: "log_ok (sniff_log (Suc (out_seq (requests_output demo_flags))) (demo_exchange ''GET''))"
    using demo_logs_ok by (simp add: sniff_logs_def demo_exs_def demo_output)
  have s: "\<not> sampledOut (FFin 0 0) (xc_Method (demo_exchange ''GET'')) (requests_output demo_flags)"
    unfolding demo_output by (simp add: sampledOut_def fin_le_def)
  have "Count (Sink (FFin 0 0) True (demo_exchange ''GET'') (requests_output demo_flags)) = 1"
    using Sink_raw_kept [OF g s] by (simp add: demo_output)
  then show ?thesis by (simp add: demo_run_events_def Stats_def)
qed

lemma demo_facts: "site_ok demo_site" "lf_Dashboard demo_link = si_url demo_site"
    "checkToken (si_token demo_site) (lf_Token demo_link)" "valid_utf8 (lf_Name demo_link)" "valid_utf8 ''host''"
    "valid_utf8 ''sniff''" "valid_utf8 (cf_Out demo_flags)" "\<not> IsGoldenFile (cf_Out demo_flags)"
    "path_base (cf_Out demo_flags) = ''s.jsonl''" "corpusNamePattern ''s.jsonl''" "has_suffix ''s.jsonl'' ''.jsonl''"
    "si_dir demo_site = ''corpus''"
proof -
  have "site_ok demo_site \<and> \<not> IsGoldenFile (cf_Out demo_flags) \<and> path_base (cf_Out demo_flags) = ''s.jsonl'' \<and>
      corpusNamePattern ''s.jsonl'' \<and> has_suffix ''s.jsonl'' ''.jsonl''" by code_simp
  then show "site_ok demo_site" "\<not> IsGoldenFile (cf_Out demo_flags)" "path_base (cf_Out demo_flags) = ''s.jsonl''"
    "corpusNamePattern ''s.jsonl''" "has_suffix ''s.jsonl'' ''.jsonl''" by blast+
qed (simp_all add: demo_site_def demo_link_def demo_flags_def checkToken_def utf8_lit del: valid_utf8.simps)



end
