(* ===== verification/Windows.thy ===== *)
theory Windows
  imports Replay
begin

text \<open>
  The runners of \<open>internal/replay\<close> together with the sources of \<open>internal/binlog\<close> and
  \<open>internal/pg\<close>: which changes of the databases end up in which result.  A world is the outside (the
  services, their databases, the clock) and the two stacks' captures, each with the row changes its
  pump has read so far.  While a request is sent and while a window is polled, the outside delivers
  events to either stream as it likes.
\<close>

section \<open>The polls of a window\<close>

text \<open>What reached the state by the time the polling loop returned.\<close>

fun consumed ::
  "('ev \<Rightarrow> 's \<Rightarrow> 's) \<Rightarrow> ('s \<Rightarrow> string option) \<Rightarrow> ('ev poll \<Rightarrow> 's \<Rightarrow> bool) \<Rightarrow> 'ev poll list \<Rightarrow> 's \<Rightarrow> 'ev list" where
  "consumed arrive failed stops [] s = []"
| "consumed arrive failed stops (p # ps) s =
     (let s = arrive_all arrive (arrivals p) s
      in arrivals p @
         (case failed s of
            Some e \<Rightarrow> []
          | None \<Rightarrow> if stops p s then late p else consumed arrive failed stops ps s))"

context write_source
begin

lemma rows_all_append: "rows_all (xs @ ys) s = rows_all xs s @ rows_all ys (arrive_all arrive xs s)"
  by (induction xs arbitrary: s) (simp_all add: arrive_all_def)

lemma poll_loop_taken:
  "poll_loop arrive failed stops drain ps s = Some (Inr ws, s') \<Longrightarrow>
   ws = buffer s @ rows_all (consumed arrive failed stops ps s) s \<and> buffer s' = []"
proof (induction ps arbitrary: s)
  case (Cons p ps)
  let ?s = "arrive_all arrive (arrivals p) s"
  have nf: "failed ?s = None" using Cons.prems by (auto simp: Let_def split: option.splits)
  show ?case
  proof (cases "stops p ?s")
    case True
    with Cons.prems nf have "drain (arrive_all arrive (late p) ?s) = (ws, s')"
      by (simp add: Let_def split: prod.splits)
    with drain_takes [of "arrive_all arrive (late p) ?s"] drain_clears [of "arrive_all arrive (late p) ?s"]
    show ?thesis using True nf by (simp add: buffer_arrive_all rows_all_append)
  next
    case False
    with Cons.IH [of ?s] Cons.prems nf show ?thesis
      by (simp add: Let_def buffer_arrive_all rows_all_append)
  qed
qed simp

lemma poll_loop_failed:
  "poll_loop arrive failed stops drain ps s = Some (Inl e, s') \<Longrightarrow>
   buffer s' = buffer s @ rows_all (consumed arrive failed stops ps s) s"
proof (induction ps arbitrary: s)
  case (Cons p ps)
  let ?s = "arrive_all arrive (arrivals p) s"
  show ?case
  proof (cases "failed ?s")
    case (Some x)
    with Cons.prems have "s' = ?s" by (simp add: Let_def)
    then show ?thesis using Some by (auto simp: buffer_arrive_all)
  next
    case None
    with Cons.prems have "\<not> stops p ?s" by (auto simp: Let_def split: prod.splits if_splits)
    with Cons.IH [of ?s] Cons.prems None show ?thesis
      by (simp add: Let_def buffer_arrive_all rows_all_append)
  qed
qed simp

end

text \<open>What the outside does while a window is polled: the clock readings at the call, and before each
  poll the events that arrive, how late the sleep and the readings are, and the answer to the
  transaction check.\<close>

record 'ev delivery =
  dl_now :: int
  dl_opened :: int
  dl_arrivals :: "nat \<Rightarrow> 'ev list"
  dl_late :: "nat \<Rightarrow> 'ev list"
  dl_lag :: "nat \<Rightarrow> nat"
  dl_read :: "nat \<Rightarrow> nat"
  dl_trx :: "nat \<Rightarrow> string + int"

definition poll_of :: "int \<Rightarrow> 'ev delivery \<Rightarrow> nat \<Rightarrow> 'ev poll" where
  "poll_of pause dl i =
     (let t = dl_now dl + int i * (pause * 1000000) + int (dl_lag dl i)
      in \<lparr>arrivals = dl_arrivals dl i, now_quiet = t, now_deadline = t + int (dl_read dl i),
          trx_count = dl_trx dl i, late = dl_late dl i\<rparr>)"

text \<open>With \<open>pause\<close> milliseconds between polls this many are more than fit before the deadline.\<close>

definition window_fuel :: "int \<Rightarrow> Attribution \<Rightarrow> nat" where
  "window_fuel pause attr = nat (TimeoutMs attr div pause) + 2"

definition window_polls :: "int \<Rightarrow> Attribution \<Rightarrow> 'ev delivery \<Rightarrow> 'ev poll list" where
  "window_polls pause attr dl = map (poll_of pause dl) [0..<window_fuel pause attr]"

lemma window_polls_return:
  assumes "0 < pause"
    and "\<And>p s. dl_now dl + TimeoutMs attr * 1000000 < now_deadline p \<Longrightarrow> stops p s"
  shows "poll_loop arrive failed stops drain (window_polls pause attr dl) s \<noteq> None"
proof (rule poll_loop_deadline [OF assms(2)])
  let ?T = "TimeoutMs attr"
  have "?T < (max 0 (?T div pause) + 1) * pause"
  proof (cases "0 \<le> ?T")
    case True
    have "?T div pause * pause + ?T mod pause = ?T" by (rule div_mult_mod_eq)
    moreover have "?T mod pause < pause" using assms(1) by simp
    ultimately have "?T < (?T div pause + 1) * pause" unfolding distrib_right by linarith
    moreover have "0 \<le> ?T div pause" using True assms(1) by (simp add: pos_imp_zdiv_nonneg_iff)
    ultimately show ?thesis by (simp add: max_def)
  next
    case False
    moreover have "0 < (max 0 (?T div pause) + 1) * pause" using assms(1) by (simp add: add_nonneg_pos)
    ultimately show ?thesis by linarith
  qed
  then have "?T * 1000000 < (max 0 (?T div pause) + 1) * pause * 1000000" by linarith
  then show "dl_now dl + ?T * 1000000
      < dl_now dl + int (nat (?T div pause) + 1) * (pause * 1000000)"
    by (simp add: max_def algebra_simps split: if_splits)
  show "nat (?T div pause) + 1 < length (window_polls pause attr dl)"
    by (simp add: window_polls_def window_fuel_def)
  show "dl_now dl + int i * (pause * 1000000) \<le> now_deadline (window_polls pause attr dl ! i)"
    if "i < length (window_polls pause attr dl)" for i
    using that by (simp add: window_polls_def poll_of_def Let_def)
qed

section \<open>Sources\<close>

text \<open>The interface \<open>writeset.Source\<close>: the operations a client calls, over the capture's state, with
  what its stream delivers, and the rows those events add to the buffer.\<close>

record ('ev, 'c) kind =
  kd_arrive :: "'ev list \<Rightarrow> 'c \<Rightarrow> 'c"
  kd_rows :: "'ev list \<Rightarrow> 'c \<Rightarrow> RowChange list"
  kd_begin :: "'c \<Rightarrow> 'c"
  kd_take :: "Attribution \<Rightarrow> 'ev delivery \<Rightarrow> 'c \<Rightarrow> (string + RowChange list) \<times> 'c"
  kd_polled :: "Attribution \<Rightarrow> 'ev delivery \<Rightarrow> 'c \<Rightarrow> 'ev list"

definition mysql_take ::
  "column_query \<Rightarrow> Attribution \<Rightarrow> (int \<times> binlog_event) delivery \<Rightarrow> Capture \<Rightarrow>
   (string + RowChange list) \<times> Capture" where
  "mysql_take query attr dl c =
     the (TakeWindow query attr (dl_now dl) (dl_opened dl) (window_polls 50 attr dl) c)"

definition mysql_kind :: "column_query \<Rightarrow> (int \<times> binlog_event, Capture) kind" where
  "mysql_kind query =
     \<lparr>kd_arrive = arrive_all (pump query), kd_rows = mysql.rows_all query, kd_begin = BeginWindow,
      kd_take = mysql_take query,
      kd_polled = (\<lambda>attr dl. consumed (pump query) capture_failed
        (window_stops attr (dl_now dl + millis (TimeoutMs attr)) (dl_opened dl)) (window_polls 50 attr dl))\<rparr>"

definition pg_take ::
  "(32 word \<Rightarrow> string \<Rightarrow> gval option) \<Rightarrow> Attribution \<Rightarrow> (int \<times> pg_raw) delivery \<Rightarrow> PgCapture \<Rightarrow>
   (string + RowChange list) \<times> PgCapture" where
  "pg_take decode attr dl c =
     the (TakeWindow_pg decode attr (dl_now dl) (dl_opened dl) (window_polls 20 attr dl) c)"

definition pg_kind ::
  "(32 word \<Rightarrow> string \<Rightarrow> gval option) \<Rightarrow> (int \<times> pg_raw, PgCapture) kind" where
  "pg_kind decode =
     \<lparr>kd_arrive = arrive_all (pg_arrive decode), kd_rows = postgres.rows_all decode,
      kd_begin = BeginWindow_pg, kd_take = pg_take decode,
      kd_polled = (\<lambda>attr dl. consumed (pg_arrive decode) pg_failed
        (pg_window_stops attr (dl_now dl + pg_millis (TimeoutMs attr)) (dl_opened dl))
        (window_polls 20 attr dl))\<rparr>"

text \<open>The fuel is enough: the \<open>the\<close> is always applied to a result.\<close>

lemma mysql_take_Some:
  "TakeWindow query attr (dl_now dl) (dl_opened dl) (window_polls 50 attr dl) c = Some (mysql_take query attr dl c)"
proof -
  have "TakeWindow query attr (dl_now dl) (dl_opened dl) (window_polls 50 attr dl) c \<noteq> None"
    unfolding TakeWindow_def
    by (rule window_polls_return) (simp_all add: window_stops_def millis_def)
  then show ?thesis by (simp add: mysql_take_def)
qed

lemma pg_take_Some:
  "TakeWindow_pg decode attr (dl_now dl) (dl_opened dl) (window_polls 20 attr dl) c
     = Some (pg_take decode attr dl c)"
proof -
  have "TakeWindow_pg decode attr (dl_now dl) (dl_opened dl) (window_polls 20 attr dl) c \<noteq> None"
    unfolding TakeWindow_pg_def
    by (rule window_polls_return) (simp_all add: pg_window_stops_def pg_millis_def)
  then show ?thesis by (simp add: pg_take_def)
qed


section \<open>A world with two stacks\<close>

text \<open>A capture and the row changes its pump has read from the stream since the start.\<close>

record 'c feed =
  fd_cap :: 'c
  fd_read :: "RowChange list"

definition feed_arrive :: "('ev, 'c) kind \<Rightarrow> 'ev list \<Rightarrow> 'c feed \<Rightarrow> 'c feed" where
  "feed_arrive kd evs fd =
     \<lparr>fd_cap = kd_arrive kd evs (fd_cap fd), fd_read = fd_read fd @ kd_rows kd evs (fd_cap fd)\<rparr>"

definition feed_begin :: "('ev, 'c) kind \<Rightarrow> 'c feed \<Rightarrow> 'c feed" where
  "feed_begin kd fd = fd\<lparr>fd_cap := kd_begin kd (fd_cap fd)\<rparr>"

definition feed_take ::
  "('ev, 'c) kind \<Rightarrow> Attribution \<Rightarrow> 'ev delivery \<Rightarrow> 'c feed \<Rightarrow> (string + RowChange list) \<times> 'c feed" where
  "feed_take kd attr dl fd =
     (case kd_take kd attr dl (fd_cap fd) of
        (r, c) \<Rightarrow> (r, \<lparr>fd_cap = c,
          fd_read = fd_read fd @ kd_rows kd (kd_polled kd attr dl (fd_cap fd)) (fd_cap fd)\<rparr>))"

record ('s, 'c, 'd) world =
  wd_out :: 's
  wd_old :: "'c feed"
  wd_new :: "'d feed"

text \<open>The outside: it answers a request, and meanwhile delivers events to both streams; it delivers
  events to both while a window of either is polled.\<close>

record ('s, 'e, 'f) service =
  sv_Do :: "HttpReq \<Rightarrow> 's \<Rightarrow> ((string + HttpResp) \<times> 'e list \<times> 'f list) \<times> 's"
  sv_wait_old :: "'s \<Rightarrow> ('e delivery \<times> 'f list) \<times> 's"
  sv_wait_new :: "'s \<Rightarrow> ('e list \<times> 'f delivery) \<times> 's"

definition service_env ::
  "(string \<Rightarrow> string \<Rightarrow> string option) \<Rightarrow> ('s, 'e, 'f) service \<Rightarrow> ('e, 'c) kind \<Rightarrow> ('f, 'd) kind \<Rightarrow>
   ('s, 'c, 'd) world Env" where
  "service_env newReq svc ko kn =
     \<lparr>newRequest = newReq,
      client_Do = (\<lambda>req w. case sv_Do svc req (wd_out w) of ((r, eo, en), s) \<Rightarrow>
        (r, \<lparr>wd_out = s, wd_old = feed_arrive ko eo (wd_old w), wd_new = feed_arrive kn en (wd_new w)\<rparr>))\<rparr>"

definition old_source ::
  "('s, 'e, 'f) service \<Rightarrow> ('e, 'c) kind \<Rightarrow> ('f, 'd) kind \<Rightarrow> ('s, 'c, 'd) world SourceOps" where
  "old_source svc ko kn =
     \<lparr>src_BeginWindow = (\<lambda>w. w\<lparr>wd_old := feed_begin ko (wd_old w)\<rparr>),
      src_TakeWindow = (\<lambda>attr w. case sv_wait_old svc (wd_out w) of ((dl, en), s) \<Rightarrow>
        (case feed_take ko attr dl (wd_old w) of (r, fd) \<Rightarrow>
           (r, \<lparr>wd_out = s, wd_old = fd, wd_new = feed_arrive kn en (wd_new w)\<rparr>)))\<rparr>"

definition new_source ::
  "('s, 'e, 'f) service \<Rightarrow> ('e, 'c) kind \<Rightarrow> ('f, 'd) kind \<Rightarrow> ('s, 'c, 'd) world SourceOps" where
  "new_source svc ko kn =
     \<lparr>src_BeginWindow = (\<lambda>w. w\<lparr>wd_new := feed_begin kn (wd_new w)\<rparr>),
      src_TakeWindow = (\<lambda>attr w. case sv_wait_new svc (wd_out w) of ((eo, dl), s) \<Rightarrow>
        (case feed_take kn attr dl (wd_new w) of (r, fd) \<Rightarrow>
           (r, \<lparr>wd_out = s, wd_old = feed_arrive ko eo (wd_old w), wd_new = fd\<rparr>)))\<rparr>"

section \<open>Accounts\<close>

text \<open>An account \<open>holds t w\<close>: the changes \<open>t\<close> were handed out until now, and with what is buffered they
  are those that were read.  Requests sent and the other stack's windows do not touch what was handed
  out, a window of this stack adds to it what it returns.\<close>

locale attributed_stack =
  fixes env :: "'w Env" and src :: "'w SourceOps" and other :: "'w SourceOps option"
    and holds :: "RowChange list \<Rightarrow> 'w \<Rightarrow> bool"
  assumes sent: "holds t w \<Longrightarrow> client_Do env req w = (x, w') \<Longrightarrow> holds t w'"
    and begun: "holds t w \<Longrightarrow> holds t (src_BeginWindow src w)"
    and taken: "holds t w \<Longrightarrow> src_TakeWindow src attr w = (Inr ws, w') \<Longrightarrow> holds (t @ ws) w'"
    and not_taken: "holds t w \<Longrightarrow> src_TakeWindow src attr w = (Inl e, w') \<Longrightarrow> holds t w'"
    and other_begun: "holds t w \<Longrightarrow> holds t (begin_opt other w)"
    and other_taken: "holds t w \<Longrightarrow> take_opt other attr w = (y, w') \<Longrightarrow> holds t w'"
begin

lemma fire_own:
  "fireStack env url (Some src) attr spec w = (x, w') \<Longrightarrow> holds t w \<Longrightarrow>
   (case x of Inl e \<Rightarrow> holds t w' | Inr f \<Rightarrow> holds (t @ f_changes f) w')"
  using begun [of t w]
  by (auto simp: fireStack_def begin_opt_def take_opt_def Let_def intro: taken dest: sent not_taken
      split: body_bytes.splits option.splits prod.splits sum.splits)

lemma fire_other:
  "fireStack env url other attr spec w = (x, w') \<Longrightarrow> holds t w \<Longrightarrow> holds t w'"
  using other_begun [of t w]
  by (auto simp: fireStack_def Let_def dest: sent other_taken
      split: body_bytes.splits option.splits prod.splits sum.splits)

end


section \<open>From requests to runs\<close>

text \<open>What the rows \<open>p\<close> handed out during a request have to do with its result: the replayed stack's
  write-set is their normal form, and nothing is handed out when the request failed; the rows of the
  old stack are lost to the report when the new stack failed afterwards.\<close>

definition new_share :: "Config_rec \<Rightarrow> Result \<Rightarrow> RowChange list \<Rightarrow> bool" where
  "new_share cfg r p \<longleftrightarrow> (if r_Verdict r = Error then p = [] else r_NewWriteset r = normal_ws cfg p)"

definition old_share :: "Config_rec \<Rightarrow> Result \<Rightarrow> RowChange list \<Rightarrow> bool" where
  "old_share cfg r p \<longleftrightarrow> r_Verdict r = Error \<or> r_OldWriteset r = normal_ws cfg p"

fun visit :: "('e \<Rightarrow> 'w \<Rightarrow> Result \<times> 'w) \<Rightarrow> 'e list \<Rightarrow> 'w \<Rightarrow> Result list \<times> 'w" where
  "visit one [] w = ([], w)"
| "visit one (e # es) w = (let (r, w) = one e w; (rs, w) = visit one es w in (r # rs, w))"

lemma verify_entries_visit: "verify_entries one i n es w = (rs, ps, w') \<Longrightarrow> visit one es w = (rs, w')"
  by (induction one i n es w arbitrary: rs ps w' rule: verify_entries.induct)
    (auto split: prod.splits)

lemma run_specs_visit: "run_specs one i n es w = (rs, ps, w') \<Longrightarrow> visit one es w = (rs, w')"
  by (induction one i n es w arbitrary: rs ps w' rule: run_specs.induct)
    (auto split: prod.splits)

lemma visit_shares:
  assumes "\<And>e t w r w'. one e w = (r, w') \<Longrightarrow> holds t w \<Longrightarrow> \<exists>p. share r p \<and> holds (t @ p) w'"
    and "visit one es w = (rs, w')" and "holds t w"
  shows "\<exists>parts. list_all2 share rs parts \<and> holds (t @ concat parts) w'"
  using assms(2,3)
proof (induction es arbitrary: w rs t)
  case Nil
  then show ?case by (intro exI [of _ "[]"]) simp
next
  case (Cons e es)
  then obtain r w1 rs1 where s: "one e w = (r, w1)" "visit one es w1 = (rs1, w')" "rs = r # rs1"
    by (auto split: prod.splits)
  from assms(1) [OF s(1) Cons.prems(2)] obtain p where p: "share r p" "holds (t @ p) w1" by blast
  from Cons.IH [OF s(2) p(2)] obtain parts where "list_all2 share rs1 parts" "holds (t @ p @ concat parts) w'"
    by auto
  with p(1) s(3) show ?case by (intro exI [of _ "p # parts"]) simp
qed

lemma compare_writesets [simp]:
  "r_OldWriteset (compare_fired cfg r a b) = normal_ws cfg (f_changes a)"
  "r_NewWriteset (compare_fired cfg r a b) = normal_ws cfg (f_changes b)"
  "r_Verdict (compare_fired cfg r a b) \<noteq> Error"
  "r_NewWriteset (compare_expected cfg r x b) = normal_ws cfg (f_changes b)"
  "r_Verdict (compare_expected cfg r x b) \<noteq> Error"
  by (simp_all add: compare_fired_def compare_expected_def VerdictOf_not_Error Let_def)

context attributed_stack
begin

lemma verifyOne_share:
  assumes "verifyOne env cfg (Some src) e w = (r, w')" and h: "holds t w"
  shows "\<exists>p. new_share cfg r p \<and> holds (t @ p) w'"
proof -
  obtain x w1 where f: "fireStack env (BaseURL (New_stack cfg)) (Some src) (cfg_Attribution cfg)
      (Entry_RequestSpec e) w = (x, w1)" by fastforce
  note own = fire_own [OF f h]
  show ?thesis
  proof (cases x)
    case (Inl err)
    with assms(1) f own show ?thesis
      by (intro exI [of _ "[]"]) (auto simp: verifyOne_def new_share_def Let_def)
  next
    case (Inr fd)
    with assms(1) f own show ?thesis
      by (intro exI [of _ "f_changes fd"]) (auto simp: verifyOne_def new_share_def Let_def)
  qed
qed

lemma runOne_old_share:
  assumes "runOne env cfg (Some src) other spec w = (r, w')" and h: "holds t w"
  shows "\<exists>p. old_share cfg r p \<and> holds (t @ p) w'"
proof -
  obtain x w1 where f: "fireStack env (BaseURL (Old_stack cfg)) (Some src) (cfg_Attribution cfg) spec w
      = (x, w1)" by fastforce
  note own = fire_own [OF f h]
  show ?thesis
  proof (cases x)
    case (Inl err)
    with assms(1) f own show ?thesis
      by (intro exI [of _ "[]"]) (auto simp: runOne_def old_share_def Let_def)
  next
    case (Inr fd)
    obtain y w2 where g: "fireStack env (BaseURL (New_stack cfg)) other (cfg_Attribution cfg) spec w1
        = (y, w2)" by fastforce
    have "holds (t @ f_changes fd) w2" using own Inr fire_other [OF g] by simp
    with assms(1) f g Inr show ?thesis
      by (intro exI [of _ "f_changes fd"]) (cases y; auto simp: runOne_def old_share_def Let_def)
  qed
qed

lemma runOne_new_share:
  assumes "runOne env cfg other (Some src) spec w = (r, w')" and h: "holds t w"
  shows "\<exists>p. new_share cfg r p \<and> holds (t @ p) w'"
proof -
  obtain x w1 where f: "fireStack env (BaseURL (Old_stack cfg)) other (cfg_Attribution cfg) spec w
      = (x, w1)" by fastforce
  note kept = fire_other [OF f h]
  show ?thesis
  proof (cases x)
    case (Inl err)
    with assms(1) f kept show ?thesis
      by (intro exI [of _ "[]"]) (auto simp: runOne_def new_share_def Let_def)
  next
    case (Inr fd)
    obtain y w2 where g: "fireStack env (BaseURL (New_stack cfg)) (Some src) (cfg_Attribution cfg) spec w1
        = (y, w2)" by fastforce
    note own = fire_own [OF g kept]
    show ?thesis
    proof (cases y)
      case (Inl err)
      with assms(1) f g own \<open>x = Inr fd\<close> show ?thesis
        by (intro exI [of _ "[]"]) (auto simp: runOne_def new_share_def Let_def)
    next
      case (Inr fd')
      with assms(1) f g own \<open>x = Inr fd\<close> show ?thesis
        by (intro exI [of _ "f_changes fd'"]) (auto simp: runOne_def new_share_def Let_def)
    qed
  qed
qed

lemma verify_shares:
  assumes "Verify_Run env cfg (Some src) es w = (rs, ps, w')" and "holds t w"
  shows "\<exists>parts. list_all2 (new_share cfg) rs parts \<and> holds (t @ concat parts) w'"
  by (rule visit_shares [where holds = holds and share = "new_share cfg",
        OF _ verify_entries_visit [OF assms(1) [unfolded Verify_Run_def]] assms(2)])
    (rule verifyOne_share)

lemma run_old_shares:
  assumes "Run env cfg (Some src) other es w = (rs, ps, w')" and "holds t w"
  shows "\<exists>parts. list_all2 (old_share cfg) rs parts \<and> holds (t @ concat parts) w'"
  by (rule visit_shares [where holds = holds and share = "old_share cfg",
        OF _ run_specs_visit [OF assms(1) [unfolded Run_def]] assms(2)])
    (rule runOne_old_share)

lemma run_new_shares:
  assumes "Run env cfg other (Some src) es w = (rs, ps, w')" and "holds t w"
  shows "\<exists>parts. list_all2 (new_share cfg) rs parts \<and> holds (t @ concat parts) w'"
  by (rule visit_shares [where holds = holds and share = "new_share cfg",
        OF _ run_specs_visit [OF assms(1) [unfolded Run_def]] assms(2)])
    (rule runOne_new_share)

end

section \<open>What a source promises to a run\<close>

text \<open>\<open>agree\<close> relates what was handed out and is buffered with what was read: equality for a source that
  keeps what arrives between windows, a subsequence for one that drops it.\<close>

locale accountable =
  fixes kd :: "('ev, 'c) kind" and buf :: "'c \<Rightarrow> RowChange list"
    and agree :: "RowChange list \<Rightarrow> RowChange list \<Rightarrow> bool"
  assumes arrive: "buf (kd_arrive kd evs c) = buf c @ kd_rows kd evs c"
    and take_hands_out: "kd_take kd attr dl c = (Inr ws, c') \<Longrightarrow>
      ws = buf c @ kd_rows kd (kd_polled kd attr dl c) c \<and> buf c' = []"
    and take_fails: "kd_take kd attr dl c = (Inl e, c') \<Longrightarrow>
      buf c' = buf c @ kd_rows kd (kd_polled kd attr dl c) c"
    and agree_more: "agree xs ys \<Longrightarrow> agree (xs @ zs) (ys @ zs)"
    and agree_begin: "agree (xs @ buf c) ys \<Longrightarrow> agree (xs @ buf (kd_begin kd c)) ys"
begin

definition account :: "RowChange list \<Rightarrow> 'c feed \<Rightarrow> bool" where
  "account t fd \<longleftrightarrow> agree (t @ buf (fd_cap fd)) (fd_read fd)"

lemma account_arrive: "account t fd \<Longrightarrow> account t (feed_arrive kd evs fd)"
  using agree_more [of "t @ buf (fd_cap fd)" "fd_read fd"]
  by (simp add: account_def feed_arrive_def arrive)

lemma account_begin: "account t fd \<Longrightarrow> account t (feed_begin kd fd)"
  by (simp add: account_def feed_begin_def agree_begin)

lemma account_take: "account t fd \<Longrightarrow> feed_take kd attr dl fd = (Inr ws, fd') \<Longrightarrow> account (t @ ws) fd'"
  using agree_more [of "t @ buf (fd_cap fd)" "fd_read fd"]
  by (auto simp: account_def feed_take_def dest!: take_hands_out split: prod.splits)

lemma account_failed: "account t fd \<Longrightarrow> feed_take kd attr dl fd = (Inl e, fd') \<Longrightarrow> account t fd'"
  using agree_more [of "t @ buf (fd_cap fd)" "fd_read fd"]
  by (auto simp: account_def feed_take_def dest!: take_fails split: prod.splits)

sublocale new_stack: attributed_stack "service_env newReq svc ko kd" "new_source svc ko kd"
    "Some (old_source svc ko kd)" "\<lambda>t w. account t (wd_new w)"
  for newReq and svc :: "('s, 'e, 'ev) service" and ko :: "('e, 'o) kind"
  by unfold_locales
    (auto simp: service_env_def new_source_def old_source_def begin_opt_def take_opt_def
      intro: account_arrive account_begin account_take account_failed split: prod.splits)

sublocale old_stack: attributed_stack "service_env newReq svc kd kn" "old_source svc kd kn"
    "Some (new_source svc kd kn)" "\<lambda>t w. account t (wd_old w)"
  for newReq and svc :: "('s, 'ev, 'f) service" and kn :: "('f, 'd) kind"
  by unfold_locales
    (auto simp: service_env_def new_source_def old_source_def begin_opt_def take_opt_def
      intro: account_arrive account_begin account_take account_failed split: prod.splits)

end


interpretation mysql_account: accountable "mysql_kind query" changes "(=)" for query
proof unfold_locales
  fix attr dl c ws c' e
  note polled = mysql_take_Some [of query attr dl c, unfolded TakeWindow_def]
  show "ws = changes c @ kd_rows (mysql_kind query) (kd_polled (mysql_kind query) attr dl c) c \<and> changes c' = []"
    if "kd_take (mysql_kind query) attr dl c = (Inr ws, c')"
    using mysql.poll_loop_taken [of query] polled that by (simp add: mysql_kind_def)
  show "changes c' = changes c @ kd_rows (mysql_kind query) (kd_polled (mysql_kind query) attr dl c) c"
    if "kd_take (mysql_kind query) attr dl c = (Inl e, c')"
    using mysql.poll_loop_failed [of query] polled that by (simp add: mysql_kind_def)
qed (simp_all add: mysql_kind_def mysql.buffer_arrive_all BeginWindow_def)

interpretation pg_account: accountable "pg_kind decode" pc_changes subseq for decode
proof unfold_locales
  fix attr dl c ws c' e
  note polled = pg_take_Some [of decode attr dl c, unfolded TakeWindow_pg_def]
  show "ws = pc_changes c @ kd_rows (pg_kind decode) (kd_polled (pg_kind decode) attr dl c) c \<and> pc_changes c' = []"
    if "kd_take (pg_kind decode) attr dl c = (Inr ws, c')"
    using postgres.poll_loop_taken [of decode] polled that by (simp add: pg_kind_def)
  show "pc_changes c' = pc_changes c @ kd_rows (pg_kind decode) (kd_polled (pg_kind decode) attr dl c) c"
    if "kd_take (pg_kind decode) attr dl c = (Inl e, c')"
    using postgres.poll_loop_failed [of decode] polled that by (simp add: pg_kind_def)
  show "subseq (xs @ pc_changes (kd_begin (pg_kind decode) c)) ys" if "subseq (xs @ pc_changes c) ys" for xs ys
    using that by (auto simp: pg_kind_def BeginWindow_pg_def intro: subseq_order.trans)
qed (simp_all add: pg_kind_def postgres.buffer_arrive_all list_emb_append_mono)

lemma mysql_account_iff: "mysql_account.account t fd \<longleftrightarrow> fd_read fd = t @ changes (fd_cap fd)"
  unfolding mysql_account.account_def by (rule eq_commute)

section \<open>A run in which an answer is lost\<close>

definition demo_world :: "(nat, Capture, Capture) world" where
  "demo_world = \<lparr>wd_out = 0, wd_old = \<lparr>fd_cap = New_Capture ''old'', fd_read = []\<rparr>,
     wd_new = \<lparr>fd_cap = New_Capture ''new'', fd_read = []\<rparr>\<rparr>"

definition quiet_delivery :: "(int \<times> binlog_event) delivery" where
  "quiet_delivery = \<lparr>dl_now = 10, dl_opened = 10, dl_arrivals = (\<lambda>_. []), dl_late = (\<lambda>_. []),
     dl_lag = (\<lambda>_. 0), dl_read = (\<lambda>_. 0), dl_trx = (\<lambda>_. Inr 0)\<rparr>"

text \<open>Two requests, each inserting one row in either stack; the answer of the new stack to the first
  one is lost.\<close>

definition demo_service :: "(nat, int \<times> binlog_event, int \<times> binlog_event) service" where
  "demo_service = \<lparr>
     sv_Do = (\<lambda>req n. ((if n = 1 then Inl ''timeout'' else Inr \<lparr>hp_Status = 200, hp_Header = [], hp_Body = Inr ''''\<rparr>,
        (if even n then [demo_rows] else []), (if even n then [] else [demo_rows])), n + 1)),
     sv_wait_old = (\<lambda>n. ((quiet_delivery, []), n)), sv_wait_new = (\<lambda>n. (([], quiet_delivery), n))\<rparr>"

definition demo_spec :: RequestSpec where
  "demo_spec = \<lparr>spec_Name = ''a'', spec_Ts = '''', spec_Method = ''POST'', spec_Path = ''/'', spec_Headers = [],
     spec_Body = GNil\<rparr>"

abbreviation demo_kind :: "(int \<times> binlog_event, Capture) kind" where
  "demo_kind \<equiv> mysql_kind (\<lambda>_ _. None)"

definition demo_run :: "Result list \<times> (nat \<times> nat \<times> string) list \<times> (nat, Capture, Capture) world" where
  "demo_run =
     Run (service_env (\<lambda>_ _. None) demo_service demo_kind demo_kind) demo_config
       (Some (old_source demo_service demo_kind demo_kind)) (Some (new_source demo_service demo_kind demo_kind))
       [demo_spec, demo_spec] demo_world"



lemma window_polls_Cons:
  "window_polls pause attr dl = poll_of pause dl 0 # map (poll_of pause dl) [1..<window_fuel pause attr]"
  by (simp add: window_polls_def window_fuel_def upt_conv_Cons)

lemma quiet_take:
  assumes "bc_err c = None" and "QuietMs attr = 0" and "\<forall>t. lastEvent c = Some t \<longrightarrow> t \<le> 10"
  shows "mysql_take q attr quiet_delivery c = (Inr (changes c), c\<lparr>changes := []\<rparr>)"
proof -
  have "window_stops attr (10 + millis (TimeoutMs attr)) 10 (poll_of 50 quiet_delivery 0) c"
    using assms(2,3)
    by (auto simp: window_stops_def poll_of_def quiet_delivery_def millis_def hasActiveTrx_def split: option.split)
  with assms(1) have "TakeWindow q attr 10 10 (window_polls 50 attr quiet_delivery) c
      = Some (Inr (changes c), c\<lparr>changes := []\<rparr>)"
    unfolding TakeWindow_def window_polls_Cons
    by (simp add: poll_of_def quiet_delivery_def capture_failed_def drain_changes_def Let_def)
  then show ?thesis by (simp add: mysql_take_def quiet_delivery_def)
qed

definition demo_insert :: RowChange where
  "demo_insert = \<lparr>rc_Table = ''db.t'', rc_Op = ''INSERT'', Before = None, After = Some [(''id'', GInt 1)],
       Query = ''''\<rparr>"

lemma demo_arrive:
  "bc_err c = None \<Longrightarrow> lastQuery c = '''' \<Longrightarrow> pump (\<lambda>_ _. None) demo_rows c =
     c\<lparr>changes := changes c @ [demo_insert], lastEvent := Some 5\<rparr>"
  by (simp add: pump_def pump_event_def demo_rows_def systemSchemas_def normalize_event_def columnNames_def
      normalize_rows_def demo_insert_def rowMap_def column_name_def go_map_def)

lemma demo_kind_simps:
  "kd_arrive demo_kind [] c = c" "kd_rows demo_kind [] c = []"
  "bc_err c = None \<Longrightarrow> lastQuery c = '''' \<Longrightarrow> kd_arrive demo_kind [demo_rows] c =
     c\<lparr>changes := changes c @ [demo_insert], lastEvent := Some 5\<rparr>"
  "kd_begin demo_kind c = BeginWindow c"
  "kd_take demo_kind attr quiet_delivery c = mysql_take (\<lambda>_ _. None) attr quiet_delivery c"
  by (simp_all add: mysql_kind_def arrive_all_def demo_arrive)

lemma demo_body: "BodyBytes_of demo_spec = BodyBytes None False"
  by (simp add: BodyBytes_of_def demo_spec_def)

definition demo_fired :: "RowChange list \<Rightarrow> fired" where
  "demo_fired chs = \<lparr>f_status = 200, f_body = '''', f_headers = [], f_changes = chs\<rparr>"

definition counted_insert :: WriteEntry where
  "counted_insert = \<lparr>Table = ''t'', Op = ''INSERT'', PK = GI64 1, Values = Some [(''id'', GI64 1)], Changed = None\<rparr>"

lemma counted_ws: "NormalizeWriteset [demo_insert] [] [] = [counted_insert]"
  "NormalizeWriteset [demo_insert, demo_insert] [] [] = [counted_insert, counted_insert]"
  "normal_ws demo_config [demo_insert] = [counted_insert]"
  "normal_ws demo_config [demo_insert, demo_insert] = [counted_insert, counted_insert]"
proof -
  have "NormalizeWriteset [demo_insert] [] [] = [counted_insert] \<and>
      NormalizeWriteset [demo_insert, demo_insert] [] [] = [counted_insert, counted_insert]" by code_simp
  then show n: "NormalizeWriteset [demo_insert] [] [] = [counted_insert]"
    "NormalizeWriteset [demo_insert, demo_insert] [] [] = [counted_insert, counted_insert]" by simp_all
  have "Columns (cfg_Noise demo_config) = []" "TablesIgnore (cfg_Noise demo_config) = []"
    by (simp_all add: demo_config_def)
  with n show "normal_ws demo_config [demo_insert] = [counted_insert]"
    "normal_ws demo_config [demo_insert, demo_insert] = [counted_insert, counted_insert]"
    by (simp_all add: normal_ws_def)
qed

lemma demo_compare:
  "r_Verdict (compare_fired demo_config res (demo_fired [demo_insert]) (demo_fired [demo_insert, demo_insert]))
     = WritesetDiff"
  "length (normal_ws demo_config [demo_insert]) = 1" "length (normal_ws demo_config [demo_insert, demo_insert]) = 2"
  "QuietMs (cfg_Attribution demo_config) = 0"
proof -
  let ?a = "demo_fired [demo_insert]" and ?b = "demo_fired [demo_insert, demo_insert]"
  have r: "DiffResponses 200 '''' 200 '''' [] [] (run_opts demo_config) = []" by code_simp
  have w: "DiffWritesets [counted_insert] [counted_insert, counted_insert] \<noteq> []" by code_simp
  show "r_Verdict (compare_fired demo_config res ?a ?b) = WritesetDiff"
    using w by (simp add: compare_fired_def demo_fired_def counted_ws r VerdictOf_def Let_def)
  show "length (normal_ws demo_config [demo_insert]) = 1" "length (normal_ws demo_config [demo_insert, demo_insert]) = 2"
    by (simp_all add: counted_ws)
  show "QuietMs (cfg_Attribution demo_config) = 0" by (simp add: demo_config_def)
qed

text \<open>The row of the first request is reported as the second one's: a difference that is none.\<close>

lemma failed_request_leaks:
  "map (\<lambda>r. (r_Verdict r, length (r_OldWriteset r), length (r_NewWriteset r))) (fst demo_run) =
    [(Error, 0, 0), (WritesetDiff, 1, 2)]"
  using demo_compare [unfolded demo_fired_def]
  by (simp add: demo_run_def Run_def demo_world_def demo_service_def service_env_def old_source_def new_source_def
    fireStack_def runOne_def feed_begin_def feed_arrive_def feed_take_def begin_opt_def take_opt_def demo_body
    demo_kind_simps quiet_take New_Capture_def BeginWindow_def resp_headers_def go_map_def error_result_def Let_def
    split: prod.splits)

section \<open>Every change in one report\<close>

text \<open>
  C14.  A live run accounts for every row change: between two MySQL stacks, whatever the services
  answer and whenever the two binlogs deliver, what the pump of either stack has read during the run
  is, in order, the changes handed out for the first request, the second, and so on, and then what is
  still buffered.  A result that is no error reports as its write-sets the normal forms of just the
  changes handed out for it; a failed request is handed nothing of the new stack, so its changes count
  for the next one.
\<close>

theorem run_attribution:
  assumes "Run (service_env newReq svc (mysql_kind qo) (mysql_kind qn)) cfg
      (Some (old_source svc (mysql_kind qo) (mysql_kind qn)))
      (Some (new_source svc (mysql_kind qo) (mysql_kind qn))) specs w = (results, progress, w')"
    and "fd_read (wd_old w) = changes (fd_cap (wd_old w))"
    and "fd_read (wd_new w) = changes (fd_cap (wd_new w))"
  shows "\<exists>olds news.
    fd_read (wd_old w') = concat olds @ changes (fd_cap (wd_old w')) \<and> list_all2 (old_share cfg) results olds \<and>
    fd_read (wd_new w') = concat news @ changes (fd_cap (wd_new w')) \<and> list_all2 (new_share cfg) results news"
  using mysql_account.old_stack.run_old_shares [OF assms(1), of "[]"]
    mysql_account.new_stack.run_new_shares [OF assms(1), of "[]"] assms(2,3)
  by (auto simp: mysql_account_iff)

theorem run_attribution_witness:
  "\<exists>results progress w' olds news. demo_run = (results, progress, w') \<and>
    map r_Verdict results = [Error, WritesetDiff] \<and>
    fd_read (wd_old w') = concat olds @ changes (fd_cap (wd_old w')) \<and>
    list_all2 (old_share demo_config) results olds \<and>
    fd_read (wd_new w') = concat news @ changes (fd_cap (wd_new w')) \<and>
    list_all2 (new_share demo_config) results news"
proof -
  obtain results progress w' where r: "demo_run = (results, progress, w')" by (metis prod_cases3)
  have fresh: "fd_read (wd_old demo_world) = changes (fd_cap (wd_old demo_world))"
    "fd_read (wd_new demo_world) = changes (fd_cap (wd_new demo_world))"
    by (simp_all add: demo_world_def New_Capture_def)
  have v: "map r_Verdict results = [Error, WritesetDiff]"
    using failed_request_leaks [unfolded r fst_conv] by (auto simp: map_eq_Cons_conv)
  obtain olds news where s:
    "fd_read (wd_old w') = concat olds @ changes (fd_cap (wd_old w'))"
    "list_all2 (old_share demo_config) results olds"
    "fd_read (wd_new w') = concat news @ changes (fd_cap (wd_new w'))"
    "list_all2 (new_share demo_config) results news"
    using run_attribution [OF r [unfolded demo_run_def] fresh] by blast
  show ?thesis by (intro exI conjI, rule r, rule v, rule s(1), rule s(2), rule s(3), rule s(4))
qed

text \<open>The same for a verification, and for one with a PostgreSQL stack, of which changes that arrive
  between two windows are dropped.\<close>

lemma verify_attribution_mysql:
  assumes "Verify_Run (service_env newReq svc ko (mysql_kind q)) cfg (Some (new_source svc ko (mysql_kind q)))
      entries w = (results, progress, w')"
    and "fd_read (wd_new w) = changes (fd_cap (wd_new w))"
  shows "\<exists>parts. fd_read (wd_new w') = concat parts @ changes (fd_cap (wd_new w')) \<and>
    list_all2 (new_share cfg) results parts"
  using mysql_account.new_stack.verify_shares [OF assms(1), of "[]"] assms(2)
  by (auto simp: mysql_account_iff)

lemma verify_attribution_pg:
  assumes "Verify_Run (service_env newReq svc ko (pg_kind d)) cfg (Some (new_source svc ko (pg_kind d)))
      entries w = (results, progress, w')"
    and "fd_read (wd_new w) = pc_changes (fd_cap (wd_new w))"
  shows "\<exists>parts. subseq (concat parts @ pc_changes (fd_cap (wd_new w'))) (fd_read (wd_new w')) \<and>
    list_all2 (new_share cfg) results parts"
  using pg_account.new_stack.verify_shares [OF assms(1), of "[]"] assms(2)
  by (auto simp: pg_account.account_def)

end
