(* ===== verification/EndToEnd.thy ===== *)
theory EndToEnd
  imports Cli Windows
begin

text \<open>
  Recording and verifying together: a golden file that was written is read back and replayed against a
  service, and the command reports what the comparison found.
\<close>

declare valid_utf8.simps [simp del]

section \<open>Comparing a response with itself\<close>

lemma diffJSON_refl: "diffJSON v v path = []"
proof (induction v arbitrary: path)
  case (GMap m)
  have "rel_option (\<lambda>ov nv. diffJSON ov nv (path @ [k]) = []) (map_of m k) (map_of m k)" for k
  proof (cases "map_of m k")
    case (Some v)
    from map_of_SomeD [OF this] have "diffJSON v v (path @ [k]) = []" by (intro GMap.IH) auto
    with Some show ?thesis by simp
  qed simp
  then show ?case by (simp add: diffJSON_maps)
next
  case (GArr xs)
  then show ?case by (simp add: diffJSON_arrays)
qed (simp_all add: diffJSON_other equal_vals_refl)

lemma body_diffs_refl: "body_diffs body body opts = []"
  by (simp add: body_diffs_def diffJSON_refl split: prod.split)

lemma DiffResponses_refl: "CompareHeaders opts = [] \<Longrightarrow> DiffResponses st body st body oh nh opts = []"
  by (simp add: DiffResponses_def body_diffs_refl header_diffs_def)

section \<open>A service that behaves as recorded\<close>

text \<open>What firing an entry's request yields is what was recorded: the status and the body, and the
  recorded write-set, if one was recorded.\<close>

definition reproduces :: "Config_rec \<Rightarrow> Entry \<Rightarrow> fired \<Rightarrow> bool" where
  "reproduces cfg e res \<longleftrightarrow>
     f_status res = Status (en_Expected e) \<and> f_body res = exp_Body (en_Expected e) \<and>
     (case exp_Writeset (en_Expected e) of None \<Rightarrow> True | Some ws \<Rightarrow> normal_ws cfg (f_changes res) = ws)"

text \<open>From the state \<open>w\<close> on, the requests as they are read back are all answered as recorded, each in the
  state the ones before it led to.\<close>

fun answers_as_recorded ::
  "'w Env \<Rightarrow> Config_rec \<Rightarrow> 'w SourceOps option \<Rightarrow> Entry list \<Rightarrow> 'w \<Rightarrow> bool" where
  "answers_as_recorded env cfg src [] w = True"
| "answers_as_recorded env cfg src (e # es) w =
     (case fireStack env (BaseURL (New_stack cfg)) src (cfg_Attribution cfg)
        (Entry_RequestSpec (reread_golden e)) w of
        (Inl err, w') \<Rightarrow> False
      | (Inr res, w') \<Rightarrow> reproduces cfg e res \<and> answers_as_recorded env cfg src es w')"

definition matches :: "Result \<Rightarrow> bool" where
  "matches r \<longleftrightarrow> r_Verdict r = Match \<and> r_Differences r = [] \<and> r_Error r = ''''"

lemma reread_writeset_silent: "list_all ws_ok ws \<Longrightarrow> DiffWritesets (map reread_entry ws) ws = []"
  by (rule same_entries_no_diff) (simp add: list_all2_conv_all_nth list_all_length same_entry_reread)

lemma compare_recorded:
  assumes "entry_ok e" and "reproduces cfg e res"
  shows "matches (compare_expected cfg (error_result n q) (reread_expected (en_Expected e)) res)"
  using assms reread_writeset_silent
  by (auto simp: matches_def reproduces_def compare_expected_def reread_expected_def verify_opts_def
      DiffResponses_refl VerdictOf_Match entry_ok_def Let_def split: option.splits)

lemma verifyOne_recorded:
  assumes "entry_ok e" and "reproduces cfg e res"
    and "fireStack env (BaseURL (New_stack cfg)) src (cfg_Attribution cfg)
        (Entry_RequestSpec (reread_golden e)) w = (Inr res, w')"
  shows "\<exists>r. verifyOne env cfg src (reread_golden (as_entry e)) w = (r, w') \<and> matches r"
proof -
  have "Entry_RequestSpec (reread_golden (as_entry e)) = Entry_RequestSpec (reread_golden e)"
    "en_Expected (reread_golden (as_entry e)) = reread_expected (en_Expected e)"
    by (simp_all add: Entry_RequestSpec_def reread_golden_def as_entry_def)
  with compare_recorded [OF assms(1,2)] assms(3) show ?thesis
    by (simp add: verifyOne_def matches_def Let_def)
qed

lemma verify_recorded:
  "list_all entry_ok es \<Longrightarrow> answers_as_recorded env cfg src es w \<Longrightarrow>
   list_all matches (fst (verify_entries (verifyOne env cfg src) i n (map (reread_golden \<circ> as_entry) es) w)) \<and>
   length (fst (verify_entries (verifyOne env cfg src) i n (map (reread_golden \<circ> as_entry) es) w)) = length es"
proof (induction es arbitrary: i w)
  case (Cons e es)
  obtain res w1 where f: "fireStack env (BaseURL (New_stack cfg)) src (cfg_Attribution cfg)
      (Entry_RequestSpec (reread_golden e)) w = (Inr res, w1)" and r: "reproduces cfg e res"
    and rest: "answers_as_recorded env cfg src es w1"
    using Cons.prems(2) by (auto split: prod.splits sum.splits)
  from Cons.prems(1) obtain x where v: "verifyOne env cfg src (reread_golden (as_entry e)) w = (x, w1)" "matches x"
    using verifyOne_recorded [OF _ r f] by auto
  obtain rs ps w2 where t: "verify_entries (verifyOne env cfg src) (i + 1) n
      (map (reread_golden \<circ> as_entry) es) w1 = (rs, ps, w2)" by (metis prod_cases3)
  from Cons.IH [OF _ rest, of "i + 1"] Cons.prems(1) t v show ?case by (simp add: comp_def)
qed simp

text \<open>What was recorded verifies, through the file: \<open>verify\<close> with it reports one result per entry, each a
  MATCH without differences or error, and exits with 0.\<close>

lemma recorded_file_verifies:
  assumes "list_all entry_ok es" and "meta_ok (final_meta now meta)"
    and "lines_fit golden_limit (golden_objs now meta es)"
    and "answers_as_recorded env cfg src (sort_key en_Ts es) w"
    and "loadConfig (vf_Config fl) = Inr cfg" and "vf_Config fl \<noteq> ''''" and "vf_Golden fl \<noteq> ''''"
    and "vf_Baseline fl = ''''"
  shows "\<exists>file results. record_file now meta es = Inr file \<and>
    cmdVerify loadConfig (\<lambda>_. Read_golden (Some file)) (\<lambda>_. None)
      (\<lambda>cfg entries. fst (Verify_Run env cfg src entries w)) loadRun applyBaseline (\<lambda>_. Inr path) fl
      = Exit 0 results \<and>
    length results = length es \<and> list_all matches results"
proof -
  obtain f where written: "record_file now meta es = Inr f"
    and rd: "Read_golden (Some f) = Inr (final_meta now meta, sort_key en_Ts (map (reread_golden \<circ> as_entry) es))"
    using golden_file_read [OF assms(1-3)] by blast
  have sorted: "sort_key en_Ts (map (reread_golden \<circ> as_entry) es)
      = map (reread_golden \<circ> as_entry) (sort_key en_Ts es)"
    by (rule sort_key_map) (simp add: reread_golden_def as_entry_def)
  let ?results = "fst (Verify_Run env cfg src (map (reread_golden \<circ> as_entry) (sort_key en_Ts es)) w)"
  have "list_all entry_ok (sort_key en_Ts es)" using assms(1) by (simp add: list_all_iff)
  from verify_recorded [OF this assms(4)]
  have r: "list_all matches ?results" "length ?results = length es"
    by (simp_all add: Verify_Run_def del: map_map)
  then have "verify_exit ?results = 0" by (auto simp: verify_exit_def matches_def list_all_iff)
  then have "cmdVerify loadConfig (\<lambda>_. Read_golden (Some f)) (\<lambda>_. None)
      (\<lambda>cfg entries. fst (Verify_Run env cfg src entries w)) loadRun applyBaseline (\<lambda>_. Inr path) fl
      = Exit 0 ?results"
    using assms(5-8) by (simp add: cmdVerify_def rd sorted)
  with written r show ?thesis by blast
qed

section \<open>What a passing verification means\<close>

text \<open>The answer agrees with the recorded one: equal status, equal bodies (as values after the configured
  noise and orders when one of them is JSON, with numbers as doubles that print as a literal that reads
  back; else byte for byte), and if a write-set was recorded, for every table, operation and key as many
  rows, pairwise silent; two plain rows have the same columns with equal values.\<close>

definition body_agrees :: "Options \<Rightarrow> string \<Rightarrow> string \<Rightarrow> bool" where
  "body_agrees opts a b \<longleftrightarrow>
     (canon_ok (NormValue (body_val opts a)) \<and> canon_ok (NormValue (body_val opts b)) \<longrightarrow>
      (if is_json a \<or> is_json b then equal_vals (body_val opts a) (body_val opts b) else a = b))"

definition rows_agree :: "WriteEntry \<Rightarrow> WriteEntry \<Rightarrow> bool" where
  "rows_agree e e' \<longleftrightarrow> pair_silent e e' \<and>
     (plain_entry e \<and> plain_entry e' \<longrightarrow> equal_vals (payload_val e) (payload_val e'))"

lemma silent_rows_agree: "pair_silent e e' \<Longrightarrow> rows_agree e e'"
  using pair_silent_iff by (auto simp: rows_agree_def)

definition agrees :: "Config_rec \<Rightarrow> Expected \<Rightarrow> fired \<Rightarrow> bool" where
  "agrees cfg x res \<longleftrightarrow>
     Status x = f_status res \<and> body_agrees (verify_opts cfg) (exp_Body x) (f_body res) \<and>
     (case exp_Writeset x of
        None \<Rightarrow> True
      | Some ws \<Rightarrow> \<forall>k. list_all2 rows_agree (ws_group k ws) (ws_group k (normal_ws cfg (f_changes res))))"

text \<open>Every request, fired in the state the ones before it led to, was answered, in agreement.\<close>

fun all_agree :: "'w Env \<Rightarrow> Config_rec \<Rightarrow> 'w SourceOps option \<Rightarrow> Entry list \<Rightarrow> 'w \<Rightarrow> bool" where
  "all_agree env cfg src [] w = True"
| "all_agree env cfg src (e # es) w =
     (case fireStack env (BaseURL (New_stack cfg)) src (cfg_Attribution cfg) (Entry_RequestSpec e) w of
        (Inl err, w') \<Rightarrow> False
      | (Inr res, w') \<Rightarrow> agrees cfg (en_Expected e) res \<and> all_agree env cfg src es w')"

lemma compare_expected_agrees:
  assumes "r_Verdict (compare_expected cfg r x res) = Match \<or> r_Verdict (compare_expected cfg r x res) = Noise"
  shows "agrees cfg x res"
proof -
  let ?rd = "DiffResponses (Status x) (exp_Body x) (f_status res) (f_body res) [] (f_headers res) (verify_opts cfg)"
  let ?wd = "case exp_Writeset x of None \<Rightarrow> [] | Some ws \<Rightarrow> DiffWritesets ws (normal_ws cfg (f_changes res))"
  have "r_Verdict (compare_expected cfg r x res) = VerdictOf ?rd ?wd"
    by (simp add: compare_expected_def Let_def)
  moreover have "VerdictOf ?rd ?wd \<noteq> Noise" by (simp add: VerdictOf_def verdict_defs)
  ultimately have e: "?rd = []" "?wd = []" using assms by (auto simp: VerdictOf_Match)
  from e(1) have "Status x = f_status res" "body_diffs (exp_Body x) (f_body res) (verify_opts cfg) = []"
    by (auto simp: DiffResponses_def split: if_splits)
  then have "body_agrees (verify_opts cfg) (exp_Body x) (f_body res)"
    using body_diffs_empty by (auto simp: body_agrees_def)
  with e(2) \<open>Status x = f_status res\<close> show ?thesis
    by (auto simp: agrees_def DiffWritesets_Nil_iff silent_rows_agree list_all2_conv_all_nth split: option.splits)
qed

lemma verify_entries_agree:
  "list_all (\<lambda>r. r_Verdict r = Match \<or> r_Verdict r = Noise)
     (fst (verify_entries (verifyOne env cfg src) i n es w)) \<Longrightarrow> all_agree env cfg src es w"
proof (induction es arbitrary: i w)
  case (Cons e es)
  obtain x w1 where f: "fireStack env (BaseURL (New_stack cfg)) src (cfg_Attribution cfg) (Entry_RequestSpec e) w
      = (x, w1)" by fastforce
  obtain rs ps w2 where t: "verify_entries (verifyOne env cfg src) (i + 1) n es w1 = (rs, ps, w2)"
    by (metis prod_cases3)
  show ?case
  proof (cases x)
    case (Inl err)
    with f have "\<exists>r. verifyOne env cfg src e w = (r, w1) \<and> r_Verdict r = Error"
      by (simp add: verifyOne_def error_result_def Let_def)
    with Cons.prems t show ?thesis by (auto simp: verdict_defs)
  next
    case (Inr res)
    let ?c = "compare_expected cfg (error_result (en_Name e) (Describe (Entry_RequestSpec e))) (en_Expected e) res"
    have "verifyOne env cfg src e w = (?c, w1)"
      using f Inr by (auto simp: verifyOne_def Let_def)
    then have "r_Verdict ?c = Match \<or> r_Verdict ?c = Noise"
      and "list_all (\<lambda>r. r_Verdict r = Match \<or> r_Verdict r = Noise) rs"
      using Cons.prems t by auto
    with compare_expected_agrees Cons.IH [of "i + 1" w1] t f Inr show ?thesis by auto
  qed
qed simp

text \<open>
  A verification that passes means what it says: when \<open>verify\<close> without a baseline exits with 0,
  the configuration and the golden file were read, and every entry of the file was fired in order, each
  request in the state the ones before it led to, and was answered in agreement with what was recorded:
  the same status, the same body up to the configured noise, and no row missing, extra or different in
  its write-set.  No failed request and no difference is passed over.
\<close>

theorem passing_verification_agrees:
  assumes "cmdVerify loadConfig readGolden start (\<lambda>cfg es. fst (Verify_Run env cfg (src cfg) es w))
      loadRun applyBaseline writeReport fl = Exit 0 results"
    and "vf_Baseline fl = ''''"
  shows "\<exists>cfg meta entries. loadConfig (vf_Config fl) = Inr cfg \<and>
    readGolden (vf_Golden fl) = Inr (meta, entries) \<and> start cfg = None \<and>
    length results = length entries \<and> all_agree env cfg (src cfg) entries w"
proof -
  obtain cfg meta entries where r: "loadConfig (vf_Config fl) = Inr cfg"
      "readGolden (vf_Golden fl) = Inr (meta, entries)" "start cfg = None"
      "results = fst (Verify_Run env cfg (src cfg) entries w)" "verify_exit results = 0"
    using assms by (auto simp: cmdVerify_def Let_def split: if_splits sum.splits option.splits prod.splits)
  then have "all_agree env cfg (src cfg) entries w"
    by (intro verify_entries_agree) (auto simp: Verify_Run_def verify_exit_def split: if_splits)
  moreover have "length results = length entries"
    using verify_entries_all [where P = consistent and one = "verifyOne env cfg (src cfg)",
        OF verifyOne_consistent verifyOne_Name] r(4)
    by (metis Verify_Run_def length_map)
  ultimately show ?thesis using r by blast
qed

section \<open>A recording session\<close>

text \<open>What the proxy observes of one request: the exchange, and the write-set of its window.\<close>

definition observed ::
  "('w \<Rightarrow> InReq \<Rightarrow> string \<Rightarrow> proxied \<times> 'w) \<Rightarrow> 'w SourceOps option \<Rightarrow> Recorder \<Rightarrow> InReq \<Rightarrow> string \<Rightarrow> 'w \<Rightarrow>
   exchange \<times> WriteEntry list option \<times> 'w" where
  "observed proxy src r req bodyBytes w =
     (let (p, w) = proxy (begin_opt src w) req bodyBytes;
          (ws, _, w) = take_writeset src r w
      in (fst (proxy_effect p r), ws, w))"

definition record_session ::
  "('w \<Rightarrow> InReq \<Rightarrow> string \<Rightarrow> proxied \<times> 'w) \<Rightarrow> 'w SourceOps option \<Rightarrow> (InReq \<times> string) list \<Rightarrow>
   Recorder \<times> 'w \<Rightarrow> Recorder \<times> 'w" where
  "record_session proxy src rbs rw = foldl (\<lambda>rw rb. handle_request proxy src None (fst rb) (snd rb) rw) rw rbs"

text \<open>The entries the session records, numbered from \<open>n\<close>.\<close>

fun session_entries ::
  "('w \<Rightarrow> InReq \<Rightarrow> string \<Rightarrow> proxied \<times> 'w) \<Rightarrow> 'w SourceOps option \<Rightarrow> Recorder \<Rightarrow> nat \<Rightarrow>
   (InReq \<times> string) list \<Rightarrow> 'w \<Rightarrow> Entry list" where
  "session_entries proxy src r n [] w = []"
| "session_entries proxy src r n (rb # rbs) w =
     (let (ex, ws, w') = observed proxy src r (fst rb) (snd rb) w
      in golden_entry_of (lg_Name (log_of n rb)) (fst rb) (snd rb) ex ws
           # session_entries proxy src r (n + 1) rbs w')"

text \<open>Of the recorder only its options matter to what is observed.\<close>

lemma observed_opts: "rec_opts r = rec_opts r' \<Longrightarrow> observed proxy src r req b w = observed proxy src r' req b w"
  by (auto simp: observed_def proxy_effect_def take_writeset_def Let_def split: prod.splits proxied.splits option.splits
      sum.splits)

lemma session_entries_opts:
  "rec_opts r = rec_opts r' \<Longrightarrow> session_entries proxy src r n rbs w = session_entries proxy src r' n rbs w"
proof (induction rbs arbitrary: n w)
  case (Cons rb rbs)
  then show ?case by (simp add: observed_opts [OF Cons.prems] split: prod.split)
qed simp

lemma handle_request_golden:
  assumes "Golden_mode (rec_opts r)" and "observed proxy src r req b w = (ex, ws, w')"
  shows "\<exists>e. handle_request proxy src wr req b (r, w) = (recordGolden wr req b ex ws (r\<lparr>lastErr := e\<rparr>), w')"
proof -
  obtain p w1 where p: "proxy (begin_opt src w) req b = (p, w1)" by fastforce
  obtain ex1 r1 where x: "proxy_effect p r = (ex1, r1)" by fastforce
  then obtain e1 where r1: "r1 = r\<lparr>lastErr := e1\<rparr>"
    by (cases p) (auto simp: proxy_effect_def setLastErr_def intro: that [of "lastErr r"])
  obtain ws2 r2 w2 where t: "take_writeset src r1 w1 = (ws2, r2, w2)" by (metis prod_cases3)
  have t': "\<exists>r3. take_writeset src r w1 = (ws2, r3, w2)" and "\<exists>e2. r2 = r\<lparr>lastErr := e2\<rparr>"
    using t unfolding r1 take_writeset_def setLastErr_def
    by (auto split: option.splits prod.splits sum.splits)
  then obtain e2 where r2: "r2 = r\<lparr>lastErr := e2\<rparr>" by blast
  from t' assms(2) p x have "ex1 = ex" "ws2 = ws" "w2 = w'" by (auto simp: observed_def Let_def)
  with assms(1) p x t r2 show ?thesis by (auto simp: handle_request_def Let_def)
qed

lemma recordGolden_ok:
  assumes "goldenW r = Some f" and "Append (golden_entry_of (lg_Name (log_of (Suc (rec_seq r)) (req, b))) req b ex ws) f = Inr f'"
  shows "recordGolden None req b ex ws r =
    r\<lparr>rec_seq := Suc (rec_seq r), goldenW := Some f', rec_count := Suc (rec_count r)\<rparr>"
  using assms by (simp add: recordGolden_def nextName_def log_of_def Let_def)

lemma session_recorded:
  assumes "list_all entry_ok (session_entries proxy src r (Suc (rec_seq r)) rbs w)"
    and "Golden_mode (rec_opts r)" and "goldenW r = Some f"
  shows "\<exists>f'. goldenW (fst (record_session proxy src rbs (r, w))) = Some f' \<and>
    append_all (session_entries proxy src r (Suc (rec_seq r)) rbs w) f = Inr f' \<and>
    rec_count (fst (record_session proxy src rbs (r, w))) = rec_count r + length rbs"
  using assms
proof (induction rbs arbitrary: r w f)
  case (Cons rb rbs)
  obtain req b where rb: "rb = (req, b)" by fastforce
  obtain ex ws w1 where o: "observed proxy src r req b w = (ex, ws, w1)" by (metis prod_cases3)
  let ?e = "golden_entry_of (lg_Name (log_of (Suc (rec_seq r)) rb)) req b ex ws"
  obtain le where h: "handle_request proxy src None req b (r, w) = (recordGolden None req b ex ws (r\<lparr>lastErr := le\<rparr>), w1)"
    using handle_request_golden [OF Cons.prems(2) o] by blast
  have "entry_ok ?e" using Cons.prems(1) by (simp add: rb o)
  then obtain f1 where a: "Append ?e f = Inr f1"
    using append_all_ok [of "[?e]" f] by (simp split: sum.splits)
  let ?r = "r\<lparr>lastErr := le, rec_seq := Suc (rec_seq r), goldenW := Some f1, rec_count := Suc (rec_count r)\<rparr>"
  have step: "handle_request proxy src None req b (r, w) = (?r, w1)"
    using h recordGolden_ok [of "r\<lparr>lastErr := le\<rparr>" f req b ex ws f1] Cons.prems(3) a by (simp add: rb)
  have same: "session_entries proxy src ?r n rbs w1 = session_entries proxy src r n rbs w1" for n
    by (rule session_entries_opts) simp
  have "list_all entry_ok (session_entries proxy src ?r (Suc (rec_seq ?r)) rbs w1)"
    using Cons.prems(1) unfolding same by (simp add: rb o)
  from Cons.IH [OF this, of f1] Cons.prems(2) a
  show ?case unfolding same by (simp add: record_session_def rb o step)
qed (simp add: record_session_def)


section \<open>A stack that behaves like the recorded one\<close>

text \<open>\<open>rel\<close> relates the states of the recorded stack to those of the replayed one.  From related states
  each of the requests, proxied to the one and fired at the other as it is read back from the file, gets
  the same status and body and causes the same normalized write-set, and the states are related again.\<close>

definition alike ::
  "('w \<Rightarrow> InReq \<Rightarrow> string \<Rightarrow> proxied \<times> 'w) \<Rightarrow> 'w SourceOps option \<Rightarrow> Recorder \<Rightarrow> 'v Env \<Rightarrow> Config_rec \<Rightarrow>
   'v SourceOps option \<Rightarrow> (InReq \<times> string) list \<Rightarrow> ('w \<Rightarrow> 'v \<Rightarrow> bool) \<Rightarrow> bool" where
  "alike proxy src r env cfg nsrc rbs rel \<longleftrightarrow>
     (\<forall>w v. \<forall>(req, b) \<in> set rbs. rel w v \<longrightarrow>
        (case observed proxy src r req b w of
           (ex, ws, w') \<Rightarrow>
             (let e = golden_entry_of '''' req b ex ws
              in case fireStack env (BaseURL (New_stack cfg)) nsrc (cfg_Attribution cfg)
                   (Entry_RequestSpec (reread_golden e)) v of
                   (Inl err, v') \<Rightarrow> False
                 | (Inr res, v') \<Rightarrow> reproduces cfg e res \<and> rel w' v')))"

lemma fireStack_name:
  "fireStack env url src attr (spec\<lparr>spec_Name := n\<rparr>) w = fireStack env url src attr spec w"
proof -
  have same: "BodyBytes_of (spec\<lparr>spec_Name := n\<rparr>) = BodyBytes_of spec"
    "build_request url (spec\<lparr>spec_Name := n\<rparr>) b j = build_request url spec b j"
    "spec_Method (spec\<lparr>spec_Name := n\<rparr>) = spec_Method spec" "spec_Path (spec\<lparr>spec_Name := n\<rparr>) = spec_Path spec" for b j
    by (simp_all add: BodyBytes_of_def build_request_def)
  show ?thesis unfolding fireStack_def same ..
qed

lemma entry_name_irrelevant:
  "fireStack env url src attr (Entry_RequestSpec (reread_golden (golden_entry_of n req b ex ws))) w =
   fireStack env url src attr (Entry_RequestSpec (reread_golden (golden_entry_of '''' req b ex ws))) w"
  "reproduces cfg (golden_entry_of n req b ex ws) res = reproduces cfg (golden_entry_of '''' req b ex ws) res"
proof -
  have "Entry_RequestSpec (reread_golden (golden_entry_of n req b ex ws)) =
      (Entry_RequestSpec (reread_golden (golden_entry_of '''' req b ex ws)))\<lparr>spec_Name := n\<rparr>"
    by (simp add: Entry_RequestSpec_def reread_golden_def golden_entry_of_def requestParts_def)
  then show "fireStack env url src attr (Entry_RequestSpec (reread_golden (golden_entry_of n req b ex ws))) w =
     fireStack env url src attr (Entry_RequestSpec (reread_golden (golden_entry_of '''' req b ex ws))) w"
    by (simp only: fireStack_name)
  show "reproduces cfg (golden_entry_of n req b ex ws) res = reproduces cfg (golden_entry_of '''' req b ex ws) res"
    by (simp add: reproduces_def golden_entry_of_def requestParts_def)
qed

lemma alike_answers:
  assumes "alike proxy src r env cfg nsrc rbs rel" and "rel w v"
  shows "answers_as_recorded env cfg nsrc (session_entries proxy src r n rbs w) v"
  using assms
proof (induction rbs arbitrary: n w v)
  case (Cons rb rbs)
  obtain req b where rb: "rb = (req, b)" by fastforce
  obtain ex ws w1 where o: "observed proxy src r req b w = (ex, ws, w1)" by (metis prod_cases3)
  have "case fireStack env (BaseURL (New_stack cfg)) nsrc (cfg_Attribution cfg)
        (Entry_RequestSpec (reread_golden (golden_entry_of '''' req b ex ws))) v of
      (Inl err, v') \<Rightarrow> False
    | (Inr res, v') \<Rightarrow> reproduces cfg (golden_entry_of '''' req b ex ws) res \<and> rel w1 v'"
    using Cons.prems o by (fastforce simp: alike_def rb Let_def)
  then obtain res v1 where f: "fireStack env (BaseURL (New_stack cfg)) nsrc (cfg_Attribution cfg)
        (Entry_RequestSpec (reread_golden (golden_entry_of '''' req b ex ws))) v = (Inr res, v1)"
      "reproduces cfg (golden_entry_of '''' req b ex ws) res" "rel w1 v1"
    by (auto split: prod.splits sum.splits)
  have "alike proxy src r env cfg nsrc rbs rel" using Cons.prems(1) by (auto simp: alike_def)
  from Cons.IH [OF this f(3)] f show ?case
    by (simp add: rb o entry_name_irrelevant [where n = "lg_Name (log_of n (req, b))"])
qed simp

lemma session_untimed: "list_all (\<lambda>e. en_Ts e = '''') (session_entries proxy src r n rbs w)"
  by (induction rbs arbitrary: n w)
    (auto simp: golden_entry_of_def requestParts_def split: prod.splits)

lemma sort_untimed: "list_all (\<lambda>e. en_Ts e = '''') es \<Longrightarrow> sort_key en_Ts es = es"
  by (rule sort_key_id_if_sorted) (auto simp: sorted_iff_nth_mono list_all_length)

text \<open>The metadata a session writes.\<close>

definition session_meta :: "string \<Rightarrow> bool \<Rightarrow> Meta" where
  "session_meta upstream hasSource = zero_meta\<lparr>Upstream := upstream, Serialized := hasSource\<rparr>"

lemma Start_capture_golden:
  assumes "Start_capture urlParse now listen upstream corpusPath opts hasSource '''' srcErr listenErr = Inr r"
    and "Golden_mode opts"
  shows "Golden_mode (rec_opts r)" "rec_seq r = 0" "rec_count r = 0"
    "\<exists>f. goldenW r = Some f \<and> NewWriter now (session_meta upstream hasSource) '''' = Inr f"
  using assms
  by (auto simp: Start_capture_def serve_outcome_def session_meta_def Let_def
      split: option.splits prod.splits if_splits sum.splits)

lemma session_meta_ok: "valid_utf8 now \<Longrightarrow> valid_utf8 upstream \<Longrightarrow> meta_ok (final_meta now (session_meta upstream b))"
  by (simp add: meta_ok_def final_meta_def session_meta_def zero_meta_def valid_names valid_utf8.simps(1))

text \<open>
  C40.  A rewrite that behaves like the original verifies.  Start the recording proxy in golden mode on
  an empty file and send it any requests; every one is recorded.  Then \<open>verify\<close> with that file, without
  a baseline, reports one result per request, each a MATCH without differences or error, and exits with
  0, against any stack whose behaviour is related to the recorded one's by a simulation that holds of the
  two initial states: to the request that \<open>verify\<close> sends, which is the recorded one as read back from the
  file, it gives the same answer with the same normalized write-set, state after state (\<open>alike\<close>).
  The conditions: what was recorded survives the file (\<open>entry_ok\<close>: UTF-8, integers of write-sets up to
  \<open>2 ^ 53\<close>, no value of a driver's own type; lines shorter than 4 MiB), the configuration loads, the
  source of \<open>verify\<close> starts and the report is written.  What the file does change in a request (a string
  or null as the whole body, big integers in it: \<open>json_string_body_changed\<close>, \<open>null_body_dropped\<close>,
  \<open>big_int_body_changed\<close>) is thus part of what the stack must answer alike.
\<close>

theorem rewrite_verifies:
  assumes "Start_capture urlParse now listen upstream corpusPath opts (src \<noteq> None) '''' srcErr None = Inr r"
    and "Golden_mode opts"
    and "alike proxy src r env cfg nsrc rbs rel" and "rel w v"
    and "list_all entry_ok (session_entries proxy src r 1 rbs w)"
    and "valid_utf8 now" and "valid_utf8 upstream"
    and "lines_fit golden_limit
      (golden_objs now (session_meta upstream (src \<noteq> None)) (session_entries proxy src r 1 rbs w))"
    and "loadConfig (vf_Config fl) = Inr cfg" and "vf_Config fl \<noteq> ''''" and "vf_Golden fl \<noteq> ''''"
    and "vf_Baseline fl = ''''"
  shows "\<exists>file results. goldenW (fst (record_session proxy src rbs (r, w))) = Some file \<and>
    rec_count (fst (record_session proxy src rbs (r, w))) = length rbs \<and>
    cmdVerify loadConfig (\<lambda>_. Read_golden (Some file)) (\<lambda>_. None)
      (\<lambda>cfg entries. fst (Verify_Run env cfg nsrc entries v)) loadRun applyBaseline (\<lambda>_. Inr path) fl
      = Exit 0 results \<and>
    length results = length rbs \<and> list_all matches results"
proof -
  let ?es = "session_entries proxy src r 1 rbs w" and ?m = "session_meta upstream (src \<noteq> None)"
  note start = Start_capture_golden [OF assms(1,2)]
  obtain f where f: "goldenW r = Some f" "NewWriter now ?m '''' = Inr f" using start(4) by blast
  obtain f' where g: "goldenW (fst (record_session proxy src rbs (r, w))) = Some f'" "append_all ?es f = Inr f'"
      "rec_count (fst (record_session proxy src rbs (r, w))) = length rbs"
    using session_recorded [of proxy src r rbs w f] assms(5) start(1-3) f(1) by auto
  have "record_file now ?m ?es = Inr f'" by (simp only: record_file_def f(2) g(2) sum.case)
  moreover have "answers_as_recorded env cfg nsrc (sort_key en_Ts ?es) v"
    unfolding sort_untimed [OF session_untimed] by (rule alike_answers [OF assms(3,4)])
  moreover have "length ?es = length rbs"
  proof -
    have "length (session_entries proxy src r n rbs w) = length rbs" for n
      by (induction rbs arbitrary: n w) (simp_all split: prod.split)
    then show ?thesis .
  qed
  moreover note recorded_file_verifies [where es = ?es and now = now and meta = ?m and loadRun = loadRun
      and applyBaseline = applyBaseline and path = path and loadConfig = loadConfig and fl = fl and cfg = cfg
      and env = env and src = nsrc and w = v,
      OF assms(5) session_meta_ok [OF assms(6,7)] assms(8) _ assms(9-12)]
  ultimately show ?thesis using g(1,3) by force
qed


section \<open>A counter recorded and replayed\<close>

text \<open>The status counts the requests; every request inserts a row.\<close>

definition counter :: "(nat, int \<times> binlog_event, int \<times> binlog_event) service" where
  "counter = \<lparr>
     sv_Do = (\<lambda>req n. ((Inr \<lparr>hp_Status = of_nat (200 + n), hp_Header = [], hp_Body = Inr ''ok''\<rparr>,
        [demo_rows], [demo_rows]), n + 1)),
     sv_wait_old = (\<lambda>n. ((quiet_delivery, []), n)), sv_wait_new = (\<lambda>n. (([], quiet_delivery), n))\<rparr>"

abbreviation counter_env :: "(nat, Capture, Capture) world Env" where
  "counter_env \<equiv> service_env (\<lambda>_ _. None) counter demo_kind demo_kind"

definition counter_proxy ::
  "(nat, Capture, Capture) world \<Rightarrow> InReq \<Rightarrow> string \<Rightarrow> proxied \<times> (nat, Capture, Capture) world" where
  "counter_proxy w req b =
     (case client_Do counter_env \<lparr>hr_Method = iq_Method req, hr_URL = kept_path req, hr_Host = None,
          hr_Header = [], hr_Body = Some b\<rparr> w of
        (Inl e, w') \<Rightarrow> (proxied.Unreachable e, w')
      | (Inr resp, w') \<Rightarrow>
          (case hp_Body resp of Inl e \<Rightarrow> proxied.Unreachable e | Inr body \<Rightarrow> Answered (hp_Status resp) body, w'))"

definition counter_opts :: RecOptions where
  "counter_opts = \<lparr>Golden_mode = True, Serialize = False,
     rec_Attribution = \<lparr>QuietMs = 0, TimeoutMs = 0, CheckInnodbTrx = None\<rparr>,
     NoiseColumns = [], rec_TablesIgnore = []\<rparr>"

definition counter_recorder :: Recorder where
  "counter_recorder = \<lparr>Listen = '':9090'', rec_Upstream = ''http://h'', CorpusPath = ''g'',
     rec_opts = counter_opts\<lparr>Serialize := True\<rparr>, rec_seq = 0, rec_count = 0, lastErr = '''', rawFile = None,
     goldenW = Some (case NewWriter ''now'' (session_meta ''http://h'' True) '''' of Inr f \<Rightarrow> f)\<rparr>"

abbreviation counter_source :: "(nat, Capture, Capture) world SourceOps option" where
  "counter_source \<equiv> Some (old_source counter demo_kind demo_kind)"

abbreviation counter_replay :: "(nat, Capture, Capture) world SourceOps option" where
  "counter_replay \<equiv> Some (new_source counter demo_kind demo_kind)"

definition empty_capture :: "Capture \<Rightarrow> bool" where
  "empty_capture c \<longleftrightarrow> changes c = [] \<and> bc_err c = None \<and> lastQuery c = ''''"

definition same_count :: "(nat, Capture, Capture) world \<Rightarrow> (nat, Capture, Capture) world \<Rightarrow> bool" where
  "same_count w v \<longleftrightarrow> wd_out w = wd_out v \<and> empty_capture (fd_cap (wd_old w)) \<and> empty_capture (fd_cap (wd_new v))"

abbreviation counter_requests :: "(InReq \<times> string) list" where
  "counter_requests \<equiv> [(demo_req, ''''), (demo_req, '''')]"


lemma ok_fits: "take maxBodyBytes ''ok'' = ''ok''"
  by (simp add: maxBodyBytes_def)

lemma counter_recorder: "Start_capture (\<lambda>_. Some (''http'', ''h'')) ''now'' '':9090'' ''http://h'' ''g'' counter_opts
    True '''' None None = Inr counter_recorder"
  by (simp add: Start_capture_def counter_opts_def counter_recorder_def session_meta_def NewWriter_def
      writeLine_def marshal_meta_jobj serve_outcome_def Let_def del: print_json.simps)

lemma counter_observed:
  assumes "empty_capture (fd_cap (wd_old w))"
  shows "\<exists>w'. observed counter_proxy counter_source counter_recorder req b w =
      (\<lparr>ex_status = of_nat (200 + wd_out w), ex_body = ''ok''\<rparr>, Some [counted_insert], w') \<and>
    wd_out w' = Suc (wd_out w) \<and> empty_capture (fd_cap (wd_old w'))"
  using assms
  by (simp add: observed_def counter_proxy_def service_env_def counter_def old_source_def begin_opt_def
      take_writeset_def feed_begin_def feed_arrive_def feed_take_def demo_kind_simps quiet_take empty_capture_def
      BeginWindow_def counter_recorder_def counter_opts_def proxy_effect_def counted_ws ok_fits Let_def)

lemma counter_fired:
  assumes "empty_capture (fd_cap (wd_new v))" and "BodyBytes_of spec = BodyBytes body j"
  shows "\<exists>v'. fireStack counter_env url counter_replay (cfg_Attribution demo_config) spec v =
      (Inr \<lparr>f_status = of_nat (200 + wd_out v), f_body = ''ok'', f_headers = [], f_changes = [demo_insert]\<rparr>, v') \<and>
    wd_out v' = Suc (wd_out v) \<and> empty_capture (fd_cap (wd_new v'))"
  using assms
  by (simp add: fireStack_def service_env_def counter_def new_source_def begin_opt_def take_opt_def
      feed_begin_def feed_arrive_def feed_take_def demo_kind_simps quiet_take empty_capture_def
      BeginWindow_def demo_compare(4) resp_headers_def go_map_def ok_fits Let_def)

lemma counter_body: "BodyBytes_of (Entry_RequestSpec (reread_golden (golden_entry_of n demo_req '''' ex ws)))
    = BodyBytes None False"
  by (simp add: BodyBytes_of_def Entry_RequestSpec_def reread_golden_def golden_entry_of_def requestParts_def
      kept_body_def)

lemma counter_alike:
  "alike counter_proxy counter_source counter_recorder counter_env demo_config counter_replay
     counter_requests same_count"
proof -
  have "case observed counter_proxy counter_source counter_recorder demo_req '''' w of
      (ex, ws, w') \<Rightarrow>
        (let e = golden_entry_of '''' demo_req '''' ex ws
         in case fireStack counter_env (BaseURL (New_stack demo_config)) counter_replay (cfg_Attribution demo_config)
              (Entry_RequestSpec (reread_golden e)) v of
              (Inl err, v') \<Rightarrow> False
            | (Inr res, v') \<Rightarrow> reproduces demo_config e res \<and> same_count w' v')"
    if rel: "same_count w v" for w v
  proof -
    from rel have c: "empty_capture (fd_cap (wd_old w))" "empty_capture (fd_cap (wd_new v))"
      "wd_out w = wd_out v" by (simp_all add: same_count_def)
    from counter_observed [OF c(1), of demo_req "''''"] obtain w' where
      o: "observed counter_proxy counter_source counter_recorder demo_req '''' w =
          (\<lparr>ex_status = of_nat (200 + wd_out w), ex_body = ''ok''\<rparr>, Some [counted_insert], w')"
      "wd_out w' = Suc (wd_out w)" "empty_capture (fd_cap (wd_old w'))" by blast
    from counter_fired [OF c(2) counter_body, of "BaseURL (New_stack demo_config)" "''''"
        "\<lparr>ex_status = of_nat (200 + wd_out w), ex_body = ''ok''\<rparr>" "Some [counted_insert]"] obtain v' where
      f: "fireStack counter_env (BaseURL (New_stack demo_config)) counter_replay (cfg_Attribution demo_config)
            (Entry_RequestSpec (reread_golden (golden_entry_of '''' demo_req ''''
              \<lparr>ex_status = of_nat (200 + wd_out w), ex_body = ''ok''\<rparr> (Some [counted_insert])))) v =
          (Inr \<lparr>f_status = of_nat (200 + wd_out v), f_body = ''ok'', f_headers = [], f_changes = [demo_insert]\<rparr>, v')"
      "wd_out v' = Suc (wd_out v)" "empty_capture (fd_cap (wd_new v'))" by blast
    show ?thesis
      using o f c(3)
      by (simp add: reproduces_def same_count_def golden_entry_of_def requestParts_def counted_ws Let_def)
  qed
  then show ?thesis by (simp add: alike_def)
qed


definition counter_entry :: "string \<Rightarrow> 64 word \<Rightarrow> Entry" where
  "counter_entry name st = \<lparr>en_Type = '''', en_Name = name, en_Ts = '''', en_Method = ''GET'', en_Path = ''/a?x=1'',
     en_Headers = [], en_Body = GNil,
     en_Expected = \<lparr>Status = st, exp_Body = ''ok'', exp_Writeset = Some [counted_insert]\<rparr>\<rparr>"

lemma counter_entries:
  "session_entries counter_proxy counter_source counter_recorder 1 counter_requests demo_world =
     [counter_entry ''cap-1-GET-/a'' 200, counter_entry ''cap-2-GET-/a'' 201]"
proof -
  have n: "lg_Name (log_of 1 (demo_req, '''')) = ''cap-1-GET-/a''" "lg_Name (log_of (1 + 1) (demo_req, '''')) = ''cap-2-GET-/a''"
    by code_simp+
  have k: "golden_entry_of name demo_req '''' \<lparr>ex_status = st, ex_body = ''ok''\<rparr> (Some [counted_insert])
      = counter_entry name st" for name st
    by (simp add: golden_entry_of_def requestParts_def counter_entry_def demo_req_def kept_path_def
        kept_headers_def kept_body_def go_map_def)
  have e: "empty_capture (fd_cap (wd_old demo_world))" "wd_out demo_world = 0"
    by (simp_all add: demo_world_def empty_capture_def New_Capture_def)
  from counter_observed [OF e(1), of demo_req "''''"] e(2) obtain w1 where
    o1: "observed counter_proxy counter_source counter_recorder demo_req '''' demo_world =
        (\<lparr>ex_status = 200, ex_body = ''ok''\<rparr>, Some [counted_insert], w1)"
    "wd_out w1 = 1" "empty_capture (fd_cap (wd_old w1))" by auto
  from counter_observed [OF o1(3), of demo_req "''''"] o1(2) obtain w2 where
    o2: "observed counter_proxy counter_source counter_recorder demo_req '''' w1 =
        (\<lparr>ex_status = 201, ex_body = ''ok''\<rparr>, Some [counted_insert], w2)" by auto
  show ?thesis using n by (simp add: o1(1) o2 k)
qed

lemma counted_insert_ok: "ws_ok counted_insert"
proof -
  have "valid_utf8 ''t''" "valid_utf8 ''INSERT''" "valid_utf8 ''id''" by (rule utf8_lit, simp)+
  then show ?thesis by (simp add: counted_insert_def ws_ok_def ok_entry_def the_row_def keys_def)
qed

lemma counter_entry_ok: "valid_utf8 name \<Longrightarrow> entry_ok (counter_entry name st)"
proof -
  have "valid_utf8 ''GET''" "valid_utf8 ''/a?x=1''" "valid_utf8 ''ok''" by (rule utf8_lit, simp)+
  then show "valid_utf8 name \<Longrightarrow> ?thesis"
    by (simp add: counter_entry_def entry_ok_def keys_def counted_insert_ok valid_utf8.simps(1))
qed

theorem rewrite_verifies_witness:
  "\<exists>file results. goldenW (fst (record_session counter_proxy counter_source counter_requests
       (counter_recorder, demo_world))) = Some file \<and>
    rec_count (fst (record_session counter_proxy counter_source counter_requests
       (counter_recorder, demo_world))) = length counter_requests \<and>
    cmdVerify (\<lambda>_. Inr demo_config) (\<lambda>_. Read_golden (Some file)) (\<lambda>_. None)
      (\<lambda>cfg entries. fst (Verify_Run counter_env cfg counter_replay entries demo_world)) Inr (\<lambda>rs _. rs)
      (\<lambda>_. Inr ''r'') \<lparr>vf_Config = ''c'', vf_Golden = ''g'', vf_Baseline = ''''\<rparr> = Exit 0 results \<and>
    length results = length counter_requests \<and> list_all matches results"
proof (rule rewrite_verifies [where rel = same_count and r = counter_recorder and now = "''now''"
      and upstream = "''http://h''" and urlParse = "\<lambda>_. Some (''http'', ''h'')" and listen = "'':9090''"
      and corpusPath = "''g''" and opts = counter_opts and srcErr = None and cfg = demo_config and proxy = counter_proxy and src = counter_source and env = counter_env
      and nsrc = counter_replay and rbs = counter_requests and w = demo_world and v = demo_world
      and loadConfig = "\<lambda>_. Inr demo_config" and loadRun = Inr and applyBaseline = "\<lambda>rs _. rs" and path = "''r''"
      and fl = "\<lparr>vf_Config = ''c'', vf_Golden = ''g'', vf_Baseline = ''''\<rparr>"])
  show "Start_capture (\<lambda>_. Some (''http'', ''h'')) ''now'' '':9090'' ''http://h'' ''g'' counter_opts
      (counter_source \<noteq> None) '''' None None = Inr counter_recorder"
    using counter_recorder by simp
  show "alike counter_proxy counter_source counter_recorder counter_env demo_config counter_replay
     counter_requests same_count" by (rule counter_alike)
  show "same_count demo_world demo_world"
    by (simp add: same_count_def demo_world_def empty_capture_def New_Capture_def)
  have "valid_utf8 ''cap-1-GET-/a''" "valid_utf8 ''cap-2-GET-/a''" by (rule utf8_lit, simp)+
  then show "list_all entry_ok
      (session_entries counter_proxy counter_source counter_recorder 1 counter_requests demo_world)"
    unfolding counter_entries by (simp add: counter_entry_ok)
  show "valid_utf8 ''now''" "valid_utf8 ''http://h''" by (rule utf8_lit, simp)+
  have "lines_fit golden_limit (golden_objs ''now'' (session_meta ''http://h'' True)
      [counter_entry ''cap-1-GET-/a'' 200, counter_entry ''cap-2-GET-/a'' 201])" by code_simp
  then show "lines_fit golden_limit (golden_objs ''now'' (session_meta ''http://h'' (counter_source \<noteq> None))
      (session_entries counter_proxy counter_source counter_recorder 1 counter_requests demo_world))"
    unfolding counter_entries by simp
qed (simp_all add: counter_opts_def)


text \<open>A verification of one recorded entry that passes.\<close>

definition counter_golden :: "Entry list" where
  "counter_golden = [reread_golden (as_entry (counter_entry ''n'' 200))]"

lemma counter_verifies:
  assumes "vf_Config fl \<noteq> ''''" "vf_Golden fl \<noteq> ''''" "vf_Baseline fl = ''''"
  shows "cmdVerify (\<lambda>_. Inr demo_config) (\<lambda>_. Inr (zero_meta, counter_golden)) (\<lambda>_. None)
      (\<lambda>cfg es. fst (Verify_Run counter_env cfg counter_replay es demo_world)) loadRun applyBaseline
      (\<lambda>_. Inr ''r'') fl = Exit 0 (fst (Verify_Run counter_env demo_config counter_replay counter_golden demo_world))"
proof -
  let ?e = "counter_entry ''n'' 200"
  let ?results = "fst (Verify_Run counter_env demo_config counter_replay [reread_golden (as_entry ?e)] demo_world)"
  have "valid_utf8 ''n''" by code_simp
  then have ok: "list_all entry_ok [?e]" by (simp add: counter_entry_ok)
  have body: "BodyBytes_of (Entry_RequestSpec (reread_golden ?e)) = BodyBytes None False"
    by (simp add: BodyBytes_of_def Entry_RequestSpec_def reread_golden_def counter_entry_def)
  have "empty_capture (fd_cap (wd_new demo_world))" "wd_out demo_world = 0"
    by (simp_all add: demo_world_def empty_capture_def New_Capture_def)
  moreover have counter_expected: "en_Expected ?e =
      \<lparr>Status = 200, exp_Body = ''ok'', exp_Writeset = Some [counted_insert]\<rparr>"
    by (simp add: counter_entry_def)
  ultimately
  have "answers_as_recorded counter_env demo_config counter_replay [?e] demo_world"
    using counter_fired [OF _ body, of demo_world "BaseURL (New_stack demo_config)"]
    by (auto simp: reproduces_def counted_ws counter_expected)
  from verify_recorded [OF ok this, of 0 1] have "list_all matches ?results" by (simp add: Verify_Run_def)
  then have "verify_exit ?results = 0" by (auto simp: verify_exit_def matches_def list_all_iff)
  with assms show ?thesis by (simp add: cmdVerify_def counter_golden_def)
qed

theorem passing_verification_agrees_witness:
  "length (fst (Verify_Run counter_env demo_config counter_replay counter_golden demo_world)) = 1 \<and>
    all_agree counter_env demo_config counter_replay counter_golden demo_world"
proof -
  have "length counter_golden = 1" by (simp add: counter_golden_def)
  with passing_verification_agrees [where src = "\<lambda>_. counter_replay" and fl = "\<lparr>vf_Config = ''c'', vf_Golden = ''g'',
      vf_Baseline = ''''\<rparr>" and loadRun = Inr and applyBaseline = "\<lambda>rs (_ :: string). rs", OF counter_verifies]
  show ?thesis by simp
qed

end
