(* ===== verification/CommandLine.thy ===== *)
theory CommandLine
  imports OneShot Flags EndToEnd
begin

text \<open>
  The program from its arguments to its exit code (\<open>main\<close> of \<open>cmd/mockingbox/main.go\<close>): the flags each
  command registers, how their values reach the command, and what a usage error is.  What the commands
  do with the values is in \<open>Cli\<close> and \<open>OneShot\<close>; the calls they make are fields of a record.
\<close>

section \<open>The flags of the commands\<close>

definition str_flag :: "string \<Rightarrow> string \<Rightarrow> (string \<times> string) list \<times> (string \<times> flag_val) list" where
  "str_flag n d = ([(n, n)], [(n, VStr d)])"

definition typed_flag :: "string \<Rightarrow> flag_val \<Rightarrow> (string \<times> string) list \<times> (string \<times> flag_val) list" where
  "typed_flag n d = ([(n, n)], [(n, d)])"

text \<open>Two names for the variable \<open>config\<close>.\<close>

definition config_flag :: "string \<Rightarrow> (string \<times> string) list \<times> (string \<times> flag_val) list" where
  "config_flag d = ([(''c'', ''config''), (''config'', ''config'')], [(''config'', VStr d)])"

definition flag_set :: "((string \<times> string) list \<times> (string \<times> flag_val) list) list \<Rightarrow> FlagSet" where
  "flag_set fls = \<lparr>fs_formal = concat (map fst fls), fs_vars = concat (map snd fls)\<rparr>"

definition agentFlags :: "((string \<times> string) list \<times> (string \<times> flag_val) list) list" where
  "agentFlags = [str_flag ''dashboard'' '''', str_flag ''token'' '''', str_flag ''name'' '''']"

definition run_flags :: FlagSet where
  "run_flags = flag_set [config_flag '''', str_flag ''corpus'' '''']"

definition verify_flags :: FlagSet where
  "verify_flags = flag_set [config_flag '''', str_flag ''golden'' '''', str_flag ''baseline'' '''']"

definition dashboard_flags :: FlagSet where
  "dashboard_flags = flag_set [config_flag ''config.yaml'', str_flag ''addr'' '':8642'', str_flag ''token'' '''']"

definition mcp_flags :: FlagSet where
  "mcp_flags = flag_set [str_flag ''dashboard'' ''http://localhost:8642'', str_flag ''token'' '''']"

definition seed_flags :: FlagSet where
  "seed_flags =
     flag_set [config_flag '''', str_flag ''from'' '''', str_flag ''from-user'' ''root'',
       str_flag ''from-password'' '''', str_flag ''schemas'' '''', str_flag ''exclude-tables'' '''',
       str_flag ''golden'' '''']"

definition agent_flags :: FlagSet where
  "agent_flags =
     flag_set [str_flag ''dashboard'' '''', str_flag ''token'' '''', str_flag ''name'' '''',
       str_flag ''dir'' ''./recordings'', str_flag ''iface'' '''']"

definition proxy_flags :: FlagSet where
  "proxy_flags =
     flag_set [config_flag '''', str_flag ''listen'' '':9090'', str_flag ''upstream'' '''', str_flag ''out'' '''',
       typed_flag ''duration'' (VDur 0)]"

definition sampling_flags :: "((string \<times> string) list \<times> (string \<times> flag_val) list) list" where
  "sampling_flags = [typed_flag ''sample'' (VF64 (FFin 1 0)), typed_flag ''sample-writes-too'' (VBool False)]"

definition sniff_flags :: FlagSet where
  "sniff_flags =
     flag_set ([str_flag ''iface'' '''', typed_flag ''port'' (VInt 0), str_flag ''out'' '''',
       typed_flag ''duration'' (VDur 0)] @ sampling_flags @ agentFlags)"

definition convert_flags :: FlagSet where
  "convert_flags =
     flag_set ([str_flag ''pcap'' '''', typed_flag ''port'' (VInt 0), str_flag ''out'' '''',
       typed_flag ''vxlan'' (VBool False)] @ sampling_flags)"

definition mirror_flags :: FlagSet where
  "mirror_flags =
     flag_set ([str_flag ''listen'' '':4789'', typed_flag ''port'' (VInt 0), str_flag ''out'' '''',
       typed_flag ''duration'' (VDur 0)] @ sampling_flags @ agentFlags)"

text \<open>The flags of a command that parses its arguments.\<close>

definition flags_of :: "command \<Rightarrow> FlagSet" where
  "flags_of c =
     (case c of
        RunCmd \<Rightarrow> run_flags | VerifyCmd \<Rightarrow> verify_flags | DashboardCmd \<Rightarrow> dashboard_flags | McpCmd \<Rightarrow> mcp_flags
      | SeedCmd \<Rightarrow> seed_flags
      | CollectCmd m \<Rightarrow>
          (case m of
             AgentMode \<Rightarrow> agent_flags | SniffMode \<Rightarrow> sniff_flags | PcapMode \<Rightarrow> convert_flags
           | MirrorMode \<Rightarrow> mirror_flags | ProxyMode \<Rightarrow> proxy_flags)
      | _ \<Rightarrow> flag_set [])"

section \<open>The values\<close>

definition get_str :: "FlagSet \<Rightarrow> string \<Rightarrow> string" where
  "get_str fs var = (case value_of fs var of Some (VStr s) \<Rightarrow> s | _ \<Rightarrow> '''')"

definition get_int :: "FlagSet \<Rightarrow> string \<Rightarrow> int" where
  "get_int fs var = (case value_of fs var of Some (VInt n) \<Rightarrow> n | _ \<Rightarrow> 0)"

definition get_bool :: "FlagSet \<Rightarrow> string \<Rightarrow> bool" where
  "get_bool fs var = (case value_of fs var of Some (VBool b) \<Rightarrow> b | _ \<Rightarrow> False)"

definition get_f64 :: "FlagSet \<Rightarrow> string \<Rightarrow> f64" where
  "get_f64 fs var = (case value_of fs var of Some (VF64 x) \<Rightarrow> x | _ \<Rightarrow> FFin 0 0)"

definition get_dur :: "FlagSet \<Rightarrow> string \<Rightarrow> int" where
  "get_dur fs var = (case value_of fs var of Some (VDur d) \<Rightarrow> d | _ \<Rightarrow> 0)"

definition run_values :: "FlagSet \<Rightarrow> RunFlags" where
  "run_values fs = \<lparr>rf_Config = get_str fs ''config'', rf_Corpus = get_str fs ''corpus''\<rparr>"

definition verify_values :: "FlagSet \<Rightarrow> VerifyFlags" where
  "verify_values fs =
     \<lparr>vf_Config = get_str fs ''config'', vf_Golden = get_str fs ''golden'', vf_Baseline = get_str fs ''baseline''\<rparr>"

definition seed_values :: "FlagSet \<Rightarrow> SeedFlags" where
  "seed_values fs =
     \<lparr>sf_Config = get_str fs ''config'', sf_From = get_str fs ''from'', sf_FromUser = get_str fs ''from-user'',
      sf_FromPassword = get_str fs ''from-password'', sf_Schemas = get_str fs ''schemas'',
      sf_Exclude = get_str fs ''exclude-tables'', sf_Golden = get_str fs ''golden''\<rparr>"

definition collect_values :: "FlagSet \<Rightarrow> CollectFlags" where
  "collect_values fs =
     \<lparr>cf_Iface = get_str fs ''iface'', cf_Port = get_int fs ''port'', cf_Out = get_str fs ''out'',
      cf_Sample = get_f64 fs ''sample'', cf_SampleWrites = get_bool fs ''sample-writes-too'',
      cf_Pcap = get_str fs ''pcap'', cf_Listen = get_str fs ''listen''\<rparr>"

definition link_values :: "FlagSet \<Rightarrow> LinkFlags" where
  "link_values fs =
     \<lparr>lf_Dashboard = get_str fs ''dashboard'', lf_Token = get_str fs ''token'', lf_Name = get_str fs ''name''\<rparr>"

definition proxy_values :: "FlagSet \<Rightarrow> ProxyFlags" where
  "proxy_values fs =
     \<lparr>pf_Config = get_str fs ''config'', pf_Listen = get_str fs ''listen'', pf_Upstream = get_str fs ''upstream'',
      pf_Out = get_str fs ''out''\<rparr>"

definition agent_values :: "FlagSet \<Rightarrow> AgentFlags" where
  "agent_values fs =
     \<lparr>af_Dashboard = get_str fs ''dashboard'', af_Token = get_str fs ''token'', af_Name = get_str fs ''name'',
      af_Dir = get_str fs ''dir'', af_Iface = get_str fs ''iface''\<rparr>"

section \<open>The host\<close>

text \<open>What the commands call: the loaders, the runners with their start, the report, the copy, the
  collectors' sources with the time they may run, the proxy, the daemon and the servers.\<close>

record ('b, 'w) host =
  ho_config :: "string \<Rightarrow> cfg_error + Config_rec"
  ho_corpus :: "string \<Rightarrow> corpus_error + RequestSpec list"
  ho_golden :: "string \<Rightarrow> corpus_error + Meta \<times> Entry list"
  ho_start_run :: "Config_rec \<Rightarrow> string option"
  ho_run :: "Config_rec \<Rightarrow> RequestSpec list \<Rightarrow> Result list"
  ho_start_verify :: "Config_rec \<Rightarrow> string option"
  ho_verify :: "Config_rec \<Rightarrow> Entry list \<Rightarrow> Result list"
  ho_load_run :: "string \<Rightarrow> string + 'b"
  ho_baseline :: "Result list \<Rightarrow> 'b \<Rightarrow> Result list"
  ho_report :: "Result list \<Rightarrow> string + string"
  ho_seed :: "MySQL \<Rightarrow> MySQL \<Rightarrow> Seed_Options \<Rightarrow> 'w \<Rightarrow> (string + Seed_Stats) \<times> 'w"
  ho_client :: "'w client"
  ho_world :: 'w
  ho_stdin :: string
  ho_now :: string
  ho_hostname :: string
  ho_open :: "string \<Rightarrow> string + string"
  ho_ifaces :: "string + iface list"
  ho_site :: site
  ho_dashboard :: Dashboard
  ho_live :: "int \<Rightarrow> int \<Rightarrow> string \<Rightarrow> collect_event list \<times> string option"
  ho_pcap :: "bool \<Rightarrow> string \<Rightarrow> int \<Rightarrow> (f64 \<times> Exchange) list \<times> string option"
  ho_mirror :: "int \<Rightarrow> int \<Rightarrow> string \<Rightarrow> collect_event list \<times> string option"
  ho_proxy :: "string \<Rightarrow> string \<Rightarrow> string \<Rightarrow> RecOptions \<Rightarrow> source option \<Rightarrow> string + Recorder"
  ho_record :: "int \<Rightarrow> Recorder \<Rightarrow> Recorder"
  ho_daemon :: "string \<Rightarrow> string \<Rightarrow> string \<Rightarrow> string \<Rightarrow> string \<Rightarrow> string option"
  ho_serve :: "string \<Rightarrow> string \<Rightarrow> string \<Rightarrow> string option"
  ho_panics :: "command \<Rightarrow> FlagSet \<Rightarrow> bool"

text \<open>The last says whether the process dies of a panic nobody recovers while the command runs with these
  values, as loading a configuration with a null datastore does (\<open>null_datastore_panics\<close>) and copying
  between databases of different types (\<open>mixed_types_panic\<close>); Go ends it with status 2.\<close>

definition run_collect :: "('b, 'w) host \<Rightarrow> collect_mode \<Rightarrow> FlagSet \<Rightarrow> int" where
  "run_collect h m fs =
     (let fl = collect_values fs; link = link_values fs; after = get_dur fs ''duration'' in
      case m of
        AgentMode \<Rightarrow> exit_code (cmdCollectAgent (ho_ifaces h) (ho_daemon h) (agent_values fs))
      | SniffMode \<Rightarrow>
          exit_code (fst (linked_sniff (ho_site h) (ho_hostname h) (ho_now h) (ho_open h) (ho_ifaces h) fl link
            (ho_live h after (cf_Port fl)) (ho_dashboard h)))
      | PcapMode \<Rightarrow> exit_code (cmdConvert (ho_now h) (ho_open h) (ho_pcap h (get_bool fs ''vxlan'')) fl)
      | MirrorMode \<Rightarrow>
          exit_code (fst (linked_mirror (ho_site h) (ho_hostname h) (ho_now h) (ho_open h) fl link
            (ho_mirror h after (cf_Port fl) (cf_Listen fl)) (ho_dashboard h)))
      | ProxyMode \<Rightarrow> exit_code (cmdCollectProxy (ho_config h) (ho_proxy h) (ho_record h after) (proxy_values fs)))"

definition run_command :: "('b, 'w) host \<Rightarrow> command \<Rightarrow> FlagSet \<Rightarrow> int" where
  "run_command h c fs =
     (if ho_panics h c fs then 2 else
      case c of
        RunCmd \<Rightarrow>
          exit_code (cmdRun (ho_config h) (ho_corpus h) (ho_start_run h) (ho_run h) (ho_report h) (run_values fs))
      | VerifyCmd \<Rightarrow>
          exit_code (cmdVerify (ho_config h) (ho_golden h) (ho_start_verify h) (ho_verify h) (ho_load_run h)
            (ho_baseline h) (ho_report h) (verify_values fs))
      | DashboardCmd \<Rightarrow>
          exit_code (cmdUI (ho_config h) (ho_serve h) (get_str fs ''config'') (get_str fs ''addr'') (get_str fs ''token''))
      | McpCmd \<Rightarrow>
          exit_code (fst (cmdMCP (ho_client h) (get_str fs ''dashboard'') (get_str fs ''token'') (ho_stdin h) (ho_world h)))
      | SeedCmd \<Rightarrow> exit_code (fst (cmdSeed (ho_config h) (ho_seed h) (seed_values fs) (ho_world h)))
      | CollectCmd m \<Rightarrow> run_collect h m fs
      | _ \<Rightarrow> 2)"

text \<open>\<open>main\<close>: a usage text, or the flags of the command, whose errors end the process (\<open>ExitOnError\<close>), then
  the command.\<close>

definition main_exit :: "('b, 'w) host \<Rightarrow> string list \<Rightarrow> int" where
  "main_exit h args =
     (case main_dispatch args of
        (c, rest) \<Rightarrow>
          (case usage_exit c of
             Some n \<Rightarrow> n
           | None \<Rightarrow>
               (case Parse (flags_of c) rest of
                  Inl e \<Rightarrow> if e = HelpAsked then 0 else 2
                | Inr (fs, _) \<Rightarrow> run_command h c fs)))"


section \<open>Usage errors\<close>

text \<open>The flags a command insists on.\<close>

definition required :: "command \<Rightarrow> FlagSet \<Rightarrow> bool" where
  "required c fs \<longleftrightarrow>
     (case c of
        RunCmd \<Rightarrow> get_str fs ''config'' \<noteq> '''' \<and> get_str fs ''corpus'' \<noteq> ''''
      | VerifyCmd \<Rightarrow> get_str fs ''config'' \<noteq> '''' \<and> get_str fs ''golden'' \<noteq> ''''
      | SeedCmd \<Rightarrow> get_str fs ''config'' \<noteq> '''' \<and> get_str fs ''from'' \<noteq> ''''
      | DashboardCmd \<Rightarrow> True
      | McpCmd \<Rightarrow> True
      | CollectCmd m \<Rightarrow>
          (case m of
             AgentMode \<Rightarrow> get_str fs ''dashboard'' \<noteq> ''''
           | PcapMode \<Rightarrow> get_str fs ''pcap'' \<noteq> '''' \<and> get_int fs ''port'' \<noteq> 0 \<and> get_str fs ''out'' \<noteq> ''''
           | ProxyMode \<Rightarrow> get_str fs ''out'' \<noteq> ''''
           | _ \<Rightarrow> get_int fs ''port'' \<noteq> 0 \<and> get_str fs ''out'' \<noteq> '''')
      | _ \<Rightarrow> False)"

lemma fatal_not_two [simp]: "exit_code (Fatal e) \<noteq> 2"
  by (simp add: exit_code_def)

lemma exit_code_Exit [simp]: "exit_code (Exit n x) = n"
  by (simp add: exit_code_def)

lemma run_two: "exit_code (cmdRun l1 l2 st run wr fl) = 2 \<longleftrightarrow> rf_Config fl = '''' \<or> rf_Corpus fl = ''''"
  by (auto simp: cmdRun_def run_exit_def Let_def split: sum.splits option.splits)

lemma verify_two: "exit_code (cmdVerify l1 l2 st run lr ap wr fl) = 2 \<longleftrightarrow> vf_Config fl = '''' \<or> vf_Golden fl = ''''"
  by (auto simp: cmdVerify_def verify_exit_def Let_def split: sum.splits option.splits prod.splits)

lemma seed_two: "exit_code (fst (cmdSeed l1 sd fl w)) = 2 \<longleftrightarrow> sf_Config fl = '''' \<or> sf_From fl = ''''"
  by (auto simp: cmdSeed_def split: sum.splits option.splits prod.splits)

lemma serve_not_two:
  "exit_code (cmdUI l1 serve a b c) \<noteq> 2" "exit_code (fst (cmdMCP client a b s w)) \<noteq> 2"
  by (auto simp: cmdUI_def cmdMCP_def split: sum.splits option.splits prod.splits)

lemma linked_collect_not_two: "exit_code (fst (linked_collect si hn now file mode label fl link evs err D)) \<noteq> 2"
  by (simp add: linked_collect_def split: sum.split option.split prod.split)

lemma collect_two:
  "exit_code (fst (linked_sniff si hn now file ifaces fl link live D)) = 2 \<longleftrightarrow> cf_Port fl = 0 \<or> cf_Out fl = ''''"
  "exit_code (fst (linked_mirror si hn now file fl link evs D)) = 2 \<longleftrightarrow> cf_Port fl = 0 \<or> cf_Out fl = ''''"
  "exit_code (cmdConvert now file pcap fl) = 2 \<longleftrightarrow> cf_Pcap fl = '''' \<or> cf_Port fl = 0 \<or> cf_Out fl = ''''"
  "exit_code (cmdCollectAgent ifaces daemon af) = 2 \<longleftrightarrow> af_Dashboard af = ''''"
  "exit_code (cmdCollectProxy l1 start rec pf) = 2 \<longleftrightarrow> pf_Out pf = ''''"
  using linked_collect_not_two
  by (auto simp: linked_sniff_def linked_mirror_def cmdConvert_def collect_into_def cmdCollectAgent_def
      cmdCollectProxy_def Let_def split: sum.splits option.splits prod.splits)

lemma run_command_two: "run_command h c fs = 2 \<longleftrightarrow> \<not> required c fs \<or> ho_panics h c fs"
  by (cases c)
    (auto simp: run_command_def run_collect_def required_def run_two verify_two seed_two serve_not_two collect_two
      run_values_def verify_values_def seed_values_def collect_values_def agent_values_def proxy_values_def Let_def
      split: collect_mode.splits)

lemma flags_names_ok: "names_ok (flags_of c)"
proof -
  have "names_ok (flags_of (CollectCmd AgentMode)) \<and> names_ok (flags_of (CollectCmd SniffMode)) \<and>
      names_ok (flags_of (CollectCmd PcapMode)) \<and> names_ok (flags_of (CollectCmd MirrorMode)) \<and>
      names_ok (flags_of (CollectCmd ProxyMode))" by code_simp
  then have "names_ok (flags_of (CollectCmd m))" for m by (cases m) simp_all
  moreover have "names_ok (flags_of RunCmd) \<and> names_ok (flags_of VerifyCmd) \<and> names_ok (flags_of DashboardCmd) \<and>
      names_ok (flags_of McpCmd) \<and> names_ok (flags_of SeedCmd) \<and> names_ok (flag_set [])" by code_simp
  ultimately show ?thesis by (cases c) (simp_all add: flags_of_def)
qed


section \<open>Command lines\<close>

text \<open>The arguments of a command spell settings, which make its flags \<open>fs\<close>, before the rest \<open>tail\<close>.\<close>

definition spells :: "command \<Rightarrow> string list \<Rightarrow> FlagSet \<Rightarrow> string list \<Rightarrow> bool" where
  "spells c rest fs tail \<longleftrightarrow>
     (\<exists>ss. rest = concat (map spell ss) @ tail \<and> apply_settings (flags_of c) ss = Some fs)"

definition asks_help :: "FlagSet \<Rightarrow> string list \<Rightarrow> bool" where
  "asks_help fs tail \<longleftrightarrow>
     (\<exists>two n v more. tail = (dashes two n @ with_value v) # more \<and> n \<in> {''h'', ''help''} \<and> flag_kind fs n = None)"

lemma parsed_spells: "(\<exists>pos. Parse (flags_of c) rest = Inr (fs, pos)) \<longleftrightarrow> (\<exists>tail. spells c rest fs tail \<and> left_over tail \<noteq> None)"
  unfolding Parse_iff [OF flags_names_ok] spells_def by blast

lemma help_spells: "Parse (flags_of c) rest = Inl HelpAsked \<longleftrightarrow> (\<exists>fs tail. spells c rest fs tail \<and> asks_help fs tail)"
  unfolding Parse_help [OF flags_names_ok] spells_def asks_help_def by blast

lemma spells_unique:
  assumes "spells c rest fs tail" "left_over tail = Some pos"
  shows "Parse (flags_of c) rest = Inr (fs, pos)"
  using assms unfolding spells_def Parse_iff [OF flags_names_ok] by blast

text \<open>
  C25.  What exit status 2 means: the program exits with 2 exactly if it was called wrongly or its process
  died of a panic.  Called wrongly means that the arguments are neither a call for help nor a command whose
  arguments spell settings of its own flags, up to an argument that is no flag, and set the flags the
  command insists on.  A panic is one that nobody recovers while a command that was called rightly runs.
  So no error a command handles (a file that is missing, a database or a dashboard that does not answer,
  a difference that is found) is ever reported as a usage error, and which calls are wrong does not depend
  on the machine; but a script cannot tell a panic from a usage error.
\<close>

theorem usage_error_iff:
  "main_exit h args = 2 \<longleftrightarrow>
     \<not> ((\<exists>rest. main_dispatch args = (HelpCmd, rest)) \<or>
        (\<exists>c rest fs tail. main_dispatch args = (c, rest) \<and> usage_exit c = None \<and> spells c rest fs tail \<and>
          (asks_help fs tail \<or> left_over tail \<noteq> None \<and> required c fs))) \<or>
     (\<exists>c rest fs tail. main_dispatch args = (c, rest) \<and> usage_exit c = None \<and> spells c rest fs tail \<and>
        left_over tail \<noteq> None \<and> required c fs \<and> ho_panics h c fs)"
proof -
  obtain c rest where d: "main_dispatch args = (c, rest)" by (cases "main_dispatch args")
  show ?thesis
  proof (cases "usage_exit c")
    case (Some n)
    then have "n = 2 \<longleftrightarrow> c \<noteq> HelpCmd" by (cases c) (auto simp: usage_exit_def)
    with Some d show ?thesis by (auto simp: main_exit_def)
  next
    case None
    then have c: "c \<noteq> HelpCmd" by (auto simp: usage_exit_def)
    show ?thesis
    proof (cases "Parse (flags_of c) rest")
      case (Inl e)
      then have "\<not> (spells c rest fs tail \<and> left_over tail \<noteq> None)" for fs tail using parsed_spells [of c rest fs] by auto
      with Inl c d None help_spells [of c rest] show ?thesis by (auto simp: main_exit_def)
    next
      case (Inr p)
      then obtain fs pos where p: "Parse (flags_of c) rest = Inr (fs, pos)" by (cases p) auto
      then have "\<not> (\<exists>fs tail. spells c rest fs tail \<and> asks_help fs tail)" using help_spells [of c rest] by auto
      moreover have "fs' = fs" if "spells c rest fs' tail" "left_over tail \<noteq> None" for fs' tail
        using parsed_spells [of c rest fs'] that p by auto
      moreover have "\<exists>tail. spells c rest fs tail \<and> left_over tail \<noteq> None" using parsed_spells [of c rest fs] p by blast
      ultimately have "(\<exists>fs tail. spells c rest fs tail \<and> (asks_help fs tail \<or> left_over tail \<noteq> None \<and> required c fs)) \<longleftrightarrow>
          required c fs"
        and "(\<exists>fs tail. spells c rest fs tail \<and> left_over tail \<noteq> None \<and> required c fs \<and> ho_panics h c fs) \<longleftrightarrow>
          required c fs \<and> ho_panics h c fs" by blast+
      with p c d None run_command_two [of h c fs] show ?thesis by (auto simp: main_exit_def)
    qed
  qed
qed

section \<open>What a command line means\<close>

text \<open>The text the last setting of a flag spells, by any of its names, and the value that is.\<close>

definition last_text :: "string list \<Rightarrow> setting list \<Rightarrow> string option" where
  "last_text names ss =
     (case rev (filter (\<lambda>st. fst (snd st) \<in> set names) ss) of
        [] \<Rightarrow> None
      | st # _ \<Rightarrow> Some (text_of (snd (snd st))))"

definition value_at :: "string list \<Rightarrow> flag_val \<Rightarrow> setting list \<Rightarrow> flag_val" where
  "value_at names d ss =
     (case last_text names ss of None \<Rightarrow> d | Some t \<Rightarrow> (case set_val d t of None \<Rightarrow> d | Some v \<Rightarrow> v))"

definition text_at :: "string list \<Rightarrow> string \<Rightarrow> setting list \<Rightarrow> string" where
  "text_at names d ss = (case last_text names ss of None \<Rightarrow> d | Some t \<Rightarrow> t)"

definition int_at :: "string list \<Rightarrow> setting list \<Rightarrow> int" where
  "int_at names ss = (case value_at names (VInt 0) ss of VInt n \<Rightarrow> n | _ \<Rightarrow> 0)"

definition dur_at :: "string list \<Rightarrow> setting list \<Rightarrow> int" where
  "dur_at names ss = (case value_at names (VDur 0) ss of VDur n \<Rightarrow> n | _ \<Rightarrow> 0)"

definition bool_at :: "string list \<Rightarrow> setting list \<Rightarrow> bool" where
  "bool_at names ss = (case value_at names (VBool False) ss of VBool b \<Rightarrow> b | _ \<Rightarrow> False)"

definition rate_at :: "string list \<Rightarrow> setting list \<Rightarrow> f64" where
  "rate_at names ss = (case value_at names (VF64 (FFin 1 0)) ss of VF64 x \<Rightarrow> x | _ \<Rightarrow> FFin 0 0)"

text \<open>A variable of a set with its names and its default.\<close>

definition flag_is :: "FlagSet \<Rightarrow> string \<Rightarrow> string list \<Rightarrow> flag_val \<Rightarrow> bool" where
  "flag_is F var names d \<longleftrightarrow>
     distinct (map fst (fs_formal F)) \<and> map fst (filter (\<lambda>nv. snd nv = var) (fs_formal F)) = names \<and>
     value_of F var = Some d"

lemma flag_names:
  assumes "flag_is F var names d"
  shows "names_var F var st \<longleftrightarrow> fst (snd st) \<in> set names"
proof -
  have "map_of (fs_formal F) n = Some var \<longleftrightarrow> n \<in> set names" for n
    using assms by (force simp: flag_is_def map_of_eq_Some_iff)
  then show ?thesis by (simp add: names_var_def case_prod_beta)
qed

lemma flag_value:
  assumes "apply_settings F ss = Some fs" "flag_is F var names d"
  shows "value_of fs var = Some (value_at names d ss)"
proof -
  have f: "filter (names_var F var) ss = filter (\<lambda>st. fst (snd st) \<in> set names) ss"
    by (rule filter_cong) (simp_all add: flag_names [OF assms(2)])
  from apply_settings_value [OF assms(1), of var d] assms(2) obtain e where e: "value_of fs var = Some e"
    "case filter (names_var F var) ss of [] \<Rightarrow> e = d | sts \<Rightarrow> set_val d (text_of (snd (snd (last sts)))) = Some e"
    by (auto simp: flag_is_def)
  show ?thesis
  proof (cases "filter (names_var F var) ss" rule: rev_cases)
    case Nil
    with e f show ?thesis by (simp add: value_at_def last_text_def)
  next
    case (snoc sts st)
    then have "filter (names_var F var) ss \<noteq> []" by simp
    then obtain x xs where c: "filter (names_var F var) ss = x # xs" by (meson neq_Nil_conv)
    then have "last (x # xs) = st" using snoc by (metis last_snoc)
    with e(2) c have "set_val d (text_of (snd (snd st))) = Some e" by (simp only: list.case)
    with e(1) snoc f show ?thesis by (simp add: value_at_def last_text_def)
  qed
qed

lemma set_val_VStr: "value_at names (VStr d) ss = VStr (text_at names d ss)"
  by (simp add: value_at_def text_at_def split: option.split)

lemma get_at:
  assumes "apply_settings F ss = Some fs"
  shows "flag_is F var names (VStr s) \<Longrightarrow> get_str fs var = text_at names s ss"
    and "flag_is F var names (VInt 0) \<Longrightarrow> get_int fs var = int_at names ss"
    and "flag_is F var names (VDur 0) \<Longrightarrow> get_dur fs var = dur_at names ss"
    and "flag_is F var names (VBool False) \<Longrightarrow> get_bool fs var = bool_at names ss"
    and "flag_is F var names (VF64 (FFin 1 0)) \<Longrightarrow> get_f64 fs var = rate_at names ss"
  using flag_value [OF assms]
  by (simp_all add: get_str_def get_int_def get_dur_def get_bool_def get_f64_def int_at_def dur_at_def bool_at_def
      rate_at_def set_val_VStr)

lemma no_flag_no_value:
  "apply_settings F ss = Some fs \<Longrightarrow> value_of F var = None \<Longrightarrow> value_of fs var = None"
proof (induction ss arbitrary: F)
  case (Cons st ss)
  then obtain F1 where s: "apply_setting F st = Some F1" and ss: "apply_settings F1 ss = Some fs"
    by (auto simp: bind_eq_Some_conv)
  from s Cons.prems(2) have "value_of F1 var = None"
    by (auto simp: apply_setting_def set_flag_def value_of_def split: prod.splits option.splits if_splits)
  with ss Cons.IH show ?case by blast
qed simp

lemma get_missing: "apply_settings F ss = Some fs \<Longrightarrow> value_of F var = None \<Longrightarrow> get_str fs var = ''''"
  using no_flag_no_value by (simp add: get_str_def)

text \<open>The flags of every command: variable, names, default.\<close>

lemma flags_run: "flag_is (flags_of RunCmd) ''config'' [''c'', ''config''] (VStr '''') \<and>
    flag_is (flags_of RunCmd) ''corpus'' [''corpus''] (VStr '''')"
  by code_simp

lemma flags_verify: "flag_is (flags_of VerifyCmd) ''config'' [''c'', ''config''] (VStr '''') \<and>
    flag_is (flags_of VerifyCmd) ''golden'' [''golden''] (VStr '''') \<and>
    flag_is (flags_of VerifyCmd) ''baseline'' [''baseline''] (VStr '''')"
  by code_simp

lemma flags_dashboard: "flag_is (flags_of DashboardCmd) ''config'' [''c'', ''config''] (VStr ''config.yaml'') \<and>
    flag_is (flags_of DashboardCmd) ''addr'' [''addr''] (VStr '':8642'') \<and>
    flag_is (flags_of DashboardCmd) ''token'' [''token''] (VStr '''') \<and>
    flag_is (flags_of McpCmd) ''dashboard'' [''dashboard''] (VStr ''http://localhost:8642'') \<and>
    flag_is (flags_of McpCmd) ''token'' [''token''] (VStr '''')"
  by code_simp

lemma flags_seed: "flag_is (flags_of SeedCmd) ''config'' [''c'', ''config''] (VStr '''') \<and>
    flag_is (flags_of SeedCmd) ''from'' [''from''] (VStr '''') \<and>
    flag_is (flags_of SeedCmd) ''from-user'' [''from-user''] (VStr ''root'') \<and>
    flag_is (flags_of SeedCmd) ''from-password'' [''from-password''] (VStr '''') \<and>
    flag_is (flags_of SeedCmd) ''schemas'' [''schemas''] (VStr '''') \<and>
    flag_is (flags_of SeedCmd) ''exclude-tables'' [''exclude-tables''] (VStr '''') \<and>
    flag_is (flags_of SeedCmd) ''golden'' [''golden''] (VStr '''')"
  by code_simp

lemma flags_agent: "let F = flags_of (CollectCmd AgentMode) in
    flag_is F ''dashboard'' [''dashboard''] (VStr '''') \<and> flag_is F ''token'' [''token''] (VStr '''') \<and>
    flag_is F ''name'' [''name''] (VStr '''') \<and> flag_is F ''dir'' [''dir''] (VStr ''./recordings'') \<and>
    flag_is F ''iface'' [''iface''] (VStr '''')"
  by code_simp

lemma flags_sniff: "let F = flags_of (CollectCmd SniffMode) in
    flag_is F ''iface'' [''iface''] (VStr '''') \<and> flag_is F ''port'' [''port''] (VInt 0) \<and>
    flag_is F ''out'' [''out''] (VStr '''') \<and> flag_is F ''duration'' [''duration''] (VDur 0) \<and>
    flag_is F ''sample'' [''sample''] (VF64 (FFin 1 0)) \<and>
    flag_is F ''sample-writes-too'' [''sample-writes-too''] (VBool False) \<and>
    flag_is F ''dashboard'' [''dashboard''] (VStr '''') \<and> flag_is F ''token'' [''token''] (VStr '''') \<and>
    flag_is F ''name'' [''name''] (VStr '''') \<and> value_of F ''pcap'' = None \<and> value_of F ''listen'' = None"
  by code_simp

lemma flags_convert: "let F = flags_of (CollectCmd PcapMode) in
    flag_is F ''pcap'' [''pcap''] (VStr '''') \<and> flag_is F ''port'' [''port''] (VInt 0) \<and>
    flag_is F ''out'' [''out''] (VStr '''') \<and> flag_is F ''vxlan'' [''vxlan''] (VBool False) \<and>
    flag_is F ''sample'' [''sample''] (VF64 (FFin 1 0)) \<and>
    flag_is F ''sample-writes-too'' [''sample-writes-too''] (VBool False) \<and>
    value_of F ''iface'' = None \<and> value_of F ''listen'' = None"
  by code_simp

lemma flags_mirror: "let F = flags_of (CollectCmd MirrorMode) in
    flag_is F ''listen'' [''listen''] (VStr '':4789'') \<and> flag_is F ''port'' [''port''] (VInt 0) \<and>
    flag_is F ''out'' [''out''] (VStr '''') \<and> flag_is F ''duration'' [''duration''] (VDur 0) \<and>
    flag_is F ''sample'' [''sample''] (VF64 (FFin 1 0)) \<and>
    flag_is F ''sample-writes-too'' [''sample-writes-too''] (VBool False) \<and>
    flag_is F ''dashboard'' [''dashboard''] (VStr '''') \<and> flag_is F ''token'' [''token''] (VStr '''') \<and>
    flag_is F ''name'' [''name''] (VStr '''') \<and> value_of F ''iface'' = None \<and> value_of F ''pcap'' = None"
  by code_simp

lemma flags_proxy: "let F = flags_of (CollectCmd ProxyMode) in
    flag_is F ''config'' [''c'', ''config''] (VStr '''') \<and> flag_is F ''listen'' [''listen''] (VStr '':9090'') \<and>
    flag_is F ''upstream'' [''upstream''] (VStr '''') \<and> flag_is F ''out'' [''out''] (VStr '''') \<and>
    flag_is F ''duration'' [''duration''] (VDur 0)"
  by code_simp

text \<open>What each command does with settings \<open>ss\<close>: every field is the value of the flag documented for it.\<close>

definition collect_documented :: "('b, 'w) host \<Rightarrow> collect_mode \<Rightarrow> setting list \<Rightarrow> int" where
  "collect_documented h m ss =
     (let sample = rate_at [''sample''] ss; writes = bool_at [''sample-writes-too''] ss;
          port = int_at [''port''] ss; out = text_at [''out''] '''' ss; after = dur_at [''duration''] ss;
          link = \<lparr>lf_Dashboard = text_at [''dashboard''] '''' ss, lf_Token = text_at [''token''] '''' ss,
            lf_Name = text_at [''name''] '''' ss\<rparr>
      in case m of
           AgentMode \<Rightarrow>
             exit_code (cmdCollectAgent (ho_ifaces h) (ho_daemon h)
               \<lparr>af_Dashboard = text_at [''dashboard''] '''' ss, af_Token = text_at [''token''] '''' ss,
                af_Name = text_at [''name''] '''' ss, af_Dir = text_at [''dir''] ''./recordings'' ss,
                af_Iface = text_at [''iface''] '''' ss\<rparr>)
         | SniffMode \<Rightarrow>
             exit_code (fst (linked_sniff (ho_site h) (ho_hostname h) (ho_now h) (ho_open h) (ho_ifaces h)
               \<lparr>cf_Iface = text_at [''iface''] '''' ss, cf_Port = port, cf_Out = out, cf_Sample = sample,
                cf_SampleWrites = writes, cf_Pcap = '''', cf_Listen = ''''\<rparr>
               link (ho_live h after port) (ho_dashboard h)))
         | PcapMode \<Rightarrow>
             exit_code (cmdConvert (ho_now h) (ho_open h) (ho_pcap h (bool_at [''vxlan''] ss))
               \<lparr>cf_Iface = '''', cf_Port = port, cf_Out = out, cf_Sample = sample, cf_SampleWrites = writes,
                cf_Pcap = text_at [''pcap''] '''' ss, cf_Listen = ''''\<rparr>)
         | MirrorMode \<Rightarrow>
             exit_code (fst (linked_mirror (ho_site h) (ho_hostname h) (ho_now h) (ho_open h)
               \<lparr>cf_Iface = '''', cf_Port = port, cf_Out = out, cf_Sample = sample, cf_SampleWrites = writes,
                cf_Pcap = '''', cf_Listen = text_at [''listen''] '':4789'' ss\<rparr>
               link (ho_mirror h after port (text_at [''listen''] '':4789'' ss)) (ho_dashboard h)))
         | ProxyMode \<Rightarrow>
             exit_code (cmdCollectProxy (ho_config h) (ho_proxy h) (ho_record h after)
               \<lparr>pf_Config = text_at [''c'', ''config''] '''' ss, pf_Listen = text_at [''listen''] '':9090'' ss,
                pf_Upstream = text_at [''upstream''] '''' ss, pf_Out = out\<rparr>))"

definition as_documented :: "('b, 'w) host \<Rightarrow> command \<Rightarrow> setting list \<Rightarrow> int" where
  "as_documented h c ss =
     (case c of
        RunCmd \<Rightarrow>
          exit_code (cmdRun (ho_config h) (ho_corpus h) (ho_start_run h) (ho_run h) (ho_report h)
            \<lparr>rf_Config = text_at [''c'', ''config''] '''' ss, rf_Corpus = text_at [''corpus''] '''' ss\<rparr>)
      | VerifyCmd \<Rightarrow>
          exit_code (cmdVerify (ho_config h) (ho_golden h) (ho_start_verify h) (ho_verify h) (ho_load_run h)
            (ho_baseline h) (ho_report h)
            \<lparr>vf_Config = text_at [''c'', ''config''] '''' ss, vf_Golden = text_at [''golden''] '''' ss,
             vf_Baseline = text_at [''baseline''] '''' ss\<rparr>)
      | DashboardCmd \<Rightarrow>
          exit_code (cmdUI (ho_config h) (ho_serve h) (text_at [''c'', ''config''] ''config.yaml'' ss)
            (text_at [''addr''] '':8642'' ss) (text_at [''token''] '''' ss))
      | McpCmd \<Rightarrow>
          exit_code (fst (cmdMCP (ho_client h) (text_at [''dashboard''] ''http://localhost:8642'' ss)
            (text_at [''token''] '''' ss) (ho_stdin h) (ho_world h)))
      | SeedCmd \<Rightarrow>
          exit_code (fst (cmdSeed (ho_config h) (ho_seed h)
            \<lparr>sf_Config = text_at [''c'', ''config''] '''' ss, sf_From = text_at [''from''] '''' ss,
             sf_FromUser = text_at [''from-user''] ''root'' ss, sf_FromPassword = text_at [''from-password''] '''' ss,
             sf_Schemas = text_at [''schemas''] '''' ss, sf_Exclude = text_at [''exclude-tables''] '''' ss,
             sf_Golden = text_at [''golden''] '''' ss\<rparr> (ho_world h)))
      | CollectCmd m \<Rightarrow> collect_documented h m ss
      | _ \<Rightarrow> 2)"

text \<open>The words a command is called by.\<close>

definition called_by :: "command \<Rightarrow> string list list" where
  "called_by c =
     (case c of
        RunCmd \<Rightarrow> [[''run'']] | VerifyCmd \<Rightarrow> [[''verify'']] | DashboardCmd \<Rightarrow> [[''dashboard''], [''ui'']]
      | McpCmd \<Rightarrow> [[''mcp'']] | SeedCmd \<Rightarrow> [[''seed'']]
      | CollectCmd m \<Rightarrow>
          (let mode = (case m of AgentMode \<Rightarrow> ''agent'' | SniffMode \<Rightarrow> ''sniff'' | PcapMode \<Rightarrow> ''pcap''
               | MirrorMode \<Rightarrow> ''mirror'' | ProxyMode \<Rightarrow> ''proxy'')
           in [[''collect'', mode], [''collector'', mode]] @
              (case m of SniffMode \<Rightarrow> [[''sniff'']] | PcapMode \<Rightarrow> [[''convert'']] | MirrorMode \<Rightarrow> [[''mirror'']]
               | _ \<Rightarrow> []))
      | _ \<Rightarrow> [])"

lemma called_dispatch:
  assumes "words \<in> set (called_by c)"
  shows "main_dispatch (words @ rest) = (c, rest) \<and> usage_exit c = None"
  using assms
  by (cases c) (auto simp: called_by_def main_dispatch_def cmdCollect_def has_prefix_def usage_exit_def Let_def
      split: collect_mode.splits)

lemma collect_as_documented:
  assumes "apply_settings (flags_of (CollectCmd m)) ss = Some fs"
  shows "run_collect h m fs = collect_documented h m ss"
proof (cases m)
  case AgentMode
  note at = get_at [OF assms [unfolded AgentMode]]
  from AgentMode show ?thesis
    using flags_agent by (auto dest!: at simp: run_collect_def collect_documented_def agent_values_def Let_def)
next
  case SniffMode
  note at = get_at [OF assms [unfolded SniffMode]] and no = get_missing [OF assms [unfolded SniffMode]]
  from SniffMode show ?thesis
    using flags_sniff
    by (auto dest!: at simp: run_collect_def collect_documented_def collect_values_def link_values_def no Let_def)
next
  case PcapMode
  note at = get_at [OF assms [unfolded PcapMode]] and no = get_missing [OF assms [unfolded PcapMode]]
  from PcapMode show ?thesis
    using flags_convert by (auto dest!: at simp: run_collect_def collect_documented_def collect_values_def no Let_def)
next
  case MirrorMode
  note at = get_at [OF assms [unfolded MirrorMode]] and no = get_missing [OF assms [unfolded MirrorMode]]
  from MirrorMode show ?thesis
    using flags_mirror
    by (auto dest!: at simp: run_collect_def collect_documented_def collect_values_def link_values_def no Let_def)
next
  case ProxyMode
  note at = get_at [OF assms [unfolded ProxyMode]]
  from ProxyMode show ?thesis
    using flags_proxy by (auto dest!: at simp: run_collect_def collect_documented_def proxy_values_def Let_def)
qed

lemma command_as_documented:
  assumes "apply_settings (flags_of c) ss = Some fs" "\<not> ho_panics h c fs"
  shows "run_command h c fs = as_documented h c ss"
proof -
  show ?thesis
  proof (cases c)
    case RunCmd
    note at = get_at [OF assms(1) [unfolded RunCmd]]
    from RunCmd assms(2) flags_run show ?thesis
      by (auto dest!: at simp: run_command_def as_documented_def run_values_def)
  next
    case VerifyCmd
    note at = get_at [OF assms(1) [unfolded VerifyCmd]]
    from VerifyCmd assms(2) flags_verify show ?thesis
      by (auto dest!: at simp: run_command_def as_documented_def verify_values_def)
  next
    case DashboardCmd
    note at = get_at [OF assms(1) [unfolded DashboardCmd]]
    from DashboardCmd assms(2) flags_dashboard show ?thesis
      by (auto dest!: at simp: run_command_def as_documented_def)
  next
    case McpCmd
    note at = get_at [OF assms(1) [unfolded McpCmd]]
    from McpCmd assms(2) flags_dashboard show ?thesis
      by (auto dest!: at simp: run_command_def as_documented_def)
  next
    case SeedCmd
    note at = get_at [OF assms(1) [unfolded SeedCmd]]
    from SeedCmd assms(2) flags_seed show ?thesis
      by (auto dest!: at simp: run_command_def as_documented_def seed_values_def)
  next
    case (CollectCmd m)
    with assms collect_as_documented show ?thesis by (auto simp: run_command_def as_documented_def)
  qed (use assms(2) in \<open>simp_all add: run_command_def as_documented_def\<close>)
qed



text \<open>A mode that \<open>collect\<close> does not know is never a capture with the mode left out, as the comment at that
  branch of the code has it: the argument is no flag, so none of the flags behind it is read.\<close>

lemma unknown_mode_never_captures:
  assumes "\<not> has_prefix m ''-''" "m \<notin> {''agent'', ''sniff'', ''pcap'', ''mirror'', ''proxy''}"
  shows "main_exit h (''collect'' # m # rest) = 2"
proof -
  have d: "main_dispatch (''collect'' # m # rest) = (CollectCmd SniffMode, m # rest)"
    using assms by (simp add: main_dispatch_def cmdCollect_def)
  have "read_arg m = Plain" using assms(1) by (cases m) (auto simp: read_arg_def has_prefix_def)
  then have "Parse (flags_of (CollectCmd SniffMode)) (m # rest) = Inr (flags_of (CollectCmd SniffMode), m # rest)" by simp
  moreover have "\<not> required (CollectCmd SniffMode) (flags_of (CollectCmd SniffMode))" by code_simp
  ultimately show ?thesis
    using run_command_two [of h "CollectCmd SniffMode"] by (simp add: main_exit_def d usage_exit_def)
qed

text \<open>Positional arguments are dropped: a configuration named without its flag is not the one served.\<close>

lemma positional_dropped:
  "main_exit h [''dashboard'', ''prod.yaml''] = main_exit h [''dashboard'']"
  by (simp add: main_exit_def main_dispatch_def usage_exit_def read_arg_def)

section \<open>Examples\<close>

text \<open>A machine with one golden file, which the new stack reproduces.\<close>

definition counter_host :: "(string, unit) host" where
  "counter_host =
     \<lparr>ho_config = (\<lambda>_. Inr demo_config), ho_corpus = (\<lambda>_. Inr []),
      ho_golden = (\<lambda>_. Inr (zero_meta, counter_golden)), ho_start_run = (\<lambda>_. None), ho_run = (\<lambda>_ _. []),
      ho_start_verify = (\<lambda>_. None),
      ho_verify = (\<lambda>cfg es. fst (Verify_Run counter_env cfg counter_replay es demo_world)),
      ho_load_run = Inr, ho_baseline = (\<lambda>rs _. rs), ho_report = (\<lambda>_. Inr ''r''),
      ho_seed = (\<lambda>_ _ _ w. (Inl ''down'', w)), ho_client = (\<lambda>_ w. (Unreachable ''down'', w)), ho_world = (), ho_stdin = '''',
      ho_now = ''now'', ho_hostname = ''h'', ho_open = (\<lambda>_. Inr ''''), ho_ifaces = Inr [], ho_site = demo_site,
      ho_dashboard = demo_dashboard_start, ho_live = (\<lambda>_ _ _. ([], None)), ho_pcap = (\<lambda>_ _ _. ([], None)),
      ho_mirror = (\<lambda>_ _ _. ([], None)), ho_proxy = (\<lambda>_ _ _ _ _. Inl ''down''), ho_record = (\<lambda>_ r. r),
      ho_daemon = (\<lambda>_ _ _ _ _. None), ho_serve = (\<lambda>_ _ _. None), ho_panics = (\<lambda>_ _. False)\<rparr>"

definition demo_line :: "setting list" where
  "demo_line = [(True, ''addr'', Following '':1''), (False, ''token'', Joined ''x''), (False, ''addr'', Joined '':2'')]"


definition verify_line :: "string list" where
  "verify_line = [''-c'', ''c.yaml'', ''--golden=g.golden.jsonl'']"

lemma verify_line_parsed:
  "map_sum id (\<lambda>p. (get_str (fst p) ''config'', get_str (fst p) ''golden'', get_str (fst p) ''baseline'', snd p))
     (Parse (flags_of VerifyCmd) verify_line) = Inr (''c.yaml'', ''g.golden.jsonl'', '''', [])"
  by code_simp


theorem usage_error_iff_witness:
  "main_exit counter_host [''verify'', ''-c'', ''c.yaml'', ''--golden=g.golden.jsonl''] \<noteq> 2 \<and>
   (\<forall>h :: (unit, unit) host. main_exit h [''verify'', ''--golden'', ''g.golden.jsonl'', ''-c''] = 2)"
proof -
  obtain fs pos where p: "Parse (flags_of VerifyCmd) verify_line = Inr (fs, pos)"
    and fs: "get_str fs ''config'' = ''c.yaml''" "get_str fs ''golden'' = ''g.golden.jsonl''"
    using verify_line_parsed by (cases "Parse (flags_of VerifyCmd) verify_line") auto
  have d: "main_dispatch (''verify'' # rest) = (VerifyCmd, rest)" "usage_exit VerifyCmd = None" for rest
    by (simp_all add: main_dispatch_def usage_exit_def)
  from p obtain tail where "spells VerifyCmd verify_line fs tail" "left_over tail \<noteq> None"
    using parsed_spells [of VerifyCmd verify_line fs] by blast
  moreover have "required VerifyCmd fs" using fs by (simp add: required_def)
  moreover have "\<not> ho_panics counter_host c gs" for c gs by (simp add: counter_host_def)
  ultimately have "main_exit counter_host (''verify'' # verify_line) \<noteq> 2"
    using d usage_error_iff [of counter_host "''verify'' # verify_line"] by blast
  moreover have "main_exit h [''verify'', ''--golden'', ''g.golden.jsonl'', ''-c''] = 2" for h :: "(unit, unit) host"
  proof -
    let ?rest = "[''--golden'', ''g.golden.jsonl'', ''-c'']"
    have "Parse (flags_of VerifyCmd) ?rest = Inl (NeedsArgument ''c'')" by code_simp
    then have "\<not> (spells VerifyCmd ?rest fs tail \<and> (asks_help fs tail \<or> left_over tail \<noteq> None))" for fs tail
      using help_spells [of VerifyCmd ?rest] parsed_spells [of VerifyCmd ?rest] by auto
    then have "\<not> (\<exists>c rest fs tail. main_dispatch (''verify'' # ?rest) = (c, rest) \<and> spells c rest fs tail \<and>
        (asks_help fs tail \<or> left_over tail \<noteq> None))" and "\<not> (\<exists>rest. main_dispatch (''verify'' # ?rest) = (HelpCmd, rest))"
      using d(1) [of ?rest] by auto
    then show ?thesis using usage_error_iff [of h "''verify'' # ?rest"] by blast
  qed
  ultimately show ?thesis by (simp add: verify_line_def)
qed

end
