(* ===== verification/Spec2Isabelle.thy ===== *)
theory Spec2Isabelle
  imports MirrorSniff MirrorRun Lifecycle Console DaemonLoop PgQueries CommandLine
begin

text \<open>
  Verification of mocking-box, a tool that checks that a rewritten backend behaves like the original: it
  records traffic of the old service together with the rows each request wrote, replays the recording
  against the new one, and compares responses and row changes.

  \<^bold>\<open>How the program is put together.\<close>  A collector records exchanges: the recording proxy
  (\<open>internal/capture\<close>) in the request path, or the sniffer (\<open>internal/sniff\<close>) beside it, which can be
  driven by the dashboard through the daemon of \<open>internal/agent\<close>.  Recordings are corpora
  (\<open>internal/corpus\<close>, requests only) or goldens (\<open>internal/golden\<close>, with responses and write-sets).  The
  replayer (\<open>internal/replay\<close>) sends them to one stack or to both, attributes row changes to requests
  with the write-set sources (\<open>internal/binlog\<close>, \<open>internal/pg\<close>, chosen by \<open>internal/wscapture\<close>) and compares
  with \<open>internal/diff\<close>.  The seeder (\<open>internal/seed\<close>, \<open>internal/pg/copy.go\<close>) copies databases.  The dashboard
  (\<open>internal/ui\<close>) serves all of it over HTTP, the MCP server (\<open>internal/mcp\<close>) drives the dashboard, and
  \<open>cmd/mockingbox\<close> is the command line.  \<open>cmd/mirrorsim\<close> produces mirrored traffic for tests.

  \<^bold>\<open>The theories.\<close>
    \<^item> \<open>Prelude\<close>: bytes, decimal numbers, splitting and trimming, association lists as Go maps, sorting.
    \<^item> \<open>GoValue\<close>, \<open>JsonString\<close>, \<open>JsonText\<close>, \<open>Json\<close>: the values the code handles (\<open>any\<close>), \<open>float64\<close> with its
      rounding, \<open>encoding/json\<close> (lexer, parser, printer, decoding into \<open>any\<close>, marshalling), and from
      \<open>diff.go\<close> \<open>NormValue\<close>, \<open>canonical\<close>, \<open>equal\<close>.  Shown: printing and parsing round trip, and when two
      values count as equal.
    \<^item> \<open>Paths\<close>, \<open>ResponseDiff\<close>, \<open>Writeset\<close>: the rest of \<open>diff.go\<close> and \<open>writeset.go\<close>.  Shown: the comparison
      reports nothing exactly when both sides agree after noise stripping and array sorting; write-sets
      are compared independently of the order of the changes and of the columns.
    \<^item> \<open>Config\<close>: \<open>config.go\<close>; loading yields a normal form, and when it fails or panics.
    \<^item> \<open>Sources\<close>, \<open>Binlog\<close>, \<open>PgCapture\<close>, \<open>Wscapture\<close>: the write-set sources.  \<open>Sources\<close> has the polling
      loop both share; the pumps are functions of the events of the replication streams.  Shown: windows
      end within their timeout, what a window returns, which changes are dropped.
    \<^item> \<open>Lifecycle\<close>: \<open>Start\<close> and \<open>Stop\<close> of the sources and of the runner and the verifier, as the calls they
      make.  The contract of a source (\<open>managed_source\<close>) is a locale, interpreted on both kinds; the
      runner's lemmas are proved from it.  Shown: what was started, with any outcome, is given back.
    \<^item> \<open>Reread\<close>, \<open>Corpus\<close>, \<open>Golden\<close>: the two file formats as texts.  Shown: what was written is read.
    \<^item> \<open>Replay\<close>: \<open>replay.go\<close>, \<open>verify.go\<close>; every request is reported once with a consistent verdict.
      \<open>Windows\<close> runs the runners with the sources in one world: the interface \<open>writeset.Source\<close> as a
      record of operations, its contract to a run (\<open>accountable\<close>) as a locale interpreted on both sources.
      Shown: which row changes each result reports, and that none is counted twice or, for MySQL, lost.
    \<^item> \<open>Traffic\<close>, \<open>Recorder\<close>, \<open>Sniff\<close>, \<open>SniffOutput\<close>, \<open>SniffSources\<close>: recording, by proxy and from packets.
      Shown: what is recorded loads back; requests and responses are paired in order; sampling keeps
      every write.
    \<^item> \<open>Streams\<close>: the bytes of a TCP stream read as messages, and the loops of the live and the mirror
      source.  \<open>MirrorSniff\<close> composes the simulator of a mirror, the streams, the pairer and the output:
      mirrored requests are paired with their own answers and load back as a corpus.
    \<^item> \<open>Mailbox\<close>, \<open>Files\<close>, \<open>Registry\<close>, \<open>Agent\<close>: the dashboard's registry of collectors (\<open>agents.go\<close>) and the
      daemon (\<open>agent.go\<close>, \<open>daemon.go\<close>).  \<open>Mailbox\<close> states the contract of a queue that is emptied when it
      is read, interpreted on the registry's command queues.  \<open>Remote\<close> joins registry and daemon by the
      heartbeat and its JSON: the daemon executes what the dashboard was told, in order.  \<open>DaemonLoop\<close> has
      the loops, over the lists of what happens until they end: a daemon that returns records nothing,
      unless a capture that was cancelled ended with an error.
    \<^item> \<open>Chunks\<close>, \<open>Seed\<close>, \<open>PgCopy\<close>, \<open>Pairs\<close>: the seeders as sequences of statements on an abstract target.
      \<open>PgQueries\<close>: the catalog queries and their answers; shown: the statements of a PostgreSQL copy are
      those the source's catalog calls for.
    \<^item> \<open>Jobs\<close>, \<open>Control\<close>, \<open>Checks\<close>: \<open>ui.go\<close>, \<open>seed_api.go\<close>, \<open>testconn.go\<close> and the health page.  \<open>Jobs\<close> is the
      contract of a background job guarded by a status, interpreted on the replay and on the seeding.
      Saving the configuration is a machine of its steps on the files, so that two requests can interleave.
    \<^item> \<open>Show\<close>, \<open>McpTools\<close>, \<open>Mcp\<close>: the MCP server.  Shown: what writes is only requested by confirmed calls,
      and a copy that ends within the polls is answered with its outcome.  \<open>Console\<close> sets the requests of
      the MCP server and of the collectors against the dashboard's routes.
    \<^item> \<open>OneShot\<close>: a collector that records once and is linked with a dashboard, from its first packet to the
      upload, and the dashboard behind its requests: targets, queries and bodies as bytes.  The network
      and the dashboard's disk can fail at any time; shown, for when they do not: what it captured is
      what the dashboard replays, under the recording's name.
    \<^item> \<open>Atoi\<close>, \<open>Cli\<close>: the commands of \<open>cmd/mockingbox\<close> with their exit codes.  \<open>Flags\<close>: Go's \<open>flag\<close> package
      and the parsing of numbers, truth values and durations it calls.  \<open>CommandLine\<close>: \<open>main\<close> from the
      arguments to the exit code.  Shown: what a command line means for every command and flag, what exit
      status 2 means, and what a verification that exits with 0 has established.
    \<^item> \<open>MirrorSim\<close>, \<open>MirrorRun\<close>: \<open>cmd/mirrorsim\<close>; the mirror refines the two byte streams of a connection:
      whatever the interleaving, the segments of each side reassemble to its bytes and the sniffer keeps
      all of them.  \<open>MirrorRun\<close> has \<open>main\<close> and a connection as a machine of its two pipes, in which any
      datagram to the mirror can be lost: the relay passes on nothing that was not sent, and a receiver of
      the mirror gets a side's bytes or notices the loss.
    \<^item> \<open>EndToEnd\<close>: recording, reading and verifying composed.  Completeness: a stack whose behaviour is
      related to the recorded one's by a simulation verifies with a MATCH for every request.  Soundness: an
      exit code 0 means that every request was answered in agreement with the recording.

  \<^bold>\<open>Modelling.\<close>  A string is the list of its bytes.  Go's \<open>any\<close> is the datatype \<open>gval\<close>, a map an
  association list, machine integers are words of their width, counters of lines, rows and polls
  natural numbers.  An error return is \<open>Inl\<close> or \<open>None\<close>, a panic the outcome \<open>Panics\<close>, a fatal log the
  outcome \<open>Fatal\<close>.  Callers of \<open>config.Load\<close> get what it returned: where it panics an HTTP handler ends
  without an answer (\<open>putConfig\<close> has that as an outcome) and a command with status 2 (\<open>ho_panics\<close>).
  State is passed explicitly; the outside (HTTP, databases, files, clocks) is a world
  \<open>'w\<close> threaded through functions that are parameters.  Concurrency appears as sequences of steps, each
  a locked section: events of the registry, of the daemon's goroutines and timers, of background
  jobs, interleavings of the two pipes of a connection; a theorem that quantifies over the sequence
  holds for every interleaving.

  \<^bold>\<open>Bounds and fuel.\<close>  Loops over data are structural or have a measure.  The window loops poll a list
  of snapshots that reaches the deadline.  Reading a stream has as much fuel as the stream has bytes,
  and every message takes one (\<open>consume_returns\<close>).  The MCP polls count down from 600 and 900, the numbers of
  the code, and end with a message.  In \<open>Windows\<close> a window has \<open>window_fuel\<close> polls, more than fit before
  its deadline (\<open>mysql_take_Some\<close>, \<open>pg_take_Some\<close>).  Sizes the code limits (1 MiB bodies and corpus lines, 4 MiB
  golden lines, 8 MiB MCP lines, 512 MiB uploads, 500 rows and 1400 bytes per batch and segment) are constants
  of the model.

  \<^bold>\<open>Not modelled.\<close>  \<open>internal/report\<close> is not part of the sources; loading runs, applying a baseline and
  writing reports are parameters.  So are the drivers and libraries (MySQL and PostgreSQL clients, the
  binlog and WAL parsers, gopacket's decoding and reassembly, \<open>net/http\<close> and its reverse proxy, the YAML
  decoder, \<open>url.Parse\<close>).  What they answer, and when they fail, is arbitrary or stated as a hypothesis.  Of
  \<open>flag\<close> the texts it prints are left out, as are the usage text of \<open>main\<close>, the sleeps between ticks,
  logging and the embedded page.  \<open>time.Now\<close>, signals and random numbers are arguments.  In a linked
  collector the dashboard's other handlers appear as arbitrary steps on its registry and its files.
\<close>

end
